(* ===== verification/Go_Prelude.thy ===== *)
theory Go_Prelude
  imports Main "HOL-Library.Sublist" "HOL-Library.Char_ord" "HOL-Library.List_Lexorder"
begin

text \<open>
  The shared prelude: the error values of the repository, the result type every fallible
  Go function is translated to, and the state-passing programs in which the database
  operations are written, together with the proof rules the component theories share.

  \<^item> A Go \<open>error\<close> is a value of \<open>go_error\<close>: a package-level error variable
    (\<open>Sent\<close>), an anonymous \<open>errors.New\<close> (\<open>Err\<close>) or an error wrapped by
    \<open>fmt.Errorf("...: %w")\<close> (\<open>Wrap\<close>).
  \<^item> A Go pair \<open>(value, error)\<close> is a \<open>result\<close>: \<open>Inl\<close> is the non-nil error.
  \<^item> A slice that may be \<open>nil\<close> where the code can tell \<open>nil\<close> from an empty slice (JSON
    encoding, \<open>== nil\<close> tests) is an \<open>option\<close> of a list.
  \<^item> Go strings are byte sequences; HOL's \<open>char\<close> is a byte, so \<open>string\<close> is exact.
\<close>

section \<open>Collections of rewrite rules\<close>

named_theorems prog_simps \<open>evaluation of state-passing programs\<close>
named_theorems path_simps \<open>lexical path operations\<close>
named_theorems db_frames \<open>which tables an operation leaves alone\<close>

section \<open>Errors and results\<close>

text \<open>The package-level error variables of the modelled packages.\<close>

datatype sentinel =
    RecordNotFound \<comment> \<open>gorm.ErrRecordNotFound\<close>
  | UniqueViolation \<comment> \<open>a primary key or unique index rejected the row\<close>
  | DriverFailure \<comment> \<open>any other failure of the database driver\<close>
  | ErrIllegalTransition | ErrConcurrentTransition | ErrApprovalNotActive
  | ErrArtifactTampered | ErrHashMismatch | ErrApprovalRequired
  | ErrInvalidArtifact
  | ErrUnauthorized | ErrForbidden | ErrInvalidPassword
  | ErrOutsideWorkspace | ErrSensitivePath | ErrFileTooLarge
  | ErrBeforeHashMismatch | ErrInProgress | ErrInvalidCode | ErrUnexpectedChange
  | ErrUnsafePath | ErrSecretNotFound
  | OsNotExist | OsFailure
  | ProviderUnauthorized | ProviderRateLimited | ProviderInvalidOutput
  | ContextCanceled | DeadlineExceeded
  | GoPanic \<comment> \<open>a run-time panic of the Go program\<close>

datatype go_error = Err string | Sent sentinel | Wrap string go_error

type_synonym 'a result = "go_error + 'a"

text \<open>\<open>errors.Is\<close> against a package-level error variable: unwrap until it matches.\<close>

fun errors_is :: "go_error \<Rightarrow> sentinel \<Rightarrow> bool" where
  "errors_is (Err _) _ = False"
| "errors_is (Sent t) s = (t = s)"
| "errors_is (Wrap _ e) s = errors_is e s"

type_synonym 'a slice = "'a list option"

text \<open>Ranging over a slice and \<open>len\<close> do not distinguish \<open>nil\<close> from an empty slice.\<close>

definition elems :: "'a slice \<Rightarrow> 'a list" where
  "elems s = (case s of None \<Rightarrow> [] | Some xs \<Rightarrow> xs)"

lemma elems_simps [simp]: "elems None = []" "elems (Some xs) = xs"
  by (simp_all add: elems_def)

text \<open>\<open>append([]T(nil), xs...)\<close> is \<open>nil\<close> exactly when there is nothing to append.\<close>

definition slice_of :: "'a list \<Rightarrow> 'a slice" where
  "slice_of xs = (if xs = [] then None else Some xs)"

lemma elems_slice_of [simp]: "elems (slice_of xs) = xs"
  by (simp add: slice_of_def)

text \<open>\<open>if s == nil { s = []T{} }\<close>\<close>

definition non_nil :: "'a slice \<Rightarrow> 'a slice" where
  "non_nil s = Some (elems s)"

lemma elems_non_nil [simp]: "elems (non_nil s) = elems s"
  by (simp add: non_nil_def)

lemma non_nil_idem [simp]: "non_nil (non_nil s) = non_nil s"
  by (simp add: non_nil_def)

lemma non_nil_eq_iff [simp]: "non_nil s = non_nil t \<longleftrightarrow> elems s = elems t"
  by (simp add: non_nil_def)

section \<open>State-passing programs\<close>

text \<open>
  A step of the program takes the state and returns its result with the new state. The
  state is returned in the error case too: an early return in Go keeps the effects made
  so far, unless a transaction undoes them.
\<close>

type_synonym ('s, 'a) prog = "'s \<Rightarrow> 'a result \<times> 's"

definition returnE :: "'a \<Rightarrow> ('s, 'a) prog" where
  "returnE a s = (Inr a, s)"

definition raiseE :: "go_error \<Rightarrow> ('s, 'a) prog" where
  "raiseE e s = (Inl e, s)"

definition bindE :: "('s, 'a) prog \<Rightarrow> ('a \<Rightarrow> ('s, 'b) prog) \<Rightarrow> ('s, 'b) prog" where
  "bindE m f s = (case m s of (Inl e, s') \<Rightarrow> (Inl e, s') | (Inr a, s') \<Rightarrow> f a s')"

text \<open>\<open>if err != nil { return g(err) }\<close>\<close>

definition mapErr :: "(go_error \<Rightarrow> go_error) \<Rightarrow> ('s, 'a) prog \<Rightarrow> ('s, 'a) prog" where
  "mapErr g m s = (case m s of (Inl e, s') \<Rightarrow> (Inl (g e), s') | (Inr a, s') \<Rightarrow> (Inr a, s'))"

text \<open>A program run for its result, error included, without failing itself.\<close>

definition tryE :: "('s, 'a) prog \<Rightarrow> ('s, 'a result) prog" where
  "tryE m s = (case m s of (r, s') \<Rightarrow> (Inr r, s'))"

fun forE :: "'a list \<Rightarrow> ('a \<Rightarrow> ('s, 'b) prog) \<Rightarrow> ('s, 'b list) prog" where
  "forE [] f = returnE []"
| "forE (x # xs) f = bindE (f x) (\<lambda>y. bindE (forE xs f) (\<lambda>ys. returnE (y # ys)))"

lemma prog_eval [prog_simps]:
  "returnE a s = (Inr a, s)"
  "raiseE e s = (Inl e, s)"
  "bindE m f s = (case m s of (Inl e, s') \<Rightarrow> (Inl e, s') | (Inr a, s') \<Rightarrow> f a s')"
  "mapErr g m s = (case m s of (Inl e, s') \<Rightarrow> (Inl (g e), s') | (Inr a, s') \<Rightarrow> (Inr a, s'))"
  "tryE m s = (case m s of (r, s') \<Rightarrow> (Inr r, s'))"
  by (simp_all add: returnE_def raiseE_def bindE_def mapErr_def tryE_def)

lemma bindE_InrE:
  assumes "bindE m f s = (Inr b, t)"
  obtains a u where "m s = (Inr a, u)" and "f a u = (Inr b, t)"
  using assms by (auto simp: bindE_def split: prod.splits sum.splits)

lemma bindE_assoc: "bindE (bindE m f) g = bindE m (\<lambda>a. bindE (f a) g)"
  by (rule ext) (auto simp: bindE_def split: prod.splits sum.splits)

lemma forE_append:
  "forE (xs @ ys) f = bindE (forE xs f) (\<lambda>us. bindE (forE ys f) (\<lambda>vs. returnE (us @ vs)))"
proof (induction xs)
  case Nil
  show ?case
    by (rule ext) (auto simp: bindE_def returnE_def split: prod.splits sum.splits)
next
  case (Cons x xs)
  then show ?case
    by (intro ext) (auto simp: bindE_def returnE_def split: prod.splits sum.splits)
qed

section \<open>State predicates kept by programs\<close>

text \<open>
  \<open>keeps P m\<close>: the program keeps \<open>P\<close>, whether it succeeds or fails. Every invariant
  proof over the programs is an application of these rules.
\<close>

definition keeps :: "('s \<Rightarrow> bool) \<Rightarrow> ('s, 'a) prog \<Rightarrow> bool" where
  "keeps P m \<longleftrightarrow> (\<forall>s. P s \<longrightarrow> P (snd (m s)))"

lemma keepsI: "(\<And>s. P s \<Longrightarrow> P (snd (m s))) \<Longrightarrow> keeps P m"
  by (simp add: keeps_def)

lemma keepsD: "keeps P m \<Longrightarrow> P s \<Longrightarrow> P (snd (m s))"
  by (simp add: keeps_def)

lemma keeps_return [intro]: "keeps P (returnE a)"
  by (simp add: keeps_def returnE_def)

lemma keeps_raise [intro]: "keeps P (raiseE e)"
  by (simp add: keeps_def raiseE_def)

lemma keeps_bind [intro]:
  assumes "keeps P m" and "\<And>a. keeps P (f a)"
  shows "keeps P (bindE m f)"
  unfolding keeps_def
proof (intro allI impI)
  fix s
  assume "P s"
  with assms(1) have "P (snd (m s))" by (rule keepsD)
  then show "P (snd (bindE m f s))"
    using assms(2) by (auto simp: bindE_def keeps_def split: prod.splits sum.splits)
qed

lemma keeps_mapErr [intro]: "keeps P m \<Longrightarrow> keeps P (mapErr g m)"
  unfolding keeps_def mapErr_def by (auto split: prod.splits sum.splits)

lemma keeps_try [intro]: "keeps P m \<Longrightarrow> keeps P (tryE m)"
  unfolding keeps_def tryE_def by (auto split: prod.splits)

lemma keeps_for [intro]: "(\<And>x. keeps P (f x)) \<Longrightarrow> keeps P (forE xs f)"
  by (induction xs) auto

lemma keeps_if [intro]: "keeps P m \<Longrightarrow> keeps P n \<Longrightarrow> keeps P (if b then m else n)"
  by simp

lemma keeps_option [intro]:
  "keeps P m \<Longrightarrow> (\<And>x. keeps P (f x)) \<Longrightarrow> keeps P (case o' of None \<Rightarrow> m | Some x \<Rightarrow> f x)"
  by (cases o') auto

lemma keeps_sum [intro]:
  "(\<And>x. keeps P (f x)) \<Longrightarrow> (\<And>y. keeps P (g y)) \<Longrightarrow> keeps P (case r of Inl x \<Rightarrow> f x | Inr y \<Rightarrow> g y)"
  by (cases r) auto

lemma keeps_prod [intro]: "(\<And>x y. keeps P (f x y)) \<Longrightarrow> keeps P (case p of (x, y) \<Rightarrow> f x y)"
  by (cases p) auto

lemmas keeps_rules = keeps_return keeps_raise keeps_bind keeps_mapErr keeps_try keeps_for keeps_if
  keeps_option keeps_sum keeps_prod

section \<open>Integers\<close>

text \<open>Arithmetic on \<open>int\<close> and \<open>int64\<close> wraps modulo 2^64, read as two's complement.\<close>

definition int64 :: "int \<Rightarrow> int" where
  "int64 x = (x + 2 ^ 63) mod 2 ^ 64 - 2 ^ 63"

lemma int64_small [simp]: "0 \<le> x \<Longrightarrow> x < 2 ^ 63 \<Longrightarrow> int64 x = x"
  by (simp add: int64_def)

section \<open>Lists and maps\<close>

text \<open>Counting rows, as \<open>RowsAffected\<close> does.\<close>

definition count_rows :: "('a \<Rightarrow> bool) \<Rightarrow> 'a list \<Rightarrow> nat" where
  "count_rows p xs = length (filter p xs)"

lemma count_rows_0: "count_rows p xs = 0 \<longleftrightarrow> (\<forall>x\<in>set xs. \<not> p x)"
  by (simp add: count_rows_def filter_empty_conv)

lemma allD2: "\<forall>x y. P x y \<Longrightarrow> P x y"
  by blast

lemma allD3: "\<forall>x y z. P x y z \<Longrightarrow> P x y z"
  by blast

lemma find_Some_in: "List.find p xs = Some x \<Longrightarrow> x \<in> set xs \<and> p x"
  by (auto simp: find_Some_iff)

lemma find_map_key:
  assumes "\<And>x. p (f x) = p x"
  shows "List.find p (map f xs) = map_option f (List.find p xs)"
  using assms by (induction xs) auto

end
