(* ===== verification/Run_State.thy ===== *)
theory Run_State
  imports Go_Prelude
begin

text \<open>
  \<open>internal/core/runstate/state.go\<close>: the states of a run, the table of legal transitions
  and the test \<open>CanTransition\<close>. A \<open>State\<close> is a string in Go, and the model keeps it one:
  the database and the HTTP layer store and compare state strings, among them strings
  that are no constant of this package.
\<close>

type_synonym run_state = string

definition Draft :: run_state where "Draft = ''DRAFT''"
definition Analyzing :: run_state where "Analyzing = ''ANALYZING''"
definition Proposing :: run_state where "Proposing = ''PROPOSING''"
definition Reviewing :: run_state where "Reviewing = ''REVIEWING''"
definition Judging :: run_state where "Judging = ''JUDGING''"
definition RedTeam :: run_state where "RedTeam = ''RED_TEAM''"
definition AwaitingApproval :: run_state where "AwaitingApproval = ''AWAITING_APPROVAL''"
definition Executing :: run_state where "Executing = ''EXECUTING''"
definition Verifying :: run_state where "Verifying = ''VERIFYING''"
definition Replanning :: run_state where "Replanning = ''REPLANNING''"
definition Succeeded :: run_state where "Succeeded = ''SUCCEEDED''"
definition Failed :: run_state where "Failed = ''FAILED''"
definition Cancelled :: run_state where "Cancelled = ''CANCELLED''"

lemmas state_names = Draft_def Analyzing_def Proposing_def Reviewing_def Judging_def RedTeam_def
  AwaitingApproval_def Executing_def Verifying_def Replanning_def Succeeded_def Failed_def
  Cancelled_def

definition all_states :: "run_state list" where
  "all_states = [Draft, Analyzing, Proposing, Reviewing, Judging, RedTeam, AwaitingApproval,
     Executing, Verifying, Replanning, Succeeded, Failed, Cancelled]"

definition legal_transitions :: "(run_state \<times> run_state list) list" where
  "legal_transitions =
    [(Draft, [Analyzing, Cancelled]),
     (Analyzing, [Proposing, Failed, Cancelled]),
     (Proposing, [Reviewing, Failed, Cancelled]),
     (Reviewing, [Judging, Failed, Cancelled]),
     (Judging, [RedTeam, Failed, Cancelled]),
     (RedTeam, [Judging, AwaitingApproval, Failed, Cancelled]),
     (AwaitingApproval, [Executing, Cancelled]),
     (Executing, [Verifying, Failed, Cancelled]),
     (Verifying, [Succeeded, Replanning, Failed, Cancelled]),
     (Replanning, [Reviewing, Failed, Cancelled])]"

definition can_transition :: "run_state \<Rightarrow> run_state \<Rightarrow> bool" where
  "can_transition from to =
     (case map_of legal_transitions from of
        None \<Rightarrow> False
      | Some next_states \<Rightarrow> to \<in> set next_states)"

section \<open>Paths of legal transitions\<close>

inductive legal_path :: "run_state \<Rightarrow> run_state list \<Rightarrow> run_state \<Rightarrow> bool" where
  path_refl: "legal_path s [] s"
| path_step: "legal_path s p t \<Longrightarrow> can_transition t u \<Longrightarrow> legal_path s (p @ [u]) u"

inductive_cases legal_path_NilE: "legal_path s [] t"
inductive_cases legal_path_snocE: "legal_path s (p @ [u]) t"

lemma states_distinct: "distinct all_states"
  by (simp add: all_states_def state_names)

text \<open>Successors of a state that is known by name; the twelve equations evaluate every
  concrete question about the table.\<close>

lemma can_transition_simps [simp]:
  "can_transition Draft t \<longleftrightarrow> t \<in> {Analyzing, Cancelled}"
  "can_transition Analyzing t \<longleftrightarrow> t \<in> {Proposing, Failed, Cancelled}"
  "can_transition Proposing t \<longleftrightarrow> t \<in> {Reviewing, Failed, Cancelled}"
  "can_transition Reviewing t \<longleftrightarrow> t \<in> {Judging, Failed, Cancelled}"
  "can_transition Judging t \<longleftrightarrow> t \<in> {RedTeam, Failed, Cancelled}"
  "can_transition RedTeam t \<longleftrightarrow> t \<in> {Judging, AwaitingApproval, Failed, Cancelled}"
  "can_transition AwaitingApproval t \<longleftrightarrow> t \<in> {Executing, Cancelled}"
  "can_transition Executing t \<longleftrightarrow> t \<in> {Verifying, Failed, Cancelled}"
  "can_transition Verifying t \<longleftrightarrow> t \<in> {Succeeded, Replanning, Failed, Cancelled}"
  "can_transition Replanning t \<longleftrightarrow> t \<in> {Reviewing, Failed, Cancelled}"
  "\<not> can_transition Succeeded t"
  "\<not> can_transition Failed t"
  "\<not> can_transition Cancelled t"
  by (simp_all add: can_transition_def legal_transitions_def state_names)

lemma can_transition_known: "can_transition s t \<Longrightarrow> s \<in> set all_states \<and> t \<in> set all_states"
  by (auto simp: can_transition_def legal_transitions_def all_states_def
      split: option.splits if_splits)

text \<open>The states a run passes through before a human has approved it, and those after.\<close>

definition before_execution :: "run_state set" where
  "before_execution = {Draft, Analyzing, Proposing, Reviewing, Judging, RedTeam, AwaitingApproval,
     Failed, Cancelled}"

lemma before_execution_step:
  assumes "s \<in> before_execution" "can_transition s t"
  shows "t \<in> before_execution \<or> s = AwaitingApproval \<and> t = Executing"
  using assms by (auto simp: before_execution_def)

lemma not_before_execution:
  "Executing \<notin> before_execution" "Verifying \<notin> before_execution" "Replanning \<notin> before_execution"
  "Succeeded \<notin> before_execution"
  by (simp_all add: before_execution_def state_names)

lemma execution_after_awaiting:
  assumes "legal_path s p t" "s \<in> before_execution" "t \<notin> before_execution"
  shows "AwaitingApproval \<in> set (s # p) \<and> Executing \<in> set p"
  using assms
proof (induction rule: legal_path.induct)
  case (path_refl s)
  then show ?case by simp
next
  case (path_step s p t u)
  show ?case
  proof (cases "t \<in> before_execution")
    case True
    with before_execution_step [OF True path_step.hyps(2)] path_step.prems
    have "t = AwaitingApproval" "u = Executing" by auto
    moreover have "t \<in> set (s # p)" using path_step.hyps(1) by (cases) auto
    ultimately show ?thesis by auto
  next
    case False
    with path_step.IH path_step.prems(1) show ?thesis by auto
  qed
qed

text \<open>
  No run executes without having waited for approval: every sequence of legal
  transitions from DRAFT into EXECUTING, VERIFYING, REPLANNING or SUCCEEDED goes through
  AWAITING_APPROVAL and then EXECUTING.
\<close>

theorem execution_only_after_awaiting_approval:
  assumes "legal_path Draft p t" "t \<in> {Executing, Verifying, Replanning, Succeeded}"
  shows "AwaitingApproval \<in> set p \<and> Executing \<in> set p"
proof -
  have "t \<notin> before_execution" using assms(2) not_before_execution by auto
  moreover have "Draft \<in> before_execution" by (simp add: before_execution_def)
  ultimately have "AwaitingApproval \<in> set (Draft # p) \<and> Executing \<in> set p"
    using assms(1) by (intro execution_after_awaiting)
  moreover have "AwaitingApproval \<noteq> Draft" by (simp add: state_names)
  ultimately show ?thesis by simp
qed

theorem execution_only_after_awaiting_approval_witness:
  "\<exists>p. legal_path Draft p Executing \<and> length p = 7
     \<and> AwaitingApproval \<in> set p \<and> Executing \<in> set p"
proof -
  have "legal_path Draft ([] @ [Analyzing]) Analyzing" by (rule path_step [OF path_refl]) simp
  then have "legal_path Draft (([] @ [Analyzing]) @ [Proposing]) Proposing"
    by (rule path_step) simp
  then have "legal_path Draft ((([] @ [Analyzing]) @ [Proposing]) @ [Reviewing]) Reviewing"
    by (rule path_step) simp
  then have "legal_path Draft (((([] @ [Analyzing]) @ [Proposing]) @ [Reviewing]) @ [Judging]) Judging"
    by (rule path_step) simp
  then have "legal_path Draft ((((([] @ [Analyzing]) @ [Proposing]) @ [Reviewing]) @ [Judging])
      @ [RedTeam]) RedTeam"
    by (rule path_step) simp
  then have "legal_path Draft (((((([] @ [Analyzing]) @ [Proposing]) @ [Reviewing]) @ [Judging])
      @ [RedTeam]) @ [AwaitingApproval]) AwaitingApproval"
    by (rule path_step) simp
  then have "legal_path Draft ((((((([] @ [Analyzing]) @ [Proposing]) @ [Reviewing]) @ [Judging])
      @ [RedTeam]) @ [AwaitingApproval]) @ [Executing]) Executing"
    by (rule path_step) simp
  then have p: "legal_path Draft [Analyzing, Proposing, Reviewing, Judging, RedTeam,
      AwaitingApproval, Executing] Executing" by simp
  from execution_only_after_awaiting_approval [OF p] p show ?thesis
    by (intro exI [of _ "[Analyzing, Proposing, Reviewing, Judging, RedTeam, AwaitingApproval,
        Executing]"]) simp
qed

text \<open>A path extended at the front.\<close>

lemma legal_path_front:
  assumes "legal_path t p u" "can_transition s t"
  shows "legal_path s (t # p) u"
  using assms
proof (induction rule: legal_path.induct)
  case (path_refl t)
  from path_step [OF legal_path.path_refl path_refl] show ?case by simp
next
  case (path_step t p u v)
  from legal_path.path_step [OF path_step.IH [OF path_step.prems] path_step.hyps(2)]
  show ?case by simp
qed

definition can_succeed :: "run_state \<Rightarrow> bool" where
  "can_succeed s \<longleftrightarrow> (\<exists>p. legal_path s p Succeeded)"

lemma can_succeed_step: "can_transition s t \<Longrightarrow> can_succeed t \<Longrightarrow> can_succeed s"
  unfolding can_succeed_def using legal_path_front by blast

lemma can_succeed_all: "s \<in> set all_states - {Succeeded, Failed, Cancelled} \<Longrightarrow> can_succeed s"
proof -
  have "can_succeed Succeeded" unfolding can_succeed_def by (blast intro: path_refl)
  then have v: "can_succeed Verifying" by (rule can_succeed_step [rotated]) simp
  then have e: "can_succeed Executing" by (rule can_succeed_step [rotated]) simp
  then have a: "can_succeed AwaitingApproval" by (rule can_succeed_step [rotated]) simp
  then have r: "can_succeed RedTeam" by (rule can_succeed_step [rotated]) simp
  then have j: "can_succeed Judging" by (rule can_succeed_step [rotated]) simp
  then have w: "can_succeed Reviewing" by (rule can_succeed_step [rotated]) simp
  then have p: "can_succeed Proposing" by (rule can_succeed_step [rotated]) simp
  then have z: "can_succeed Analyzing" by (rule can_succeed_step [rotated]) simp
  then have d: "can_succeed Draft" by (rule can_succeed_step [rotated]) simp
  from w have q: "can_succeed Replanning" by (rule can_succeed_step [rotated]) simp
  assume "s \<in> set all_states - {Succeeded, Failed, Cancelled}"
  with v e a r j w p z d q show ?thesis by (auto simp: all_states_def)
qed

lemma cancel_from_unfinished:
  "s \<in> set all_states - {Succeeded, Failed, Cancelled} \<Longrightarrow> can_transition s Cancelled"
  by (auto simp: all_states_def)

lemma final_iff_stuck:
  assumes "s \<in> set all_states"
  shows "(\<forall>t. \<not> can_transition s t) = (s \<in> {Succeeded, Failed, Cancelled})"
proof (cases "s \<in> {Succeeded, Failed, Cancelled}")
  case True
  then show ?thesis by auto
next
  case False
  with assms have "can_transition s Cancelled" by (intro cancel_from_unfinished) simp
  with False show ?thesis by blast
qed

text \<open>
  C10. The lifecycle has exactly three final states, SUCCEEDED, FAILED and CANCELLED, and
  no other state is a dead end: from every other state a run can still be cancelled, and
  it can be driven to success.
\<close>

theorem lifecycle_final_states:
  "(\<forall>s\<in>set all_states. (\<forall>t. \<not> can_transition s t) = (s \<in> {Succeeded, Failed, Cancelled})) \<and>
   (\<forall>s\<in>set all_states - {Succeeded, Failed, Cancelled}.
      can_transition s Cancelled \<and> (\<exists>p. legal_path s p Succeeded))"
proof (intro conjI ballI)
  fix s
  assume "s \<in> set all_states"
  then show "(\<forall>t. \<not> can_transition s t) = (s \<in> {Succeeded, Failed, Cancelled})"
    by (rule final_iff_stuck)
next
  fix s
  assume s: "s \<in> set all_states - {Succeeded, Failed, Cancelled}"
  then show "can_transition s Cancelled" by (rule cancel_from_unfinished)
  from can_succeed_all [OF s] show "\<exists>p. legal_path s p Succeeded" by (simp add: can_succeed_def)
qed

theorem lifecycle_final_states_witness:
  "Executing \<in> set all_states - {Succeeded, Failed, Cancelled} \<and>
   can_transition Executing Cancelled \<and> \<not> can_transition Succeeded Cancelled"
proof -
  have m: "Executing \<in> set all_states - {Succeeded, Failed, Cancelled}"
    and n: "Succeeded \<in> set all_states"
    by (simp_all add: all_states_def state_names)
  note t = lifecycle_final_states
  have "can_transition Executing Cancelled" using t m by blast
  moreover have "\<not> can_transition Succeeded Cancelled" using t n by blast
  ultimately show ?thesis using m by blast
qed

end
