(* ===== verification/Storage.thy ===== *)
theory Storage
  imports Go_Prelude "HOL-Library.Multiset"
begin

text \<open>
  The persistent store: the row types of \<open>internal/storage/sqlite/models.go\<close> (and of the
  repositories that declare their own), and the part of gorm over SQLite the repositories
  call.

  The database library is not part of the repository, so it is a parameter: a \<open>gorm_db\<close>
  holds one \<open>sql_table\<close> of operations per table and the transaction combinator, over an
  arbitrary type of database states. What the repositories rely on is the hypothesis
  \<open>sql_implements\<close> (what an \<open>INSERT\<close>, \<open>SELECT\<close>, \<open>UPDATE\<close> or \<open>DELETE\<close> does to the rows
  when it succeeds, and that it does nothing when it fails) and \<open>tx_laws\<close> (an error rolls
  the transaction back, commit keeps its effects). Every statement may fail at any time
  with a driver error. \<open>mem_db\<close> is a concrete instance, used to evaluate the model.
\<close>

section \<open>Rows\<close>

type_synonym timestamp = int

record run_record =
  rr_ID :: string
  rr_State :: string
  rr_Version :: nat
  rr_CreatedAt :: timestamp
  rr_UpdatedAt :: timestamp

record audit_record =
  au_ID :: string
  au_RunID :: string
  au_Sequence :: nat
  au_Type :: string
  au_Actor :: string
  au_Detail :: string
  au_CreatedAt :: timestamp

record artifact_record =
  ar_ID :: string
  ar_RunID :: string
  ar_Type :: string
  ar_SchemaVersion :: string
  ar_ParentID :: string
  ar_ContentHash :: string
  ar_FilePath :: string
  ar_CreatedAt :: timestamp

record provider_profile_record =
  pp_ID :: string
  pp_Provider :: string
  pp_Model :: string
  pp_ParametersJSON :: string

record workspace_record =
  wr_ID :: string
  wr_CanonicalRoot :: string
  wr_RunnerID :: string
  wr_IsGit :: bool
  wr_Dirty :: bool
  wr_PolicyJSON :: string

record task_record =
  tr_ID :: string
  tr_WorkspaceID :: string
  tr_Requirement :: string
  tr_ConstraintsJSON :: string
  tr_AcceptanceJSON :: string
  tr_State :: string
  tr_PlanVersion :: int
  tr_ApprovalHash :: string
  tr_ApprovalGranted :: bool
  tr_PlanJSON :: string
  tr_VerificationJSON :: string
  tr_CreatedAt :: timestamp
  tr_UpdatedAt :: timestamp

record seat_record =
  se_ID :: string
  se_RunID :: string
  se_ProviderProfileID :: string
  se_Role :: string
  se_ProposalAlias :: string

record model_invocation_record =
  mi_ID :: string
  mi_RunID :: string
  mi_SeatID :: string
  mi_Stage :: string
  mi_ProviderRequestID :: string
  mi_InputTokens :: int
  mi_OutputTokens :: int
  mi_EstimatedCostMicros :: int
  mi_DurationMillis :: int
  mi_ErrorCode :: string

record execution_record =
  ex_RequestID :: string
  ex_Status :: string
  ex_ResponseJSON :: string
  ex_CreatedAt :: timestamp

record user_record =
  us_ID :: string
  us_Subject :: string
  us_TokenHash :: string
  us_PasswordHash :: "string option"
  us_Disabled :: bool
  us_CreatedAt :: timestamp

record role_record =
  ro_ID :: string
  ro_Name :: string

record user_role_record =
  ur_UserID :: string
  ur_RoleID :: string

record permission_record =
  pm_ID :: string
  pm_Name :: string

record role_permission_record =
  rp_RoleID :: string
  rp_PermissionID :: string

record access_token_record =
  at_ID :: string
  at_UserID :: string
  at_TokenHash :: string
  at_ExpiresAt :: timestamp
  at_RevokedAt :: "timestamp option"
  at_CreatedAt :: timestamp

record event_record =
  er_ID :: nat
  er_RunID :: string
  er_Sequence :: int
  er_Type :: string
  er_Data :: string
  er_CreatedAt :: timestamp

record approval_record =
  al_ID :: string
  al_RunID :: string
  al_PlanVersion :: int
  al_SnapshotHash :: string
  al_Decision :: string
  al_Actor :: string
  al_CreatedAt :: timestamp
  al_InvalidatedAt :: "timestamp option"
  al_ConsumedAt :: "timestamp option"

text \<open>The tables \<open>Open\<close> migrates, each with its rows in insertion order.\<close>

record tables =
  t_runs :: "run_record list"
  t_audits :: "audit_record list"
  t_artifacts :: "artifact_record list"
  t_profiles :: "provider_profile_record list"
  t_workspaces :: "workspace_record list"
  t_tasks :: "task_record list"
  t_seats :: "seat_record list"
  t_invocations :: "model_invocation_record list"
  t_events :: "event_record list"
  t_approvals :: "approval_record list"
  t_executions :: "execution_record list"
  t_users :: "user_record list"
  t_roles :: "role_record list"
  t_user_roles :: "user_role_record list"
  t_permissions :: "permission_record list"
  t_role_permissions :: "role_permission_record list"
  t_tokens :: "access_token_record list"

definition empty_tables :: tables where
  "empty_tables = \<lparr>t_runs = [], t_audits = [], t_artifacts = [], t_profiles = [],
     t_workspaces = [], t_tasks = [], t_seats = [], t_invocations = [], t_events = [],
     t_approvals = [], t_executions = [], t_users = [], t_roles = [], t_user_roles = [],
     t_permissions = [], t_role_permissions = [], t_tokens = []\<rparr>"

section \<open>The operations of the database library\<close>

record ('db, 'row) sql_table =
  sql_create :: "'row \<Rightarrow> ('db, unit) prog" \<comment> \<open>\<open>Create(&row)\<close>\<close>
  sql_find :: "('row \<Rightarrow> bool) \<Rightarrow> ('db, 'row list) prog" \<comment> \<open>\<open>Where(...).Find(&rows)\<close>\<close>
  sql_update :: "('row \<Rightarrow> bool) \<Rightarrow> ('row \<Rightarrow> 'row) \<Rightarrow> ('db, nat) prog"
    \<comment> \<open>\<open>Where(...).Updates(...)\<close>, returning \<open>RowsAffected\<close>\<close>
  sql_save :: "'row \<Rightarrow> ('db, unit) prog" \<comment> \<open>\<open>Save(&row)\<close>: update by primary key or insert\<close>
  sql_delete :: "('row \<Rightarrow> bool) \<Rightarrow> ('db, nat) prog"

text \<open>\<open>First(&row, ...)\<close>: the least matching row under the requested order, or
  \<open>gorm.ErrRecordNotFound\<close>.\<close>

definition sql_first ::
  "('db, 'row) sql_table \<Rightarrow> ('row \<Rightarrow> bool) \<Rightarrow> ('row \<Rightarrow> 'k::linorder) \<Rightarrow> ('db, 'row) prog" where
  "sql_first T cond key =
     bindE (sql_find T cond) (\<lambda>rows.
       case sort_key key rows of [] \<Rightarrow> raiseE (Sent RecordNotFound) | r # _ \<Rightarrow> returnE r)"

text \<open>\<open>Where(...).Count(&n)\<close>.\<close>

definition sql_count :: "('db, 'row) sql_table \<Rightarrow> ('row \<Rightarrow> bool) \<Rightarrow> ('db, nat) prog" where
  "sql_count T cond = bindE (sql_find T cond) (\<lambda>rows. returnE (length rows))"

text \<open>What identifies a table inside the whole: where its rows are, which columns gorm
  fills in by itself (\<open>norm\<close> blanks them), its primary key, its uniqueness constraints.\<close>

record 'row table_spec =
  ts_get :: "tables \<Rightarrow> 'row list"
  ts_upd :: "('row list \<Rightarrow> 'row list) \<Rightarrow> tables \<Rightarrow> tables"
  ts_norm :: "'row \<Rightarrow> 'row"
  ts_same :: "'row \<Rightarrow> 'row \<Rightarrow> bool"
  ts_uniq :: "'row list \<Rightarrow> bool"

text \<open>Errors the driver reports; none is an error value of the repository's own.\<close>

definition db_error :: "go_error \<Rightarrow> bool" where
  "db_error e \<longleftrightarrow> e \<in> {Sent UniqueViolation, Sent DriverFailure, Sent ContextCanceled, Sent DeadlineExceeded}"

lemma db_error_is: "db_error e \<Longrightarrow> errors_is e t \<longleftrightarrow> e = Sent t"
  by (auto simp: db_error_def)

lemma db_error_not [simp]:
  "\<not> db_error (Sent RecordNotFound)" "\<not> db_error (Sent ErrIllegalTransition)"
  "\<not> db_error (Sent ErrConcurrentTransition)" "\<not> db_error (Sent ErrApprovalNotActive)"
  "\<not> db_error (Err m)" "\<not> db_error (Wrap m e)"
  by (simp_all add: db_error_def)

definition save_rows :: "('row \<Rightarrow> 'row \<Rightarrow> bool) \<Rightarrow> 'row \<Rightarrow> 'row list \<Rightarrow> 'row list" where
  "save_rows same r rows =
     (if \<exists>x\<in>set rows. same x r then map (\<lambda>x. if same x r then r else x) rows else rows @ [r])"

definition create_law :: "('db \<Rightarrow> tables) \<Rightarrow> 'row table_spec \<Rightarrow> ('row \<Rightarrow> ('db, unit) prog) \<Rightarrow> bool" where
  "create_law view S create \<longleftrightarrow> (\<forall>r s.
     case create r s of
       (Inl e, s') \<Rightarrow> db_error e \<and> view s' = view s
     | (Inr _, s') \<Rightarrow> \<exists>r'. ts_norm S r' = ts_norm S r \<and> ts_uniq S (ts_get S (view s) @ [r']) \<and>
         view s' = ts_upd S (\<lambda>rows. rows @ [r']) (view s))"

definition find_law ::
  "('db \<Rightarrow> tables) \<Rightarrow> 'row table_spec \<Rightarrow> (('row \<Rightarrow> bool) \<Rightarrow> ('db, 'row list) prog) \<Rightarrow> bool" where
  "find_law view S query \<longleftrightarrow> (\<forall>cond s.
     case query cond s of
       (Inl e, s') \<Rightarrow> db_error e \<and> view s' = view s
     | (Inr rows, s') \<Rightarrow> mset rows = mset (filter cond (ts_get S (view s))) \<and> view s' = view s)"

definition update_law ::
  "('db \<Rightarrow> tables) \<Rightarrow> 'row table_spec \<Rightarrow>
   (('row \<Rightarrow> bool) \<Rightarrow> ('row \<Rightarrow> 'row) \<Rightarrow> ('db, nat) prog) \<Rightarrow> bool" where
  "update_law view S update \<longleftrightarrow> (\<forall>cond f s.
     case update cond f s of
       (Inl e, s') \<Rightarrow> db_error e \<and> view s' = view s
     | (Inr n, s') \<Rightarrow> n = count_rows cond (ts_get S (view s)) \<and>
         (\<exists>g. (\<forall>r. ts_norm S (g r) = ts_norm S (f r)) \<and>
           view s' = ts_upd S (map (\<lambda>r. if cond r then g r else r)) (view s)))"

definition save_law :: "('db \<Rightarrow> tables) \<Rightarrow> 'row table_spec \<Rightarrow> ('row \<Rightarrow> ('db, unit) prog) \<Rightarrow> bool" where
  "save_law view S save \<longleftrightarrow> (\<forall>r s.
     case save r s of
       (Inl e, s') \<Rightarrow> db_error e \<and> view s' = view s
     | (Inr _, s') \<Rightarrow> \<exists>r'. ts_norm S r' = ts_norm S r \<and>
         view s' = ts_upd S (save_rows (ts_same S) r') (view s))"

definition delete_law ::
  "('db \<Rightarrow> tables) \<Rightarrow> 'row table_spec \<Rightarrow> (('row \<Rightarrow> bool) \<Rightarrow> ('db, nat) prog) \<Rightarrow> bool" where
  "delete_law view S delete \<longleftrightarrow> (\<forall>cond s.
     case delete cond s of
       (Inl e, s') \<Rightarrow> db_error e \<and> view s' = view s
     | (Inr n, s') \<Rightarrow> n = count_rows cond (ts_get S (view s)) \<and>
         view s' = ts_upd S (filter (\<lambda>r. \<not> cond r)) (view s))"

definition sql_implements :: "('db \<Rightarrow> tables) \<Rightarrow> 'row table_spec \<Rightarrow> ('db, 'row) sql_table \<Rightarrow> bool" where
  "sql_implements view S T \<longleftrightarrow>
     create_law view S (sql_create T) \<and> find_law view S (sql_find T) \<and>
     update_law view S (sql_update T) \<and> save_law view S (sql_save T) \<and>
     delete_law view S (sql_delete T)"

definition tx_laws :: "('db \<Rightarrow> tables) \<Rightarrow> (('db, 'a) prog \<Rightarrow> ('db, 'a) prog) \<Rightarrow> bool" where
  "tx_laws view tx \<longleftrightarrow> (\<forall>m s.
     case tx m s of
       (Inl e, s') \<Rightarrow> view s' = view s \<and>
         (db_error e \<or> (\<exists>s1. view s1 = view s \<and> fst (m s1) = Inl e))
     | (Inr a, s') \<Rightarrow> \<exists>s1 s2. view s1 = view s \<and> m s1 = (Inr a, s2) \<and> view s' = view s2)"

text \<open>A read-only query over several tables (\<open>Joins\<close>, \<open>Distinct\<close>, \<open>Order\<close>, \<open>Pluck\<close>), given by what
  it selects.\<close>

definition query_law :: "('db \<Rightarrow> tables) \<Rightarrow> ((tables \<Rightarrow> 'a) \<Rightarrow> ('db, 'a) prog) \<Rightarrow> bool" where
  "query_law view pluck \<longleftrightarrow> (\<forall>q s.
     case pluck q s of
       (Inl e, s') \<Rightarrow> db_error e \<and> view s' = view s
     | (Inr xs, s') \<Rightarrow> xs = q (view s) \<and> view s' = view s)"

text \<open>\<open>FirstOrCreate\<close>, and \<open>Create\<close> under \<open>OnConflict{DoNothing: true}\<close> with its
  \<open>RowsAffected\<close>.\<close>

definition sql_first_or_create ::
  "('db, 'row) sql_table \<Rightarrow> ('row \<Rightarrow> bool) \<Rightarrow> ('row \<Rightarrow> 'k::linorder) \<Rightarrow> 'row \<Rightarrow> ('db, 'row) prog" where
  "sql_first_or_create T cond key new =
     bindE (tryE (sql_first T cond key)) (\<lambda>r.
       case r of
         Inr x \<Rightarrow> returnE x
       | Inl e \<Rightarrow> if errors_is e RecordNotFound then bindE (sql_create T new) (\<lambda>_. returnE new) else raiseE e)"

definition sql_create_ignore :: "('db, 'row) sql_table \<Rightarrow> 'row \<Rightarrow> ('db, nat) prog" where
  "sql_create_ignore T r =
     bindE (tryE (sql_create T r)) (\<lambda>res.
       case res of
         Inr _ \<Rightarrow> returnE 1
       | Inl e \<Rightarrow> if e = Sent UniqueViolation then returnE 0 else raiseE e)"

section \<open>The tables of this program\<close>

definition runs_spec :: "run_record table_spec" where
  "runs_spec = \<lparr>ts_get = t_runs, ts_upd = t_runs_update,
     ts_norm = (\<lambda>r. r\<lparr>rr_CreatedAt := 0, rr_UpdatedAt := 0\<rparr>),
     ts_same = (\<lambda>x y. rr_ID x = rr_ID y), ts_uniq = (\<lambda>rows. distinct (map rr_ID rows))\<rparr>"

definition audits_spec :: "audit_record table_spec" where
  "audits_spec = \<lparr>ts_get = t_audits, ts_upd = t_audits_update,
     ts_norm = (\<lambda>r. r\<lparr>au_CreatedAt := 0\<rparr>),
     ts_same = (\<lambda>x y. au_ID x = au_ID y),
     ts_uniq = (\<lambda>rows. distinct (map au_ID rows) \<and> distinct (map (\<lambda>r. (au_RunID r, au_Sequence r)) rows))\<rparr>"

definition tasks_spec :: "task_record table_spec" where
  "tasks_spec = \<lparr>ts_get = t_tasks, ts_upd = t_tasks_update,
     ts_norm = (\<lambda>r. r\<lparr>tr_CreatedAt := 0, tr_UpdatedAt := 0\<rparr>),
     ts_same = (\<lambda>x y. tr_ID x = tr_ID y), ts_uniq = (\<lambda>rows. distinct (map tr_ID rows))\<rparr>"

definition approvals_spec :: "approval_record table_spec" where
  "approvals_spec = \<lparr>ts_get = t_approvals, ts_upd = t_approvals_update,
     ts_norm = (\<lambda>r. r\<lparr>al_CreatedAt := 0\<rparr>),
     ts_same = (\<lambda>x y. al_ID x = al_ID y), ts_uniq = (\<lambda>rows. distinct (map al_ID rows))\<rparr>"

definition events_spec :: "event_record table_spec" where
  "events_spec = \<lparr>ts_get = t_events, ts_upd = t_events_update,
     ts_norm = (\<lambda>r. r\<lparr>er_ID := 0\<rparr>),
     ts_same = (\<lambda>x y. er_ID x = er_ID y), ts_uniq = (\<lambda>rows. distinct (map er_ID rows))\<rparr>"

definition executions_spec :: "execution_record table_spec" where
  "executions_spec = \<lparr>ts_get = t_executions, ts_upd = t_executions_update,
     ts_norm = (\<lambda>r. r\<lparr>ex_CreatedAt := 0\<rparr>),
     ts_same = (\<lambda>x y. ex_RequestID x = ex_RequestID y),
     ts_uniq = (\<lambda>rows. distinct (map ex_RequestID rows))\<rparr>"

definition artifacts_spec :: "artifact_record table_spec" where
  "artifacts_spec = \<lparr>ts_get = t_artifacts, ts_upd = t_artifacts_update,
     ts_norm = (\<lambda>r. r\<lparr>ar_CreatedAt := 0\<rparr>),
     ts_same = (\<lambda>x y. ar_ID x = ar_ID y), ts_uniq = (\<lambda>rows. distinct (map ar_ID rows))\<rparr>"

definition profiles_spec :: "provider_profile_record table_spec" where
  "profiles_spec = \<lparr>ts_get = t_profiles, ts_upd = t_profiles_update, ts_norm = (\<lambda>r. r),
     ts_same = (\<lambda>x y. pp_ID x = pp_ID y), ts_uniq = (\<lambda>rows. distinct (map pp_ID rows))\<rparr>"

definition workspaces_spec :: "workspace_record table_spec" where
  "workspaces_spec = \<lparr>ts_get = t_workspaces, ts_upd = t_workspaces_update, ts_norm = (\<lambda>r. r),
     ts_same = (\<lambda>x y. wr_ID x = wr_ID y), ts_uniq = (\<lambda>rows. distinct (map wr_ID rows))\<rparr>"

definition seats_spec :: "seat_record table_spec" where
  "seats_spec = \<lparr>ts_get = t_seats, ts_upd = t_seats_update, ts_norm = (\<lambda>r. r),
     ts_same = (\<lambda>x y. se_ID x = se_ID y), ts_uniq = (\<lambda>rows. distinct (map se_ID rows))\<rparr>"

definition invocations_spec :: "model_invocation_record table_spec" where
  "invocations_spec = \<lparr>ts_get = t_invocations, ts_upd = t_invocations_update, ts_norm = (\<lambda>r. r),
     ts_same = (\<lambda>x y. mi_ID x = mi_ID y), ts_uniq = (\<lambda>rows. distinct (map mi_ID rows))\<rparr>"

definition users_spec :: "user_record table_spec" where
  "users_spec = \<lparr>ts_get = t_users, ts_upd = t_users_update,
     ts_norm = (\<lambda>r. r\<lparr>us_CreatedAt := 0\<rparr>),
     ts_same = (\<lambda>x y. us_ID x = us_ID y),
     ts_uniq = (\<lambda>rows. distinct (map us_ID rows) \<and> distinct (map us_Subject rows))\<rparr>"

definition roles_spec :: "role_record table_spec" where
  "roles_spec = \<lparr>ts_get = t_roles, ts_upd = t_roles_update, ts_norm = (\<lambda>r. r),
     ts_same = (\<lambda>x y. ro_ID x = ro_ID y),
     ts_uniq = (\<lambda>rows. distinct (map ro_ID rows) \<and> distinct (map ro_Name rows))\<rparr>"

definition user_roles_spec :: "user_role_record table_spec" where
  "user_roles_spec = \<lparr>ts_get = t_user_roles, ts_upd = t_user_roles_update, ts_norm = (\<lambda>r. r),
     ts_same = (=), ts_uniq = distinct\<rparr>"

definition permissions_spec :: "permission_record table_spec" where
  "permissions_spec = \<lparr>ts_get = t_permissions, ts_upd = t_permissions_update, ts_norm = (\<lambda>r. r),
     ts_same = (\<lambda>x y. pm_ID x = pm_ID y),
     ts_uniq = (\<lambda>rows. distinct (map pm_ID rows) \<and> distinct (map pm_Name rows))\<rparr>"

definition role_permissions_spec :: "role_permission_record table_spec" where
  "role_permissions_spec = \<lparr>ts_get = t_role_permissions, ts_upd = t_role_permissions_update,
     ts_norm = (\<lambda>r. r), ts_same = (=), ts_uniq = distinct\<rparr>"

definition tokens_spec :: "access_token_record table_spec" where
  "tokens_spec = \<lparr>ts_get = t_tokens, ts_upd = t_tokens_update,
     ts_norm = (\<lambda>r. r\<lparr>at_CreatedAt := 0\<rparr>),
     ts_same = (\<lambda>x y. at_ID x = at_ID y),
     ts_uniq = (\<lambda>rows. distinct (map at_ID rows) \<and> distinct (map at_TokenHash rows))\<rparr>"

lemmas spec_defs [db_frames] = runs_spec_def audits_spec_def artifacts_spec_def profiles_spec_def workspaces_spec_def tasks_spec_def
  seats_spec_def invocations_spec_def events_spec_def approvals_spec_def executions_spec_def
  users_spec_def roles_spec_def user_roles_spec_def permissions_spec_def role_permissions_spec_def tokens_spec_def

text \<open>The handle \<open>*gorm.DB\<close>: the operations on every table, and \<open>Transaction\<close>.\<close>

record 'db gorm_db =
  gd_runs :: "('db, run_record) sql_table"
  gd_audits :: "('db, audit_record) sql_table"
  gd_artifacts :: "('db, artifact_record) sql_table"
  gd_profiles :: "('db, provider_profile_record) sql_table"
  gd_workspaces :: "('db, workspace_record) sql_table"
  gd_tasks :: "('db, task_record) sql_table"
  gd_seats :: "('db, seat_record) sql_table"
  gd_invocations :: "('db, model_invocation_record) sql_table"
  gd_events :: "('db, event_record) sql_table"
  gd_approvals :: "('db, approval_record) sql_table"
  gd_executions :: "('db, execution_record) sql_table"
  gd_users :: "('db, user_record) sql_table"
  gd_roles :: "('db, role_record) sql_table"
  gd_user_roles :: "('db, user_role_record) sql_table"
  gd_permissions :: "('db, permission_record) sql_table"
  gd_role_permissions :: "('db, role_permission_record) sql_table"
  gd_tokens :: "('db, access_token_record) sql_table"
  gd_tx :: "('db, unit) prog \<Rightarrow> ('db, unit) prog"
  gd_pluck :: "(tables \<Rightarrow> string list) \<Rightarrow> ('db, string list) prog"
  gd_tx_string :: "('db, string) prog \<Rightarrow> ('db, string) prog"

definition gorm_ok :: "('db \<Rightarrow> tables) \<Rightarrow> 'db gorm_db \<Rightarrow> bool" where
  "gorm_ok view D \<longleftrightarrow>
     sql_implements view runs_spec (gd_runs D) \<and>
     sql_implements view audits_spec (gd_audits D) \<and>
     sql_implements view artifacts_spec (gd_artifacts D) \<and>
     sql_implements view profiles_spec (gd_profiles D) \<and>
     sql_implements view workspaces_spec (gd_workspaces D) \<and>
     sql_implements view tasks_spec (gd_tasks D) \<and>
     sql_implements view seats_spec (gd_seats D) \<and>
     sql_implements view invocations_spec (gd_invocations D) \<and>
     sql_implements view events_spec (gd_events D) \<and>
     sql_implements view approvals_spec (gd_approvals D) \<and>
     sql_implements view executions_spec (gd_executions D) \<and>
     sql_implements view users_spec (gd_users D) \<and>
     sql_implements view roles_spec (gd_roles D) \<and>
     sql_implements view user_roles_spec (gd_user_roles D) \<and>
     sql_implements view permissions_spec (gd_permissions D) \<and>
     sql_implements view role_permissions_spec (gd_role_permissions D) \<and>
     sql_implements view tokens_spec (gd_tokens D) \<and>
     tx_laws view (gd_tx D) \<and>
     query_law view (gd_pluck D) \<and>
     tx_laws view (gd_tx_string D)"

lemma gorm_okD:
  assumes "gorm_ok view D"
  shows
    "sql_implements view runs_spec (gd_runs D)"
    "sql_implements view audits_spec (gd_audits D)"
    "sql_implements view artifacts_spec (gd_artifacts D)"
    "sql_implements view profiles_spec (gd_profiles D)"
    "sql_implements view workspaces_spec (gd_workspaces D)"
    "sql_implements view tasks_spec (gd_tasks D)"
    "sql_implements view seats_spec (gd_seats D)"
    "sql_implements view invocations_spec (gd_invocations D)"
    "sql_implements view events_spec (gd_events D)"
    "sql_implements view approvals_spec (gd_approvals D)"
    "sql_implements view executions_spec (gd_executions D)"
    "sql_implements view users_spec (gd_users D)"
    "sql_implements view roles_spec (gd_roles D)"
    "sql_implements view user_roles_spec (gd_user_roles D)"
    "sql_implements view permissions_spec (gd_permissions D)"
    "sql_implements view role_permissions_spec (gd_role_permissions D)"
    "sql_implements view tokens_spec (gd_tokens D)"
    "tx_laws view (gd_tx D)"
    "query_law view (gd_pluck D)"
    "tx_laws view (gd_tx_string D)"
  using assms by (simp_all add: gorm_ok_def)

section \<open>Rules for the operations\<close>

lemma sort_key_map_seq: "map f (sort_key f xs) = sort (map f xs)"
  by (rule properties_for_sort [symmetric]) simp_all

lemma sql_createE:
  assumes "sql_implements view S T" and "sql_create T r s = (res, s')"
  obtains (error) e where "res = Inl e" "db_error e" "view s' = view s"
  | (row) r' where "res = Inr ()" "ts_norm S r' = ts_norm S r" "ts_uniq S (ts_get S (view s) @ [r'])"
      "view s' = ts_upd S (\<lambda>rows. rows @ [r']) (view s)"
proof -
  have "create_law view S (sql_create T)" using assms(1) by (simp add: sql_implements_def)
  then have "case sql_create T r s of
       (Inl e, s') \<Rightarrow> db_error e \<and> view s' = view s
     | (Inr _, s') \<Rightarrow> \<exists>r'. ts_norm S r' = ts_norm S r \<and> ts_uniq S (ts_get S (view s) @ [r']) \<and>
         view s' = ts_upd S (\<lambda>rows. rows @ [r']) (view s)"
    unfolding create_law_def by (rule allD2)
  with assms(2) that show thesis by (cases res) auto
qed

lemma sql_findE:
  assumes "sql_implements view S T" and "sql_find T cond s = (res, s')"
  obtains (error) e where "res = Inl e" "db_error e" "view s' = view s"
  | (rows) rows where "res = Inr rows" "mset rows = mset (filter cond (ts_get S (view s)))"
      "view s' = view s"
proof -
  have "find_law view S (sql_find T)" using assms(1) by (simp add: sql_implements_def)
  then have "case sql_find T cond s of
       (Inl e, s') \<Rightarrow> db_error e \<and> view s' = view s
     | (Inr rows, s') \<Rightarrow> mset rows = mset (filter cond (ts_get S (view s))) \<and> view s' = view s"
    unfolding find_law_def by (rule allD2)
  with assms(2) that show thesis by (cases res) auto
qed

lemma sql_updateE:
  assumes "sql_implements view S T" and "sql_update T cond f s = (res, s')"
  obtains (error) e where "res = Inl e" "db_error e" "view s' = view s"
  | (rows) g where "res = Inr (count_rows cond (ts_get S (view s)))"
      "\<And>r. ts_norm S (g r) = ts_norm S (f r)"
      "view s' = ts_upd S (map (\<lambda>r. if cond r then g r else r)) (view s)"
proof -
  have "update_law view S (sql_update T)" using assms(1) by (simp add: sql_implements_def)
  then have "case sql_update T cond f s of
       (Inl e, s') \<Rightarrow> db_error e \<and> view s' = view s
     | (Inr n, s') \<Rightarrow> n = count_rows cond (ts_get S (view s)) \<and>
         (\<exists>g. (\<forall>r. ts_norm S (g r) = ts_norm S (f r)) \<and>
           view s' = ts_upd S (map (\<lambda>r. if cond r then g r else r)) (view s))"
    unfolding update_law_def by (rule allD3)
  with assms(2) that show thesis by (cases res) auto
qed

lemma sql_saveE:
  assumes "sql_implements view S T" and "sql_save T r s = (res, s')"
  obtains (error) e where "res = Inl e" "db_error e" "view s' = view s"
  | (row) r' where "res = Inr ()" "ts_norm S r' = ts_norm S r"
      "view s' = ts_upd S (save_rows (ts_same S) r') (view s)"
proof -
  have "save_law view S (sql_save T)" using assms(1) by (simp add: sql_implements_def)
  then have "case sql_save T r s of
       (Inl e, s') \<Rightarrow> db_error e \<and> view s' = view s
     | (Inr _, s') \<Rightarrow> \<exists>r'. ts_norm S r' = ts_norm S r \<and>
         view s' = ts_upd S (save_rows (ts_same S) r') (view s)"
    unfolding save_law_def by (rule allD2)
  with assms(2) that show thesis by (cases res) auto
qed

lemma sql_firstE:
  assumes "sql_implements view S T" and "sql_first T cond key s = (res, s')"
  obtains (error) e where "res = Inl e" "db_error e" "view s' = view s"
  | (none) "res = Inl (Sent RecordNotFound)" "\<forall>r\<in>set (ts_get S (view s)). \<not> cond r" "view s' = view s"
  | (row) r where "res = Inr r" "r \<in> set (ts_get S (view s))" "cond r"
      "\<forall>x\<in>set (ts_get S (view s)). cond x \<longrightarrow> key r \<le> key x" "view s' = view s"
proof -
  obtain q t where q: "sql_find T cond s = (q, t)" by fastforce
  show thesis
  proof (rule sql_findE [OF assms(1) q])
    fix e assume e: "q = Inl e" "db_error e" "view t = view s"
    with assms(2) q have "res = Inl e" "s' = t" by (simp_all add: sql_first_def bindE_def)
    with e show thesis by (intro error) simp_all
  next
    fix rows
    assume r: "q = Inr rows" "mset rows = mset (filter cond (ts_get S (view s)))" "view t = view s"
    have set_rows: "set rows = {x \<in> set (ts_get S (view s)). cond x}"
      using r(2) by (metis mset_eq_setD set_filter)
    show thesis
    proof (cases "sort_key key rows")
      case Nil
      then have "rows = []" by (metis length_0_conv length_sort)
      with set_rows have "\<forall>r\<in>set (ts_get S (view s)). \<not> cond r" by auto
      with Nil assms(2) q r none show thesis by (simp add: sql_first_def bindE_def raiseE_def)
    next
      case (Cons x xs)
      have "set (x # xs) = set rows" using Cons by (metis set_sort)
      moreover have "sorted (map key (x # xs))" using Cons by (metis sorted_sort_key)
      ultimately have x: "x \<in> set rows" "\<forall>y\<in>set rows. key x \<le> key y" by auto
      from Cons assms(2) q r(1) have "res = Inr x" "s' = t"
        by (simp_all add: sql_first_def bindE_def returnE_def)
      with x r(3) set_rows show thesis by (intro row) auto
    qed
  qed
qed

lemma sql_deleteE:
  assumes "sql_implements view S T" and "sql_delete T cond s = (res, s')"
  obtains (error) e where "res = Inl e" "db_error e" "view s' = view s"
  | (rows) "res = Inr (count_rows cond (ts_get S (view s)))"
      "view s' = ts_upd S (filter (\<lambda>r. \<not> cond r)) (view s)"
proof -
  have "delete_law view S (sql_delete T)" using assms(1) by (simp add: sql_implements_def)
  then have "case sql_delete T cond s of
       (Inl e, s') \<Rightarrow> db_error e \<and> view s' = view s
     | (Inr n, s') \<Rightarrow> n = count_rows cond (ts_get S (view s)) \<and>
         view s' = ts_upd S (filter (\<lambda>r. \<not> cond r)) (view s)"
    unfolding delete_law_def by (rule allD2)
  with assms(2) that show thesis by (cases res) auto
qed

lemma pluckE:
  assumes "query_law view pluck" and "pluck q s = (res, s')"
  obtains (error) e where "res = Inl e" "db_error e" "view s' = view s"
  | (rows) "res = Inr (q (view s))" "view s' = view s"
proof -
  have "case pluck q s of
       (Inl e, s') \<Rightarrow> db_error e \<and> view s' = view s
     | (Inr xs, s') \<Rightarrow> xs = q (view s) \<and> view s' = view s"
    using assms(1) unfolding query_law_def by (rule allD2)
  with assms(2) that show thesis by (cases res) auto
qed

lemma txE:
  assumes "tx_laws view tx" and "tx m s = (res, s')"
  obtains (error) e where "res = Inl e" "view s' = view s"
      "db_error e \<or> (\<exists>s1. view s1 = view s \<and> fst (m s1) = Inl e)"
  | (commit) a s1 s2 where "res = Inr a" "view s1 = view s" "m s1 = (Inr a, s2)" "view s' = view s2"
proof -
  have "case tx m s of
       (Inl e, s') \<Rightarrow> view s' = view s \<and>
         (db_error e \<or> (\<exists>s1. view s1 = view s \<and> fst (m s1) = Inl e))
     | (Inr a, s') \<Rightarrow> \<exists>s1 s2. view s1 = view s \<and> m s1 = (Inr a, s2) \<and> view s' = view s2"
    using assms(1) unfolding tx_laws_def by (rule allD2)
  with assms(2) that show thesis by (cases res) auto
qed

section \<open>A database in memory\<close>

text \<open>An instance of the interface: it fails only on a uniqueness violation.\<close>

definition mem_table :: "'row table_spec \<Rightarrow> (tables, 'row) sql_table" where
  "mem_table S = \<lparr>
     sql_create = (\<lambda>r t. if ts_uniq S (ts_get S t @ [r]) then (Inr (), ts_upd S (\<lambda>rows. rows @ [r]) t)
                    else (Inl (Sent UniqueViolation), t)),
     sql_find = (\<lambda>cond t. (Inr (filter cond (ts_get S t)), t)),
     sql_update = (\<lambda>cond f t. (Inr (count_rows cond (ts_get S t)),
                    ts_upd S (map (\<lambda>r. if cond r then f r else r)) t)),
     sql_save = (\<lambda>r t. (Inr (), ts_upd S (save_rows (ts_same S) r) t)),
     sql_delete = (\<lambda>cond t. (Inr (count_rows cond (ts_get S t)), ts_upd S (filter (\<lambda>r. \<not> cond r)) t))\<rparr>"

definition mem_tx :: "(tables, 'a) prog \<Rightarrow> (tables, 'a) prog" where
  "mem_tx m t = (case m t of (Inl e, _) \<Rightarrow> (Inl e, t) | (Inr a, t') \<Rightarrow> (Inr a, t'))"

lemma mem_table_implements: "sql_implements (\<lambda>t. t) S (mem_table S)"
  unfolding sql_implements_def create_law_def find_law_def update_law_def save_law_def delete_law_def
  by (auto simp: mem_table_def db_error_def)

definition mem_db :: "tables gorm_db" where
  "mem_db = \<lparr>gd_runs = mem_table runs_spec, gd_audits = mem_table audits_spec
   , gd_artifacts = mem_table artifacts_spec, gd_profiles = mem_table profiles_spec
   , gd_workspaces = mem_table workspaces_spec, gd_tasks = mem_table tasks_spec
   , gd_seats = mem_table seats_spec, gd_invocations = mem_table invocations_spec
   , gd_events = mem_table events_spec, gd_approvals = mem_table approvals_spec
   , gd_executions = mem_table executions_spec, gd_users = mem_table users_spec
   , gd_roles = mem_table roles_spec, gd_user_roles = mem_table user_roles_spec
   , gd_permissions = mem_table permissions_spec, gd_role_permissions = mem_table role_permissions_spec
   , gd_tokens = mem_table tokens_spec, gd_tx = mem_tx
   , gd_pluck = (\<lambda>q t. (Inr (q t), t)), gd_tx_string = mem_tx\<rparr>"

lemma mem_tx_laws: "tx_laws (\<lambda>t. t) mem_tx"
  unfolding tx_laws_def by (auto simp: mem_tx_def split: prod.splits sum.splits)

lemma mem_db_ok: "gorm_ok (\<lambda>t. t) mem_db"
  unfolding gorm_ok_def by (simp add: mem_db_def mem_table_implements mem_tx_laws query_law_def)

section \<open>Operations that leave a table alone\<close>

definition frames :: "('db \<Rightarrow> tables) \<Rightarrow> (tables \<Rightarrow> 'x) \<Rightarrow> ('db, 'a) prog \<Rightarrow> bool" where
  "frames view f m \<longleftrightarrow> (\<forall>s. f (view (snd (m s))) = f (view s))"

lemma framesD: "frames view f m \<Longrightarrow> m s = (q, s') \<Longrightarrow> f (view s') = f (view s)"
  unfolding frames_def by (metis snd_conv)

lemma frames_pure [intro]: "frames view f (returnE a)" "frames view f (raiseE e)"
  by (simp_all add: frames_def returnE_def raiseE_def)

lemma frames_bind [intro]: "frames view f m \<Longrightarrow> (\<And>a. frames view f (h a)) \<Longrightarrow> frames view f (bindE m h)"
  by (auto simp: frames_def bindE_def split: prod.splits sum.splits) (metis snd_conv)+

lemma frames_create:
  assumes "sql_implements view S T" "\<And>g t. f (ts_upd S g t) = f t"
  shows "frames view f (sql_create T r)"
  unfolding frames_def
proof
  fix s
  obtain q s' where e: "sql_create T r s = (q, s')" by fastforce
  show "f (view (snd (sql_create T r s))) = f (view s)"
    by (cases rule: sql_createE [OF assms(1) e]) (simp_all add: e assms(2))
qed

lemma frames_update:
  assumes "sql_implements view S T" "\<And>g t. f (ts_upd S g t) = f t"
  shows "frames view f (sql_update T c u)"
  unfolding frames_def
proof
  fix s
  obtain q s' where e: "sql_update T c u s = (q, s')" by fastforce
  show "f (view (snd (sql_update T c u s))) = f (view s)"
    by (cases rule: sql_updateE [OF assms(1) e]) (simp_all add: e assms(2))
qed

lemma frames_first:
  assumes "sql_implements view S T"
  shows "frames view f (sql_first T c key)"
  unfolding frames_def
proof
  fix s
  obtain q s' where e: "sql_first T c key s = (q, s')" by fastforce
  show "f (view (snd (sql_first T c key s))) = f (view s)"
    by (cases rule: sql_firstE [OF assms e]) (simp_all add: e)
qed

lemma frames_tx:
  assumes "tx_laws view tx" "frames view f m"
  shows "frames view f (tx m)"
  unfolding frames_def
proof
  fix s
  obtain q s' where e: "tx m s = (q, s')" by fastforce
  show "f (view (snd (tx m s))) = f (view s)"
  proof (cases rule: txE [OF assms(1) e])
    case (2 a s1 s2)
    with framesD [OF assms(2) 2(3)] show ?thesis by (simp add: e)
  qed (simp add: e)
qed

lemma frames_mapErr [intro]: "frames view f m \<Longrightarrow> frames view f (mapErr g m)"
  by (auto simp: frames_def mapErr_def split: prod.splits sum.splits) (metis snd_conv)+

lemma frames_try [intro]: "frames view f m \<Longrightarrow> frames view f (tryE m)"
  by (auto simp: frames_def tryE_def split: prod.splits) (metis snd_conv)

lemma frames_for [intro]: "(\<And>x. frames view f (h x)) \<Longrightarrow> frames view f (forE xs h)"
  by (induction xs) (auto intro: frames_pure frames_bind)

section \<open>The interface the repositories rely on\<close>

text \<open>The repositories' lemmas are proved in this locale; the database in memory is an
  interpretation of it.\<close>

locale gorm_store =
  fixes view :: "'db \<Rightarrow> tables" and D :: "'db gorm_db"
  assumes db: "gorm_ok view D"
begin

lemmas runs_ok = gorm_okD(1) [OF db]
lemmas audits_ok = gorm_okD(2) [OF db]
lemmas artifacts_ok = gorm_okD(3) [OF db]
lemmas tasks_ok = gorm_okD(6) [OF db]
lemmas seats_ok = gorm_okD(7) [OF db]
lemmas events_ok = gorm_okD(9) [OF db]
lemmas approvals_ok = gorm_okD(10) [OF db]
lemmas executions_ok = gorm_okD(11) [OF db]
lemmas users_ok = gorm_okD(12) [OF db]
lemmas roles_ok = gorm_okD(13) [OF db]
lemmas user_roles_ok = gorm_okD(14) [OF db]
lemmas permissions_ok = gorm_okD(15) [OF db]
lemmas role_permissions_ok = gorm_okD(16) [OF db]
lemmas tokens_ok = gorm_okD(17) [OF db]
lemmas tx_ok = gorm_okD(18) [OF db]
lemmas pluck_ok = gorm_okD(19) [OF db]
lemmas tx_string_ok = gorm_okD(20) [OF db]

end

interpretation mem: gorm_store "\<lambda>t. t" mem_db
  by unfold_locales (rule mem_db_ok)

end
