(* ===== verification/Go_Strings.thy ===== *)
theory Go_Strings
  imports Go_Prelude
begin

text \<open>
  The functions of Go's \<open>strings\<close>, \<open>strconv\<close> and \<open>unicode/utf8\<close> packages that the
  repository calls, over byte strings. White space is Unicode white space: its UTF-8
  encodings are listed in \<open>space_runes\<close>. Case mapping is exact for every comparison
  against an ASCII literal, which is the only use the code makes of it: besides the ASCII
  capitals, the two runes that \<open>unicode.ToLower\<close> sends into ASCII (the Kelvin sign and
  the dotted capital I) are mapped; other runes keep their bytes.
\<close>

section \<open>Prefixes, suffixes, splitting and joining\<close>

abbreviation has_prefix :: "string \<Rightarrow> string \<Rightarrow> bool" where
  "has_prefix s p \<equiv> prefix p s"

abbreviation has_suffix :: "string \<Rightarrow> string \<Rightarrow> bool" where
  "has_suffix s p \<equiv> suffix p s"

definition trim_prefix :: "string \<Rightarrow> string \<Rightarrow> string" where
  "trim_prefix s p = (if has_prefix s p then drop (length p) s else s)"

definition trim_suffix :: "string \<Rightarrow> string \<Rightarrow> string" where
  "trim_suffix s p = (if has_suffix s p then take (length s - length p) s else s)"

definition cut_prefix :: "string \<Rightarrow> string \<Rightarrow> string option" where
  "cut_prefix s p = (if has_prefix s p then Some (drop (length p) s) else None)"

text \<open>\<open>strings.Split\<close> with a one-byte separator; the result is never empty.\<close>

fun split_on :: "char \<Rightarrow> string \<Rightarrow> string list" where
  "split_on c [] = [[]]"
| "split_on c (x # xs) =
     (if x = c then [] # split_on c xs
      else (case split_on c xs of [] \<Rightarrow> [[x]] | y # ys \<Rightarrow> (x # y) # ys))"

fun join_with :: "string \<Rightarrow> string list \<Rightarrow> string" where
  "join_with sep [] = []"
| "join_with sep [x] = x"
| "join_with sep (x # y # ys) = x @ sep @ join_with sep (y # ys)"

lemma split_on_not_Nil [simp]: "split_on c s \<noteq> []"
  by (induction s) (auto split: list.splits)

lemma split_on_no_sep: "x \<in> set (split_on c s) \<Longrightarrow> c \<notin> set x"
  by (induction s arbitrary: x) (auto split: list.splits if_splits)

lemma join_with_Cons: "ys \<noteq> [] \<Longrightarrow> join_with sep (x # ys) = x @ sep @ join_with sep ys"
  by (cases ys) auto

lemma join_with_snoc: "xs \<noteq> [] \<Longrightarrow> join_with sep (xs @ [y]) = join_with sep xs @ sep @ y"
  by (induction xs rule: induct_list012) auto

lemma join_split [simp]: "join_with [c] (split_on c s) = s"
proof (induction s)
  case Nil
  show ?case by simp
next
  case (Cons x xs)
  then show ?case
    by (cases "split_on c xs"; cases "tl (split_on c xs)") (auto simp: join_with_Cons)
qed

lemma split_on_id: "c \<notin> set x \<Longrightarrow> split_on c x = [x]"
  by (induction x) auto

lemma split_on_append: "c \<notin> set x \<Longrightarrow> split_on c (x @ c # s) = x # split_on c s"
  by (induction x) auto

lemma split_join:
  "xs \<noteq> [] \<Longrightarrow> (\<And>x. x \<in> set xs \<Longrightarrow> c \<notin> set x) \<Longrightarrow> split_on c (join_with [c] xs) = xs"
proof (induction xs rule: induct_list012)
  case (3 x y zs)
  then show ?case by (simp add: split_on_append)
qed (auto simp: split_on_id)

lemma split_on_inject: "split_on c s = split_on c t \<longleftrightarrow> s = t"
  by (metis join_split)

definition contains_char :: "string \<Rightarrow> char \<Rightarrow> bool" where
  "contains_char s c \<longleftrightarrow> c \<in> set s"

section \<open>White space\<close>

definition byte :: "nat \<Rightarrow> char" where
  "byte n = char_of n"

text \<open>The UTF-8 encodings of the runes \<open>unicode.IsSpace\<close> accepts.\<close>

definition space_runes :: "string list" where
  "space_runes =
     map (\<lambda>n. [byte n]) [9, 10, 11, 12, 13, 32] @
     [[byte 0xC2, byte 0x85], [byte 0xC2, byte 0xA0], [byte 0xE1, byte 0x9A, byte 0x80]] @
     map (\<lambda>n. [byte 0xE2, byte 0x80, byte n]) ([0x80..<0x8B] @ [0xA8, 0xA9, 0xAF]) @
     [[byte 0xE2, byte 0x81, byte 0x9F], [byte 0xE3, byte 0x80, byte 0x80]]"

text \<open>The length of the white-space rune at the front, 0 if there is none.\<close>

definition strip_one :: "string list \<Rightarrow> string \<Rightarrow> nat" where
  "strip_one rs s = (case List.find (\<lambda>r. prefix r s) rs of None \<Rightarrow> 0 | Some r \<Rightarrow> length r)"

function strip_front :: "string list \<Rightarrow> string \<Rightarrow> string" where
  "strip_front rs s = (let n = strip_one rs s in if n = 0 \<or> s = [] then s else strip_front rs (drop n s))"
  by pat_completeness auto
termination
  by (relation "measure (\<lambda>(rs, s). length s)") auto

declare strip_front.simps [simp del]

definition trim_space :: "string \<Rightarrow> string" where
  "trim_space s = rev (strip_front (map rev space_runes) (rev (strip_front space_runes s)))"

lemma strip_front_suffix: "suffix (strip_front rs s) s"
proof (induction rs s rule: strip_front.induct)
  case (1 rs s)
  show ?case
  proof (cases "strip_one rs s = 0 \<or> s = []")
    case True
    then show ?thesis by (subst strip_front.simps) auto
  next
    case False
    with 1 have "suffix (strip_front rs (drop (strip_one rs s) s)) (drop (strip_one rs s) s)"
      by simp
    with False show ?thesis
      by (subst strip_front.simps) (auto intro: suffix_order.trans suffix_drop)
  qed
qed

lemma set_strip_front: "set (strip_front rs s) \<subseteq> set s"
  using strip_front_suffix by (rule set_mono_suffix)

lemma set_trim_space: "set (trim_space s) \<subseteq> set s"
  using set_strip_front [of "map rev space_runes" "rev (strip_front space_runes s)"]
    set_strip_front [of space_runes s] by (auto simp: trim_space_def)

text \<open>\<open>strings.Fields\<close>: the maximal runs without white space.\<close>

function fields_from :: "string \<Rightarrow> string \<Rightarrow> string list" where
  "fields_from acc s =
     (case s of [] \<Rightarrow> (if acc = [] then [] else [rev acc])
      | c # cs \<Rightarrow>
        (let n = strip_one space_runes s in
         if n = 0 then fields_from (c # acc) cs
         else (if acc = [] then [] else [rev acc]) @ fields_from [] (drop n s)))"
  by pat_completeness auto
termination
  by (relation "measure (\<lambda>(acc, s). length s)") (auto simp: Let_def)

declare fields_from.simps [simp del]

definition fields :: "string \<Rightarrow> string list" where
  "fields s = fields_from [] s"

section \<open>Letter case\<close>

definition lower_byte :: "char \<Rightarrow> char" where
  "lower_byte c = (let n = of_char c :: nat in if 65 \<le> n \<and> n \<le> 90 then char_of (n + 32) else c)"

fun to_lower :: "string \<Rightarrow> string" where
  "to_lower (a # b # c # s) =
     (if [a, b, c] = [byte 0xE2, byte 0x84, byte 0xAA] then CHR ''k'' # to_lower s
      else if [a, b] = [byte 0xC4, byte 0xB0] then CHR ''i'' # to_lower (c # s)
      else lower_byte a # to_lower (b # c # s))"
| "to_lower [a, b] =
     (if [a, b] = [byte 0xC4, byte 0xB0] then [CHR ''i''] else lower_byte a # to_lower [b])"
| "to_lower [a] = [lower_byte a]"
| "to_lower [] = []"

lemma to_lower_ascii:
  "list_all (\<lambda>c. of_char c < (128 :: nat)) s \<Longrightarrow> to_lower s = map lower_byte s"
proof (induction s rule: to_lower.induct)
  case (1 a b c s)
  then show ?case by (auto simp: byte_def)
next
  case (2 a b)
  then show ?case by (auto simp: byte_def)
qed simp_all

text \<open>\<open>strings.EqualFold\<close> where one side is an ASCII literal without \<open>k\<close> and \<open>s\<close>, the two
  letters that fold to runes outside ASCII.\<close>

definition equal_fold :: "string \<Rightarrow> string \<Rightarrow> bool" where
  "equal_fold s t \<longleftrightarrow> map lower_byte s = map lower_byte t"

section \<open>Numbers\<close>

definition digit_char :: "nat \<Rightarrow> char" where
  "digit_char d = char_of (48 + d)"

fun show_nat :: "nat \<Rightarrow> string" where
  "show_nat n = (if n < 10 then [digit_char n] else show_nat (n div 10) @ [digit_char (n mod 10)])"

declare show_nat.simps [simp del]

text \<open>\<open>strconv.Itoa\<close>, \<open>strconv.FormatInt(_, 10)\<close>\<close>

definition itoa :: "int \<Rightarrow> string" where
  "itoa i = (if i < 0 then CHR ''-'' # show_nat (nat (- i)) else show_nat (nat i))"

definition digit_val :: "char \<Rightarrow> nat option" where
  "digit_val c = (let n = of_char c :: nat in if 48 \<le> n \<and> n \<le> 57 then Some (n - 48) else None)"

fun parse_digits :: "nat \<Rightarrow> string \<Rightarrow> nat option" where
  "parse_digits acc [] = Some acc"
| "parse_digits acc (c # cs) =
     (case digit_val c of None \<Rightarrow> None | Some d \<Rightarrow> parse_digits (10 * acc + d) cs)"

text \<open>
  \<open>strconv.ParseInt(s, 10, 64)\<close> and \<open>strconv.Atoi\<close>: an optional sign, at least one
  digit, nothing else, in the range of \<open>int64\<close>.
\<close>

definition parse_int :: "string \<Rightarrow> int option" where
  "parse_int s =
     (let neg = (s \<noteq> [] \<and> hd s = CHR ''-'');
          ds = (if s \<noteq> [] \<and> (hd s = CHR ''-'' \<or> hd s = CHR ''+'') then tl s else s)
      in if ds = [] then None
         else case parse_digits 0 ds of None \<Rightarrow> None
           | Some n \<Rightarrow> if neg then (if n \<le> 2 ^ 63 then Some (- int n) else None)
                      else (if n < 2 ^ 63 then Some (int n) else None))"

lemma digit_val_digit_char: "d < 10 \<Longrightarrow> digit_val (digit_char d) = Some d"
  by (simp add: digit_val_def digit_char_def Let_def)

lemma digit_char_ASCII: "d < 10 \<Longrightarrow> of_char (digit_char d) = (48 + d :: nat)"
  by (simp add: digit_char_def)

lemma parse_digits_append:
  "parse_digits acc (xs @ ys) = Option.bind (parse_digits acc xs) (\<lambda>a. parse_digits a ys)"
  by (induction xs arbitrary: acc) (auto split: option.splits)

lemma parse_show_nat: "parse_digits 0 (show_nat n) = Some n"
proof (induction n rule: show_nat.induct)
  case (1 n)
  show ?case
  proof (cases "n < 10")
    case True
    then show ?thesis by (subst show_nat.simps) (simp add: digit_val_digit_char)
  next
    case False
    with 1 show ?thesis
      by (subst show_nat.simps) (simp add: parse_digits_append digit_val_digit_char)
  qed
qed

lemma set_show_nat: "c \<in> set (show_nat n) \<Longrightarrow> \<exists>d<10. c = digit_char d"
proof (induction n rule: show_nat.induct)
  case (1 n)
  then show ?case
    by (subst (asm) (2) show_nat.simps) (auto split: if_splits intro: exI [of _ "n mod 10"])
qed

lemma show_nat_not_Nil [simp]: "show_nat n \<noteq> []"
  by (subst show_nat.simps) simp

lemma show_nat_inject: "show_nat m = show_nat n \<longleftrightarrow> m = n"
  by (metis option.inject parse_show_nat)

lemma hd_show_nat: "hd (show_nat n) \<noteq> CHR ''-'' \<and> hd (show_nat n) \<noteq> CHR ''+''"
proof -
  have "hd (show_nat n) \<in> set (show_nat n)" by simp
  then obtain d where "d < 10" and "hd (show_nat n) = digit_char d"
    using set_show_nat by blast
  then have "of_char (hd (show_nat n)) = (48 + d :: nat)"
    by (simp add: digit_char_ASCII)
  then show ?thesis by auto
qed

lemma parse_itoa: "- (2 ^ 63) \<le> i \<Longrightarrow> i < 2 ^ 63 \<Longrightarrow> parse_int (itoa i) = Some i"
  using hd_show_nat [of "nat i"]
  by (auto simp: parse_int_def itoa_def parse_show_nat Let_def)

lemma itoa_inject: "itoa i = itoa j \<longleftrightarrow> i = j"
proof
  assume eq: "itoa i = itoa j"
  show "i = j"
  proof (cases "i < 0"; cases "j < 0")
    assume "\<not> i < 0" "j < 0"
    with eq show ?thesis using hd_show_nat [of "nat i"] by (auto simp: itoa_def)
  next
    assume "i < 0" "\<not> j < 0"
    with eq show ?thesis using hd_show_nat [of "nat j"]
      by (metis itoa_def list.sel(1))
  qed (use eq in \<open>auto simp: itoa_def show_nat_inject\<close>)
qed simp

section \<open>UTF-8\<close>

text \<open>
  The length of the valid UTF-8 sequence at the front of a byte string, 0 if there is
  none: the ranges of \<open>unicode/utf8\<close>'s table (no surrogates, no overlong forms, nothing
  above U+10FFFF).
\<close>

definition cont_byte :: "char \<Rightarrow> bool" where
  "cont_byte c \<longleftrightarrow> (let n = of_char c :: nat in 0x80 \<le> n \<and> n \<le> 0xBF)"

definition in_range :: "nat \<Rightarrow> nat \<Rightarrow> char \<Rightarrow> bool" where
  "in_range lo hi c \<longleftrightarrow> lo \<le> of_char c \<and> of_char c \<le> hi"

definition second_ok :: "char \<Rightarrow> char \<Rightarrow> bool" where
  "second_ok a b \<longleftrightarrow>
     (if a = byte 0xE0 then in_range 0xA0 0xBF b
      else if a = byte 0xED then in_range 0x80 0x9F b
      else if a = byte 0xF0 then in_range 0x90 0xBF b
      else if a = byte 0xF4 then in_range 0x80 0x8F b
      else cont_byte b)"

definition rune_len :: "string \<Rightarrow> nat" where
  "rune_len s =
     (case s of [] \<Rightarrow> 0
      | a # s1 \<Rightarrow>
        if in_range 0 0x7F a then 1
        else if in_range 0xC2 0xDF a then
          (case s1 of b # _ \<Rightarrow> if cont_byte b then 2 else 0 | _ \<Rightarrow> 0)
        else if in_range 0xE0 0xEF a then
          (case s1 of b # c # _ \<Rightarrow> if second_ok a b \<and> cont_byte c then 3 else 0 | _ \<Rightarrow> 0)
        else if in_range 0xF0 0xF4 a then
          (case s1 of b # c # d # _ \<Rightarrow>
             if second_ok a b \<and> cont_byte c \<and> cont_byte d then 4 else 0 | _ \<Rightarrow> 0)
        else 0)"

lemma rune_len_cases:
  assumes "rune_len s \<noteq> 0"
  obtains (one) a t where "s = a # t" "in_range 0 0x7F a"
  | (two) a b t where "s = a # b # t" "\<not> in_range 0 0x7F a" "in_range 0xC2 0xDF a" "cont_byte b"
  | (three) a b c t where "s = a # b # c # t" "\<not> in_range 0 0x7F a" "\<not> in_range 0xC2 0xDF a"
      "in_range 0xE0 0xEF a" "second_ok a b" "cont_byte c"
  | (four) a b c d t where "s = a # b # c # d # t" "\<not> in_range 0 0x7F a"
      "\<not> in_range 0xC2 0xDF a" "\<not> in_range 0xE0 0xEF a" "in_range 0xF0 0xF4 a"
      "second_ok a b" "cont_byte c" "cont_byte d"
proof (cases s)
  case Nil
  with assms show ?thesis by (simp add: rune_len_def)
next
  case (Cons a t)
  note s = Cons
  consider "in_range 0 0x7F a" | "\<not> in_range 0 0x7F a" "in_range 0xC2 0xDF a"
    | "\<not> in_range 0 0x7F a" "\<not> in_range 0xC2 0xDF a" "in_range 0xE0 0xEF a"
    | "\<not> in_range 0 0x7F a" "\<not> in_range 0xC2 0xDF a" "\<not> in_range 0xE0 0xEF a" "in_range 0xF0 0xF4 a"
    using assms by (auto simp: s rune_len_def split: if_splits)
  then show ?thesis
  proof cases
    case 1
    then show ?thesis using one s by blast
  next
    case 2
    with assms s obtain b u where "t = b # u" "cont_byte b"
      by (cases t) (auto simp: rune_len_def split: if_splits)
    with 2 s two show ?thesis by blast
  next
    case 3
    with assms s obtain b c u where "t = b # c # u" "second_ok a b" "cont_byte c"
      by (cases t; cases "tl t") (auto simp: rune_len_def split: if_splits)
    with 3 s three show ?thesis by blast
  next
    case 4
    with assms s obtain b c d u where "t = b # c # d # u" "second_ok a b" "cont_byte c" "cont_byte d"
      by (cases t; cases "tl t"; cases "tl (tl t)") (auto simp: rune_len_def split: if_splits)
    with 4 s four show ?thesis by blast
  qed
qed

lemma rune_len_le: "rune_len s \<le> length s"
  by (auto simp: rune_len_def split: list.splits)

function utf8_valid :: "string \<Rightarrow> bool" where
  "utf8_valid s =
     (if s = [] then True
      else if rune_len s = 0 then False else utf8_valid (drop (rune_len s) s))"
  by pat_completeness auto
termination
  by (relation "measure length") auto

declare utf8_valid.simps [simp del]

lemma utf8_valid_Nil [simp]: "utf8_valid []"
  by (subst utf8_valid.simps) simp

lemma utf8_valid_ASCII_Cons: "of_char c < (128 :: nat) \<Longrightarrow> utf8_valid (c # s) = utf8_valid s"
  by (subst utf8_valid.simps) (simp add: rune_len_def in_range_def)

section \<open>Text without white space at its ends\<close>

definition space_bytes :: "char set" where
  "space_bytes = \<Union> (set ` set space_runes)"

lemma strip_one_bytes: "set (take (strip_one rs s) s) \<subseteq> \<Union> (set ` set rs)"
proof (cases "List.find (\<lambda>r. prefix r s) rs")
  case (Some r)
  then have "r \<in> set rs" "prefix r s" using find_Some_in by fastforce+
  with Some show ?thesis by (auto simp: strip_one_def prefix_def)
qed (simp add: strip_one_def)

lemma strip_front_id:
  assumes "s \<noteq> [] \<Longrightarrow> hd s \<notin> \<Union> (set ` set rs)"
  shows "strip_front rs s = s"
proof (cases "strip_one rs s = 0 \<or> s = []")
  case True
  then show ?thesis by (subst strip_front.simps) auto
next
  case False
  then have "hd s \<in> set (take (strip_one rs s) s)" by (cases s; cases "strip_one rs s") auto
  with False assms strip_one_bytes [of rs s] show ?thesis by auto
qed

lemma trim_space_id:
  assumes "s \<noteq> []" "hd s \<notin> space_bytes" "last s \<notin> space_bytes"
  shows "trim_space s = s"
  using assms by (simp add: trim_space_def strip_front_id space_bytes_def hd_rev)

lemma graphic_not_space: "32 < (of_char c :: nat) \<Longrightarrow> (of_char c :: nat) < 127 \<Longrightarrow> c \<notin> space_bytes"
  by (auto simp: space_bytes_def space_runes_def byte_def upt_rec)

end
