(* ===== verification/Json_Encode.thy ===== *)
theory Json_Encode
  imports Go_Strings
begin

text \<open>
  The part of \<open>encoding/json\<close>'s \<open>Marshal\<close> that approval snapshots and artifacts use:
  strings (with the HTML escapes \<open>Marshal\<close> applies, \<open>\\ufffd\<close> for bytes that are not
  UTF-8, and the escapes of U+2028 and U+2029), integers, slices (a nil slice is
  \<open>null\<close>) and structs as sequences of fields.

  The encoders are self-delimiting: \<open>unambiguous P enc\<close> says that an encoded value can be
  read off the front of any text that starts with it. The last lemmas compose it over
  strings, integers, slices and structs; they are what makes a hash of the encoding
  identify the value.
\<close>

section \<open>Strings\<close>

abbreviation quote :: char where "quote \<equiv> CHR 0x22"
abbreviation backslash :: char where "backslash \<equiv> CHR 0x5C"

definition hex_digit :: "nat \<Rightarrow> char" where
  "hex_digit n = (if n < 10 then char_of (48 + n) else char_of (87 + n))"

text \<open>The escape of one byte below 0x80.\<close>

definition json_ascii :: "char \<Rightarrow> string" where
  "json_ascii c =
     (let n = of_char c :: nat in
      if c = backslash \<or> c = quote then [backslash, c]
      else if n = 8 then [backslash, CHR ''b'']
      else if n = 12 then [backslash, CHR ''f'']
      else if n = 10 then [backslash, CHR ''n'']
      else if n = 13 then [backslash, CHR ''r'']
      else if n = 9 then [backslash, CHR ''t'']
      else if n < 32 \<or> c = CHR ''<'' \<or> c = CHR ''>'' \<or> c = CHR ''&''
        then [backslash, CHR ''u'', CHR ''0'', CHR ''0'', hex_digit (n div 16), hex_digit (n mod 16)]
      else [c])"

definition json_rune :: "string \<Rightarrow> string" where
  "json_rune r =
     (if length r = 1 then json_ascii (hd r)
      else if r = [byte 0xE2, byte 0x80, byte 0xA8] then backslash # ''u2028''
      else if r = [byte 0xE2, byte 0x80, byte 0xA9] then backslash # ''u2029''
      else r)"

function json_body :: "string \<Rightarrow> string" where
  "json_body s =
     (if s = [] then []
      else let n = rune_len s in
        if n = 0 then (backslash # ''ufffd'') @ json_body (tl s)
        else json_rune (take n s) @ json_body (drop n s))"
  by pat_completeness auto
termination
  by (relation "measure length") auto

declare json_body.simps [simp del]

definition json_string :: "string \<Rightarrow> string" where
  "json_string s = quote # json_body s @ [quote]"

section \<open>Reading an encoded string back\<close>

text \<open>A decoder for one escaped rune, used only to show that the encoding is injective.\<close>

definition hex_val :: "char \<Rightarrow> nat" where
  "hex_val c = (let n = of_char c :: nat in if n < 58 then n - 48 else n - 87)"

definition unescape :: "string \<Rightarrow> string \<times> string" where
  "unescape s =
     (case s of
        [] \<Rightarrow> ([], [])
      | c # s1 \<Rightarrow>
        if c \<noteq> backslash then (take (rune_len s) s, drop (rune_len s) s)
        else (case s1 of
            [] \<Rightarrow> ([], [])
          | e # s2 \<Rightarrow>
            if e = CHR ''b'' then ([byte 8], s2)
            else if e = CHR ''f'' then ([byte 12], s2)
            else if e = CHR ''n'' then ([byte 10], s2)
            else if e = CHR ''r'' then ([byte 13], s2)
            else if e = CHR ''t'' then ([byte 9], s2)
            else if e = CHR ''u'' then
              (if take 4 s2 = ''2028'' then ([byte 0xE2, byte 0x80, byte 0xA8], drop 4 s2)
               else if take 4 s2 = ''2029'' then ([byte 0xE2, byte 0x80, byte 0xA9], drop 4 s2)
               else ([byte (16 * hex_val (s2 ! 2) + hex_val (s2 ! 3))], drop 4 s2))
            else ([e], s2)))"

definition is_rune :: "string \<Rightarrow> bool" where
  "is_rune r \<longleftrightarrow> r \<noteq> [] \<and> rune_len r = length r"

lemma rune_len_append: "rune_len s \<noteq> 0 \<Longrightarrow> rune_len (s @ t) = rune_len s"
  by (erule rune_len_cases) (simp_all add: rune_len_def)

lemma is_rune_take: "rune_len s \<noteq> 0 \<Longrightarrow> is_rune (take (rune_len s) s)"
  by (erule rune_len_cases) (simp_all add: rune_len_def is_rune_def)

lemma is_rune_single: "is_rune [c] \<longleftrightarrow> of_char c < (128 :: nat)"
  by (auto simp: is_rune_def rune_len_def in_range_def)

lemma byte_inverse [simp]: "n < 256 \<Longrightarrow> of_char (byte n) = n"
  by (simp add: byte_def)

lemma byte_of_char [simp]: "byte (of_char c) = c"
  by (simp add: byte_def)

lemma char_eq_iff_nat: "c = d \<longleftrightarrow> (of_char c :: nat) = of_char d"
  by simp

lemma hex_digit_inverse: "n < 16 \<Longrightarrow> hex_val (hex_digit n) = n"
  by (auto simp: hex_val_def hex_digit_def Let_def)

lemma multibyte_hd: "is_rune r \<Longrightarrow> length r \<noteq> 1 \<Longrightarrow> of_char (hd r) \<ge> (128 :: nat)"
  by (cases "in_range 0 0x7F (hd r)"; cases r) (auto simp: is_rune_def rune_len_def in_range_def)

lemma unescape_ascii_byte:
  assumes "n < 128"
  shows "unescape (json_ascii (byte n) @ t) = ([byte n], t)"
proof -
  have n: "of_char (byte n) = n" using assms by simp
  have one: "rune_len (byte n # t) = Suc 0"
    using assms by (simp add: rune_len_def in_range_def)
  have "n div 16 < 16" "n mod 16 < 16" using assms by auto
  then have hex: "byte (16 * hex_val (hex_digit (n div 16)) + hex_val (hex_digit (n mod 16)))
      = byte n"
    by (simp add: hex_digit_inverse)
  have u: "unescape (backslash # CHR ''u'' # CHR ''0'' # CHR ''0''
      # hex_digit (n div 16) # hex_digit (n mod 16) # t) = ([byte n], t)"
    by (simp add: unescape_def hex)
  let ?esc = "n < 32 \<or> byte n = CHR ''<'' \<or> byte n = CHR ''>'' \<or> byte n = CHR ''&''"
  consider "byte n = backslash \<or> byte n = quote" | "n \<in> {8, 9, 10, 12, 13}"
    | "byte n \<noteq> backslash" "byte n \<noteq> quote" "n \<notin> {8, 9, 10, 12, 13}" "?esc"
    | "byte n \<noteq> backslash" "byte n \<noteq> quote" "n \<notin> {8, 9, 10, 12, 13}" "\<not> ?esc"
    by blast
  then show ?thesis
  proof cases
    case 1
    then show ?thesis by (auto simp: json_ascii_def unescape_def)
  next
    case 2
    then have "byte n \<noteq> backslash" "byte n \<noteq> quote" by (auto simp: byte_def char_eq_iff_nat)
    with 2 n show ?thesis by (auto simp: json_ascii_def unescape_def Let_def)
  next
    case 3
    then have "json_ascii (byte n) = backslash # CHR ''u'' # CHR ''0'' # CHR ''0''
        # [hex_digit (n div 16), hex_digit (n mod 16)]"
      unfolding json_ascii_def Let_def n by simp
    with u show ?thesis by simp
  next
    case 4
    then have "json_ascii (byte n) = [byte n]"
      unfolding json_ascii_def Let_def n by simp
    with 4 one show ?thesis by (simp add: unescape_def)
  qed
qed

lemma unescape_ascii: "of_char c < (128 :: nat) \<Longrightarrow> unescape (json_ascii c @ t) = ([c], t)"
  using unescape_ascii_byte [of "of_char c"] by simp

lemma unescape_rune:
  assumes "is_rune r"
  shows "unescape (json_rune r @ t) = (r, t)"
proof (cases "length r = 1")
  case True
  then obtain c where r: "r = [c]" by (auto simp: length_Suc_conv)
  with assms have "of_char c < (128 :: nat)" by (simp add: is_rune_single)
  with r show ?thesis by (simp add: json_rune_def unescape_ascii)
next
  case False
  note big = multibyte_hd [OF assms False]
  show ?thesis
  proof (cases "r = [byte 0xE2, byte 0x80, byte 0xA8] \<or> r = [byte 0xE2, byte 0x80, byte 0xA9]")
    case True
    then show ?thesis by (auto simp: json_rune_def unescape_def)
  next
    case False
    have "of_char backslash < (128 :: nat)" by simp
    with big have "hd r \<noteq> backslash" by (metis not_le)
    moreover have "r \<noteq> []" "rune_len (r @ t) = length r"
      using assms rune_len_append [of r t] by (auto simp: is_rune_def)
    ultimately have "unescape (r @ t) = (r, t)"
      by (cases r) (simp_all add: unescape_def)
    with False \<open>length r \<noteq> 1\<close> show ?thesis by (simp add: json_rune_def)
  qed
qed

text \<open>No encoded rune starts with the closing quote.\<close>

lemma json_ascii_not_quote: "json_ascii c \<noteq> [] \<and> hd (json_ascii c) \<noteq> quote"
proof (cases "c = quote")
  case True
  then show ?thesis by (simp add: json_ascii_def)
next
  case False
  then show ?thesis unfolding json_ascii_def Let_def
    by (simp only: False if_False simp_thms split: if_split) (simp add: False)
qed

lemma json_rune_not_quote:
  assumes "is_rune r"
  shows "json_rune r \<noteq> [] \<and> hd (json_rune r) \<noteq> quote"
proof (cases "length r = 1")
  case True
  then show ?thesis by (simp add: json_rune_def json_ascii_not_quote)
next
  case False
  have "of_char quote < (128 :: nat)" by simp
  with multibyte_hd [OF assms False] have "hd r \<noteq> quote" by (metis not_le)
  moreover have "r \<noteq> []" using assms by (simp add: is_rune_def)
  ultimately show ?thesis using False by (simp add: json_rune_def)
qed

section \<open>Self-delimiting encoders\<close>

definition unambiguous :: "('a \<Rightarrow> bool) \<Rightarrow> ('a \<Rightarrow> string) \<Rightarrow> bool" where
  "unambiguous P enc \<longleftrightarrow>
     (\<forall>x y r t. P x \<longrightarrow> P y \<longrightarrow> enc x @ r = enc y @ t \<longrightarrow> x = y \<and> r = t)"

lemma unambiguousI:
  assumes "\<And>x y r t. P x \<Longrightarrow> P y \<Longrightarrow> enc x @ r = enc y @ t \<Longrightarrow> x = y \<and> r = t"
  shows "unambiguous P enc"
  unfolding unambiguous_def by (intro allI impI) (rule assms)

lemma unambiguousD:
  assumes "unambiguous P enc" "enc x @ r = enc y @ t" "P x" "P y"
  shows "x = y \<and> r = t"
  using assms(1) [unfolded unambiguous_def, rule_format, OF assms(3,4,2)] .

lemma unambiguous_inject: "unambiguous P enc \<Longrightarrow> enc x = enc y \<Longrightarrow> P x \<Longrightarrow> P y \<Longrightarrow> x = y"
  using unambiguousD [of P enc x "[]" y "[]"] by simp

lemma json_body_step:
  assumes "utf8_valid s" "s \<noteq> []"
  obtains r s' where "s = r @ s'" "is_rune r" "utf8_valid s'" "json_body s = json_rune r @ json_body s'"
proof
  from assms have n: "rune_len s \<noteq> 0" and v: "utf8_valid (drop (rune_len s) s)"
    by (subst (asm) utf8_valid.simps; simp split: if_splits)+
  show "s = take (rune_len s) s @ drop (rune_len s) s" by simp
  show "is_rune (take (rune_len s) s)" using n by (rule is_rune_take)
  show "utf8_valid (drop (rune_len s) s)" by (rule v)
  show "json_body s = json_rune (take (rune_len s) s) @ json_body (drop (rune_len s) s)"
    using n assms(2) by (subst json_body.simps) (simp add: Let_def)
qed

lemma json_body_Nil [simp]: "json_body [] = []"
  by (subst json_body.simps) simp

lemma json_body_unambiguous:
  "utf8_valid x \<Longrightarrow> utf8_valid y \<Longrightarrow>
   json_body x @ quote # r = json_body y @ quote # t \<Longrightarrow> x = y \<and> r = t"
proof (induction "length x" arbitrary: x y rule: less_induct)
  case less
  show ?case
  proof (cases "x = [] \<or> y = []")
    case True
    have *: False if h1: "utf8_valid z" and h2: "z \<noteq> []" and h3: "json_body z @ quote # u = quote # v"
      for z u v
    proof -
      obtain c z' where "is_rune c" "json_body z = json_rune c @ json_body z'"
        using json_body_step [OF h1 h2] by metis
      with json_rune_not_quote [of c] h3 show False
        by (cases "json_rune c") auto
    qed
    from True less.prems * [of x r t] * [of y t r] show ?thesis
      by (cases "x = []"; cases "y = []") auto
  next
    case False
    then have xne: "x \<noteq> []" and yne: "y \<noteq> []" by auto
    obtain u x' where x: "x = u @ x'" "is_rune u" "utf8_valid x'"
      "json_body x = json_rune u @ json_body x'"
      using json_body_step [OF less.prems(1) xne] .
    obtain v y' where y: "y = v @ y'" "is_rune v" "utf8_valid y'"
      "json_body y = json_rune v @ json_body y'"
      using json_body_step [OF less.prems(2) yne] .
    have "unescape (json_rune u @ json_body x' @ quote # r)
        = unescape (json_rune v @ json_body y' @ quote # t)"
      using less.prems(3) x(4) y(4) by simp
    then have "u = v" and rest: "json_body x' @ quote # r = json_body y' @ quote # t"
      by (simp_all add: unescape_rune x(2) y(2))
    moreover have "length x' < length x" using x(1,2) by (auto simp: is_rune_def)
    ultimately show ?thesis using less.hyps [OF _ x(3) y(3) rest] x(1) y(1) by simp
  qed
qed

lemma json_string_unambiguous: "unambiguous utf8_valid json_string"
proof (rule unambiguousI)
  fix x y r t
  assume "utf8_valid x" "utf8_valid y" "json_string x @ r = json_string y @ t"
  then show "x = y \<and> r = t"
    by (intro json_body_unambiguous) (simp_all add: json_string_def)
qed

section \<open>Integers, slices and structs\<close>

text \<open>An integer is followed by a byte that is no digit, so its end can be found.\<close>

definition json_int_then :: "char \<Rightarrow> int \<Rightarrow> string" where
  "json_int_then c i = itoa i @ [c]"

lemma digits_then_inject:
  assumes "\<And>d. d \<in> set u \<Longrightarrow> d \<noteq> c" "\<And>d. d \<in> set v \<Longrightarrow> d \<noteq> c" "u @ c # r = v @ c # t"
  shows "u = v \<and> r = t"
  using assms
proof (induction u arbitrary: v)
  case Nil
  then show ?case by (cases v) auto
next
  case (Cons a u)
  then show ?case by (cases v) auto
qed

lemma set_itoa: "d \<in> set (itoa i) \<Longrightarrow> d = CHR ''-'' \<or> (\<exists>n<10. d = digit_char n)"
  using set_show_nat by (auto simp: itoa_def split: if_splits)

lemma json_int_unambiguous:
  assumes "c = CHR '','' \<or> c = CHR ''}''"
  shows "unambiguous (\<lambda>_. True) (json_int_then c)"
proof (rule unambiguousI)
  fix x y r t
  assume eq: "json_int_then c x @ r = json_int_then c y @ t"
  have nod: "d \<noteq> c" if d: "d \<in> set (itoa i)" for d i
  proof -
    consider "d = CHR ''-''" | n where "n < 10" "of_char d = (48 + n :: nat)"
      using set_itoa [OF d] digit_char_ASCII by blast
    moreover have "of_char c = (44 :: nat) \<or> of_char c = (125 :: nat)"
      using assms by auto
    ultimately show ?thesis using assms by cases auto
  qed
  have "itoa x = itoa y \<and> r = t"
    using eq by (intro digits_then_inject [OF nod nod]) (simp_all add: json_int_then_def)
  then show "x = y \<and> r = t" by (simp add: itoa_inject)
qed

text \<open>An object key with its colon.\<close>

definition json_key :: "string \<Rightarrow> string" where
  "json_key k = quote # k @ [quote, CHR '':'']"

text \<open>The elements of a non-empty slice, after the opening bracket.\<close>

fun json_elems :: "('a \<Rightarrow> string) \<Rightarrow> 'a list \<Rightarrow> string" where
  "json_elems enc [] = '']''"
| "json_elems enc [x] = enc x @ '']''"
| "json_elems enc (x # xs) = enc x @ '','' @ json_elems enc xs"

definition json_slice :: "('a \<Rightarrow> string) \<Rightarrow> 'a slice \<Rightarrow> string" where
  "json_slice enc s = (case s of None \<Rightarrow> ''null'' | Some xs \<Rightarrow> ''['' @ json_elems enc xs)"

text \<open>The encoder of an element never starts with a closing bracket.\<close>

definition starts_well :: "('a \<Rightarrow> bool) \<Rightarrow> ('a \<Rightarrow> string) \<Rightarrow> bool" where
  "starts_well P enc \<longleftrightarrow> (\<forall>x. P x \<longrightarrow> enc x \<noteq> [] \<and> hd (enc x) \<noteq> CHR '']'')"

lemma json_elems_unambiguous:
  assumes enc: "unambiguous P enc" and st: "starts_well P enc"
  shows "list_all P xs \<Longrightarrow> list_all P ys \<Longrightarrow>
    json_elems enc xs @ r = json_elems enc ys @ t \<Longrightarrow> xs = ys \<and> r = t"
proof (induction xs arbitrary: ys)
  case Nil
  show ?case
  proof (cases ys)
    case (Cons y ys')
    with Nil.prems(2) st obtain a b where "enc y = a # b" "a \<noteq> CHR '']''"
      by (cases "enc y") (auto simp: starts_well_def)
    with Nil.prems(3) Cons show ?thesis by (cases ys') auto
  qed (use Nil.prems in simp)
next
  case (Cons x xs)
  show ?case
  proof (cases ys)
    case Nil
    from Cons.prems(1) st obtain a b where "enc x = a # b" "a \<noteq> CHR '']''"
      by (cases "enc x") (auto simp: starts_well_def)
    with Cons.prems(3) Nil show ?thesis by (cases xs) auto
  next
    case (Cons y ys')
    define rx where "rx = (if xs = [] then '']'' else '','' @ json_elems enc xs)"
    define ry where "ry = (if ys' = [] then '']'' else '','' @ json_elems enc ys')"
    have "enc x @ rx @ r = enc y @ ry @ t"
      using Cons.prems(3) Cons by (cases xs; cases ys') (simp_all add: rx_def ry_def)
    then have "x = y" and rest: "rx @ r = ry @ t"
      using unambiguousD [OF enc] Cons.prems(1,2) Cons by auto
    from rest have "(xs = []) = (ys' = [])" by (auto simp: rx_def ry_def split: if_splits)
    then have "json_elems enc xs @ r = json_elems enc ys' @ t"
      using rest by (auto simp: rx_def ry_def split: if_splits)
    then have "xs = ys' \<and> r = t"
      using Cons.prems(1,2) Cons by (intro Cons.IH) auto
    with \<open>x = y\<close> Cons show ?thesis by simp
  qed
qed

lemma json_slice_unambiguous:
  assumes "unambiguous P enc" "starts_well P enc"
  shows "unambiguous (\<lambda>s. list_all P (elems s)) (json_slice enc)"
proof (rule unambiguousI)
  fix x y r t
  assume p: "list_all P (elems x)" "list_all P (elems y)"
    and eq: "json_slice enc x @ r = json_slice enc y @ t"
  show "x = y \<and> r = t"
  proof (cases x; cases y)
    fix xs ys
    assume s: "x = Some xs" "y = Some ys"
    have "xs = ys \<and> r = t"
      using p eq s by (intro json_elems_unambiguous [OF assms]) (simp_all add: json_slice_def)
    with s show ?thesis by simp
  qed (use eq in \<open>simp_all add: json_slice_def\<close>)
qed

lemma json_slice_starts: "starts_well P (json_slice enc)"
  by (auto simp: starts_well_def json_slice_def split: option.splits)

lemma json_string_starts: "starts_well P json_string"
  by (simp add: starts_well_def json_string_def)

text \<open>
  A struct is encoded field by field: constant text, the field, then the remaining
  fields. \<open>unambiguous_inj\<close> reads a record as the tuple of its fields.
\<close>

definition fieldE :: "string \<Rightarrow> ('a \<Rightarrow> string) \<Rightarrow> ('b \<Rightarrow> string) \<Rightarrow> 'a \<times> 'b \<Rightarrow> string" where
  "fieldE c e f = (\<lambda>(x, y). c @ e x @ f y)"

definition lastE :: "string \<Rightarrow> ('a \<Rightarrow> string) \<Rightarrow> string \<Rightarrow> 'a \<Rightarrow> string" where
  "lastE c e d = (\<lambda>x. c @ e x @ d)"

lemma unambiguous_field:
  assumes "unambiguous P e" "unambiguous Q f"
  shows "unambiguous (\<lambda>(x, y). P x \<and> Q y) (fieldE c e f)"
proof (rule unambiguousI)
  fix u v r t
  assume p: "case u of (x, y) \<Rightarrow> P x \<and> Q y" "case v of (x, y) \<Rightarrow> P x \<and> Q y"
    and eq: "fieldE c e f u @ r = fieldE c e f v @ t"
  obtain x y x' y' where uv: "u = (x, y)" "v = (x', y')" by fastforce
  with eq have "e x @ f y @ r = e x' @ f y' @ t" by (simp add: fieldE_def)
  with p uv have "x = x'" and rest: "f y @ r = f y' @ t"
    using unambiguousD [OF assms(1)] by auto
  from unambiguousD [OF assms(2) rest] p uv \<open>x = x'\<close> show "u = v \<and> r = t" by auto
qed

lemma unambiguous_last:
  assumes "unambiguous P e"
  shows "unambiguous P (lastE c e d)"
proof (rule unambiguousI)
  fix x y r t
  assume "P x" "P y" "lastE c e d x @ r = lastE c e d y @ t"
  then show "x = y \<and> r = t" using unambiguousD [OF assms, of x "d @ r" y "d @ t"]
    by (auto simp: lastE_def)
qed

lemma unambiguous_inj:
  assumes "\<And>x. enc x = e (g x)" "unambiguous P e" "\<And>x. Q x \<Longrightarrow> P (g x)"
    and "\<And>x y. g x = g y \<Longrightarrow> x = y"
  shows "unambiguous Q enc"
proof (rule unambiguousI)
  fix x y r t
  assume "Q x" "Q y" "enc x @ r = enc y @ t"
  then have "g x = g y \<and> r = t"
    by (intro unambiguousD [OF assms(2)] assms(3)) (simp_all add: assms(1))
  then show "x = y \<and> r = t" using assms(4) by blast
qed

lemmas json_strings_unambiguous =
  json_slice_unambiguous [OF json_string_unambiguous json_string_starts]

lemmas json_struct = unambiguous_field unambiguous_last json_string_unambiguous
  json_strings_unambiguous json_int_unambiguous [of "CHR '',''", simplified]

end
