(* ===== verification/Run_Repository.thy ===== *)
theory Run_Repository
  imports Storage Run_State Json_Encode
begin

text \<open>
  \<open>internal/storage/sqlite/run_repository.go\<close>: runs with an optimistic version and an
  append-only audit log. Every change of a run and its audit event are one transaction.
\<close>

section \<open>Operations\<close>

record run =
  run_ID :: string
  run_State :: string
  run_Version :: nat

text \<open>\<open>audit.Event\<close> of \<open>internal/core/audit\<close>.\<close>

record audit_event =
  ae_ID :: string
  ae_RunID :: string
  ae_Sequence :: nat
  ae_Type :: string
  ae_Actor :: string
  ae_Detail :: string
  ae_CreatedAt :: timestamp

text \<open>\<open>newID\<close>: the hex encoding of the 16 random bytes read.\<close>

definition new_id :: "char list \<Rightarrow> string" where
  "new_id value =
     concat (map (\<lambda>c. [hex_digit (of_char c div 16), hex_digit (of_char c mod 16)]) value)"

definition uint64 :: "nat \<Rightarrow> nat" where
  "uint64 n = n mod 2 ^ 64"

definition create_tx ::
  "'db gorm_db \<Rightarrow> char list \<Rightarrow> string \<Rightarrow> run_state \<Rightarrow> ('db, unit) prog" where
  "create_tx D rnd rid state =
     bindE (sql_create (gd_runs D)
         \<lparr>rr_ID = rid, rr_State = state, rr_Version = 1, rr_CreatedAt = 0, rr_UpdatedAt = 0\<rparr>)
       (\<lambda>_. sql_create (gd_audits D)
         \<lparr>au_ID = new_id rnd, au_RunID = rid, au_Sequence = 1, au_Type = ''run.created'',
          au_Actor = ''system'', au_Detail = ''run created'', au_CreatedAt = 0\<rparr>)"

definition run_create ::
  "'db gorm_db \<Rightarrow> char list \<Rightarrow> string \<Rightarrow> run_state \<Rightarrow> ('db, unit) prog" where
  "run_create D rnd rid state = gd_tx D (create_tx D rnd rid state)"

text \<open>The body of the transaction in \<open>Transition\<close>, from the guarded update on, and whole.\<close>

definition advance_run ::
  "'db gorm_db \<Rightarrow> char list \<Rightarrow> string \<Rightarrow> run_state \<Rightarrow> string \<Rightarrow> string \<Rightarrow> nat \<Rightarrow> ('db, unit) prog" where
  "advance_run D rnd rid next_state actor detail version =
     (let next_version = uint64 (version + 1) in
      bindE (sql_update (gd_runs D)
          (\<lambda>r. rr_ID r = rid \<and> rr_Version r = version)
          (\<lambda>r. r\<lparr>rr_State := next_state, rr_Version := next_version\<rparr>)) (\<lambda>rows_affected.
      if rows_affected \<noteq> 1 then raiseE (Sent ErrConcurrentTransition)
      else sql_create (gd_audits D)
        \<lparr>au_ID = new_id rnd, au_RunID = rid, au_Sequence = next_version,
         au_Type = ''state.transition'', au_Actor = actor, au_Detail = detail,
         au_CreatedAt = 0\<rparr>))"

definition transition_tx ::
  "'db gorm_db \<Rightarrow> char list \<Rightarrow> string \<Rightarrow> run_state \<Rightarrow> string \<Rightarrow> string \<Rightarrow> ('db, unit) prog" where
  "transition_tx D rnd rid next_state actor detail =
     bindE (sql_first (gd_runs D) (\<lambda>r. rr_ID r = rid) rr_ID) (\<lambda>current.
       if \<not> can_transition (rr_State current) next_state
       then raiseE (Sent ErrIllegalTransition)
       else advance_run D rnd rid next_state actor detail (rr_Version current))"

definition run_transition ::
  "'db gorm_db \<Rightarrow> char list \<Rightarrow> string \<Rightarrow> run_state \<Rightarrow> string \<Rightarrow> string \<Rightarrow> ('db, unit) prog" where
  "run_transition D rnd rid next_state actor detail =
     gd_tx D (transition_tx D rnd rid next_state actor detail)"

definition audit_of :: "audit_record \<Rightarrow> audit_event" where
  "audit_of item = \<lparr>ae_ID = au_ID item, ae_RunID = au_RunID item, ae_Sequence = au_Sequence item,
     ae_Type = au_Type item, ae_Actor = au_Actor item, ae_Detail = au_Detail item,
     ae_CreatedAt = au_CreatedAt item\<rparr>"

definition run_load :: "'db gorm_db \<Rightarrow> string \<Rightarrow> ('db, run \<times> audit_event list) prog" where
  "run_load D rid =
     bindE (sql_first (gd_runs D) (\<lambda>r. rr_ID r = rid) rr_ID) (\<lambda>record.
     bindE (sql_find (gd_audits D) (\<lambda>a. au_RunID a = rid)) (\<lambda>rows.
       let records = sort_key au_Sequence rows in
       returnE (\<lparr>run_ID = rr_ID record, run_State = rr_State record,
           run_Version = rr_Version record\<rparr>, map audit_of records)))"

section \<open>The audit log of a run\<close>

text \<open>What the operations change in a run's row, gorm's own time stamps aside.\<close>

definition run_key :: "run_record \<Rightarrow> string \<times> string \<times> nat" where
  "run_key r = (rr_ID r, rr_State r, rr_Version r)"

definition run_keys :: "tables \<Rightarrow> (string \<times> string \<times> nat) list" where
  "run_keys t = map run_key (t_runs t)"

definition audit_log :: "tables \<Rightarrow> string \<Rightarrow> nat list" where
  "audit_log t rid = map au_Sequence (filter (\<lambda>a. au_RunID a = rid) (t_audits t))"

text \<open>
  The invariant: run ids are unique; the audit log of a run counts 1, 2, ... up to its
  version, so no transition is missing or recorded twice; a run is in a state that
  version - 1 legal transitions lead to; and there is no audit event of an unknown run.
\<close>

definition runs_logged :: "tables \<Rightarrow> bool" where
  "runs_logged t \<longleftrightarrow>
     distinct (map fst (run_keys t)) \<and>
     (\<forall>(rid, st, v)\<in>set (run_keys t). audit_log t rid = [1..<Suc v] \<and>
        (\<exists>s p. legal_path s p st \<and> Suc (length p) = v)) \<and>
     (\<forall>rid. rid \<notin> fst ` set (run_keys t) \<longrightarrow> audit_log t rid = [])"

lemma transition_row:
  assumes "runs_logged t" "r \<in> set (t_runs t)"
  shows "(rr_ID r, rr_State r, rr_Version r) \<in> set (run_keys t)"
    "map (\<lambda>x. if fst x = rr_ID r \<and> snd (snd x) = rr_Version r then y else x) (run_keys t) =
     map (\<lambda>x. if fst x = rr_ID r then y else x) (run_keys t)"
proof -
  show row: "(rr_ID r, rr_State r, rr_Version r) \<in> set (run_keys t)"
    using assms(2) by (force simp: run_keys_def run_key_def)
  have "snd (snd x) = rr_Version r" if "x \<in> set (run_keys t)" "fst x = rr_ID r" for x
    using assms(1) row that by (cases x) (auto simp: runs_logged_def dest: eq_key_imp_eq_value)
  then show "map (\<lambda>x. if fst x = rr_ID r \<and> snd (snd x) = rr_Version r then y else x) (run_keys t) =
     map (\<lambda>x. if fst x = rr_ID r then y else x) (run_keys t)" by auto
qed

lemma run_norm_key: "ts_norm runs_spec r = ts_norm runs_spec r' \<Longrightarrow> run_key r = run_key r'"
  by (cases r; cases r') (simp add: runs_spec_def run_key_def)

lemma audit_norm_seq:
  "ts_norm audits_spec a = ts_norm audits_spec a' \<Longrightarrow>
   au_RunID a = au_RunID a' \<and> au_Sequence a = au_Sequence a' \<and> au_Type a = au_Type a' \<and>
   au_Actor a = au_Actor a' \<and> au_Detail a = au_Detail a'"
  by (cases a; cases a') (simp add: audits_spec_def)

lemma runs_logged_empty: "runs_logged empty_tables"
  by (simp add: runs_logged_def empty_tables_def run_keys_def audit_log_def)

section \<open>How the tables may change\<close>


lemma audit_log_append:
  "t_audits t' = t_audits t @ [a] \<Longrightarrow>
   audit_log t' rid = audit_log t rid @ (if au_RunID a = rid then [au_Sequence a] else [])"
  by (simp add: audit_log_def)

lemma logged_new_run:
  assumes "runs_logged t" "rid \<notin> fst ` set (run_keys t)"
    and "run_keys t' = run_keys t @ [(rid, st, 1)]" "t_audits t' = t_audits t @ [a]"
    and "au_RunID a = rid" "au_Sequence a = 1"
  shows "runs_logged t'"
proof -
  have "audit_log t rid = []" using assms(1,2) by (auto simp: runs_logged_def)
  moreover have "\<exists>s p. legal_path s p st \<and> Suc (length p) = 1" using path_refl by fastforce
  ultimately show ?thesis
    using assms unfolding runs_logged_def audit_log_append [OF assms(4)] by fastforce
qed

lemma logged_advance:
  assumes "runs_logged t" "(rid, st, v) \<in> set (run_keys t)" "can_transition st st'" "Suc v < 2 ^ 64"
    and keys: "run_keys t' = map (\<lambda>x. if fst x = rid \<and> snd (snd x) = v
        then (rid, st', uint64 (v + 1)) else x) (run_keys t)"
    and "t_audits t' = t_audits t @ [a]" "au_RunID a = rid" "au_Sequence a = uint64 (v + 1)"
  shows "runs_logged t'"
proof -
  have v: "uint64 (v + 1) = Suc v" using assms(4) by (simp add: uint64_def)
  have fsts: "map fst (run_keys t') = map fst (run_keys t)" by (simp add: keys)
  then have fst_set: "fst ` set (run_keys t') = fst ` set (run_keys t)" by (metis list.set_map)
  have only: "x = (rid, st, v)" if "x \<in> set (run_keys t)" "fst x = rid" for x
    using assms(1,2) that
    by (cases x) (auto simp: runs_logged_def dest: eq_key_imp_eq_value)
  have row: "audit_log t' i = [1..<Suc w] \<and> (\<exists>s p. legal_path s p u \<and> Suc (length p) = w)"
    if "(i, u, w) \<in> set (run_keys t')" for i u w
  proof (cases "i = rid")
    case True
    from that obtain x where x: "x \<in> set (run_keys t)"
      "(i, u, w) = (if fst x = rid \<and> snd (snd x) = v then (rid, st', uint64 (v + 1)) else x)"
      unfolding keys set_map by (elim imageE)
    with True have "fst x = rid" by (metis fst_conv)
    with x(1) only have "x = (rid, st, v)" by blast
    with x(2) v have uw: "u = st'" "w = Suc v" by simp_all
    from assms(1,2) obtain s p where "audit_log t rid = [1..<Suc v]" "legal_path s p st" "Suc (length p) = v"
      by (auto simp: runs_logged_def)
    then show ?thesis
      using path_step [OF _ assms(3)] audit_log_append [OF assms(6)] assms(7,8) v uw True
      by (intro conjI exI [of _ s] exI [of _ "p @ [st']"]) auto
  next
    case False
    with that have "(i, u, w) \<in> set (run_keys t)" by (auto simp: keys split: if_splits)
    with False show ?thesis
      using assms(1) audit_log_append [OF assms(6)] assms(7) by (auto simp: runs_logged_def)
  qed
  have "audit_log t' i = []" if "i \<notin> fst ` set (run_keys t')" for i
  proof -
    have "i \<noteq> rid" using assms(2) that fst_set by force
    moreover have "audit_log t i = []" using assms(1) that fst_set by (simp add: runs_logged_def)
    ultimately show ?thesis using audit_log_append [OF assms(6)] assms(7) by simp
  qed
  with row show ?thesis using assms(1) fsts unfolding runs_logged_def by auto
qed

section \<open>The repository on its database\<close>

context gorm_store
begin

text \<open>The guarded update and its audit event, when both succeed.\<close>

lemma advance_success:
  assumes "advance_run D rnd rid next_state actor detail v s = (Inr (), s')"
  shows "count_rows (\<lambda>x. rr_ID x = rid \<and> rr_Version x = v) (t_runs (view s)) = 1 \<and>
    run_keys (view s') = map (\<lambda>x. if fst x = rid \<and> snd (snd x) = v
        then (rid, next_state, uint64 (v + 1)) else x) (run_keys (view s)) \<and>
    (\<exists>a. t_audits (view s') = t_audits (view s) @ [a] \<and> au_RunID a = rid \<and>
          au_Sequence a = uint64 (v + 1) \<and> au_Type a = ''state.transition'' \<and>
          au_Actor a = actor \<and> au_Detail a = detail)"
proof -
  let ?c = "\<lambda>x. rr_ID x = rid \<and> rr_Version x = v"
  from assms obtain n w where
    up: "sql_update (gd_runs D) ?c
             (\<lambda>x. x\<lparr>rr_State := next_state, rr_Version := uint64 (v + 1)\<rparr>) s = (Inr n, w)"
    and n: "n = 1" and cr: "sql_create (gd_audits D)
           \<lparr>au_ID = new_id rnd, au_RunID = rid, au_Sequence = uint64 (v + 1),
            au_Type = ''state.transition'', au_Actor = actor, au_Detail = detail,
            au_CreatedAt = 0\<rparr> w = (Inr (), s')"
    unfolding advance_run_def Let_def
    by (elim bindE_InrE) (auto simp: raiseE_def split: if_splits)
  from up obtain g where cnt: "n = count_rows ?c (t_runs (view s))"
    and g: "\<And>x. run_key (g x) = run_key (x\<lparr>rr_State := next_state, rr_Version := uint64 (v + 1)\<rparr>)"
    and vw: "view w = t_runs_update (map (\<lambda>x. if ?c x then g x else x)) (view s)"
    by (cases rule: sql_updateE [OF runs_ok up])
       (auto simp: runs_spec_def dest!: run_norm_key [unfolded runs_spec_def, simplified])
  from cr obtain a where
    a: "ts_norm audits_spec a = ts_norm audits_spec \<lparr>au_ID = new_id rnd, au_RunID = rid,
          au_Sequence = uint64 (v + 1), au_Type = ''state.transition'', au_Actor = actor,
          au_Detail = detail, au_CreatedAt = 0\<rparr>"
    and vs: "view s' = t_audits_update (\<lambda>rows. rows @ [a]) (view w)"
    by (cases rule: sql_createE [OF audits_ok cr]) (auto simp: audits_spec_def)
  have g': "rr_ID (g x) = rr_ID x" "rr_State (g x) = next_state" "rr_Version (g x) = uint64 (v + 1)" for x
    using g [of x] by (simp_all add: run_key_def)
  have "run_keys (view s') = map (\<lambda>x. if fst x = rid \<and> snd (snd x) = v
        then (rid, next_state, uint64 (v + 1)) else x) (run_keys (view s))"
    by (simp add: run_keys_def run_key_def vs vw g')
  then show ?thesis
    using cnt n vw vs audit_norm_seq [OF a] by simp
qed

lemma transition_success:
  assumes "run_transition D rnd rid next_state actor detail s = (Inr (), s')"
  obtains r where "r \<in> set (t_runs (view s))" "rr_ID r = rid" "can_transition (rr_State r) next_state"
    and "count_rows (\<lambda>x. rr_ID x = rid \<and> rr_Version x = rr_Version r) (t_runs (view s)) = 1"
    and "run_keys (view s') = map (\<lambda>x. if fst x = rid \<and> snd (snd x) = rr_Version r
        then (rid, next_state, uint64 (rr_Version r + 1)) else x) (run_keys (view s))"
    and "\<exists>a. t_audits (view s') = t_audits (view s) @ [a] \<and> au_RunID a = rid \<and>
          au_Sequence a = uint64 (rr_Version r + 1) \<and> au_Type a = ''state.transition'' \<and>
          au_Actor a = actor \<and> au_Detail a = detail"
proof -
  from txE [OF tx_ok assms [unfolded run_transition_def]] obtain s1 s2 where
    v: "view s1 = view s" "view s' = view s2"
    and body: "transition_tx D rnd rid next_state actor detail s1 = (Inr (), s2)"
    by (metis Inl_Inr_False Inr_inject)
  from body obtain r u where q: "sql_first (gd_runs D) (\<lambda>r. rr_ID r = rid) rr_ID s1 = (Inr r, u)"
    and legal: "can_transition (rr_State r) next_state"
    and rest: "advance_run D rnd rid next_state actor detail (rr_Version r) u = (Inr (), s2)"
    unfolding transition_tx_def by (elim bindE_InrE) (auto simp: raiseE_def split: if_splits)
  have found: "r \<in> set (t_runs (view s))" "rr_ID r = rid" "view u = view s"
    using v by (cases rule: sql_firstE [OF runs_ok q]; simp add: runs_spec_def)+
  note adv = advance_success [OF rest, unfolded found(3), folded v(2)]
  show thesis by (rule that [OF found(1,2) legal]) (use adv in blast)+
qed

lemma transition_failure:
  assumes "run_transition D rnd rid next_state actor detail s = (Inl e, s')"
  shows "view s' = view s"
  by (cases rule: txE [OF tx_ok assms [unfolded run_transition_def]]) auto

lemma create_failure:
  assumes "run_create D rnd rid state s = (Inl e, s')"
  shows "view s' = view s"
  by (cases rule: txE [OF tx_ok assms [unfolded run_create_def]]) auto

lemma create_success:
  assumes "run_create D rnd rid state s = (Inr (), s')"
  shows "rid \<notin> fst ` set (run_keys (view s)) \<and>
    run_keys (view s') = run_keys (view s) @ [(rid, state, 1)] \<and>
    (\<exists>a. t_audits (view s') = t_audits (view s) @ [a] \<and> au_RunID a = rid \<and>
          au_Sequence a = 1 \<and> au_Type a = ''run.created'')"
proof -
  let ?r = "\<lparr>rr_ID = rid, rr_State = state, rr_Version = 1, rr_CreatedAt = 0, rr_UpdatedAt = 0\<rparr>"
  let ?a = "\<lparr>au_ID = new_id rnd, au_RunID = rid, au_Sequence = 1, au_Type = ''run.created'',
          au_Actor = ''system'', au_Detail = ''run created'', au_CreatedAt = 0\<rparr>"
  from txE [OF tx_ok assms [unfolded run_create_def]] obtain s1 s2 where
    v: "view s1 = view s" "view s' = view s2" and body: "create_tx D rnd rid state s1 = (Inr (), s2)"
    by (metis Inl_Inr_False Inr_inject)
  from body obtain u where cr: "sql_create (gd_runs D) ?r s1 = (Inr (), u)"
    and ca: "sql_create (gd_audits D) ?a u = (Inr (), s2)"
    unfolding create_tx_def by (elim bindE_InrE) auto
  from cr obtain r where r: "run_key r = (rid, state, 1)" "distinct (map rr_ID (t_runs (view s) @ [r]))"
    and vu: "view u = t_runs_update (\<lambda>rows. rows @ [r]) (view s)"
  proof (cases rule: sql_createE [OF runs_ok cr])
    case (2 r')
    then show thesis using run_norm_key [OF 2(2)] v
      by (intro that [of r']) (simp_all add: runs_spec_def run_key_def)
  qed simp
  from ca obtain a where a: "ts_norm audits_spec a = ts_norm audits_spec ?a"
    and vs: "view s2 = t_audits_update (\<lambda>rows. rows @ [a]) (view u)"
    by (cases rule: sql_createE [OF audits_ok ca]) (auto simp: audits_spec_def)
  have "rid \<notin> fst ` set (run_keys (view s))"
    using r by (auto simp: run_key_def run_keys_def)
  then show ?thesis
    using r v vu vs audit_norm_seq [OF a] by (simp add: run_keys_def)
qed

lemma count_unique_id:
  assumes "distinct (map rr_ID rows)" "r \<in> set rows"
  shows "count_rows (\<lambda>x. rr_ID x = rr_ID r \<and> rr_Version x = rr_Version r) rows = 1"
proof -
  from assms(2) obtain xs ys where rows: "rows = xs @ r # ys" by (auto simp: in_set_conv_decomp)
  with assms(1) have "rr_ID r \<notin> rr_ID ` set xs" "rr_ID r \<notin> rr_ID ` set ys" by simp_all
  then have "\<forall>x\<in>set xs. rr_ID x \<noteq> rr_ID r" "\<forall>x\<in>set ys. rr_ID x \<noteq> rr_ID r"
    by (metis image_eqI)+
  then have "filter (\<lambda>x. rr_ID x = rr_ID r \<and> rr_Version x = rr_Version r) xs = []"
    "filter (\<lambda>x. rr_ID x = rr_ID r \<and> rr_Version x = rr_Version r) ys = []"
    by (simp_all add: filter_empty_conv)
  then show ?thesis by (simp add: rows count_rows_def)
qed

text \<open>With unique ids, the optimistic version check fails only when the driver does.\<close>

lemma advance_error:
  assumes "fst (advance_run D rnd rid next_state actor detail (rr_Version r) s) = Inl e"
    and "r \<in> set (t_runs (view s))" "rr_ID r = rid" and "runs_logged (view s)"
  shows "db_error e"
proof -
  let ?c = "\<lambda>x. rr_ID x = rid \<and> rr_Version x = rr_Version r"
  let ?a = "\<lparr>au_ID = new_id rnd, au_RunID = rid, au_Sequence = uint64 (rr_Version r + 1),
            au_Type = ''state.transition'', au_Actor = actor, au_Detail = detail, au_CreatedAt = 0\<rparr>"
  obtain q u where q: "sql_update (gd_runs D) ?c
      (\<lambda>x. x\<lparr>rr_State := next_state, rr_Version := uint64 (rr_Version r + 1)\<rparr>) s = (q, u)"
    by fastforce
  obtain c w where c: "sql_create (gd_audits D) ?a u = (c, w)" by fastforce
  have "distinct (map rr_ID (t_runs (view s)))"
    using assms(4) by (simp add: runs_logged_def run_keys_def run_key_def comp_def)
  with assms(2,3) have one: "count_rows ?c (t_runs (view s)) = 1" using count_unique_id by blast
  show ?thesis
  proof (cases rule: sql_updateE [OF runs_ok q])
    case (1 e')
    with q assms(1) show ?thesis by (simp add: advance_run_def bindE_def Let_def)
  next
    case (2 g)
    with one have "q = Inr 1" by (simp add: runs_spec_def)
    with q c assms(1) have "c = Inl e" by (simp add: advance_run_def bindE_def Let_def)
    then show ?thesis by (cases rule: sql_createE [OF audits_ok c]) auto
  qed
qed

lemma transition_errors:
  assumes "run_transition D rnd rid next_state actor detail s = (Inl e, s')"
    and "runs_logged (view s)"
  shows "db_error e \<or>
    e = Sent RecordNotFound \<and> rid \<notin> fst ` set (run_keys (view s)) \<or>
    e = Sent ErrIllegalTransition \<and>
      (\<exists>st v. (rid, st, v) \<in> set (run_keys (view s)) \<and> \<not> can_transition st next_state)"
proof (cases rule: txE [OF tx_ok assms(1) [unfolded run_transition_def]])
  case (1 e')
  show ?thesis
  proof (cases "db_error e")
    case False
    with 1 obtain s1 where v: "view s1 = view s"
      and body: "fst (transition_tx D rnd rid next_state actor detail s1) = Inl e" by auto
    obtain q u where q: "sql_first (gd_runs D) (\<lambda>r. rr_ID r = rid) rr_ID s1 = (q, u)" by fastforce
    show ?thesis
    proof (cases rule: sql_firstE [OF runs_ok q])
      case (1 e')
      with q body False show ?thesis by (simp add: transition_tx_def bindE_def)
    next
      case 2
      with q body v show ?thesis
        by (auto simp: transition_tx_def bindE_def run_keys_def run_key_def runs_spec_def)
    next
      case (3 r)
      then have r: "r \<in> set (t_runs (view s))" "rr_ID r = rid" "view u = view s"
        using v by (simp_all add: runs_spec_def)
      show ?thesis
      proof (cases "can_transition (rr_State r) next_state")
        case False
        with r q 3(1) body show ?thesis
          by (auto simp: transition_tx_def bindE_def raiseE_def run_keys_def run_key_def)
      next
        case True
        with q 3(1) body have "fst (advance_run D rnd rid next_state actor detail (rr_Version r) u) = Inl e"
          by (simp add: transition_tx_def bindE_def)
        then have "db_error e"
          by (rule advance_error [where s = u, unfolded r(3)]) (use r assms(2) in simp_all)
        then show ?thesis ..
      qed
    qed
  qed simp
qed simp

lemma create_keeps_log:
  assumes "runs_logged (view s)"
  shows "runs_logged (view (snd (run_create D rnd rid state s)))"
proof (cases "run_create D rnd rid state s")
  case (Pair q s')
  show ?thesis
  proof (cases q)
    case (Inl e)
    with Pair assms create_failure show ?thesis by simp
  next
    case (Inr x)
    then have "run_create D rnd rid state s = (Inr (), s')" using Pair by simp
    from create_success [OF this] assms Pair show ?thesis by (auto intro: logged_new_run)
  qed
qed

lemma transition_keeps_log:
  assumes "runs_logged (view s)" "\<forall>x\<in>set (run_keys (view s)). Suc (snd (snd x)) < 2 ^ 64"
  shows "runs_logged (view (snd (run_transition D rnd rid next_state actor detail s)))"
proof (cases "run_transition D rnd rid next_state actor detail s")
  case (Pair q s')
  show ?thesis
  proof (cases q)
    case (Inl e)
    with Pair assms transition_failure show ?thesis by simp
  next
    case (Inr x)
    then have "run_transition D rnd rid next_state actor detail s = (Inr (), s')" using Pair by simp
    then show ?thesis
    proof (rule transition_success)
      fix r
      assume r: "r \<in> set (t_runs (view s))" "rr_ID r = rid" "can_transition (rr_State r) next_state"
        and keys: "run_keys (view s') = map (\<lambda>x. if fst x = rid \<and> snd (snd x) = rr_Version r
        then (rid, next_state, uint64 (rr_Version r + 1)) else x) (run_keys (view s))"
        and "\<exists>a. t_audits (view s') = t_audits (view s) @ [a] \<and> au_RunID a = rid \<and>
          au_Sequence a = uint64 (rr_Version r + 1) \<and> au_Type a = ''state.transition'' \<and>
          au_Actor a = actor \<and> au_Detail a = detail"
      then obtain a where a: "t_audits (view s') = t_audits (view s) @ [a]" "au_RunID a = rid"
          "au_Sequence a = uint64 (rr_Version r + 1)" by blast
      have k: "(rid, rr_State r, rr_Version r) \<in> set (run_keys (view s))"
        using r by (force simp: run_keys_def run_key_def)
      with assms(2) have "Suc (rr_Version r) < 2 ^ 64" by fastforce
      from logged_advance [OF assms(1) k r(3) this keys a] Pair show ?thesis by simp
    qed
  qed
qed

end

section \<open>Histories\<close>

text \<open>A call on the repository, and the database after a sequence of calls, each of which
  may succeed or fail.\<close>

datatype run_op =
    CreateRun "char list" string run_state
  | TransitionRun "char list" string run_state string string

fun run_op_prog :: "'db gorm_db \<Rightarrow> run_op \<Rightarrow> ('db, unit) prog" where
  "run_op_prog D (CreateRun rnd rid state) = run_create D rnd rid state"
| "run_op_prog D (TransitionRun rnd rid next_state actor detail) =
     run_transition D rnd rid next_state actor detail"

fun run_history :: "'db gorm_db \<Rightarrow> run_op list \<Rightarrow> 'db \<Rightarrow> 'db" where
  "run_history D [] s = s"
| "run_history D (x # xs) s = run_history D xs (snd (run_op_prog D x s))"

context gorm_store
begin

definition versions_upto :: "nat \<Rightarrow> tables \<Rightarrow> bool" where
  "versions_upto n t \<longleftrightarrow> (\<forall>x\<in>set (run_keys t). snd (snd x) \<le> n)"

lemma op_keeps_log:
  assumes "runs_logged (view s)" "versions_upto n (view s)" "Suc n < 2 ^ 64"
  shows "runs_logged (view (snd (run_op_prog D x s)))"
proof (cases x)
  case (CreateRun rnd rid state)
  with assms(1) show ?thesis by (simp add: create_keeps_log)
next
  case (TransitionRun rnd rid next_state actor detail)
  have "\<forall>x\<in>set (run_keys (view s)). Suc (snd (snd x)) < 2 ^ 64"
    using assms(2,3) unfolding versions_upto_def by fastforce
  with assms(1) TransitionRun show ?thesis by (simp add: transition_keeps_log)
qed

lemma uint64_le: "uint64 n \<le> n"
  by (simp add: uint64_def)

lemma op_versions:
  assumes "versions_upto n (view s)"
  shows "versions_upto (Suc n) (view (snd (run_op_prog D x s)))"
proof -
  obtain q s' where r: "run_op_prog D x s = (q, s')" by fastforce
  have "versions_upto (Suc n) (view s')"
  proof (cases q)
    case (Inl e)
    with r have "view s' = view s" by (cases x) (auto dest: create_failure transition_failure)
    with assms show ?thesis by (auto simp: versions_upto_def)
  next
    case (Inr u)
    show ?thesis
    proof (cases x)
      case (CreateRun rnd rid state)
      with r Inr create_success [of rnd rid state s s'] assms show ?thesis
        by (auto simp: versions_upto_def)
    next
      case (TransitionRun rnd rid next_state actor detail)
      with r Inr have "run_transition D rnd rid next_state actor detail s = (Inr (), s')" by simp
      then show ?thesis
      proof (rule transition_success)
        fix r
        assume r: "r \<in> set (t_runs (view s))" "rr_ID r = rid"
          and keys: "run_keys (view s') = map (\<lambda>x. if fst x = rid \<and> snd (snd x) = rr_Version r
            then (rid, next_state, uint64 (rr_Version r + 1)) else x) (run_keys (view s))"
        have "rr_Version r \<le> n" using r(1) assms by (auto simp: versions_upto_def run_keys_def run_key_def)
        then have "uint64 (rr_Version r + 1) \<le> Suc n" using uint64_le [of "rr_Version r + 1"] by simp
        with keys assms show ?thesis by (auto simp: versions_upto_def)
      qed
    qed
  qed
  with r show ?thesis by simp
qed

lemma history_logged:
  assumes "runs_logged (view s)" "versions_upto n (view s)" "n + length ops < 2 ^ 64"
  shows "runs_logged (view (run_history D ops s))"
  using assms
proof (induction ops arbitrary: s n)
  case (Cons x xs)
  then have "runs_logged (view (snd (run_op_prog D x s)))" "versions_upto (Suc n) (view (snd (run_op_prog D x s)))"
    using op_keeps_log [of s n x] op_versions [of n s x] by simp_all
  with Cons.prems(3) Cons.IH [of _ "Suc n"] show ?case by simp
qed simp

lemma load_log:
  assumes "runs_logged (view s)" "run_load D rid s = (Inr (r, events), s')"
  shows "(rid, run_State r, run_Version r) \<in> set (run_keys (view s)) \<and> run_ID r = rid \<and>
    map ae_Sequence events = [1..<Suc (run_Version r)] \<and>
    (\<forall>e\<in>set events. \<exists>a\<in>set (t_audits (view s)). e = audit_of a) \<and> view s' = view s"
proof -
  from assms(2) obtain row rows u where
    q: "sql_first (gd_runs D) (\<lambda>r. rr_ID r = rid) rr_ID s = (Inr row, u)"
    and a: "sql_find (gd_audits D) (\<lambda>a. au_RunID a = rid) u = (Inr rows, s')"
    and r: "r = \<lparr>run_ID = rr_ID row, run_State = rr_State row, run_Version = rr_Version row\<rparr>"
    and ev: "events = map audit_of (sort_key au_Sequence rows)"
    unfolding run_load_def by (elim bindE_InrE) (auto simp: returnE_def Let_def)
  have row: "row \<in> set (t_runs (view s))" "rr_ID row = rid" "view u = view s"
    by (cases rule: sql_firstE [OF runs_ok q]; simp add: runs_spec_def)+
  have rows: "mset rows = mset (filter (\<lambda>a. au_RunID a = rid) (t_audits (view s)))" "view s' = view s"
    using row(3) by (cases rule: sql_findE [OF audits_ok a]; simp add: audits_spec_def)+
  have k: "(rid, rr_State row, rr_Version row) \<in> set (run_keys (view s))"
    using row by (force simp: run_keys_def run_key_def)
  with assms(1) have log: "audit_log (view s) rid = [1..<Suc (rr_Version row)]"
    by (auto simp: runs_logged_def)
  have "mset (map au_Sequence rows) = mset [1..<Suc (rr_Version row)]"
    using rows(1) log by (metis audit_log_def mset_map)
  then have "sort (map au_Sequence rows) = [1..<Suc (rr_Version row)]"
    by (metis properties_for_sort sorted_upt)
  then have "map ae_Sequence events = [1..<Suc (rr_Version row)]"
    by (simp add: ev comp_def audit_of_def sort_key_map_seq)
  moreover have "set rows \<subseteq> set (t_audits (view s))"
    using rows(1) by (metis mset_eq_setD filter_is_subset)
  ultimately show ?thesis using k row rows r ev by (auto simp: set_sort)
qed

end

section \<open>Properties\<close>

text \<open>
  C11. After any history of fewer than 2^64 calls of Create and Transition on an empty
  database, with any of them failing in any way the driver can fail, run ids are unique,
  the audit log of every run counts 1, 2, ..., version without gap or repetition, and the
  run is in a state that version - 1 legal transitions lead to.
\<close>

theorem audit_log_complete:
  assumes "gorm_ok view D" "view s = empty_tables" "length ops < 2 ^ 64"
  shows "runs_logged (view (run_history D ops s))"
proof -
  have "gorm_store view D" using assms(1) by (rule gorm_store.intro)
  then show ?thesis
    using assms(2,3) runs_logged_empty
    by (intro gorm_store.history_logged [of view D s 0])
       (simp_all add: gorm_store.versions_upto_def run_keys_def empty_tables_def)
qed

definition sample_history :: "run_op list" where
  "sample_history = [CreateRun ''a'' ''r1'' Draft, TransitionRun ''b'' ''r1'' Analyzing ''kim'' ''start'',
     TransitionRun ''c'' ''r1'' Succeeded ''kim'' ''skip'', CreateRun ''d'' ''r1'' Draft]"

text \<open>Rows of the sample history, and its database after each call.\<close>

definition sample_run :: "string \<Rightarrow> nat \<Rightarrow> run_record" where
  "sample_run st v = \<lparr>rr_ID = ''r1'', rr_State = st, rr_Version = v, rr_CreatedAt = 0, rr_UpdatedAt = 0\<rparr>"

definition sample_audit :: "string \<Rightarrow> nat \<Rightarrow> string \<Rightarrow> string \<Rightarrow> string \<Rightarrow> audit_record" where
  "sample_audit i n ty ac de = \<lparr>au_ID = i, au_RunID = ''r1'', au_Sequence = n, au_Type = ty,
     au_Actor = ac, au_Detail = de, au_CreatedAt = 0\<rparr>"

definition sample_tables1 :: tables where
  "sample_tables1 = empty_tables\<lparr>t_runs := [sample_run Draft 1],
     t_audits := [sample_audit ''61'' 1 ''run.created'' ''system'' ''run created'']\<rparr>"

definition sample_tables2 :: tables where
  "sample_tables2 = empty_tables\<lparr>t_runs := [sample_run Analyzing 2],
     t_audits := [sample_audit ''61'' 1 ''run.created'' ''system'' ''run created'',
       sample_audit ''62'' 2 ''state.transition'' ''kim'' ''start'']\<rparr>"

lemmas mem_run_eval = mem_db_def mem_tx_def mem_table_def db_frames prog_simps sql_first_def count_rows_def
  run_create_def create_tx_def run_transition_def transition_tx_def advance_run_def Let_def
  uint64_def empty_tables_def sample_run_def sample_audit_def sample_tables1_def sample_tables2_def

lemma sample_ids: "new_id ''a'' = ''61''" "new_id ''b'' = ''62''" "new_id ''d'' = ''64''"
  by code_simp+

lemma sample_calls:
  "run_create mem_db ''a'' ''r1'' Draft empty_tables = (Inr (), sample_tables1)"
  "run_transition mem_db ''b'' ''r1'' Analyzing ''kim'' ''start'' sample_tables1 = (Inr (), sample_tables2)"
  "run_transition mem_db ''c'' ''r1'' Succeeded ''kim'' ''skip'' sample_tables2
     = (Inl (Sent ErrIllegalTransition), sample_tables2)"
  "run_create mem_db ''d'' ''r1'' Draft sample_tables2 = (Inl (Sent UniqueViolation), sample_tables2)"
proof -
  have "Succeeded \<notin> {Proposing, Failed, Cancelled}" by (simp add: state_names)
  then show "run_transition mem_db ''c'' ''r1'' Succeeded ''kim'' ''skip'' sample_tables2
     = (Inl (Sent ErrIllegalTransition), sample_tables2)"
    by (simp add: mem_run_eval sample_ids)
qed (simp_all add: mem_run_eval sample_ids)

lemma sample_history_result:
  "run_history mem_db sample_history empty_tables = sample_tables2"
  "run_keys sample_tables2 = [(''r1'', Analyzing, 2)]"
  "audit_log sample_tables2 ''r1'' = [1, 2]"
  by (simp_all add: sample_history_def sample_calls)
     (simp_all add: mem_run_eval run_keys_def run_key_def audit_log_def)

theorem audit_log_complete_witness:
  "runs_logged (run_history mem_db sample_history empty_tables) \<and>
   run_keys (run_history mem_db sample_history empty_tables) = [(''r1'', Analyzing, 2)] \<and>
   audit_log (run_history mem_db sample_history empty_tables) ''r1'' = [1, 2]"
  using audit_log_complete [OF mem_db_ok, of empty_tables sample_history] sample_history_result
  by (simp add: sample_history_def)

lemma sample_logged: "runs_logged sample_tables1" "runs_logged sample_tables2"
proof -
  have v: "mem.versions_upto 0 empty_tables"
    by (simp add: mem.versions_upto_def run_keys_def empty_tables_def)
  have "runs_logged (run_history mem_db [CreateRun ''a'' ''r1'' Draft] empty_tables)"
    "runs_logged (run_history mem_db [CreateRun ''a'' ''r1'' Draft,
       TransitionRun ''b'' ''r1'' Analyzing ''kim'' ''start''] empty_tables)"
    by (rule mem.history_logged [OF runs_logged_empty v], simp)+
  then show "runs_logged sample_tables1" "runs_logged sample_tables2"
    by (simp_all add: sample_calls)
qed

text \<open>
  C12. Transition is atomic. When it succeeds, the table allowed the step, exactly the
  row of this run got the next state and the next version, and exactly one audit event
  with the new version, the actor and the detail was added. When it fails, no table
  changed, and the error is the driver's, or RecordNotFound for an unknown run, or
  ErrIllegalTransition for a step the table forbids.
\<close>

theorem transition_atomic:
  assumes "gorm_ok view D" "runs_logged (view s)"
  shows "case run_transition D rnd rid next_state actor detail s of
     (Inr _, s') \<Rightarrow> (\<exists>st v. (rid, st, v) \<in> set (run_keys (view s)) \<and> can_transition st next_state \<and>
        run_keys (view s') = map (\<lambda>x. if fst x = rid then (rid, next_state, uint64 (v + 1)) else x)
          (run_keys (view s)) \<and>
        (\<exists>a. t_audits (view s') = t_audits (view s) @ [a] \<and> au_RunID a = rid \<and>
          au_Sequence a = uint64 (v + 1) \<and> au_Actor a = actor \<and> au_Detail a = detail))
   | (Inl e, s') \<Rightarrow> view s' = view s \<and>
       (db_error e \<or>
        e = Sent RecordNotFound \<and> rid \<notin> fst ` set (run_keys (view s)) \<or>
        e = Sent ErrIllegalTransition \<and>
          (\<exists>st v. (rid, st, v) \<in> set (run_keys (view s)) \<and> \<not> can_transition st next_state))"
proof -
  have D: "gorm_store view D" using assms(1) by (rule gorm_store.intro)
  obtain q s' where run: "run_transition D rnd rid next_state actor detail s = (q, s')" by fastforce
  show ?thesis
  proof (cases q)
    case (Inl e)
    with run gorm_store.transition_failure [OF D] gorm_store.transition_errors [OF D _ assms(2)]
    show ?thesis by simp
  next
    case (Inr u)
    with run have ok: "run_transition D rnd rid next_state actor detail s = (Inr (), s')" by simp
    from ok show ?thesis
    proof (rule gorm_store.transition_success [OF D])
      fix r
      assume r: "r \<in> set (t_runs (view s))" "rr_ID r = rid" "can_transition (rr_State r) next_state"
        and keys: "run_keys (view s') = map (\<lambda>x. if fst x = rid \<and> snd (snd x) = rr_Version r
            then (rid, next_state, uint64 (rr_Version r + 1)) else x) (run_keys (view s))"
        and audit: "\<exists>a. t_audits (view s') = t_audits (view s) @ [a] \<and> au_RunID a = rid \<and>
          au_Sequence a = uint64 (rr_Version r + 1) \<and> au_Type a = ''state.transition'' \<and>
          au_Actor a = actor \<and> au_Detail a = detail"
      note row = transition_row [OF assms(2) r(1), unfolded r(2)]
      show ?thesis unfolding run Inr prod.case sum.case
        by (rule exI [of _ "rr_State r"], rule exI [of _ "rr_Version r"])
           (use row r(3) keys audit in auto)
    qed
  qed
qed

theorem transition_atomic_witness:
  "fst (run_transition mem_db ''c'' ''r1'' Succeeded ''kim'' ''skip'' sample_tables2)
     = Inl (Sent ErrIllegalTransition) \<and>
   (\<exists>st v. (''r1'', st, v) \<in> set (run_keys sample_tables1) \<and> can_transition st Analyzing)"
proof -
  note t = transition_atomic [OF mem_db_ok sample_logged(1), where rnd = "''b''" and
      rid = "''r1''" and next_state = Analyzing and actor = "''kim''" and detail = "''start''"]
  show ?thesis
    using t by (auto simp: sample_calls)
qed

text \<open>
  What Load returns for a run is its state and version with the complete audit log in
  order: events 1, 2, ..., version, each one read from the audit table.
\<close>

theorem load_returns_full_history:
  assumes "gorm_ok view D" "runs_logged (view s)"
    and "run_load D rid s = (Inr (r, events), s')"
  shows "(rid, run_State r, run_Version r) \<in> set (run_keys (view s)) \<and> run_ID r = rid \<and>
    map ae_Sequence events = [1..<Suc (run_Version r)] \<and>
    (\<forall>e\<in>set events. \<exists>a\<in>set (t_audits (view s)). e = audit_of a) \<and> view s' = view s"
  by (rule gorm_store.load_log [OF gorm_store.intro [OF assms(1)] assms(2,3)])

theorem load_returns_full_history_witness:
  "\<exists>events s'. run_load mem_db ''r1'' sample_tables2
       = (Inr (\<lparr>run_ID = ''r1'', run_State = Analyzing, run_Version = 2\<rparr>, events), s') \<and>
     map ae_Sequence events = [1, 2]"
proof -
  have "\<exists>events. run_load mem_db ''r1'' sample_tables2
      = (Inr (\<lparr>run_ID = ''r1'', run_State = Analyzing, run_Version = 2\<rparr>, events), sample_tables2)"
    by (simp add: run_load_def mem_run_eval)
  then obtain events where l: "run_load mem_db ''r1'' sample_tables2
      = (Inr (\<lparr>run_ID = ''r1'', run_State = Analyzing, run_Version = 2\<rparr>, events), sample_tables2)" ..
  from load_returns_full_history [OF mem_db_ok sample_logged(2) l] have "map ae_Sequence events = [1, 2]"
    by (simp add: upt_rec)
  with l show ?thesis by (intro exI conjI)
qed

end
