(* ===== verification/Approval_Repository.thy ===== *)
theory Approval_Repository
  imports Storage "HOL-Library.Product_Lexorder"
begin

text \<open>
  \<open>internal/storage/sqlite/approval_repository.go\<close>: approvals are rows that are spent by
  setting \<open>consumed_at\<close> and revoked by setting \<open>invalidated_at\<close>. The clock is a parameter
  of the operations that read it.
\<close>

section \<open>Operations\<close>

definition approval_save :: "'db gorm_db \<Rightarrow> approval_record \<Rightarrow> ('db, unit) prog" where
  "approval_save D rec = sql_create (gd_approvals D) rec"

definition approval_current :: "'db gorm_db \<Rightarrow> string \<Rightarrow> int \<Rightarrow> ('db, approval_record) prog" where
  "approval_current D rid plan_version =
     sql_first (gd_approvals D)
       (\<lambda>a. al_RunID a = rid \<and> al_PlanVersion a = plan_version \<and> al_Decision a = ''approved'' \<and>
          al_InvalidatedAt a = None)
       (\<lambda>a. (- al_CreatedAt a, al_ID a))"

definition approval_invalidate :: "'db gorm_db \<Rightarrow> timestamp \<Rightarrow> string \<Rightarrow> ('db, unit) prog" where
  "approval_invalidate D now rid =
     bindE (sql_update (gd_approvals D) (\<lambda>a. al_RunID a = rid \<and> al_InvalidatedAt a = None)
        (\<lambda>a. a\<lparr>al_InvalidatedAt := Some now\<rparr>)) (\<lambda>_. returnE ())"

text \<open>The condition under which an approval row may be spent.\<close>

definition active_for :: "string \<Rightarrow> int \<Rightarrow> string \<Rightarrow> approval_record \<Rightarrow> bool" where
  "active_for rid plan_version hash a \<longleftrightarrow>
     al_RunID a = rid \<and> al_PlanVersion a = plan_version \<and> al_SnapshotHash a = hash \<and>
     al_Decision a = ''approved'' \<and> al_InvalidatedAt a = None \<and> al_ConsumedAt a = None"

definition approval_consume ::
  "'db gorm_db \<Rightarrow> timestamp \<Rightarrow> string \<Rightarrow> int \<Rightarrow> string \<Rightarrow> ('db, bool) prog" where
  "approval_consume D now rid plan_version hash =
     bindE (sql_update (gd_approvals D) (active_for rid plan_version hash)
        (\<lambda>a. a\<lparr>al_ConsumedAt := Some now\<rparr>)) (\<lambda>rows_affected. returnE (rows_affected = 1))"

definition awaiting_task :: "string \<Rightarrow> int \<Rightarrow> string \<Rightarrow> task_record \<Rightarrow> bool" where
  "awaiting_task rid plan_version hash t \<longleftrightarrow>
     tr_ID t = rid \<and> tr_State t = ''AWAITING_APPROVAL'' \<and> tr_PlanVersion t = plan_version \<and>
     tr_ApprovalHash t = hash \<and> tr_ApprovalGranted t"

definition mark_tx ::
  "'db gorm_db \<Rightarrow> timestamp \<Rightarrow> string \<Rightarrow> int \<Rightarrow> string \<Rightarrow> ('db, unit) prog" where
  "mark_tx D now rid plan_version hash =
     bindE (sql_update (gd_approvals D) (active_for rid plan_version hash)
        (\<lambda>a. a\<lparr>al_ConsumedAt := Some now\<rparr>)) (\<lambda>consumed.
     if consumed \<noteq> 1 then raiseE (Sent ErrApprovalNotActive) else
     bindE (sql_update (gd_tasks D) (awaiting_task rid plan_version hash)
        (\<lambda>t. t\<lparr>tr_State := ''EXECUTING''\<rparr>)) (\<lambda>started.
     if started \<noteq> 1 then raiseE (Sent ErrApprovalNotActive) else returnE ()))"

definition consume_and_mark_executing ::
  "'db gorm_db \<Rightarrow> timestamp \<Rightarrow> string \<Rightarrow> int \<Rightarrow> string \<Rightarrow> ('db, bool) prog" where
  "consume_and_mark_executing D now rid plan_version hash =
     bindE (tryE (gd_tx D (mark_tx D now rid plan_version hash))) (\<lambda>err.
       case err of
         Inl e \<Rightarrow> if errors_is e ErrApprovalNotActive then returnE False else raiseE e
       | Inr _ \<Rightarrow> returnE True)"

section \<open>What an update of the approvals does to the number of active ones\<close>

definition active_count :: "string \<times> int \<times> string \<Rightarrow> tables \<Rightarrow> nat" where
  "active_count k t = (case k of (rid, pv, h) \<Rightarrow> count_rows (active_for rid pv h) (t_approvals t))"

lemma approval_norm:
  assumes "ts_norm approvals_spec a = ts_norm approvals_spec b"
  shows "al_ID a = al_ID b" "al_RunID a = al_RunID b" "al_PlanVersion a = al_PlanVersion b"
    "al_SnapshotHash a = al_SnapshotHash b" "al_Decision a = al_Decision b" "al_Actor a = al_Actor b"
    "al_InvalidatedAt a = al_InvalidatedAt b" "al_ConsumedAt a = al_ConsumedAt b"
    "active_for rid pv h a = active_for rid pv h b"
  using assms by (cases a; cases b; simp add: approvals_spec_def active_for_def)+

lemma count_rows_map_le:
  assumes "\<And>r. c r \<Longrightarrow> p (g r) \<Longrightarrow> p r"
  shows "count_rows p (map (\<lambda>r. if c r then g r else r) rows) \<le> count_rows p rows"
  unfolding count_rows_def by (induction rows) (auto dest: assms)

lemma count_rows_map_none:
  assumes "\<And>r. c r \<Longrightarrow> \<not> c (g r)"
  shows "count_rows c (map (\<lambda>r. if c r then g r else r) rows) = 0"
  unfolding count_rows_0 using assms by auto

context gorm_store
begin

lemma save_count:
  assumes "approval_save D rec s = (q, s')"
  shows "active_count (rid, pv, h) (view s')
    \<le> active_count (rid, pv, h) (view s) + (if active_for rid pv h rec then 1 else 0)"
  by (cases rule: sql_createE [OF approvals_ok assms [unfolded approval_save_def]])
     (auto simp: active_count_def approvals_spec_def count_rows_def
       dest: approval_norm(9) [unfolded approvals_spec_def, simplified, of _ _ rid pv h])

lemma invalidate_count:
  assumes "approval_invalidate D now run s = (q, s')"
  shows "active_count k (view s') \<le> active_count k (view s)"
proof -
  obtain rid pv h where k: "k = (rid, pv, h)" by (cases k)
  let ?f = "\<lambda>a. a\<lparr>al_InvalidatedAt := Some now\<rparr>"
  obtain u t where u: "sql_update (gd_approvals D) (\<lambda>a. al_RunID a = run \<and> al_InvalidatedAt a = None)
      ?f s = (u, t)" by fastforce
  with assms have t: "s' = t" by (auto simp: approval_invalidate_def bindE_def returnE_def split: sum.splits)
  show ?thesis
  proof (cases rule: sql_updateE [OF approvals_ok u])
    case (2 g)
    have "\<not> active_for rid pv h (g r)" for r
      using approval_norm(9) [OF 2(2) [of r], of rid pv h] by (simp add: active_for_def)
    with 2(3) show ?thesis
      by (auto simp: k t active_count_def approvals_spec_def intro!: count_rows_map_le)
  qed (simp add: t)
qed

lemma spend_rows:
  assumes "sql_update (gd_approvals D) (active_for rid pv h) (\<lambda>a. a\<lparr>al_ConsumedAt := Some now\<rparr>) s = (Inr n, s')"
  shows "n = active_count (rid, pv, h) (view s) \<and> active_count (rid, pv, h) (view s') = 0 \<and>
    active_count k (view s') \<le> active_count k (view s) \<and>
    t_tasks (view s') = t_tasks (view s)"
proof -
  obtain rid' pv' h' where k: "k = (rid', pv', h')" by (cases k)
  from assms show ?thesis
  proof (cases rule: sql_updateE [OF approvals_ok assms])
    case (2 g)
    have "\<not> active_for rid' pv' h' (g r)" for r rid' pv' h'
      using approval_norm(9) [OF 2(2) [of r], of rid' pv' h'] by (simp add: active_for_def)
    with 2 show ?thesis
      by (auto simp: k active_count_def approvals_spec_def count_rows_map_none
          intro!: count_rows_map_le)
  qed simp
qed

lemma consume_count:
  assumes "approval_consume D now rid pv h s = (q, s')"
  shows "active_count k (view s') \<le> active_count k (view s) \<and>
    (q = Inr True \<longrightarrow> active_count (rid, pv, h) (view s) = 1 \<and> active_count (rid, pv, h) (view s') = 0)"
proof -
  obtain u t where u: "sql_update (gd_approvals D) (active_for rid pv h)
      (\<lambda>a. a\<lparr>al_ConsumedAt := Some now\<rparr>) s = (u, t)" by fastforce
  show ?thesis
  proof (cases u)
    case (Inl e)
    with u assms show ?thesis
      using sql_updateE [OF approvals_ok u] by (fastforce simp: approval_consume_def bindE_def)
  next
    case (Inr n)
    with u assms have "q = Inr (n = 1)" "s' = t" by (auto simp: approval_consume_def bindE_def returnE_def)
    with Inr u spend_rows [of rid pv h now s n t k] show ?thesis by auto
  qed
qed

lemma task_norm:
  assumes "ts_norm tasks_spec a = ts_norm tasks_spec b"
  shows "a\<lparr>tr_CreatedAt := 0, tr_UpdatedAt := 0\<rparr> = b\<lparr>tr_CreatedAt := 0, tr_UpdatedAt := 0\<rparr>"
  using assms by (simp add: tasks_spec_def)

lemma mark_success:
  assumes "mark_tx D now rid pv h s = (Inr (), s')"
  shows "active_count (rid, pv, h) (view s) = 1 \<and> active_count (rid, pv, h) (view s') = 0 \<and>
    active_count k (view s') \<le> active_count k (view s) \<and>
    count_rows (awaiting_task rid pv h) (t_tasks (view s)) = 1 \<and>
    (\<exists>g. (\<forall>t. ts_norm tasks_spec (g t) = ts_norm tasks_spec (t\<lparr>tr_State := ''EXECUTING''\<rparr>)) \<and>
       t_tasks (view s') = map (\<lambda>t. if awaiting_task rid pv h t then g t else t) (t_tasks (view s)))"
proof -
  from assms obtain m u where up: "sql_update (gd_approvals D) (active_for rid pv h)
      (\<lambda>a. a\<lparr>al_ConsumedAt := Some now\<rparr>) s = (Inr m, u)" and m: "m = 1"
    and rest: "bindE (sql_update (gd_tasks D) (awaiting_task rid pv h)
        (\<lambda>t. t\<lparr>tr_State := ''EXECUTING''\<rparr>)) (\<lambda>started.
     if started \<noteq> 1 then raiseE (Sent ErrApprovalNotActive) else returnE ()) u = (Inr (), s')"
    unfolding mark_tx_def by (elim bindE_InrE) (auto simp: raiseE_def split: if_splits)
  from rest obtain n where ut: "sql_update (gd_tasks D) (awaiting_task rid pv h)
        (\<lambda>t. t\<lparr>tr_State := ''EXECUTING''\<rparr>) u = (Inr n, s')" and n: "n = 1"
    by (elim bindE_InrE) (auto simp: raiseE_def returnE_def split: if_splits)
  note spent = spend_rows [OF up, of k]
  show ?thesis
  proof (cases rule: sql_updateE [OF tasks_ok ut])
    case (2 g)
    have "active_count x (view s') = active_count x (view u)" for x
      using 2(3) by (cases x) (simp add: active_count_def tasks_spec_def)
    moreover have "count_rows (awaiting_task rid pv h) (t_tasks (view s)) = 1"
      using 2(1) n spent by (simp add: tasks_spec_def)
    moreover have "t_tasks (view s') = map (\<lambda>t. if awaiting_task rid pv h t then g t else t) (t_tasks (view s))"
      using 2(3) spent by (simp add: tasks_spec_def)
    ultimately show ?thesis using spent m 2(2) by auto
  qed simp
qed

lemma mark_result:
  assumes "consume_and_mark_executing D now rid pv h s = (q, s')"
  shows "(q = Inr True \<and> (\<exists>s1 s2. view s1 = view s \<and> mark_tx D now rid pv h s1 = (Inr (), s2) \<and> view s' = view s2))
    \<or> (q \<noteq> Inr True \<and> view s' = view s)"
proof -
  obtain r t where t: "gd_tx D (mark_tx D now rid pv h) s = (r, t)" by fastforce
  have "s' = t" "q = (case r of Inl e \<Rightarrow> if errors_is e ErrApprovalNotActive then Inr False else Inl e
      | Inr _ \<Rightarrow> Inr True)"
    using assms t
    by (auto simp: consume_and_mark_executing_def prog_simps split: sum.splits if_splits)
  then show ?thesis
    by (cases rule: txE [OF tx_ok t]) auto
qed

lemma mark_count:
  assumes "consume_and_mark_executing D now rid pv h s = (q, s')"
  shows "active_count k (view s') \<le> active_count k (view s) \<and>
    (q = Inr True \<longrightarrow> active_count (rid, pv, h) (view s) = 1 \<and> active_count (rid, pv, h) (view s') = 0)"
  using mark_result [OF assms]
proof (elim disjE conjE exE)
  fix s1 s2
  assume a: "view s1 = view s" "mark_tx D now rid pv h s1 = (Inr (), s2)" "view s' = view s2"
  from mark_success [OF a(2), of k] a(1,3) show ?thesis by simp
qed simp

end

section \<open>Histories\<close>

text \<open>Calls on the repository; the two that spend an approval return whether they did.\<close>

datatype approval_op =
    SaveApproval approval_record
  | InvalidateRun timestamp string
  | Consume timestamp string int string
  | ConsumeAndMark timestamp string int string

fun approval_step ::
  "'db gorm_db \<Rightarrow> string \<times> int \<times> string \<Rightarrow> approval_op \<Rightarrow> 'db \<Rightarrow> nat \<times> 'db" where
  "approval_step D k (SaveApproval rec) s = (0, snd (approval_save D rec s))"
| "approval_step D k (InvalidateRun now rid) s = (0, snd (approval_invalidate D now rid s))"
| "approval_step D k (Consume now rid pv h) s =
     (case approval_consume D now rid pv h s of
        (q, s') \<Rightarrow> (if q = Inr True \<and> k = (rid, pv, h) then 1 else 0, s'))"
| "approval_step D k (ConsumeAndMark now rid pv h) s =
     (case consume_and_mark_executing D now rid pv h s of
        (q, s') \<Rightarrow> (if q = Inr True \<and> k = (rid, pv, h) then 1 else 0, s'))"

text \<open>How often a history authorised the execution of the plan snapshot \<open>k\<close>.\<close>

fun authorisations ::
  "'db gorm_db \<Rightarrow> string \<times> int \<times> string \<Rightarrow> approval_op list \<Rightarrow> 'db \<Rightarrow> nat" where
  "authorisations D k [] s = 0"
| "authorisations D k (x # xs) s =
     (case approval_step D k x s of (n, s') \<Rightarrow> n + authorisations D k xs s')"

fun granted :: "string \<times> int \<times> string \<Rightarrow> approval_op list \<Rightarrow> nat" where
  "granted k [] = 0"
| "granted k (SaveApproval rec # xs) =
     (case k of (rid, pv, h) \<Rightarrow> if active_for rid pv h rec then 1 else 0) + granted k xs"
| "granted k (_ # xs) = granted k xs"

lemma granted_Cons:
  "granted k (x # xs) = granted k [x] + granted k xs"
  by (cases x) simp_all

context gorm_store
begin

lemma approval_step_count:
  assumes "approval_step D k x s = (n, s')"
  shows "n + active_count k (view s') \<le> active_count k (view s) + granted k [x]"
proof (cases x)
  case (SaveApproval rec)
  obtain rid pv h where k: "k = (rid, pv, h)" by (cases k)
  from SaveApproval assms have "n = 0" "approval_save D rec s = (fst (approval_save D rec s), s')" by auto
  with save_count [OF this(2), of rid pv h] SaveApproval show ?thesis by (simp add: k)
next
  case (InvalidateRun now rid)
  with assms invalidate_count [of now rid s "fst (approval_invalidate D now rid s)" s' k] show ?thesis
    by (auto simp: prod_eq_iff)
next
  case (Consume now rid pv h)
  with assms show ?thesis
    using consume_count [of now rid pv h s _ s' k] by (fastforce split: prod.splits if_splits)
next
  case (ConsumeAndMark now rid pv h)
  with assms show ?thesis
    using mark_count [of now rid pv h s _ s' k] by (fastforce split: prod.splits if_splits)
qed

lemma authorisations_bound:
  "authorisations D k ops s \<le> active_count k (view s) + granted k ops"
proof (induction ops arbitrary: s)
  case (Cons x xs)
  obtain n s' where st: "approval_step D k x s = (n, s')" by fastforce
  from approval_step_count [OF st] Cons.IH [of s'] st granted_Cons [of k x xs] show ?case by simp
qed simp

end

section \<open>Properties\<close>

text \<open>
  C9. An approval authorises at most one execution. In every history of saves,
  invalidations and both ways of spending an approval, started on any database and with
  any statement failing, the number of times a snapshot (run, plan version, hash) was
  authorised is at most the number of approvals of it that were active at the start or
  saved since.
\<close>

theorem approval_spent_at_most_once:
  assumes "gorm_ok view D"
  shows "authorisations D k ops s \<le> active_count k (view s) + granted k ops"
  by (rule gorm_store.authorisations_bound [OF gorm_store.intro [OF assms]])

definition sample_approval :: approval_record where
  "sample_approval = \<lparr>al_ID = ''a1'', al_RunID = ''r1'', al_PlanVersion = 2, al_SnapshotHash = ''h'',
     al_Decision = ''approved'', al_Actor = ''kim'', al_CreatedAt = 7, al_InvalidatedAt = None,
     al_ConsumedAt = None\<rparr>"

definition sample_approval_ops :: "approval_op list" where
  "sample_approval_ops = [SaveApproval sample_approval, Consume 8 ''r1'' 2 ''other'',
     Consume 9 ''r1'' 2 ''h'', Consume 10 ''r1'' 2 ''h'']"

lemmas mem_approval_eval = mem_db_def mem_tx_def mem_table_def db_frames prog_simps count_rows_def
  approval_save_def approval_consume_def active_for_def sample_approval_def empty_tables_def

theorem approval_spent_at_most_once_witness:
  "authorisations mem_db (''r1'', 2, ''h'') sample_approval_ops empty_tables = 1 \<and>
   active_count (''r1'', 2, ''h'') empty_tables + granted (''r1'', 2, ''h'') sample_approval_ops = 1 \<and>
   authorisations mem_db (''r1'', 2, ''h'') sample_approval_ops empty_tables
     \<le> active_count (''r1'', 2, ''h'') empty_tables + granted (''r1'', 2, ''h'') sample_approval_ops"
  using approval_spent_at_most_once [OF mem_db_ok, of "(''r1'', 2, ''h'')" sample_approval_ops empty_tables]
  by (simp add: sample_approval_ops_def mem_approval_eval active_count_def)

text \<open>
  ConsumeAndMarkExecuting is atomic over the two tables. When it returns true, exactly
  one active approval of the snapshot existed and is spent, and exactly one task waited
  with this plan version, hash and grant and is now EXECUTING, with no other column
  of it and no other task changed. Otherwise no table changed.
\<close>

theorem consume_and_mark_atomic:
  assumes "gorm_ok view D" "consume_and_mark_executing D now rid pv h s = (q, s')"
  shows "if q = Inr True then
      active_count (rid, pv, h) (view s) = 1 \<and> active_count (rid, pv, h) (view s') = 0 \<and>
      count_rows (awaiting_task rid pv h) (t_tasks (view s)) = 1 \<and>
      map (ts_norm tasks_spec) (t_tasks (view s')) =
        map (\<lambda>t. ts_norm tasks_spec (if awaiting_task rid pv h t then t\<lparr>tr_State := ''EXECUTING''\<rparr> else t))
          (t_tasks (view s))
    else view s' = view s"
proof -
  have D: "gorm_store view D" using assms(1) by (rule gorm_store.intro)
  from gorm_store.mark_result [OF D assms(2)] show ?thesis
  proof (elim disjE conjE exE)
    fix s1 s2
    assume a: "q = Inr True" "view s1 = view s" "mark_tx D now rid pv h s1 = (Inr (), s2)" "view s' = view s2"
    note m = gorm_store.mark_success [OF D a(3), of "(rid, pv, h)", unfolded a(2)]
    then obtain g where "\<forall>t. ts_norm tasks_spec (g t) = ts_norm tasks_spec (t\<lparr>tr_State := ''EXECUTING''\<rparr>)"
      "t_tasks (view s2) = map (\<lambda>t. if awaiting_task rid pv h t then g t else t) (t_tasks (view s))"
      by blast
    then have "map (ts_norm tasks_spec) (t_tasks (view s')) =
        map (\<lambda>t. ts_norm tasks_spec (if awaiting_task rid pv h t then t\<lparr>tr_State := ''EXECUTING''\<rparr> else t))
          (t_tasks (view s))"
      unfolding a(4) by (auto simp: comp_def)
    with m a(1,4) show ?thesis by simp
  qed simp
qed

definition sample_task :: task_record where
  "sample_task = \<lparr>tr_ID = ''r1'', tr_WorkspaceID = ''w'', tr_Requirement = ''fix'', tr_ConstraintsJSON = [],
     tr_AcceptanceJSON = [], tr_State = ''AWAITING_APPROVAL'', tr_PlanVersion = 2, tr_ApprovalHash = ''h'',
     tr_ApprovalGranted = True, tr_PlanJSON = [], tr_VerificationJSON = [], tr_CreatedAt = 1, tr_UpdatedAt = 1\<rparr>"

theorem consume_and_mark_atomic_witness:
  "let t = empty_tables\<lparr>t_approvals := [sample_approval], t_tasks := [sample_task]\<rparr>;
       t' = empty_tables\<lparr>t_approvals := [sample_approval\<lparr>al_ConsumedAt := Some 9\<rparr>],
              t_tasks := [sample_task\<lparr>tr_State := ''EXECUTING''\<rparr>]\<rparr> in
   consume_and_mark_executing mem_db 9 ''r1'' 2 ''h'' t = (Inr True, t') \<and>
   active_count (''r1'', 2, ''h'') t = 1 \<and> active_count (''r1'', 2, ''h'') t' = 0"
proof -
  let ?t = "empty_tables\<lparr>t_approvals := [sample_approval], t_tasks := [sample_task]\<rparr>"
  let ?u = "empty_tables\<lparr>t_approvals := [sample_approval\<lparr>al_ConsumedAt := Some 9\<rparr>],
              t_tasks := [sample_task\<lparr>tr_State := ''EXECUTING''\<rparr>]\<rparr>"
  have run: "consume_and_mark_executing mem_db 9 ''r1'' 2 ''h'' ?t = (Inr True, ?u)"
    by (simp add: consume_and_mark_executing_def mark_tx_def mem_approval_eval awaiting_task_def
        sample_task_def)
  from consume_and_mark_atomic [OF mem_db_ok this] run show ?thesis by simp
qed

end
