(* ===== verification/Event_Repository.thy ===== *)
theory Event_Repository
  imports Storage "HOL-Library.Product_Lexorder"
begin

text \<open>
  \<open>internal/storage/sqlite/event_repository.go\<close>: the numbered event stream of a run, read
  with a cursor. \<open>json.Marshal\<close> of the event's data is a parameter (its result), and so
  are the clock and the transaction that hands its event to the caller.
\<close>

section \<open>Operations\<close>

record event =
  evt_RunID :: string
  evt_Sequence :: int
  evt_Type :: string
  evt_Data :: string
  evt_CreatedAt :: timestamp

definition event_of :: "event_record \<Rightarrow> event" where
  "event_of r = \<lparr>evt_RunID = er_RunID r, evt_Sequence = er_Sequence r, evt_Type = er_Type r,
     evt_Data = er_Data r, evt_CreatedAt = er_CreatedAt r\<rparr>"

definition append_tx ::
  "'db gorm_db \<Rightarrow> timestamp \<Rightarrow> string \<Rightarrow> string \<Rightarrow> string \<Rightarrow> ('db, event) prog" where
  "append_tx D now rid kind raw =
     bindE (tryE (sql_first (gd_events D) (\<lambda>r. er_RunID r = rid) (\<lambda>r. (- er_Sequence r, er_ID r)))) (\<lambda>found.
       case found of
         Inl e \<Rightarrow>
           if errors_is e RecordNotFound
           then let rec = \<lparr>er_ID = 0, er_RunID = rid, er_Sequence = int64 (0 + 1), er_Type = kind,
                    er_Data = raw, er_CreatedAt = now\<rparr> in
             bindE (sql_create (gd_events D) rec) (\<lambda>_. returnE (event_of rec))
           else raiseE e
       | Inr newest \<Rightarrow>
           let rec = \<lparr>er_ID = 0, er_RunID = rid, er_Sequence = int64 (er_Sequence newest + 1), er_Type = kind,
                    er_Data = raw, er_CreatedAt = now\<rparr> in
             bindE (sql_create (gd_events D) rec) (\<lambda>_. returnE (event_of rec)))"

definition event_append ::
  "'db gorm_db \<Rightarrow> (('db, event) prog \<Rightarrow> ('db, event) prog) \<Rightarrow> timestamp \<Rightarrow> string \<Rightarrow> string \<Rightarrow>
   string result \<Rightarrow> ('db, event) prog" where
  "event_append D tx now rid kind marshalled =
     (case marshalled of
        Inl e \<Rightarrow> raiseE e
      | Inr raw \<Rightarrow> tx (append_tx D now rid kind raw))"

definition events_after ::
  "'db gorm_db \<Rightarrow> string \<Rightarrow> int \<Rightarrow> int \<Rightarrow> ('db, event list) prog" where
  "events_after D rid cursor lim =
     (let lim = (if lim \<le> 0 then 100 else lim) in
      bindE (sql_find (gd_events D) (\<lambda>r. er_RunID r = rid \<and> er_Sequence r > cursor)) (\<lambda>rows.
        returnE (map event_of (take (nat lim) (sort_key er_Sequence rows)))))"

section \<open>The stream of a run\<close>

definition stream :: "tables \<Rightarrow> string \<Rightarrow> event_record list" where
  "stream t rid = filter (\<lambda>r. er_RunID r = rid) (t_events t)"

text \<open>The events of every run are numbered 1, 2, ... in the order they were added.\<close>

definition events_numbered :: "tables \<Rightarrow> bool" where
  "events_numbered t \<longleftrightarrow>
     (\<forall>rid. map er_Sequence (stream t rid) = [1..int (length (stream t rid))])"

lemma event_norm:
  assumes "ts_norm events_spec a = ts_norm events_spec b"
  shows "event_of a = event_of b" "er_RunID a = er_RunID b" "er_Sequence a = er_Sequence b"
  using assms by (cases a; cases b; simp add: events_spec_def event_of_def)+

lemma events_numbered_empty: "events_numbered empty_tables"
  by (simp add: events_numbered_def stream_def empty_tables_def)

lemma numbered_drop:
  assumes "map f xs = [1..int (length xs)]"
  shows "filter (\<lambda>r. c < f r) xs = drop (nat c) xs"
  using assms
proof (induction xs rule: rev_induct)
  case (snoc x xs)
  have up: "[1..int (length (xs @ [x]))] = [1..int (length xs)] @ [int (length xs) + 1]"
    using upto_rec2 [of 1 "int (length xs) + 1"] by (simp add: add.commute)
  with snoc.prems have "map f xs = [1..int (length xs)]" "f x = int (length xs) + 1"
    by (simp_all del: upto.simps)
  with snoc.IH show ?case by (cases "c \<le> int (length xs)") auto
qed simp

lemma stream_append:
  "t_events t' = t_events t @ [r] \<Longrightarrow>
   stream t' rid = stream t rid @ (if er_RunID r = rid then [r] else [])"
  by (simp add: stream_def)

lemma stream_last:
  assumes "events_numbered t" "r \<in> set (stream t rid)"
    "\<forall>x\<in>set (stream t rid). er_Sequence x \<le> er_Sequence r"
  shows "er_Sequence r = int (length (stream t rid))"
proof -
  let ?n = "int (length (stream t rid))"
  have seqs: "er_Sequence ` set (stream t rid) = {1..?n}"
    using assms(1) by (metis events_numbered_def list.set_map set_upto)
  have "?n \<ge> 1" using assms(2) by (cases "stream t rid") auto
  with seqs have "?n \<in> er_Sequence ` set (stream t rid)" by auto
  then have "?n \<le> er_Sequence r" using assms(3) by auto
  moreover have "er_Sequence r \<in> {1..?n}" using assms(2) seqs by blast
  ultimately show ?thesis by simp
qed

context gorm_store
begin

lemma append_success:
  assumes "events_numbered (view s)" "int (length (stream (view s) rid)) + 1 < 2 ^ 63"
    and "append_tx D now rid kind raw s = (Inr ev, s')"
  shows "events_numbered (view s') \<and>
    ev = \<lparr>evt_RunID = rid, evt_Sequence = int (length (stream (view s) rid)) + 1, evt_Type = kind,
          evt_Data = raw, evt_CreatedAt = now\<rparr> \<and>
    map event_of (stream (view s') rid) = map event_of (stream (view s) rid) @ [ev] \<and>
    (\<forall>x. x \<noteq> rid \<longrightarrow> stream (view s') x = stream (view s) x)"
proof -
  let ?n = "int (length (stream (view s) rid))"
  let ?rec = "\<lambda>n. \<lparr>er_ID = 0, er_RunID = rid, er_Sequence = int64 (n + 1), er_Type = kind,
                    er_Data = raw, er_CreatedAt = now\<rparr>"
  obtain q u where q: "sql_first (gd_events D) (\<lambda>r. er_RunID r = rid) (\<lambda>r. (- er_Sequence r, er_ID r)) s
      = (q, u)" by fastforce
  have "view u = view s \<and> bindE (sql_create (gd_events D) (?rec ?n)) (\<lambda>_. returnE (event_of (?rec ?n))) u
      = (Inr ev, s')"
  proof (cases rule: sql_firstE [OF events_ok q])
    case (1 e)
    with assms(3) q show ?thesis by (simp add: append_tx_def prog_simps db_error_is split: if_splits)
  next
    case 2
    then have "stream (view s) rid = []" by (simp add: stream_def events_spec_def filter_empty_conv)
    with assms(3) q 2 show ?thesis by (simp add: append_tx_def prog_simps Let_def)
  next
    case (3 r)
    then have "r \<in> set (stream (view s) rid)"
      "\<forall>x\<in>set (stream (view s) rid). er_Sequence x \<le> er_Sequence r"
      by (auto simp: stream_def events_spec_def)
    then have "er_Sequence r = ?n" by (rule stream_last [OF assms(1)])
    with assms(3) q 3 show ?thesis by (simp add: append_tx_def prog_simps Let_def)
  qed
  then obtain v where u: "view u = view s" and cr: "sql_create (gd_events D) (?rec ?n) u = (Inr (), s')"
    and ev: "ev = event_of (?rec ?n)"
    by (elim conjE bindE_InrE) (auto simp: returnE_def)
  from cr obtain r where norm: "ts_norm events_spec r = ts_norm events_spec (?rec ?n)"
    and vs: "t_events (view s') = t_events (view s) @ [r]"
    using u by (cases rule: sql_createE [OF events_ok cr]) (auto simp: events_spec_def)
  have r: "er_RunID r = rid" "er_Sequence r = ?n + 1" "event_of r = ev"
    using event_norm [OF norm] assms(2) ev by simp_all
  have other: "stream (view s') x = stream (view s) x" if "x \<noteq> rid" for x
    using stream_append [OF vs] r that by simp
  have own: "stream (view s') rid = stream (view s) rid @ [r]"
    using stream_append [OF vs] r by simp
  have "events_numbered (view s')"
    unfolding events_numbered_def
  proof
    fix x
    show "map er_Sequence (stream (view s') x) = [1..int (length (stream (view s') x))]"
      using assms(1) own other r(2) upto_rec2 [of 1 "?n + 1"]
      by (cases "x = rid") (auto simp: events_numbered_def add.commute)
  qed
  with own other r ev assms(2) show ?thesis by (simp add: event_of_def)
qed

lemma after_spec:
  assumes "events_numbered (view s)" "events_after D rid cursor lim s = (Inr evs, s')"
  shows "view s' = view s \<and>
    evs = map event_of (take (nat (if lim \<le> 0 then 100 else lim)) (drop (nat cursor) (stream (view s) rid)))"
proof -
  let ?new = "drop (nat cursor) (stream (view s) rid)"
  from assms(2) obtain rows where
    q: "sql_find (gd_events D) (\<lambda>r. er_RunID r = rid \<and> er_Sequence r > cursor) s = (Inr rows, s')"
    and evs: "evs = map event_of (take (nat (if lim \<le> 0 then 100 else lim)) (sort_key er_Sequence rows))"
    unfolding events_after_def Let_def by (elim bindE_InrE) (auto simp: returnE_def)
  have numbered: "map er_Sequence (stream (view s) rid) = [1..int (length (stream (view s) rid))]"
    using assms(1) by (simp add: events_numbered_def)
  have rows: "mset rows = mset (filter (\<lambda>r. cursor < er_Sequence r) (stream (view s) rid))" "view s' = view s"
    by (cases rule: sql_findE [OF events_ok q]; simp add: events_spec_def stream_def conj_commute)+
  then have new: "mset rows = mset ?new" using numbered_drop [OF numbered] by simp
  have seqs: "map er_Sequence ?new = drop (nat cursor) [1..int (length (stream (view s) rid))]"
    using numbered by (metis drop_map)
  have "sort (map er_Sequence rows) = map er_Sequence ?new"
  proof (rule properties_for_sort)
    show "mset (map er_Sequence ?new) = mset (map er_Sequence rows)" using new by simp
    show "sorted (map er_Sequence ?new)" unfolding seqs by (rule sorted_wrt_drop [OF sorted_upto])
  qed
  then have eq: "map er_Sequence (sort_key er_Sequence rows) = map er_Sequence ?new"
    by (simp only: sort_key_map_seq)
  have sets: "set (sort_key er_Sequence rows) = set ?new" using new by (metis mset_eq_setD set_sort)
  have "distinct (map er_Sequence ?new)" unfolding seqs by (rule distinct_drop [OF distinct_upto])
  then have "inj_on er_Sequence (set (sort_key er_Sequence rows) \<union> set ?new)"
    using sets by (simp add: distinct_map)
  with eq have "sort_key er_Sequence rows = ?new" by (rule map_inj_on)
  with evs rows(2) show ?thesis by simp
qed

lemma event_append_cases:
  assumes "tx_laws view tx" "event_append D tx now rid kind (Inr raw) s = (q, s')"
  obtains (error) e where "q = Inl e" "view s' = view s"
  | (ok) ev s1 s2 where "q = Inr ev" "view s1 = view s" "append_tx D now rid kind raw s1 = (Inr ev, s2)"
      "view s' = view s2"
  using assms(2) error ok by (auto simp: event_append_def elim: txE [OF assms(1)])

end

section \<open>Properties\<close>

text \<open>
  Appending to the event stream of a run: on success the event has the caller's type
  and data, its sequence is one more than the number of events of the run, it is the last
  of the run's stream, and the streams of other runs and the numbering of all of them
  are intact; on failure no table changed.
\<close>

theorem event_append_next:
  assumes "gorm_ok view D" "tx_laws view tx" "events_numbered (view s)"
    and "int (length (stream (view s) rid)) + 1 < 2 ^ 63"
  shows "case event_append D tx now rid kind (Inr raw) s of
     (Inl e, s') \<Rightarrow> view s' = view s
   | (Inr ev, s') \<Rightarrow> events_numbered (view s') \<and>
       ev = \<lparr>evt_RunID = rid, evt_Sequence = int (length (stream (view s) rid)) + 1, evt_Type = kind,
             evt_Data = raw, evt_CreatedAt = now\<rparr> \<and>
       map event_of (stream (view s') rid) = map event_of (stream (view s) rid) @ [ev] \<and>
       (\<forall>x. x \<noteq> rid \<longrightarrow> stream (view s') x = stream (view s) x)"
proof -
  have D: "gorm_store view D" using assms(1) by (rule gorm_store.intro)
  obtain q s' where run: "event_append D tx now rid kind (Inr raw) s = (q, s')" by fastforce
  show ?thesis
  proof (cases rule: gorm_store.event_append_cases [OF D assms(2) run])
    case (2 ev s1 s2)
    with gorm_store.append_success [OF D _ _ 2(3)] assms(3,4) run show ?thesis by simp
  qed (simp add: run)
qed

text \<open>
  A reader with a cursor misses nothing: \<open>After(run, n, limit)\<close> returns exactly the
  events of the run behind the first n, in order, cut at the limit (100 when the limit is
  not positive).
\<close>

theorem cursor_reads_stream:
  assumes "gorm_ok view D" "events_numbered (view s)"
    and "events_after D rid cursor lim s = (Inr evs, s')"
  shows "view s' = view s \<and>
    evs = map event_of (take (nat (if lim \<le> 0 then 100 else lim)) (drop (nat cursor) (stream (view s) rid)))"
  by (rule gorm_store.after_spec [OF gorm_store.intro [OF assms(1)] assms(2,3)])

definition sample_event :: "nat \<Rightarrow> string \<Rightarrow> int \<Rightarrow> event_record" where
  "sample_event i rid n = \<lparr>er_ID = i, er_RunID = rid, er_Sequence = n, er_Type = ''state'',
     er_Data = ''{}'', er_CreatedAt = 5\<rparr>"

definition sample_events :: tables where
  "sample_events = empty_tables\<lparr>t_events := [sample_event 1 ''r1'' 1, sample_event 2 ''r2'' 1,
     sample_event 3 ''r1'' 2, sample_event 4 ''r1'' 3]\<rparr>"

lemma sample_stream:
  "stream sample_events rid =
     (if rid = ''r1'' then [sample_event 1 ''r1'' 1, sample_event 3 ''r1'' 2, sample_event 4 ''r1'' 3]
      else if rid = ''r2'' then [sample_event 2 ''r2'' 1] else [])"
  by (simp add: stream_def sample_events_def empty_tables_def sample_event_def)

lemma sample_events_numbered: "events_numbered sample_events"
  by (simp add: events_numbered_def sample_stream sample_event_def upto.simps)

theorem event_append_next_witness:
  "\<exists>ev t'. event_append mem_db mem_tx 9 ''r2'' ''done'' (Inr ''{}'') sample_events = (Inr ev, t') \<and>
     evt_Sequence ev = 2 \<and> length (stream t' ''r2'') = 2"
proof -
  have "\<exists>ev t'. event_append mem_db mem_tx 9 ''r2'' ''done'' (Inr ''{}'') sample_events = (Inr ev, t')"
    by (simp add: event_append_def append_tx_def mem_db_def mem_tx_def mem_table_def db_frames
        prog_simps sql_first_def sample_events_def sample_event_def empty_tables_def Let_def)
  then obtain ev t' where r: "event_append mem_db mem_tx 9 ''r2'' ''done'' (Inr ''{}'') sample_events
    = (Inr ev, t')" by blast
  have n: "int (length (stream sample_events ''r2'')) + 1 < 2 ^ 63" by (simp add: sample_stream)
  note next_event = event_append_next [where now = 9 and kind = "''done''" and raw = "''{}''",
      OF mem_db_ok mem_tx_laws sample_events_numbered n]
  from next_event r have "evt_Sequence ev = 2" and m: "map event_of (stream t' ''r2'')
      = map event_of (stream sample_events ''r2'') @ [ev]"
    by (simp_all add: sample_stream)
  moreover have "length (stream t' ''r2'') = 2"
    using arg_cong [OF m, of length] by (simp add: sample_stream)
  ultimately show ?thesis using r by blast
qed

theorem cursor_reads_stream_witness:
  "\<exists>evs. events_after mem_db ''r1'' 1 1 sample_events = (Inr evs, sample_events) \<and>
     evs = map event_of (take 1 (drop 1 (stream sample_events ''r1'')))"
proof -
  have "\<exists>evs. events_after mem_db ''r1'' 1 1 sample_events = (Inr evs, sample_events)"
    by (simp add: events_after_def mem_db_def mem_table_def db_frames prog_simps)
  then obtain evs where r: "events_after mem_db ''r1'' 1 1 sample_events = (Inr evs, sample_events)" ..
  from cursor_reads_stream [OF mem_db_ok sample_events_numbered r] r show ?thesis by simp
qed

end
