(* ===== verification/Schema.thy ===== *)
theory Schema
  imports Go_Prelude
begin

text \<open>
  The data types of \<open>internal/council/schema\<close> and the protobuf messages of
  \<open>internal/runner/rpc/generated\<close> that carry an approved plan to the runner, one record
  per struct in the source's field order. Go slices are \<open>slice\<close> values where JSON or a
  \<open>nil\<close> test can tell \<open>nil\<close> from an empty slice. \<open>int\<close> is 64-bit in Go; the model uses
  HOL integers and writes the narrowing to \<open>int32\<close> out (\<open>to_int32\<close>).
\<close>

record workspace_file =
  wf_Path :: string
  wf_Content :: string

record evidence =
  ev_Path :: string
  ev_Line :: int
  ev_Claim :: string

record task_brief =
  tb_Requirement :: string
  tb_Constraints :: "string slice"
  tb_Acceptance :: "string slice"
  tb_WorkspaceFacts :: "evidence slice"
  tb_WorkspaceFiles :: "workspace_file slice"

record file_change =
  fc_Path :: string
  fc_Operation :: string
  fc_Rationale :: string

record proposal =
  pr_ID :: string
  pr_Summary :: string
  pr_Approach :: "string slice"
  pr_Files :: "file_change slice"
  pr_Risks :: "string slice"
  pr_Tests :: "string slice"
  pr_Evidence :: "evidence slice"

record peer_review =
  rv_ReviewerSeatID :: string
  rv_ProposalAlias :: string
  rv_Correctness :: "string slice"
  rv_Risks :: "string slice"
  rv_Missing :: "string slice"
  rv_Verdict :: string

record plan_command =
  cmd_Executable :: string
  cmd_Args :: "string slice"
  cmd_WorkDir :: string
  cmd_TimeoutSeconds :: int
  cmd_Purpose :: string

record plan_patch =
  pt_Path :: string
  pt_UnifiedDiff :: string
  pt_BeforeHash :: string

record execution_plan =
  Version :: int
  Patches :: "plan_patch slice"
  Commands :: "plan_command slice"
  VerificationCommands :: "plan_command slice"
  Acceptance :: "string slice"
  Recovery :: "string slice"

record council_decision =
  cd_SelectedAliases :: "string slice"
  cd_Reasons :: "string slice"
  cd_Rejected :: "(string \<times> string slice) slice"
  cd_PlanSummary :: "string slice"
  cd_Plan :: execution_plan

record red_team_report =
  rt_Blocking :: "string slice"
  rt_NonBlocking :: "string slice"
  rt_Recommendation :: string

record schema_step_result =
  sr_Kind :: string
  sr_Name :: string
  sr_ExitCode :: int
  sr_Stdout :: string
  sr_Stderr :: string
  sr_DurationMillis :: int
  sr_Status :: string

record verification_report =
  vr_Passed :: bool
  vr_ActualDiff :: string
  vr_Steps :: "schema_step_result slice"
  vr_Acceptance :: "(string \<times> string) slice"
  vr_ReviewFindings :: "string slice"

text \<open>The zero value \<open>schema.ExecutionPlan{}\<close>.\<close>

definition zero_plan :: execution_plan where
  "zero_plan = \<lparr>Version = 0, Patches = None, Commands = None, VerificationCommands = None,
     Acceptance = None, Recovery = None\<rparr>"

section \<open>Messages to the runner\<close>

text \<open>A conversion \<open>int32(x)\<close> keeps the low 32 bits, read as two's complement.\<close>

definition to_int32 :: "int \<Rightarrow> int" where
  "to_int32 x = (x + 2 ^ 31) mod 2 ^ 32 - 2 ^ 31"

definition fits_int32 :: "int \<Rightarrow> bool" where
  "fits_int32 x \<longleftrightarrow> - (2 ^ 31) \<le> x \<and> x < 2 ^ 31"

lemma to_int32_fits [simp]: "fits_int32 x \<Longrightarrow> to_int32 x = x"
  by (simp add: fits_int32_def to_int32_def)

lemma to_int32_range: "fits_int32 (to_int32 x)"
  by (simp add: fits_int32_def to_int32_def)

lemma to_int32_eq_iff: "to_int32 x = x \<longleftrightarrow> fits_int32 x"
  using to_int32_range [of x] by auto

record approved_patch =
  ap_Path :: string
  ap_UnifiedDiff :: string
  ap_BeforeHash :: string

record approved_command =
  ac_Executable :: string
  ac_Args :: "string slice"
  ac_WorkDir :: string
  ac_TimeoutSeconds :: int
  ac_Purpose :: string

record exec_request =
  rq_RequestId :: string
  rq_RunId :: string
  rq_WorkspaceId :: string
  rq_PlanVersion :: int
  rq_Patches :: "approved_patch slice"
  rq_Commands :: "approved_command slice"
  rq_Acceptance :: "string slice"
  rq_ApprovalHash :: string
  rq_VerificationCommands :: "approved_command slice"

record step_result =
  st_Kind :: string
  st_Name :: string
  st_ExitCode :: int
  st_Stdout :: string
  st_Stderr :: string
  st_DurationMs :: int
  st_Status :: string

record exec_response =
  rs_RequestId :: string
  rs_Status :: string
  rs_Steps :: "step_result list"
  rs_ActualDiff :: string
  rs_ErrorCode :: string

text \<open>
  A proto3 \<open>repeated\<close> field has no presence: an empty one is not on the wire and the
  generated Go code of the receiver leaves the field \<open>nil\<close>. \<open>proto3_wire\<close> is this
  documented behaviour of the transport, as a hypothesis on the function that carries a
  request from the sender to the receiver.
\<close>

definition proto_slice :: "'a slice \<Rightarrow> 'a slice" where
  "proto_slice s = slice_of (elems s)"

definition proto_command :: "approved_command \<Rightarrow> approved_command" where
  "proto_command c = c\<lparr>ac_Args := proto_slice (ac_Args c)\<rparr>"

definition proto_request :: "exec_request \<Rightarrow> exec_request" where
  "proto_request r =
     r\<lparr>rq_Patches := proto_slice (rq_Patches r),
       rq_Commands := proto_slice (map_option (map proto_command) (rq_Commands r)),
       rq_Acceptance := proto_slice (rq_Acceptance r),
       rq_VerificationCommands :=
         proto_slice (map_option (map proto_command) (rq_VerificationCommands r))\<rparr>"

definition proto3_wire :: "(exec_request \<Rightarrow> exec_request) \<Rightarrow> bool" where
  "proto3_wire wire \<longleftrightarrow> (\<forall>r. wire r = proto_request r)"

lemma elems_proto_slice [simp]: "elems (proto_slice s) = elems s"
  by (simp add: proto_slice_def)

lemma elems_map_option [simp]: "elems (map_option (map f) s) = map f (elems s)"
  by (cases s) simp_all

end
