(* ===== verification/Idempotency.thy ===== *)
theory Idempotency
  imports Storage Schema
begin

text \<open>
  \<open>internal/runner/idempotency/store.go\<close>: the store that makes a request id execute at most
  once. Its mutex makes every method one atomic step. The database is optional; encoding
  a response as JSON and back (\<open>protojson\<close>) are the parameters \<open>enc\<close> and \<open>dec\<close>.
\<close>

section \<open>Operations\<close>

record 'db idem_store =
  idm_running :: "string set"
  idm_done :: "string \<Rightarrow> exec_response option"
  idm_db :: 'db

definition idem_new :: "'db \<Rightarrow> 'db idem_store" where
  "idem_new d = \<lparr>idm_running = {}, idm_done = (\<lambda>_. None), idm_db = d\<rparr>"

text \<open>A database program on the store's database.\<close>

definition on_db :: "('db, 'a) prog \<Rightarrow> ('db idem_store, 'a) prog" where
  "on_db m st = (case m (idm_db st) of (r, d) \<Rightarrow> (r, st\<lparr>idm_db := d\<rparr>))"

definition find_execution :: "'db gorm_db \<Rightarrow> string \<Rightarrow> ('db, execution_record) prog" where
  "find_execution D rid = sql_first (gd_executions D) (\<lambda>r. ex_RequestID r = rid) ex_RequestID"

definition decode_response :: "(string \<Rightarrow> exec_response result) \<Rightarrow> string \<Rightarrow> exec_response option" where
  "decode_response dec raw =
     (case dec raw of Inl _ \<Rightarrow> None | Inr v \<Rightarrow> if rs_RequestId v = [] then None else Some v)"

definition idem_get ::
  "'db gorm_db option \<Rightarrow> (string \<Rightarrow> exec_response result) \<Rightarrow> string \<Rightarrow> 'db idem_store \<Rightarrow>
   exec_response option \<times> 'db idem_store" where
  "idem_get DB dec rid st =
     (case idm_done st rid of
        Some v \<Rightarrow> (Some v, st)
      | None \<Rightarrow>
        (case DB of
           None \<Rightarrow> (None, st)
         | Some D \<Rightarrow>
           (case on_db (find_execution D rid) st of
              (Inl _, st1) \<Rightarrow> (None, st1)
            | (Inr rec, st1) \<Rightarrow>
                if ex_Status rec \<noteq> ''running'' then
                  (case dec (ex_ResponseJSON rec) of
                     Inl _ \<Rightarrow> (None, st1)
                   | Inr v \<Rightarrow> (Some v, st1\<lparr>idm_done := (idm_done st1)(rid \<mapsto> v)\<rparr>))
                else (None, st1))))"

text \<open>\<open>Begin\<close>: \<open>Inr True\<close> is a release function that frees the id, \<open>Inr False\<close> the release
  function that does nothing.\<close>

definition begin_new :: "'db gorm_db \<Rightarrow> string \<Rightarrow> 'db idem_store \<Rightarrow> bool result \<times> 'db idem_store" where
  "begin_new D rid st =
     (case on_db (sql_create (gd_executions D) \<lparr>ex_RequestID = rid, ex_Status = ''running'',
             ex_ResponseJSON = ''{}'', ex_CreatedAt = 0\<rparr>) st of
        (Inl _, st1) \<Rightarrow> (Inl (Sent ErrInProgress), snd (on_db (find_execution D rid) st1))
      | (Inr _, st1) \<Rightarrow> (Inr True, st1\<lparr>idm_running := insert rid (idm_running st1)\<rparr>))"

definition idem_begin ::
  "'db gorm_db option \<Rightarrow> (string \<Rightarrow> exec_response result) \<Rightarrow> string \<Rightarrow> 'db idem_store \<Rightarrow>
   bool result \<times> 'db idem_store" where
  "idem_begin DB dec rid st =
     (if idm_done st rid \<noteq> None then (Inr False, st)
      else if rid \<in> idm_running st then (Inl (Sent ErrInProgress), st)
      else case DB of
        None \<Rightarrow> (Inr True, st\<lparr>idm_running := insert rid (idm_running st)\<rparr>)
      | Some D \<Rightarrow>
          (case on_db (find_execution D rid) st of
             (Inr rec, st1) \<Rightarrow>
               if ex_Status rec = ''running'' then (Inl (Sent ErrInProgress), st1)
               else (case decode_response dec (ex_ResponseJSON rec) of
                  Some v \<Rightarrow> (Inr False, st1\<lparr>idm_done := (idm_done st1)(rid \<mapsto> v)\<rparr>)
                | None \<Rightarrow> begin_new D rid st1)
           | (Inl _, st1) \<Rightarrow> begin_new D rid st1))"

definition idem_release :: "bool \<Rightarrow> string \<Rightarrow> 'db idem_store \<Rightarrow> 'db idem_store" where
  "idem_release real_release rid st =
     (if real_release then st\<lparr>idm_running := idm_running st - {rid}\<rparr> else st)"

definition idem_complete ::
  "'db gorm_db option \<Rightarrow> (exec_response \<Rightarrow> string result) \<Rightarrow> string \<Rightarrow> exec_response \<Rightarrow>
   'db idem_store \<Rightarrow> 'db idem_store" where
  "idem_complete DB enc rid response st =
     (let st1 = st\<lparr>idm_running := idm_running st - {rid}, idm_done := (idm_done st)(rid \<mapsto> response)\<rparr> in
      case DB of
        None \<Rightarrow> st1
      | Some D \<Rightarrow>
          (case enc response of
             Inl _ \<Rightarrow> st1
           | Inr raw \<Rightarrow> snd (on_db (sql_save (gd_executions D)
               \<lparr>ex_RequestID = rid, ex_Status = ''complete'', ex_ResponseJSON = raw, ex_CreatedAt = 0\<rparr>) st1)))"

section \<open>Facts about the store\<close>

lemma on_db_fields [simp]:
  "idm_running (snd (on_db m st)) = idm_running st" "idm_done (snd (on_db m st)) = idm_done st"
  by (simp_all add: on_db_def split: prod.splits)

lemma idem_get_done:
  assumes "idem_get DB dec rid st = (Some v, st')"
  shows "idm_done st' rid = Some v"
  using assms
  by (auto simp: idem_get_def on_db_def split: option.splits prod.splits sum.splits if_splits)

lemma idem_get_hit: "idm_done st rid = Some v \<Longrightarrow> idem_get DB dec rid st = (Some v, st)"
  by (simp add: idem_get_def)

lemma idem_complete_done [simp]: "idm_done (idem_complete DB enc rid r st) rid = Some r"
  by (simp add: idem_complete_def Let_def split: option.splits sum.splits)

lemma idem_release_done [simp]: "idm_done (idem_release b rid st) = idm_done st"
  by (simp add: idem_release_def)

text \<open>While an id is running, nobody else begins it.\<close>

lemma idem_begin_running:
  "rid \<in> idm_running st \<Longrightarrow> idm_done st rid = None \<Longrightarrow>
   idem_begin DB dec rid st = (Inl (Sent ErrInProgress), st)"
  by (simp add: idem_begin_def)

lemma idem_begin_marks:
  assumes "idem_begin DB dec rid st = (Inr True, st')"
  shows "rid \<in> idm_running st' \<and> idm_done st' = idm_done st \<and> idm_done st rid = None"
  using assms
  by (auto simp: idem_begin_def begin_new_def on_db_def split: option.splits prod.splits sum.splits if_splits)

text \<open>The request ids the database knows.\<close>

definition known_requests :: "tables \<Rightarrow> string set" where
  "known_requests t = ex_RequestID ` set (t_executions t)"

lemma execution_norm:
  "ts_norm executions_spec a = ts_norm executions_spec b \<Longrightarrow>
   ex_RequestID a = ex_RequestID b \<and> ex_Status a = ex_Status b \<and> ex_ResponseJSON a = ex_ResponseJSON b"
  by (cases a; cases b) (simp add: executions_spec_def)

context gorm_store
begin

lemma find_execution_cases:
  assumes "find_execution D rid s = (q, s')"
  shows "view s' = view s \<and>
    ((\<exists>e. q = Inl e \<and> db_error e) \<or> (q = Inl (Sent RecordNotFound) \<and> rid \<notin> known_requests (view s)) \<or>
     (\<exists>r. q = Inr r \<and> r \<in> set (t_executions (view s)) \<and> ex_RequestID r = rid))"
  by (cases rule: sql_firstE [OF executions_ok assms [unfolded find_execution_def]])
     (auto simp: executions_spec_def known_requests_def)

lemma begin_new_known:
  assumes "rid \<in> known_requests (view (idm_db st))"
  shows "fst (begin_new D rid st) = Inl (Sent ErrInProgress)"
proof -
  let ?row = "\<lparr>ex_RequestID = rid, ex_Status = ''running'', ex_ResponseJSON = ''{}'', ex_CreatedAt = 0\<rparr>"
  obtain q d where q: "sql_create (gd_executions D) ?row (idm_db st) = (q, d)" by fastforce
  show ?thesis
  proof (cases rule: sql_createE [OF executions_ok q])
    case (1 e)
    with q show ?thesis by (simp add: begin_new_def on_db_def)
  next
    case (2 r')
    from execution_norm [OF 2(2)] have "ex_RequestID r' = rid" by simp
    with 2(3) assms have False by (auto simp: executions_spec_def known_requests_def)
    then show ?thesis ..
  qed
qed

lemma begin_new_result:
  assumes "begin_new D rid st = (Inr b, st')"
  shows "b \<and> rid \<in> known_requests (view (idm_db st'))"
proof -
  let ?row = "\<lparr>ex_RequestID = rid, ex_Status = ''running'', ex_ResponseJSON = ''{}'', ex_CreatedAt = 0\<rparr>"
  obtain q d where q: "sql_create (gd_executions D) ?row (idm_db st) = (q, d)" by fastforce
  show ?thesis
  proof (cases rule: sql_createE [OF executions_ok q])
    case (1 e)
    with q assms show ?thesis by (simp add: begin_new_def on_db_def)
  next
    case (2 r')
    with q assms execution_norm [OF 2(2)] show ?thesis
      by (auto simp: begin_new_def on_db_def executions_spec_def known_requests_def)
  qed
qed

text \<open>Beginning an id records it in the database first.\<close>

lemma idem_begin_recorded:
  assumes "idem_begin (Some D) dec rid st = (Inr True, st')"
  shows "rid \<in> known_requests (view (idm_db st'))"
  using assms begin_new_result
  by (auto simp: idem_begin_def split: prod.splits sum.splits if_splits option.splits)

lemma idem_begin_known:
  assumes "rid \<in> known_requests (view (idm_db st))" "idm_done st rid = None"
  shows "fst (idem_begin (Some D) dec rid st) \<noteq> Inr True"
proof -
  obtain q st1 where f: "on_db (find_execution D rid) st = (q, st1)" by fastforce
  then obtain d where d: "find_execution D rid (idm_db st) = (q, d)" "st1 = st\<lparr>idm_db := d\<rparr>"
    by (auto simp: on_db_def split: prod.splits)
  have "rid \<in> known_requests (view (idm_db st1))"
    using find_execution_cases [OF d(1)] d(2) assms(1) by simp
  note new = begin_new_known [OF this]
  show ?thesis
    using f new assms(2) by (auto simp: idem_begin_def split: sum.splits option.splits)
qed

end

end
