(* ===== verification/Go_Path.thy ===== *)
theory Go_Path
  imports Go_Strings
begin

text \<open>
  The lexical part of Go's \<open>path/filepath\<close> on Unix (separator \<open>/\<close>, no volume names):
  \<open>Clean\<close>, \<open>Join\<close>, \<open>Dir\<close>, \<open>Base\<close>, \<open>Ext\<close>, \<open>Rel\<close> and \<open>IsAbs\<close>. The theorems describe them
  on absolute paths given by their components (\<open>abs_path\<close>), which is how the path guard
  uses them.
\<close>

section \<open>Definitions\<close>

abbreviation slash :: char where "slash \<equiv> CHR ''/''"

definition is_abs :: "string \<Rightarrow> bool" where
  "is_abs p \<longleftrightarrow> has_prefix p ''/''"

text \<open>\<open>filepath.VolumeName\<close> is empty on Unix.\<close>

definition volume_name :: "string \<Rightarrow> string" where
  "volume_name p = []"

text \<open>The component loop of \<open>Clean\<close>; the stack holds the components kept so far.\<close>

fun clean_go :: "bool \<Rightarrow> string list \<Rightarrow> string list \<Rightarrow> string list" where
  "clean_go r st [] = rev st"
| "clean_go r st (c # cs) =
     (if c = [] \<or> c = ''.'' then clean_go r st cs
      else if c = ''..'' then
        (case st of
           [] \<Rightarrow> if r then clean_go r [] cs else clean_go r [''..''] cs
         | t # st' \<Rightarrow> if t = ''..'' then clean_go r (''..'' # st) cs else clean_go r st' cs)
      else clean_go r (c # st) cs)"

definition clean :: "string \<Rightarrow> string" where
  "clean p =
     (let rooted = has_prefix p ''/'';
          body = join_with ''/'' (clean_go rooted [] (split_on slash p))
      in if rooted then ''/'' @ body else if body = [] then ''.'' else body)"

text \<open>\<open>filepath.Join\<close>: leading empty elements are dropped, the rest joined and cleaned.\<close>

definition path_join :: "string list \<Rightarrow> string" where
  "path_join xs = (let ys = dropWhile (\<lambda>x. x = []) xs in if ys = [] then [] else clean (join_with ''/'' ys))"

definition upto_last_slash :: "string \<Rightarrow> string" where
  "upto_last_slash p = rev (dropWhile (\<lambda>c. c \<noteq> slash) (rev p))"

definition after_last_slash :: "string \<Rightarrow> string" where
  "after_last_slash p = rev (takeWhile (\<lambda>c. c \<noteq> slash) (rev p))"

definition path_dir :: "string \<Rightarrow> string" where
  "path_dir p = clean (upto_last_slash p)"

definition path_base :: "string \<Rightarrow> string" where
  "path_base p =
     (if p = [] then ''.''
      else let q = rev (dropWhile (\<lambda>c. c = slash) (rev p))
           in if q = [] then ''/'' else after_last_slash q)"

text \<open>\<open>filepath.Ext\<close>: the suffix from the last dot of the last component.\<close>

definition path_ext :: "string \<Rightarrow> string" where
  "path_ext p =
     (let b = after_last_slash p; t = takeWhile (\<lambda>c. c \<noteq> CHR ''.'') (rev b)
      in if length t = length b then [] else CHR ''.'' # rev t)"

text \<open>The components of a cleaned path.\<close>

definition pcomps :: "string \<Rightarrow> string list" where
  "pcomps p = filter (\<lambda>c. c \<noteq> [] \<and> c \<noteq> ''.'') (split_on slash p)"

fun strip_common :: "string list \<Rightarrow> string list \<Rightarrow> string list \<times> string list" where
  "strip_common (x # xs) (y # ys) = (if x = y then strip_common xs ys else (x # xs, y # ys))"
| "strip_common xs ys = (xs, ys)"

text \<open>\<open>filepath.Rel\<close>; \<open>None\<close> is its error.\<close>

definition path_rel :: "string \<Rightarrow> string \<Rightarrow> string option" where
  "path_rel base targ =
     (let b = clean base; t = clean targ
      in if t = b then Some ''.''
         else if is_abs b \<noteq> is_abs t then None
         else case strip_common (pcomps b) (pcomps t) of
           (b', t') \<Rightarrow>
             if b' \<noteq> [] \<and> hd b' = ''..'' then None
             else Some (join_with ''/'' (replicate (length b') ''..'' @ t')))"

section \<open>Components\<close>

definition normal_comp :: "string \<Rightarrow> bool" where
  "normal_comp c \<longleftrightarrow> c \<noteq> [] \<and> c \<noteq> ''.'' \<and> c \<noteq> ''..'' \<and> slash \<notin> set c"

definition abs_path :: "string list \<Rightarrow> string" where
  "abs_path cs = ''/'' @ join_with ''/'' cs"

lemma normal_compD:
  "normal_comp c \<Longrightarrow> c \<noteq> []" "normal_comp c \<Longrightarrow> c \<noteq> ''.''" "normal_comp c \<Longrightarrow> c \<noteq> ''..''"
  "normal_comp c \<Longrightarrow> slash \<notin> set c"
  by (simp_all add: normal_comp_def)

lemma clean_go_append:
  "clean_go r st (xs @ ys) = clean_go r (rev (clean_go r st xs)) ys"
  by (induction r st xs rule: clean_go.induct) (auto split: list.splits)

lemma clean_go_normal [path_simps]:
  "list_all normal_comp cs \<Longrightarrow> clean_go r st cs = rev st @ cs"
  by (induction cs arbitrary: st) (auto simp: normal_comp_def)

lemma clean_go_is_normal:
  "list_all normal_comp st \<Longrightarrow> (\<And>c. c \<in> set cs \<Longrightarrow> slash \<notin> set c) \<Longrightarrow>
   list_all normal_comp (clean_go True st cs)"
proof (induction "True" st cs rule: clean_go.induct)
  case (2 st c cs)
  then show ?case by (auto simp: normal_comp_def split: list.splits)
qed simp

text \<open>Components without \<open>..\<close> only grow the stack.\<close>

lemma clean_go_no_dotdot:
  "''..'' \<notin> set cs \<Longrightarrow>
   clean_go r st cs = rev st @ filter (\<lambda>c. c \<noteq> [] \<and> c \<noteq> ''.'') cs"
  by (induction cs arbitrary: st) auto

lemma split_abs_path:
  assumes "list_all normal_comp cs"
  shows "split_on slash (abs_path cs) = (if cs = [] then [[], []] else [] # cs)"
proof (cases "cs = []")
  case True
  then show ?thesis by (simp add: abs_path_def)
next
  case False
  with assms have "split_on slash (join_with [slash] cs) = cs"
    by (intro split_join) (auto simp: list_all_iff normal_comp_def)
  with False show ?thesis by (simp add: abs_path_def)
qed

lemma is_abs_abs_path [simp]: "is_abs (abs_path cs)"
  by (simp add: is_abs_def abs_path_def)

lemma abs_path_not_Nil [simp]: "abs_path cs \<noteq> []"
  by (simp add: abs_path_def)

lemma abs_path_inject:
  assumes "list_all normal_comp cs" "list_all normal_comp ds"
  shows "abs_path cs = abs_path ds \<longleftrightarrow> cs = ds"
proof
  assume "abs_path cs = abs_path ds"
  then have "split_on slash (abs_path cs) = split_on slash (abs_path ds)" by simp
  then show "cs = ds" using assms
    by (auto simp: split_abs_path normal_comp_def split: if_splits)
qed simp

lemma pcomps_abs_path [path_simps]:
  assumes "list_all normal_comp cs"
  shows "pcomps (abs_path cs) = cs"
proof -
  have "filter (\<lambda>c. c \<noteq> [] \<and> c \<noteq> ''.'') cs = cs"
    using assms by (intro filter_True) (auto simp: list_all_iff normal_comp_def)
  with assms show ?thesis by (auto simp: pcomps_def split_abs_path)
qed

lemma clean_rooted:
  "has_prefix p ''/'' \<Longrightarrow> clean p = abs_path (clean_go True [] (split_on slash p))"
  by (simp add: clean_def abs_path_def Let_def)

lemma clean_abs_path [path_simps]:
  assumes "list_all normal_comp cs"
  shows "clean (abs_path cs) = abs_path cs"
proof -
  have "clean_go True [] (split_on slash (abs_path cs)) = cs"
    using assms by (auto simp: split_abs_path clean_go_normal)
  then show ?thesis by (simp add: clean_rooted abs_path_def)
qed

lemma split_on_append_sep: "split_on c (x @ c # y) = split_on c x @ split_on c y"
  by (induction x) (auto split: list.splits)

text \<open>Joining a relative path onto an absolute one: the relative components are run over
  the absolute ones.\<close>

lemma join_abs_path [path_simps]:
  assumes "list_all normal_comp rs"
  shows "path_join [abs_path rs, p] = abs_path (clean_go True (rev rs) (split_on slash p))"
proof -
  have "has_prefix (abs_path rs @ slash # p) ''/''"
    by (simp add: abs_path_def)
  moreover have "clean_go True [] (split_on slash (abs_path rs)) = rs"
    using assms by (auto simp: split_abs_path clean_go_normal)
  ultimately have "clean (abs_path rs @ slash # p)
      = abs_path (clean_go True (rev rs) (split_on slash p))"
    by (simp add: clean_rooted split_on_append_sep clean_go_append)
  then show ?thesis by (simp add: path_join_def)
qed

section \<open>Relative paths\<close>

lemma strip_common_prefix: "strip_common xs (xs @ ys) = ([], ys)"
  by (induction xs) (cases ys; auto)+

lemma strip_common_spec:
  "strip_common xs ys = (xs', ys') \<Longrightarrow> \<exists>c. xs = c @ xs' \<and> ys = c @ ys'"
  by (induction xs ys rule: strip_common.induct) (auto split: if_splits intro: exI [of _ "_ # _"])

lemma path_rel_abs:
  assumes "list_all normal_comp bs" "list_all normal_comp ts" "bs \<noteq> ts"
    and "strip_common bs ts = (b', t')"
  shows "path_rel (abs_path bs) (abs_path ts)
         = Some (join_with ''/'' (replicate (length b') ''..'' @ t'))"
proof -
  obtain c where "bs = c @ b'" using strip_common_spec [OF assms(4)] by blast
  with assms(1) have "\<not> (b' \<noteq> [] \<and> hd b' = ''..'')"
    by (cases b') (auto simp: normal_comp_def)
  with assms show ?thesis
    by (auto simp: path_rel_def Let_def path_simps abs_path_inject)
qed

lemma join_with_starts_dotdot:
  assumes "list_all normal_comp ts"
  shows "(join_with ''/'' (replicate n ''..'' @ ts) = ''..''
          \<or> has_prefix (join_with ''/'' (replicate n ''..'' @ ts)) ''../'') \<longleftrightarrow> n \<noteq> 0"
proof (cases n)
  case 0
  have "hd (split_on slash s) = ''..''" if "s = ''..'' \<or> has_prefix s ''../''" for s
    using that by (auto simp: prefix_def)
  moreover have "ts \<noteq> [] \<Longrightarrow> split_on slash (join_with ''/'' ts) = ts"
    using assms by (intro split_join) (auto simp: list_all_iff normal_comp_def)
  ultimately show ?thesis
    using 0 assms by (cases ts) (fastforce simp: normal_comp_def)+
next
  case (Suc m)
  then show ?thesis
    by (cases "replicate m ''..'' @ ts") (auto simp: join_with_Cons)
qed

text \<open>
  The test of the path guard: the relative path does not start with \<open>..\<close> exactly when
  the base's components are a prefix of the target's.
\<close>

lemma rel_inside_iff:
  assumes "list_all normal_comp bs" "list_all normal_comp ts"
  shows "(case path_rel (abs_path bs) (abs_path ts) of
            None \<Rightarrow> False
          | Some r \<Rightarrow> \<not> (r = ''..'' \<or> has_prefix r ''../'')) \<longleftrightarrow> prefix bs ts"
proof (cases "bs = ts")
  case True
  then show ?thesis by (simp add: path_rel_def)
next
  case False
  obtain b' t' where s: "strip_common bs ts = (b', t')" by fastforce
  then obtain c where c: "bs = c @ b'" "ts = c @ t'" using strip_common_spec by blast
  have "list_all normal_comp t'" using assms(2) c by simp
  from join_with_starts_dotdot [OF this, of "length b'"]
  have "(case path_rel (abs_path bs) (abs_path ts) of None \<Rightarrow> False
         | Some r \<Rightarrow> \<not> (r = ''..'' \<or> has_prefix r ''../'')) \<longleftrightarrow> b' = []"
    by (simp add: path_rel_abs [OF assms False s])
  also have "b' = [] \<longleftrightarrow> prefix bs ts"
  proof
    assume "prefix bs ts"
    then obtain z where "ts = bs @ z" by (auto simp: prefix_def)
    with s show "b' = []" by (simp add: strip_common_prefix)
  qed (use c in auto)
  finally show ?thesis .
qed

text \<open>The directory of a non-empty absolute path drops its last component.\<close>

lemma path_dir_abs [path_simps]:
  assumes "list_all normal_comp (cs @ [c])"
  shows "path_dir (abs_path (cs @ [c])) = abs_path cs"
proof -
  have c: "slash \<notin> set c" using assms by (simp add: normal_comp_def)
  define q where "q = (if cs = [] then [] else abs_path cs)"
  have "abs_path (cs @ [c]) = q @ slash # c"
    by (simp add: abs_path_def q_def join_with_snoc)
  moreover have "dropWhile (\<lambda>x. x \<noteq> slash) (rev c @ slash # rev q) = slash # rev q"
    using c by (subst dropWhile_append2) auto
  ultimately have "upto_last_slash (abs_path (cs @ [c])) = q @ [slash]"
    by (simp add: upto_last_slash_def)
  moreover have "clean (q @ [slash]) = abs_path cs"
  proof -
    have "has_prefix (q @ [slash]) ''/''" by (simp add: q_def abs_path_def)
    moreover have "clean_go True [] (split_on slash (q @ [slash])) = cs"
      using assms by (auto simp: q_def split_on_append_sep clean_go_append split_abs_path
          clean_go_normal)
    ultimately show ?thesis by (simp add: clean_rooted)
  qed
  ultimately show ?thesis by (simp add: path_dir_def)
qed

lemma path_dir_root: "path_dir (abs_path []) = abs_path []"
  by (simp add: path_dir_def upto_last_slash_def abs_path_def clean_def)

end
