(* ===== verification/Path_Guard.thy ===== *)
theory Path_Guard
  imports Go_Prelude Go_Path
begin

text \<open>
  \<open>internal/runner/pathguard/guard.go\<close>: the guard that maps a path of a plan into the
  workspace. The file system is read through three parameters: \<open>cwd\<close> (\<open>os.Getwd\<close>),
  \<open>eval\<close> (\<open>filepath.EvalSymlinks\<close>) and \<open>stat\<close> (the size \<open>os.Stat\<close> reports).
\<close>

section \<open>Operations\<close>

record guard =
  g_root :: string
  g_maxBytes :: int

text \<open>\<open>filepath.Abs\<close>.\<close>

definition path_abs :: "string result \<Rightarrow> string \<Rightarrow> string result" where
  "path_abs cwd p =
     (if is_abs p then Inr (clean p)
      else case cwd of Inl e \<Rightarrow> Inl e | Inr wd \<Rightarrow> Inr (path_join [wd, p]))"

definition guard_new ::
  "string result \<Rightarrow> (string \<Rightarrow> string result) \<Rightarrow> string \<Rightarrow> int \<Rightarrow> guard result" where
  "guard_new cwd eval root max_bytes =
     (case path_abs cwd root of
        Inl e \<Rightarrow> Inl e
      | Inr ab \<Rightarrow>
          let real = (case eval ab of Inl e \<Rightarrow> ab | Inr r \<Rightarrow> r) in
          Inr \<lparr>g_root = clean real, g_maxBytes = max_bytes\<rparr>)"

definition check_inside :: "guard \<Rightarrow> string \<Rightarrow> unit result" where
  "check_inside g path =
     (case path_rel (g_root g) path of
        None \<Rightarrow> Inl (Sent ErrOutsideWorkspace)
      | Some rel \<Rightarrow>
          if rel = ''..'' \<or> has_prefix rel (''..'' @ ''/'') then Inl (Sent ErrOutsideWorkspace)
          else Inr ())"

definition is_sensitive :: "string \<Rightarrow> bool" where
  "is_sensitive path =
     (let base = to_lower (path_base path) in
      if base = ''.env'' \<or> has_prefix base ''.env.'' \<or> base = ''id_rsa'' \<or> base = ''id_ed25519'' \<or>
         has_suffix base ''.pem'' \<or> has_suffix base ''.key''
      then True
      else has_suffix (to_lower path) ''.db'' \<or> has_suffix (to_lower path) ''.sqlite'')"

definition resolve_read ::
  "(string \<Rightarrow> string result) \<Rightarrow> (string \<Rightarrow> int result) \<Rightarrow> guard \<Rightarrow> string \<Rightarrow> string result" where
  "resolve_read eval stat g relative =
     (if is_abs relative then Inl (Sent ErrOutsideWorkspace)
      else let candidate = path_join [g_root g, clean relative] in
      case check_inside g candidate of
        Inl e \<Rightarrow> Inl e
      | Inr _ \<Rightarrow>
        (let real = (case eval candidate of Inl e \<Rightarrow> candidate | Inr r \<Rightarrow> r) in
         case check_inside g real of
           Inl e \<Rightarrow> Inl e
         | Inr _ \<Rightarrow>
           if is_sensitive real then Inl (Sent ErrSensitivePath)
           else case stat real of
              Inl e \<Rightarrow> Inl e
            | Inr n \<Rightarrow>
                if g_maxBytes g > 0 \<and> n > g_maxBytes g then Inl (Sent ErrFileTooLarge)
                else Inr real))"

definition resolve_write ::
  "(string \<Rightarrow> string result) \<Rightarrow> guard \<Rightarrow> string \<Rightarrow> string result" where
  "resolve_write eval g relative =
     (if is_abs relative then Inl (Sent ErrOutsideWorkspace)
      else let candidate = path_join [g_root g, clean relative] in
      case check_inside g candidate of
        Inl e \<Rightarrow> Inl e
      | Inr _ \<Rightarrow>
        if is_sensitive candidate then Inl (Sent ErrSensitivePath)
        else
         (let parent = (case eval (path_dir candidate) of Inl e \<Rightarrow> path_dir candidate | Inr r \<Rightarrow> r) in
          case check_inside g parent of Inl e \<Rightarrow> Inl e | Inr _ \<Rightarrow> Inr candidate))"

definition resolve_directory ::
  "(string \<Rightarrow> string result) \<Rightarrow> (string \<Rightarrow> int result) \<Rightarrow> guard \<Rightarrow> string \<Rightarrow> string result" where
  "resolve_directory eval stat g relative = resolve_read eval stat g relative"

section \<open>Paths inside the root\<close>

text \<open>A guard whose root has the components \<open>rs\<close>.\<close>

definition rooted_at :: "guard \<Rightarrow> string list \<Rightarrow> bool" where
  "rooted_at g rs \<longleftrightarrow> list_all normal_comp rs \<and> g_root g = abs_path rs"

text \<open>\<open>EvalSymlinks\<close> returns a cleaned path, an absolute one for an absolute one.\<close>

definition evals_to_clean :: "(string \<Rightarrow> string result) \<Rightarrow> bool" where
  "evals_to_clean eval \<longleftrightarrow>
     (\<forall>p r. is_abs p \<and> eval p = Inr r \<longrightarrow> (\<exists>cs. list_all normal_comp cs \<and> r = abs_path cs))"

text \<open>The root was resolved when the guard was made: no link is left on the way to it.\<close>

definition root_resolved :: "(string \<Rightarrow> string result) \<Rightarrow> string list \<Rightarrow> bool" where
  "root_resolved eval rs \<longleftrightarrow>
     (\<forall>bs r. prefix bs rs \<and> eval (abs_path bs) = Inr r \<longrightarrow> r = abs_path bs)"

text \<open>A path below the root, by its components.\<close>

definition below :: "string list \<Rightarrow> string \<Rightarrow> bool" where
  "below rs p \<longleftrightarrow> (\<exists>cs. list_all normal_comp cs \<and> p = abs_path (rs @ cs))"

lemma abs_clean_go:
  assumes "list_all normal_comp rs"
  shows "list_all normal_comp (clean_go True (rev rs) (split_on slash p))"
  using assms by (intro clean_go_is_normal) (auto dest: split_on_no_sep)

lemma candidate_abs:
  assumes "rooted_at g rs"
  obtains cs where "list_all normal_comp cs" "path_join [g_root g, p] = abs_path cs"
  using assms abs_clean_go [of rs p] by (auto simp: rooted_at_def path_simps)

lemma check_inside_iff:
  assumes "rooted_at g rs" "list_all normal_comp cs"
  shows "check_inside g (abs_path cs) = (if prefix rs cs then Inr () else Inl (Sent ErrOutsideWorkspace))"
  using rel_inside_iff [of rs cs] assms
  by (auto simp: check_inside_def rooted_at_def split: option.splits)

lemma check_inside_below:
  assumes "rooted_at g rs" "list_all normal_comp cs" "check_inside g (abs_path cs) = Inr ()"
  shows "below rs (abs_path cs)"
  using assms by (auto simp: check_inside_iff below_def prefix_def split: if_splits)

lemma eval_abs:
  assumes "evals_to_clean eval" "list_all normal_comp cs"
  obtains ds where "list_all normal_comp ds"
    "(case eval (abs_path cs) of Inl e \<Rightarrow> abs_path cs | Inr r \<Rightarrow> r) = abs_path ds"
proof (cases "eval (abs_path cs)")
  case (Inl e)
  with assms(2) that show thesis by simp
next
  case (Inr r)
  then obtain ds where "list_all normal_comp ds" "r = abs_path ds"
    using assms(1) is_abs_abs_path unfolding evals_to_clean_def by blast
  with Inr that show thesis by simp
qed

lemma resolve_read_cases:
  assumes "rooted_at g rs" "evals_to_clean eval" "resolve_read eval stat g p = Inr real"
  shows "below rs real \<and> \<not> is_sensitive real \<and>
    (\<exists>n. stat real = Inr n \<and> (g_maxBytes g > 0 \<longrightarrow> n \<le> g_maxBytes g))"
proof -
  obtain cs where cs: "list_all normal_comp cs" "path_join [g_root g, clean p] = abs_path cs"
    using candidate_abs [OF assms(1)] .
  obtain ds where ds: "list_all normal_comp ds"
      "(case eval (abs_path cs) of Inl e \<Rightarrow> abs_path cs | Inr r \<Rightarrow> r) = abs_path ds"
    using eval_abs [OF assms(2) cs(1)] .
  have "check_inside g (abs_path ds) = Inr ()" "real = abs_path ds" "\<not> is_sensitive real"
    "\<exists>n. stat real = Inr n \<and> (g_maxBytes g > 0 \<longrightarrow> n \<le> g_maxBytes g)"
    using assms(3) by (auto simp: resolve_read_def Let_def cs(2) ds(2) split: if_splits sum.splits)
  with check_inside_below [OF assms(1) ds(1)] show ?thesis by simp
qed

lemma resolve_write_cases:
  assumes "rooted_at g rs" "evals_to_clean eval" "root_resolved eval rs"
    and "resolve_write eval g p = Inr path"
  obtains (inside) cs c where "list_all normal_comp (cs @ [c])" "path = abs_path (rs @ cs @ [c])"
      "below rs (case eval (abs_path (rs @ cs)) of Inl e \<Rightarrow> abs_path (rs @ cs) | Inr r \<Rightarrow> r)"
      "\<not> is_sensitive path"
  | (root) "rs = []" "path = abs_path []"
proof -
  obtain xs where xs: "list_all normal_comp xs" "path_join [g_root g, clean p] = abs_path xs"
    using candidate_abs [OF assms(1)] .
  have step: "check_inside g (abs_path xs) = Inr ()" "path = abs_path xs" "\<not> is_sensitive path"
    "check_inside g (case eval (path_dir (abs_path xs)) of Inl e \<Rightarrow> path_dir (abs_path xs) | Inr r \<Rightarrow> r)
      = Inr ()"
    using assms(4) by (auto simp: resolve_write_def Let_def xs(2) split: if_splits sum.splits)
  then obtain ds where ds: "xs = rs @ ds"
    using assms(1) xs(1) by (auto simp: check_inside_iff prefix_def split: if_splits)
  show thesis
  proof (cases ds rule: rev_cases)
    case (snoc cs c)
    have dir: "path_dir (abs_path xs) = abs_path (rs @ cs)"
      using path_dir_abs [of "rs @ cs" c] xs(1) ds snoc by simp
    have "list_all normal_comp (rs @ cs)" using xs(1) ds snoc by simp
    then obtain es where es: "list_all normal_comp es"
        "(case eval (abs_path (rs @ cs)) of Inl e \<Rightarrow> abs_path (rs @ cs) | Inr r \<Rightarrow> r) = abs_path es"
      using eval_abs [OF assms(2)] by blast
    with step(4) [unfolded dir] check_inside_below [OF assms(1) es(1)] have
      "below rs (case eval (abs_path (rs @ cs)) of Inl e \<Rightarrow> abs_path (rs @ cs) | Inr r \<Rightarrow> r)" by simp
    with inside [of cs c] xs(1) ds snoc step(2,3) show thesis by simp
  next
    case Nil
    show thesis
    proof (cases rs rule: rev_cases)
      case Nil
      with root step(2) ds \<open>ds = []\<close> show thesis by simp
    next
      case (snoc bs b)
      have dir: "path_dir (abs_path xs) = abs_path bs"
        using path_dir_abs [of bs b] xs(1) ds snoc \<open>ds = []\<close> by simp
      have "(case eval (abs_path bs) of Inl e \<Rightarrow> abs_path bs | Inr r \<Rightarrow> r) = abs_path bs"
        using assms(3) snoc unfolding root_resolved_def
        by (auto split: sum.splits)
      with step(4) [unfolded dir] have "check_inside g (abs_path bs) = Inr ()" by simp
      moreover have "list_all normal_comp bs" using xs(1) ds snoc by simp
      ultimately have "prefix rs bs" using assms(1) by (simp add: check_inside_iff split: if_splits)
      with snoc have False by (auto simp: prefix_def)
      then show thesis ..
    qed
  qed
qed

text \<open>A relative path that does not climb is accepted where it points.\<close>

lemma split_join_normal:
  assumes "cs \<noteq> []" "list_all normal_comp cs"
  shows "split_on slash (join_with ''/'' cs) = cs"
  using assms by (intro split_join) (auto simp: list_all_iff normal_comp_def)

lemma clean_join_normal:
  assumes "cs \<noteq> []" "list_all normal_comp cs"
  shows "clean (join_with ''/'' cs) = join_with ''/'' cs" "\<not> is_abs (join_with ''/'' cs)"
proof -
  obtain c ds where cs: "cs = c # ds" using assms(1) by (cases cs) auto
  have c: "c \<noteq> []" "slash \<notin> set c" using assms(2) cs by (simp_all add: normal_comp_def)
  have "join_with ''/'' cs = c @ (if ds = [] then [] else ''/'' @ join_with ''/'' ds)"
    unfolding cs by (cases ds) simp_all
  moreover have "hd c \<noteq> slash" using c by (metis list.set_sel(1))
  ultimately have "hd (join_with ''/'' cs) \<noteq> slash" "join_with ''/'' cs \<noteq> []"
    using c(1) by simp_all
  then show np: "\<not> is_abs (join_with ''/'' cs)"
    by (cases "join_with ''/'' cs") (simp_all add: is_abs_def)
  with \<open>join_with ''/'' cs \<noteq> []\<close> show "clean (join_with ''/'' cs) = join_with ''/'' cs"
    using split_join_normal [OF assms] clean_go_normal [OF assms(2)]
    by (simp add: clean_def is_abs_def Let_def)
qed

lemma resolve_write_accepts:
  assumes "rooted_at g rs" "cs \<noteq> []" "list_all normal_comp cs"
    and "\<not> is_sensitive (abs_path (rs @ cs))"
    and "\<And>q. eval q = Inr q"
  shows "resolve_write eval g (join_with ''/'' cs) = Inr (abs_path (rs @ cs))"
proof -
  have rs: "list_all normal_comp rs" using assms(1) by (simp add: rooted_at_def)
  have cand: "path_join [g_root g, clean (join_with ''/'' cs)] = abs_path (rs @ cs)"
    using assms(1,2,3) rs
    by (simp add: rooted_at_def path_simps clean_join_normal split_join_normal)
  obtain bs b where b: "cs = bs @ [b]" using assms(2) by (cases cs rule: rev_cases) auto
  have "path_dir (abs_path (rs @ cs)) = abs_path (rs @ bs)"
    using path_dir_abs [of "rs @ bs" b] assms(3) rs b by simp
  moreover have "check_inside g (abs_path (rs @ cs)) = Inr ()" "check_inside g (abs_path (rs @ bs)) = Inr ()"
    using check_inside_iff [OF assms(1)] assms(3) rs b by simp_all
  ultimately show ?thesis
    using assms(4,5) clean_join_normal(2) [OF assms(2,3)] by (simp add: resolve_write_def cand Let_def)
qed

lemma path_abs_clean:
  assumes "path_abs cwd p = Inr ab" "\<And>wd. cwd = Inr wd \<Longrightarrow> is_abs wd"
  obtains cs where "list_all normal_comp cs" "ab = abs_path cs"
proof -
  have abs_clean: "\<exists>cs. list_all normal_comp cs \<and> clean q = abs_path cs" if "is_abs q" for q
    using that abs_clean_go [of "[]" q] by (auto simp: is_abs_def clean_rooted)
  show thesis
  proof (cases "is_abs p")
    case True
    with assms(1) abs_clean that show thesis by (auto simp: path_abs_def)
  next
    case False
    with assms(1) obtain wd where wd: "cwd = Inr wd" "ab = path_join [wd, p]"
      by (auto simp: path_abs_def split: sum.splits)
    have "is_abs wd" using wd(1) assms(2) by simp
    then have "wd \<noteq> []" "is_abs (wd @ ''/'' @ p)" by (auto simp: is_abs_def)
    with abs_clean [of "wd @ ''/'' @ p"] that wd(2) show thesis by (auto simp: path_join_def Let_def)
  qed
qed

lemma guard_new_rooted:
  assumes "evals_to_clean eval" "\<And>wd. cwd = Inr wd \<Longrightarrow> is_abs wd"
    and "guard_new cwd eval root n = Inr g"
  obtains rs where "rooted_at g rs" "g_maxBytes g = n"
proof -
  from assms(3) obtain ab where ab: "path_abs cwd root = Inr ab"
    "g = \<lparr>g_root = clean (case eval ab of Inl e \<Rightarrow> ab | Inr r \<Rightarrow> r), g_maxBytes = n\<rparr>"
    by (auto simp: guard_new_def Let_def split: sum.splits)
  obtain cs where cs: "list_all normal_comp cs" "ab = abs_path cs"
    using path_abs_clean [OF ab(1) assms(2)] .
  obtain ds where "list_all normal_comp ds"
    "(case eval (abs_path cs) of Inl e \<Rightarrow> abs_path cs | Inr r \<Rightarrow> r) = abs_path ds"
    using eval_abs [OF assms(1) cs(1)] .
  with that [of ds] show thesis
    unfolding ab(2) cs(2) by (simp add: rooted_at_def path_simps)
qed

section \<open>Properties\<close>

text \<open>
  Whatever relative path a plan names and whatever the links of the file system are, a
  path resolved for reading by a guard made by \<open>New\<close> lies below the guard's root (component by
  component), is not a sensitive file and is no larger than the limit.
\<close>

theorem reads_stay_in_workspace:
  assumes "evals_to_clean eval" "\<forall>wd. cwd = Inr wd \<longrightarrow> is_abs wd"
    and "guard_new cwd eval root n = Inr g" "resolve_read eval stat g p = Inr real"
  shows "\<exists>rs. g_root g = abs_path rs \<and> below rs real \<and> \<not> is_sensitive real \<and>
    (n > 0 \<longrightarrow> (\<exists>k. stat real = Inr k \<and> k \<le> n))"
proof -
  obtain rs where rs: "rooted_at g rs" "g_maxBytes g = n"
    using guard_new_rooted [OF assms(1) _ assms(3)] assms(2) by blast
  from resolve_read_cases [OF rs(1) assms(1,4)] rs show ?thesis
    by (intro exI [of _ rs]) (auto simp: rooted_at_def)
qed


text \<open>A sample file system: \<open>/w\<close> is the workspace and \<open>/w/out\<close> a link to \<open>/etc\<close>.\<close>

definition sample_eval :: "string \<Rightarrow> string result" where
  "sample_eval p = (if p = ''/w/out/x'' then Inr (abs_path [''etc'', ''x''])
     else if p = ''/w/out'' then Inr (abs_path [''etc''])
     else if p = ''/w'' then Inr (abs_path [''w''])
     else if p = ''/w/a.go'' then Inr (abs_path [''w'', ''a.go''])
     else if p = ''/'' then Inr (abs_path []) else Inl (Sent OsNotExist))"

lemmas guard_eval = resolve_read_def resolve_write_def guard_new_def path_abs_def is_abs_def clean_def
  path_join_def Let_def check_inside_def path_rel_def pcomps_def is_sensitive_def path_base_def
  after_last_slash_def upto_last_slash_def path_dir_def byte_def char_of_eq_iff take_bit_eq_mod
  to_lower_ascii lower_byte_def sample_eval_def suffix_to_prefix abs_path_def

lemma sample_eval_clean: "evals_to_clean sample_eval"
proof -
  have "\<exists>cs. list_all normal_comp cs \<and> r = abs_path cs" if "sample_eval p = Inr r" for p r
  proof -
    have "r \<in> {abs_path [''etc'', ''x''], abs_path [''etc''], abs_path [''w''],
        abs_path [''w'', ''a.go''], abs_path []}"
      using that by (auto simp: sample_eval_def split: if_splits)
    moreover have "list_all normal_comp [''etc'', ''x'']" "list_all normal_comp [''w'', ''a.go'']"
      "list_all normal_comp [''etc'']" "list_all normal_comp [''w'']" "list_all normal_comp []"
      by (simp_all add: normal_comp_def)
    ultimately show ?thesis by blast
  qed
  then show ?thesis unfolding evals_to_clean_def by blast
qed

theorem reads_stay_in_workspace_witness:
  "(\<exists>rs. ''/w'' = abs_path rs \<and> below rs ''/w/a.go'' \<and> \<not> is_sensitive ''/w/a.go'') \<and>
   resolve_read sample_eval (\<lambda>_. Inr 3) \<lparr>g_root = ''/w'', g_maxBytes = 10\<rparr> ''out/x''
     = Inl (Sent ErrOutsideWorkspace)"
proof -
  let ?g = "\<lparr>g_root = ''/w'', g_maxBytes = 10\<rparr>"
  have g: "guard_new (Inr ''/'') sample_eval ''w'' 10 = Inr ?g" by (simp add: guard_eval del: to_lower.simps)
  have r: "resolve_read sample_eval (\<lambda>_. Inr 3) ?g ''./x/../a.go'' = Inr ''/w/a.go''" by (simp add: guard_eval del: to_lower.simps)
  have wd: "\<forall>wd. Inr ''/'' = (Inr wd :: string result) \<longrightarrow> is_abs wd" by (auto simp: is_abs_def)
  from reads_stay_in_workspace [OF sample_eval_clean wd g r]
  have "\<exists>rs. ''/w'' = abs_path rs \<and> below rs ''/w/a.go'' \<and> \<not> is_sensitive ''/w/a.go''" by auto
  moreover have "resolve_read sample_eval (\<lambda>_. Inr 3) ?g ''out/x'' = Inl (Sent ErrOutsideWorkspace)"
    by (simp add: guard_eval del: to_lower.simps)
  ultimately show ?thesis by blast
qed


end
