(* ===== verification/Unified_Diff.thy ===== *)
theory Unified_Diff
  imports Go_Prelude Go_Strings
begin

text \<open>
  \<open>applyUnifiedDiff\<close> of \<open>internal/runner/files/transaction.go\<close>: a unified diff applied to a
  file's bytes. The two nested loops over the diff's lines are one recursion; its flag says
  whether a hunk is open.
\<close>

section \<open>The algorithm\<close>

abbreviation newline :: char where "newline \<equiv> CHR 0x0A"

text \<open>\<open>strings.ReplaceAll(diff, "\r\n", "\n")\<close>\<close>

fun crlf_to_lf :: "string \<Rightarrow> string" where
  "crlf_to_lf (a # b # s) =
     (if a = CHR 0x0D \<and> b = newline then newline # crlf_to_lf s else a # crlf_to_lf (b # s))"
| "crlf_to_lf s = s"

text \<open>The value of \<open>strconv.Atoi\<close> when its error is ignored: 0 for no number, the nearest
  bound for a number out of range.\<close>

definition atoi_value :: "string \<Rightarrow> int" where
  "atoi_value s =
     (let neg = (s \<noteq> [] \<and> hd s = CHR ''-'');
          ds = (if s \<noteq> [] \<and> (hd s = CHR ''-'' \<or> hd s = CHR ''+'') then tl s else s)
      in if ds = [] then 0
         else case parse_digits 0 ds of
             None \<Rightarrow> 0
           | Some n \<Rightarrow> if neg then max (- (2 ^ 63)) (- int n) else min (2 ^ 63 - 1) (int n))"

definition no_newline_mark :: string where
  "no_newline_mark = CHR 0x5C # '' No newline at end of file''"

definition hunk_start :: "string list \<Rightarrow> int" where
  "hunk_start parts = atoi_value (hd (split_on CHR '','' (trim_prefix (parts ! 1) ''-'')))"

fun diff_lines ::
  "string list \<Rightarrow> bool \<Rightarrow> nat \<Rightarrow> string list \<Rightarrow> string list \<Rightarrow> string list result" where
  "diff_lines old inner oi out [] = Inr (out @ drop oi old)"
| "diff_lines old inner oi out (l # ls) =
     (if has_prefix l ''@@'' then
        (let parts = fields l in
         if length parts < 3 then Inl (Err ''invalid unified diff hunk'')
         else let k = max oi (min (length old) (nat (int64 (hunk_start parts - 1)))) in
           diff_lines old True k (out @ take (k - oi) (drop oi old)) ls)
      else if \<not> inner \<or> l = no_newline_mark \<or> l = [] then diff_lines old inner oi out ls
      else if hd l = CHR '' '' then
        (if oi \<ge> length old \<or> old ! oi \<noteq> tl l then Inl (Err ''diff context mismatch'')
         else diff_lines old inner (Suc oi) (out @ [old ! oi]) ls)
      else if hd l = CHR ''-'' then
        (if oi \<ge> length old \<or> old ! oi \<noteq> tl l then Inl (Err ''diff removal mismatch'')
         else diff_lines old inner (Suc oi) out ls)
      else if hd l = CHR ''+'' then diff_lines old inner oi (out @ [tl l]) ls
      else diff_lines old inner oi out ls)"

definition text_lines :: "string \<Rightarrow> string list" where
  "text_lines original =
     (let old = split_on newline (trim_suffix original [newline]) in if old = [[]] then [] else old)"

definition apply_unified_diff :: "string \<Rightarrow> string \<Rightarrow> string result" where
  "apply_unified_diff original diff =
     (let ls = split_on newline (crlf_to_lf diff) in
      if has_prefix (hd ls) ''---'' \<and> length ls < 2 then Inl (Sent GoPanic)
      else case diff_lines (text_lines original) False 0 []
            (if has_prefix (hd ls) ''---'' then drop 2 ls else ls) of
          Inl e \<Rightarrow> Inl e
        | Inr out \<Rightarrow> Inr (join_with [newline] out @ [newline]))"

section \<open>Edit scripts\<close>

text \<open>What a diff means: the old text is the untouched lines and, per hunk, the kept and
  deleted lines; the new text has the kept and added lines instead.\<close>

datatype edit = Keep string | Del string | Add string

fun edits_old :: "edit list \<Rightarrow> string list" where
  "edits_old [] = []"
| "edits_old (Keep s # es) = s # edits_old es"
| "edits_old (Del s # es) = s # edits_old es"
| "edits_old (Add s # es) = edits_old es"

fun edits_new :: "edit list \<Rightarrow> string list" where
  "edits_new [] = []"
| "edits_new (Keep s # es) = s # edits_new es"
| "edits_new (Del s # es) = edits_new es"
| "edits_new (Add s # es) = s # edits_new es"

type_synonym script = "(string list \<times> edit list) list"

definition script_old :: "script \<Rightarrow> string list \<Rightarrow> string list" where
  "script_old hs post = concat (map (\<lambda>(pre, es). pre @ edits_old es) hs) @ post"

definition script_new :: "script \<Rightarrow> string list \<Rightarrow> string list" where
  "script_new hs post = concat (map (\<lambda>(pre, es). pre @ edits_new es) hs) @ post"

text \<open>The lines of the diff of a script, as \<open>diff -u\<close> and git print them.\<close>

fun edit_line :: "edit \<Rightarrow> string" where
  "edit_line (Keep s) = CHR '' '' # s"
| "edit_line (Del s) = CHR ''-'' # s"
| "edit_line (Add s) = CHR ''+'' # s"

definition hunk_header :: "nat \<Rightarrow> nat \<Rightarrow> nat \<Rightarrow> nat \<Rightarrow> string" where
  "hunk_header a b c d = ''@@ -'' @ show_nat a @ '','' @ show_nat b @ '' +'' @ show_nat c @ '',''
     @ show_nat d @ '' @@''"

fun script_lines :: "nat \<Rightarrow> nat \<Rightarrow> script \<Rightarrow> string list" where
  "script_lines i j [] = []"
| "script_lines i j ((pre, es) # hs) =
     hunk_header (Suc (i + length pre)) (length (edits_old es)) (Suc (j + length pre)) (length (edits_new es))
     # map edit_line es
     @ script_lines (i + length pre + length (edits_old es)) (j + length pre + length (edits_new es)) hs"

section \<open>Reading a hunk header\<close>

lemma char_less_128: "of_char c < (128::nat) \<Longrightarrow> of_char c \<notin> {9, 10, 11, 12, 13, 32::nat} \<Longrightarrow>
   List.find (\<lambda>r. prefix r (c # s)) space_runes = None"
  unfolding find_None_iff space_runes_def byte_def by (auto simp: upt_rec)

lemma strip_one_word:
  assumes "of_char c < (128::nat)" "of_char c \<notin> {9, 10, 11, 12, 13, 32::nat}"
  shows "strip_one space_runes (c # s) = 0"
  using char_less_128 [OF assms] by (simp add: strip_one_def)

lemma strip_one_space: "strip_one space_runes (CHR '' '' # s) = 1"
  by (simp add: strip_one_def space_runes_def byte_def char_of_eq_iff take_bit_eq_mod)

definition word_char :: "char \<Rightarrow> bool" where
  "word_char c \<longleftrightarrow> of_char c < (128::nat) \<and> of_char c \<notin> {9, 10, 11, 12, 13, 32::nat}"

lemma fields_from_word:
  "list_all word_char w \<Longrightarrow> fields_from acc (w @ s) = fields_from (rev w @ acc) s"
proof (induction w arbitrary: acc)
  case (Cons c w)
  then have "strip_one space_runes (c # w @ s) = 0"
    by (intro strip_one_word) (simp_all add: word_char_def)
  with Cons show ?case by (subst fields_from.simps) (simp add: Let_def)
qed simp

lemma fields_word_space:
  assumes "list_all word_char w" "w \<noteq> []"
  shows "fields (w @ CHR '' '' # s) = w # fields s"
proof -
  have "fields_from (rev w) (CHR '' '' # s) = w # fields_from [] s"
    using assms(2) by (subst fields_from.simps) (simp add: strip_one_space Let_def)
  then show ?thesis by (simp add: fields_def fields_from_word [OF assms(1)])
qed

lemma fields_word:
  assumes "list_all word_char w" "w \<noteq> []"
  shows "fields w = [w]"
proof -
  have "fields_from (rev w) [] = [w]" using assms(2) by (subst fields_from.simps) simp
  then show ?thesis using fields_from_word [OF assms(1), of "[]" "[]"] by (simp add: fields_def)
qed

lemma word_show_nat: "list_all word_char (show_nat n)"
proof -
  have "word_char c" if c: "c \<in> set (show_nat n)" for c
  proof -
    obtain d where "d < 10" "c = digit_char d" using set_show_nat [OF c] by blast
    then show ?thesis by (auto simp: word_char_def digit_char_ASCII)
  qed
  then show ?thesis by (simp add: list_all_iff)
qed

lemma fields_header:
  "fields (hunk_header a b c d) =
     [''@@'', ''-'' @ show_nat a @ '','' @ show_nat b, ''+'' @ show_nat c @ '','' @ show_nat d, ''@@'']"
proof -
  have w: "list_all word_char ''@@''" "list_all word_char (''-'' @ show_nat a @ '','' @ show_nat b)"
    "list_all word_char (''+'' @ show_nat c @ '','' @ show_nat d)"
    using word_show_nat by (simp_all add: word_char_def)
  let ?x = "''-'' @ show_nat a @ '','' @ show_nat b" and ?y = "''+'' @ show_nat c @ '','' @ show_nat d"
  have "hunk_header a b c d = ''@@'' @ CHR '' '' # (?x @ CHR '' '' # (?y @ CHR '' '' # ''@@''))"
    by (simp add: hunk_header_def)
  then have "fields (hunk_header a b c d) = ''@@'' # fields (?x @ CHR '' '' # (?y @ CHR '' '' # ''@@''))"
    using fields_word_space [OF w(1)] by (metis list.discI)
  also have "fields (?x @ CHR '' '' # (?y @ CHR '' '' # ''@@'')) = ?x # fields (?y @ CHR '' '' # ''@@'')"
    by (rule fields_word_space [OF w(2)]) simp
  also have "fields (?y @ CHR '' '' # ''@@'') = ?y # fields ''@@''"
    by (rule fields_word_space [OF w(3)]) simp
  also have "fields ''@@'' = [''@@'']" by (rule fields_word [OF w(1)]) simp
  finally show ?thesis .
qed

lemma comma_not_digit: "CHR '','' \<notin> set (show_nat n)"
proof
  assume "CHR '','' \<in> set (show_nat n)"
  then obtain d where "d < 10" "CHR '','' = digit_char d" using set_show_nat by blast
  then have "of_char CHR '','' = (48 + d :: nat)" using digit_char_ASCII by metis
  then show False by simp
qed

lemma atoi_show_nat: "int n < 2 ^ 63 \<Longrightarrow> atoi_value (show_nat n) = int n"
  using hd_show_nat [of n] by (simp add: atoi_value_def parse_show_nat Let_def min_def)

lemma hunk_start_header:
  assumes "int a < 2 ^ 63"
  shows "hunk_start (fields (hunk_header a b c d)) = int a"
proof -
  have "split_on CHR '','' (show_nat a @ CHR '','' # show_nat b) = show_nat a # split_on CHR '','' (show_nat b)"
    by (rule split_on_append) (rule comma_not_digit)
  with assms show ?thesis
    by (simp add: hunk_start_def fields_header trim_prefix_def atoi_show_nat)
qed

section \<open>Applying the diff of a script\<close>

lemma diff_header:
  assumes "int (Suc n) < 2 ^ 63" "oi \<le> n" "n \<le> length old"
  shows "diff_lines old inner oi out (hunk_header (Suc n) b c d # ls) =
    diff_lines old True n (out @ take (n - oi) (drop oi old)) ls"
proof -
  have "max oi (min (length old) (nat (int64 (int (Suc n) - 1)))) = n" using assms by simp
  moreover have "has_prefix (hunk_header (Suc n) b c d) ''@@''" by (simp add: hunk_header_def)
  ultimately show ?thesis
    using hunk_start_header [OF assms(1), of b c d]
    by (simp add: fields_header [of "Suc n" b c d, symmetric] Let_def)
       (simp add: fields_header)
qed

lemma diff_edits:
  "drop oi old = edits_old es @ rest \<Longrightarrow>
   diff_lines old True oi out (map edit_line es @ ls) =
   diff_lines old True (oi + length (edits_old es)) (out @ edits_new es) ls"
proof (induction es arbitrary: oi out)
  case (Cons e es)
  have step: "oi < length old \<and> old ! oi = s \<and> drop (Suc oi) old = xs" if "drop oi old = s # xs" for s xs
    using that by (metis drop_Suc drop_all list.discI list.sel(1,3) not_le_imp_less nth_via_drop tl_drop)
  have mark: "no_newline_mark \<noteq> CHR '' '' # s" "no_newline_mark \<noteq> CHR ''-'' # s" "no_newline_mark \<noteq> CHR ''+'' # s" for s
    by (simp_all add: no_newline_mark_def)
  show ?case
  proof (cases e)
    case (Keep s)
    with Cons.prems step have "oi < length old" "old ! oi = s" "drop (Suc oi) old = edits_old es @ rest" by auto
    with Cons.IH [of "Suc oi" "out @ [s]"] Keep mark [symmetric] show ?thesis by simp
  next
    case (Del s)
    with Cons.prems step have "oi < length old" "old ! oi = s" "drop (Suc oi) old = edits_old es @ rest" by auto
    with Cons.IH [of "Suc oi" out] Del mark [symmetric] show ?thesis by simp
  next
    case (Add s)
    with Cons.prems Cons.IH [of oi "out @ [s]"] mark [symmetric] show ?thesis by simp
  qed
qed simp

lemma diff_script:
  assumes "drop oi old = script_old hs post" "int (length old) + 1 < 2 ^ 63" "oi \<le> length old"
  shows "diff_lines old inner oi out (script_lines oi j hs) = Inr (out @ script_new hs post)"
  using assms
proof (induction hs arbitrary: inner oi out j)
  case Nil
  then show ?case by (simp add: script_old_def script_new_def)
next
  case (Cons h hs)
  obtain pre es where h: "h = (pre, es)" by (cases h)
  let ?n = "oi + length pre"
  let ?rest = "script_old hs post"
  have d: "drop oi old = pre @ edits_old es @ ?rest"
    using Cons.prems(1) by (simp add: h script_old_def)
  then have len: "length old = oi + length pre + length (edits_old es) + length ?rest"
    using Cons.prems(3) by (metis add.assoc diff_add_inverse le_add_diff_inverse length_append length_drop)
  have dn: "drop ?n old = edits_old es @ ?rest" using d by (metis add.commute append_eq_conv_conj drop_drop)
  have dr: "drop (?n + length (edits_old es)) old = ?rest"
    using dn by (metis add.commute append_eq_conv_conj drop_drop)
  have "diff_lines old inner oi out (script_lines oi j (h # hs)) =
     diff_lines old True ?n (out @ take (?n - oi) (drop oi old))
       (map edit_line es @ script_lines (?n + length (edits_old es)) (j + length pre + length (edits_new es)) hs)"
    using len Cons.prems(2) by (simp only: h script_lines.simps) (rule diff_header; simp)
  also have "\<dots> = diff_lines old True (?n + length (edits_old es)) (out @ pre @ edits_new es)
       (script_lines (?n + length (edits_old es)) (j + length pre + length (edits_new es)) hs)"
    using d by (simp add: diff_edits [OF dn])
  also have "\<dots> = Inr ((out @ pre @ edits_new es) @ script_new hs post)"
    using dr len Cons.prems(2) by (intro Cons.IH) simp_all
  finally show ?case by (simp add: h script_new_def)
qed

section \<open>The diff as text\<close>

definition plain_line :: "string \<Rightarrow> bool" where
  "plain_line s \<longleftrightarrow> newline \<notin> set s \<and> CHR 0x0D \<notin> set s"

fun edit_text :: "edit \<Rightarrow> string" where
  "edit_text (Keep s) = s" | "edit_text (Del s) = s" | "edit_text (Add s) = s"

definition plain_script :: "script \<Rightarrow> string list \<Rightarrow> bool" where
  "plain_script hs post \<longleftrightarrow>
     (\<forall>(pre, es)\<in>set hs. list_all plain_line pre \<and> list_all (\<lambda>e. plain_line (edit_text e)) es) \<and>
     list_all plain_line post"

definition file_text :: "string list \<Rightarrow> string" where
  "file_text ls = (if ls = [] then [] else join_with [newline] ls @ [newline])"

text \<open>The text of a diff: the two lines naming the files, unless left out, and the hunks.\<close>

definition diff_text :: "(string \<times> string) option \<Rightarrow> script \<Rightarrow> string" where
  "diff_text names hs =
     file_text ((case names of None \<Rightarrow> [] | Some (a, b) \<Rightarrow> [''--- '' @ a, ''+++ '' @ b])
       @ script_lines 0 0 hs)"

lemma crlf_to_lf_id: "CHR 0x0D \<notin> set s \<Longrightarrow> crlf_to_lf s = s"
  by (induction s rule: crlf_to_lf.induct) auto

lemma plain_edit_line: "plain_line (edit_text e) \<Longrightarrow> plain_line (edit_line e)"
  by (cases e) (simp_all add: plain_line_def)

lemma plain_show_nat: "plain_line (show_nat n)"
proof -
  have "newline \<notin> set (show_nat n)" "CHR 0x0D \<notin> set (show_nat n)"
    using word_show_nat [of n] by (auto simp: list_all_iff word_char_def)
  then show ?thesis by (simp add: plain_line_def)
qed

lemma plain_header: "plain_line (hunk_header a b c d)"
  using plain_show_nat unfolding hunk_header_def plain_line_def by simp

lemma plain_script_lines: "plain_script hs post \<Longrightarrow> list_all plain_line (script_lines i j hs)"
proof (induction hs arbitrary: i j)
  case (Cons h hs)
  obtain pre es where h: "h = (pre, es)" by (cases h)
  have "plain_script hs post" "list_all (\<lambda>e. plain_line (edit_text e)) es"
    using Cons.prems by (simp_all add: plain_script_def h)
  with Cons.IH h show ?case by (auto simp: plain_header list_all_iff intro!: plain_edit_line)
qed simp

lemma split_file_text:
  assumes "list_all plain_line ls"
  shows "split_on newline (file_text ls) = ls @ [[]]"
proof (cases "ls = []")
  case False
  have "split_on newline (join_with [newline] (ls @ [[]])) = ls @ [[]]"
    using assms by (intro split_join) (auto simp: list_all_iff plain_line_def)
  moreover have "join_with [newline] (ls @ [[]]) = file_text ls"
    using False by (simp add: file_text_def join_with_snoc)
  ultimately show ?thesis by simp
qed (simp add: file_text_def)

lemma no_cr_file_text: "list_all plain_line ls \<Longrightarrow> CHR 0x0D \<notin> set (file_text ls)"
proof (induction ls)
  case (Cons l ls)
  then show ?case by (cases ls) (auto simp: file_text_def plain_line_def)
qed (simp add: file_text_def)

lemma text_lines_file_text:
  assumes "list_all plain_line ls" "ls \<noteq> [[]]"
  shows "text_lines (file_text ls) = ls"
proof (cases "ls = []")
  case True
  then show ?thesis by (simp add: text_lines_def file_text_def trim_suffix_def)
next
  case False
  then have "trim_suffix (file_text ls) [newline] = join_with [newline] ls"
    by (simp add: file_text_def trim_suffix_def)
  moreover have "split_on newline (join_with [newline] ls) = ls"
    using False assms(1) by (intro split_join) (auto simp: list_all_iff plain_line_def)
  ultimately show ?thesis using assms(2) by (simp add: text_lines_def)
qed

lemma diff_lines_trailing: "diff_lines old inner oi out (ls @ [[]]) = diff_lines old inner oi out ls"
  by (induction ls arbitrary: inner oi out) (simp_all add: Let_def)

lemma apply_script_diff:
  assumes "plain_script hs post" "script_old hs post \<noteq> [[]]" "int (length (script_old hs post)) + 1 < 2 ^ 63"
    and "\<forall>a b. names = Some (a, b) \<longrightarrow> plain_line a \<and> plain_line b"
  shows "apply_unified_diff (file_text (script_old hs post)) (diff_text names hs) =
    Inr (join_with [newline] (script_new hs post) @ [newline])"
proof -
  let ?names = "case names of None \<Rightarrow> [] | Some (a, b) \<Rightarrow> [''--- '' @ a, ''+++ '' @ b]"
  let ?ls = "?names @ script_lines 0 0 hs"
  have old: "list_all plain_line (script_old hs post)"
  proof -
    have "list_all plain_line (edits_old es)" if "list_all (\<lambda>e. plain_line (edit_text e)) es" for es
      using that by (induction es rule: edits_old.induct) auto
    with assms(1) show ?thesis by (fastforce simp: plain_script_def script_old_def list_all_iff)
  qed
  have "list_all plain_line ?names"
    using assms(4) by (auto simp: plain_line_def split: option.splits)
  with assms(1) have plain: "list_all plain_line ?ls" by (simp add: plain_script_lines)
  have split: "split_on newline (crlf_to_lf (diff_text names hs)) = ?ls @ [[]]"
    using split_file_text [OF plain] crlf_to_lf_id [OF no_cr_file_text [OF plain]]
    by (simp add: diff_text_def)
  have hunks: "diff_lines (script_old hs post) False 0 [] (script_lines 0 0 hs @ [[]])
      = Inr (script_new hs post)"
    using diff_script [of 0 "script_old hs post" hs post False "[]" 0] assms(3)
    by (simp add: diff_lines_trailing)
  have no_dash: "\<not> has_prefix (hd (script_lines 0 0 hs @ [[]])) ''---''"
    by (cases hs) (auto simp: hunk_header_def)
  show ?thesis
    unfolding apply_unified_diff_def split Let_def text_lines_file_text [OF old assms(2)]
    using no_dash hunks by (cases names) auto
qed



section \<open>Deviations\<close>

text \<open>
  \<open>diff -U0\<close> numbers a pure insertion by the line it follows (\<open>-1,0\<close>: after line 1). The
  code reads the number as the first line of the hunk and inserts one line too early.
\<close>

lemma zero_context_insertion_misplaced:
  "apply_unified_diff (file_text [''a'', ''b'']) (file_text [''@@ -1,0 +2 @@'', ''+x''])
     = Inr (file_text [''x'', ''a'', ''b''])"
proof -
  have w: "list_all word_char ''@@''" "list_all word_char ''-1,0''" "list_all word_char ''+2''"
    by (simp_all add: word_char_def)
  have f: "fields ''@@ -1,0 +2 @@'' = [''@@'', ''-1,0'', ''+2'', ''@@'']"
    using fields_word_space [OF w(1), of "''-1,0 +2 @@''"] fields_word_space [OF w(2), of "''+2 @@''"]
      fields_word_space [OF w(3), of "''@@''"] fields_word [OF w(1)] by simp
  have h: "hunk_start [''@@'', ''-1,0'', ''+2'', ''@@''] = 1"
    by (simp add: hunk_start_def trim_prefix_def atoi_value_def digit_val_def)
  show ?thesis
    by (simp add: apply_unified_diff_def file_text_def text_lines_def trim_suffix_def f h Let_def
        no_newline_mark_def suffix_def)
qed

text \<open>A diff that is a single line starting with \<open>---\<close> panics at \<open>lines[2:]\<close>.\<close>

lemma lone_header_panics: "apply_unified_diff original ''---'' = Inl (Sent GoPanic)"
  by (simp add: apply_unified_diff_def)

end
