(* ===== verification/File_Transaction.thy ===== *)
theory File_Transaction
  imports Path_Guard Unified_Diff Schema
begin

text \<open>
  \<open>internal/runner/files/transaction.go\<close>: the patches of a plan applied to the workspace as
  one transaction. The file system is explicit state: the regular files by path, the
  resolution of links, the random names \<open>os.CreateTemp\<close> draws, and an oracle by which any
  system call may fail. SHA-256 in hex is the parameter \<open>sha\<close>.
\<close>

section \<open>The file system\<close>

record disk_file =
  file_Mode :: int
  file_Data :: string

record file_sys =
  fs_files :: "string \<Rightarrow> disk_file option"
  fs_eval :: "string \<Rightarrow> string result"
  fs_names :: "string list"
  fs_fail :: "nat \<Rightarrow> bool"
  fs_calls :: nat

text \<open>A system call: it fails when the oracle says so.\<close>

definition sys :: "(file_sys, 'a) prog \<Rightarrow> (file_sys, 'a) prog" where
  "sys m s =
     (let t = s\<lparr>fs_calls := Suc (fs_calls s)\<rparr> in
      if fs_fail s (fs_calls s) then (Inl (Sent OsFailure), t) else m t)"

definition os_read_file :: "string \<Rightarrow> (file_sys, string) prog" where
  "os_read_file p = sys (\<lambda>s. case fs_files s p of None \<Rightarrow> (Inl (Sent OsNotExist), s)
     | Some f \<Rightarrow> (Inr (file_Data f), s))"

definition os_stat_mode :: "string \<Rightarrow> (file_sys, int) prog" where
  "os_stat_mode p = sys (\<lambda>s. case fs_files s p of None \<Rightarrow> (Inl (Sent OsNotExist), s)
     | Some f \<Rightarrow> (Inr (file_Mode f), s))"

definition os_remove :: "string \<Rightarrow> (file_sys, unit) prog" where
  "os_remove p = sys (\<lambda>s. case fs_files s p of None \<Rightarrow> (Inl (Sent OsNotExist), s)
     | Some _ \<Rightarrow> (Inr (), s\<lparr>fs_files := (fs_files s)(p := None)\<rparr>))"

text \<open>\<open>os.CreateTemp(dir, ".aicouncil-*")\<close>: the first random name that is free.\<close>

definition temp_path :: "string \<Rightarrow> string \<Rightarrow> string" where
  "temp_path dir n = (if has_suffix dir ''/'' then dir else dir @ ''/'') @ ''.aicouncil-'' @ n"

definition os_create_temp :: "string \<Rightarrow> (file_sys, string) prog" where
  "os_create_temp dir = sys (\<lambda>s.
     case List.find (\<lambda>n. fs_files s (temp_path dir n) = None) (fs_names s) of
       None \<Rightarrow> (Inl (Sent OsFailure), s)
     | Some n \<Rightarrow> (Inr (temp_path dir n),
         s\<lparr>fs_files := (fs_files s)(temp_path dir n \<mapsto> \<lparr>file_Mode = 384, file_Data = []\<rparr>)\<rparr>))"

definition tmp_write :: "string \<Rightarrow> string \<Rightarrow> (file_sys, unit) prog" where
  "tmp_write name data = sys (\<lambda>s. (Inr (), s\<lparr>fs_files := (fs_files s)
     (name := map_option (\<lambda>f. f\<lparr>file_Data := file_Data f @ data\<rparr>) (fs_files s name))\<rparr>))"

definition tmp_chmod :: "string \<Rightarrow> int \<Rightarrow> (file_sys, unit) prog" where
  "tmp_chmod name mode = sys (\<lambda>s. (Inr (), s\<lparr>fs_files := (fs_files s)
     (name := map_option (\<lambda>f. f\<lparr>file_Mode := mode\<rparr>) (fs_files s name))\<rparr>))"

definition tmp_sync :: "(file_sys, unit) prog" where
  "tmp_sync = sys (\<lambda>s. (Inr (), s))"

definition tmp_close :: "(file_sys, unit) prog" where
  "tmp_close = sys (\<lambda>s. (Inr (), s))"

definition os_rename :: "string \<Rightarrow> string \<Rightarrow> (file_sys, unit) prog" where
  "os_rename name path = sys (\<lambda>s. (Inr (),
     s\<lparr>fs_files := ((fs_files s)(name := None))(path := fs_files s name)\<rparr>))"

section \<open>The transaction\<close>

record snapshot =
  sn_Path :: string
  sn_Existed :: bool
  sn_Mode :: int
  sn_Content :: string
  sn_Hash :: string

record prepared =
  pp_path :: string
  pp_data :: string
  pp_mode :: int

text \<open>\<open>if err != nil { tmp.Close(); return err }\<close>\<close>

definition or_close :: "(file_sys, 'a) prog \<Rightarrow> (file_sys, 'a) prog" where
  "or_close m = bindE (tryE m) (\<lambda>r. case r of
       Inl e \<Rightarrow> bindE (tryE tmp_close) (\<lambda>_. raiseE e)
     | Inr a \<Rightarrow> returnE a)"

definition fill_temp :: "string \<Rightarrow> string \<Rightarrow> int \<Rightarrow> (file_sys, unit) prog" where
  "fill_temp name data mode =
     bindE (or_close (tmp_write name data)) (\<lambda>_.
     bindE (or_close tmp_sync) (\<lambda>_.
     bindE (or_close (tmp_chmod name mode)) (\<lambda>_. tmp_close)))"

definition replace_file :: "string \<Rightarrow> string \<Rightarrow> int \<Rightarrow> (file_sys, unit) prog" where
  "replace_file path data mode =
     bindE (os_create_temp (path_dir path)) (\<lambda>name.
     bindE (tryE (bindE (fill_temp name data mode) (\<lambda>_. os_rename name path))) (\<lambda>r.
     bindE (tryE (os_remove name)) (\<lambda>_.
       case r of Inl e \<Rightarrow> raiseE e | Inr _ \<Rightarrow> returnE ())))"

definition guarded_path :: "guard \<Rightarrow> plan_patch \<Rightarrow> (file_sys, string) prog" where
  "guarded_path g p s = (resolve_write (fs_eval s) g (pt_Path p), s)"

definition prepare_patch ::
  "(string \<Rightarrow> string) \<Rightarrow> guard \<Rightarrow> plan_patch \<Rightarrow> (file_sys, prepared \<times> snapshot) prog" where
  "prepare_patch sha g p =
     bindE (guarded_path g p) (\<lambda>path.
     bindE (tryE (os_read_file path)) (\<lambda>rd.
       if (case rd of Inl e \<Rightarrow> \<not> errors_is e OsNotExist | Inr _ \<Rightarrow> False)
       then (case rd of Inl e \<Rightarrow> raiseE e | Inr _ \<Rightarrow> raiseE (Sent OsFailure))
       else let existed = (case rd of Inl _ \<Rightarrow> False | Inr _ \<Rightarrow> True);
                old = (case rd of Inl _ \<Rightarrow> [] | Inr d \<Rightarrow> d) in
     bindE (tryE (os_stat_mode path)) (\<lambda>st.
       let mode = (case st of Inl _ \<Rightarrow> 384 | Inr m \<Rightarrow> m) in
       if pt_BeforeHash p \<noteq> [] \<and> sha old \<noteq> pt_BeforeHash p then raiseE (Sent ErrBeforeHashMismatch)
       else case apply_unified_diff old (pt_UnifiedDiff p) of
         Inl e \<Rightarrow> raiseE e
       | Inr data \<Rightarrow> returnE (\<lparr>pp_path = path, pp_data = data, pp_mode = mode\<rparr>,
           \<lparr>sn_Path = path, sn_Existed = existed, sn_Mode = mode, sn_Content = old,
            sn_Hash = sha old\<rparr>))))"

text \<open>The loop of \<open>restore\<close>, over the snapshots in reverse order; it goes on after an
  error and returns the first one.\<close>

fun restore_loop :: "snapshot list \<Rightarrow> go_error option \<Rightarrow> (file_sys, unit) prog" where
  "restore_loop [] first = (case first of None \<Rightarrow> returnE () | Some e \<Rightarrow> raiseE e)"
| "restore_loop (sn # sns) first =
     (if \<not> sn_Existed sn then
        bindE (tryE (os_remove (sn_Path sn))) (\<lambda>r. restore_loop sns
          (case r of
             Inl e \<Rightarrow> if \<not> errors_is e OsNotExist \<and> first = None then Some e else first
           | Inr _ \<Rightarrow> first))
      else
        bindE (tryE (replace_file (sn_Path sn) (sn_Content sn) (sn_Mode sn))) (\<lambda>r. restore_loop sns
          (case r of Inl e \<Rightarrow> if first = None then Some e else first | Inr _ \<Rightarrow> first)))"

definition tx_restore :: "snapshot list \<Rightarrow> (file_sys, unit) prog" where
  "tx_restore snapshots = restore_loop (rev snapshots) None"

definition write_prepared :: "prepared list \<Rightarrow> (file_sys, unit list) prog" where
  "write_prepared ps = forE ps (\<lambda>p. replace_file (pp_path p) (pp_data p) (pp_mode p))"

definition rollback_error :: "go_error \<Rightarrow> go_error" where
  "rollback_error cause = Wrap ''rollback failed: '' cause"

definition is_rollback_error :: "go_error \<Rightarrow> bool" where
  "is_rollback_error e \<longleftrightarrow> (\<exists>cause. e = Wrap ''rollback failed: '' cause)"

definition tx_apply ::
  "(string \<Rightarrow> string) \<Rightarrow> guard \<Rightarrow> plan_patch list \<Rightarrow> (file_sys, snapshot list) prog" where
  "tx_apply sha g patches =
     bindE (forE patches (prepare_patch sha g)) (\<lambda>ps.
       let snapshots = map snd ps in
     bindE (tryE (write_prepared (map fst ps))) (\<lambda>r.
       case r of
         Inr _ \<Rightarrow> returnE snapshots
       | Inl e \<Rightarrow>
           bindE (tryE (tx_restore snapshots)) (\<lambda>q.
             case q of Inl re \<Rightarrow> raiseE (rollback_error re) | Inr _ \<Rightarrow> raiseE e)))"

section \<open>Effects of one replacement\<close>

text \<open>Names of temporary files are left out of the statements: a failed clean-up leaves one
  behind.\<close>

definition is_temp :: "string \<Rightarrow> bool" where
  "is_temp p \<longleftrightarrow> (\<exists>d n. p = d @ ''/.aicouncil-'' @ n)"

lemma temp_path_is_temp: "is_temp (temp_path dir n)"
proof (cases "has_suffix dir ''/''")
  case True
  then obtain d where "dir = d @ ''/''" by (auto simp: suffix_def)
  then show ?thesis unfolding is_temp_def temp_path_def by (intro exI [of _ d] exI [of _ n]) simp
next
  case False
  then show ?thesis unfolding is_temp_def temp_path_def by (intro exI [of _ dir] exI [of _ n]) simp
qed

text \<open>Only files named like temporary ones, and those of \<open>X\<close>, differ.\<close>

definition same_files :: "string set \<Rightarrow> file_sys \<Rightarrow> file_sys \<Rightarrow> bool" where
  "same_files X s t \<longleftrightarrow>
     fs_eval t = fs_eval s \<and> (\<forall>p. \<not> is_temp p \<and> p \<notin> X \<longrightarrow> fs_files t p = fs_files s p)"

lemma same_files_refl [simp]: "same_files X s s"
  by (simp add: same_files_def)

lemma same_files_trans: "same_files X s t \<Longrightarrow> same_files Y t u \<Longrightarrow> same_files (X \<union> Y) s u"
  by (simp add: same_files_def)

lemma same_files_chain: "same_files {} s t \<Longrightarrow> same_files {} t u \<Longrightarrow> same_files {} s u"
  using same_files_trans by fastforce

text \<open>A program that touches no file but the temporary one it is given.\<close>

definition quiet :: "(file_sys, 'a) prog \<Rightarrow> bool" where
  "quiet m \<longleftrightarrow> (\<forall>s. same_files {} s (snd (m s)))"

lemma quietD: "quiet m \<Longrightarrow> m s = (r, t) \<Longrightarrow> same_files {} s t"
  unfolding quiet_def by (metis snd_conv)

lemma quiet_sys:
  assumes "\<And>s. same_files {} s (snd (m s))"
  shows "quiet (sys m)"
proof -
  have "same_files {} s (snd (m (s\<lparr>fs_calls := n\<rparr>)))" for s n
    using assms [of "s\<lparr>fs_calls := n\<rparr>"] by (simp add: same_files_def)
  then show ?thesis by (auto simp: quiet_def sys_def Let_def same_files_def)
qed

lemma quiet_return [intro]: "quiet (returnE a)"
  by (simp add: quiet_def returnE_def)

lemma quiet_raise [intro]: "quiet (raiseE e)"
  by (simp add: quiet_def raiseE_def)

lemma quiet_bind [intro]:
  assumes "quiet m" "\<And>a. quiet (f a)"
  shows "quiet (bindE m f)"
  unfolding quiet_def
proof
  fix s
  obtain r t where m: "m s = (r, t)" by fastforce
  show "same_files {} s (snd (bindE m f s))"
    using quietD [OF assms(1) m] m assms(2)
    by (cases r) (auto simp: bindE_def quiet_def intro: same_files_chain)
qed

lemma quiet_try [intro]: "quiet m \<Longrightarrow> quiet (tryE m)"
  unfolding quiet_def tryE_def by (auto split: prod.splits) (metis snd_conv)

lemma quiet_for [intro]: "(\<And>x. x \<in> set xs \<Longrightarrow> quiet (f x)) \<Longrightarrow> quiet (forE xs f)"
  by (induction xs) auto

lemma quiet_calls:
  "quiet (os_read_file p)" "quiet (os_stat_mode p)" "quiet tmp_sync" "quiet tmp_close"
  unfolding os_read_file_def os_stat_mode_def tmp_sync_def tmp_close_def
  by (auto intro!: quiet_sys split: option.splits)

lemma quiet_temp:
  assumes "is_temp name"
  shows "quiet (os_remove name)" "quiet (tmp_write name data)" "quiet (tmp_chmod name mode)"
  unfolding os_remove_def tmp_write_def tmp_chmod_def
  using assms by (auto intro!: quiet_sys simp: same_files_def split: option.splits)

lemma quiet_create_temp: "quiet (os_create_temp dir)"
  unfolding os_create_temp_def
  by (rule quiet_sys) (auto simp: same_files_def temp_path_is_temp split: option.splits)

lemma quiet_or_close [intro]: "quiet m \<Longrightarrow> quiet (or_close m)"
  unfolding or_close_def by (intro quiet_bind quiet_try) (auto intro: quiet_calls split: sum.splits)

lemma quiet_fill_temp: "is_temp name \<Longrightarrow> quiet (fill_temp name data mode)"
  unfolding fill_temp_def by (intro quiet_bind quiet_or_close quiet_temp quiet_calls)

lemma or_close_Inr: "or_close m s = (Inr a, t) \<Longrightarrow> m s = (Inr a, t)"
  by (auto simp: or_close_def prog_simps split: prod.splits sum.splits)

lemma sys_Inr: "sys m s = (Inr a, t) \<Longrightarrow> m (s\<lparr>fs_calls := Suc (fs_calls s)\<rparr>) = (Inr a, t)"
  by (simp add: sys_def Let_def split: if_splits)

lemma fill_temp_Inr:
  assumes "fill_temp name data mode s = (Inr (), t)" "fs_files s name = Some \<lparr>file_Mode = m, file_Data = []\<rparr>"
  shows "fs_files t name = Some \<lparr>file_Mode = mode, file_Data = data\<rparr>"
  using assms unfolding fill_temp_def tmp_write_def tmp_sync_def tmp_chmod_def tmp_close_def
  by (elim bindE_InrE) (auto dest!: or_close_Inr sys_Inr)

lemma create_temp_Inr:
  assumes "os_create_temp dir s = (Inr name, t)"
  shows "is_temp name \<and> same_files {} s t \<and> fs_files t name = Some \<lparr>file_Mode = 384, file_Data = []\<rparr>"
  using assms unfolding os_create_temp_def
  by (auto dest!: sys_Inr split: option.splits simp: same_files_def temp_path_is_temp)

lemma rename_cases:
  assumes "os_rename name path s = (r, t)" "is_temp name" "\<not> is_temp path"
  shows "(\<exists>e. r = Inl e \<and> same_files {} s t) \<or>
    (r = Inr () \<and> same_files {path} s t \<and> fs_files t path = fs_files s name)"
  using assms by (auto simp: os_rename_def sys_def Let_def same_files_def split: if_splits)

lemma replace_file_cases:
  assumes "replace_file path data mode s = (r, t)" "\<not> is_temp path"
  shows "(\<exists>e. r = Inl e \<and> same_files {} s t) \<or>
    (r = Inr () \<and> same_files {path} s t \<and> fs_files t path = Some \<lparr>file_Mode = mode, file_Data = data\<rparr>)"
proof -
  obtain c s1 where c: "os_create_temp (path_dir path) s = (c, s1)" by fastforce
  show ?thesis
  proof (cases c)
    case (Inl e)
    with c assms(1) quietD [OF quiet_create_temp c] show ?thesis
      by (auto simp: replace_file_def bindE_def)
  next
    case (Inr name)
    note cr = create_temp_Inr [OF c [unfolded Inr]]
    obtain f s2 where f: "fill_temp name data mode s1 = (f, s2)" by fastforce
    have q: "same_files {} s1 s2" using quietD [OF quiet_fill_temp f] cr by blast
    obtain w s3 where w: "bindE (fill_temp name data mode) (\<lambda>_. os_rename name path) s1 = (w, s3)" by fastforce
    have "(\<exists>e. w = Inl e \<and> same_files {} s s3) \<or>
      (w = Inr () \<and> same_files {path} s s3 \<and> fs_files s3 path = Some \<lparr>file_Mode = mode, file_Data = data\<rparr>)"
    proof (cases f)
      case (Inl e)
      with w f q cr show ?thesis by (auto simp: bindE_def intro: same_files_chain)
    next
      case (Inr u)
      then have "fs_files s2 name = Some \<lparr>file_Mode = mode, file_Data = data\<rparr>"
        using f cr fill_temp_Inr [of name data mode s1 s2 384] by simp
      moreover have "os_rename name path s2 = (w, s3)" using w f Inr by (simp add: bindE_def)
      ultimately have "(\<exists>e. w = Inl e \<and> same_files {} s2 s3) \<or> (w = Inr () \<and> same_files {path} s2 s3 \<and>
          fs_files s3 path = Some \<lparr>file_Mode = mode, file_Data = data\<rparr>)"
        using rename_cases [of name path s2 w s3] cr assms(2) by simp
      moreover have "same_files {} s s2" using cr q same_files_chain by blast
      ultimately show ?thesis
        by (elim disjE conjE exE) (simp_all add: same_files_def)
    qed
    moreover obtain z s4 where z: "os_remove name s3 = (z, s4)" by fastforce
    moreover have "same_files {} s3 s4" using quietD [OF quiet_temp(1) z] cr by blast
    moreover have tr: "t = s4 \<and> r = w"
      using assms(1) c Inr w z by (cases w) (auto simp: replace_file_def prog_simps)
    ultimately show ?thesis
      using assms(2) by (elim disjE conjE exE) (simp_all add: same_files_def)
  qed
qed

section \<open>Preparing and restoring\<close>

definition data_at :: "file_sys \<Rightarrow> string \<Rightarrow> string option" where
  "data_at s p = map_option file_Data (fs_files s p)"

text \<open>A snapshot that records what is at its path.\<close>

definition snapshot_of :: "file_sys \<Rightarrow> snapshot \<Rightarrow> bool" where
  "snapshot_of s sn \<longleftrightarrow> data_at s (sn_Path sn) = (if sn_Existed sn then Some (sn_Content sn) else None)"

lemma same_files_data: "same_files X s t \<Longrightarrow> \<not> is_temp p \<Longrightarrow> p \<notin> X \<Longrightarrow> data_at t p = data_at s p"
  by (simp add: same_files_def data_at_def)

lemma read_file_cases:
  assumes "os_read_file p s = (r, t)"
  shows "fs_files t = fs_files s \<and> fs_eval t = fs_eval s \<and>
    (r = Inl (Sent OsFailure) \<or> (r = Inl (Sent OsNotExist) \<and> data_at s p = None) \<or>
     (\<exists>d. r = Inr d \<and> data_at s p = Some d))"
  using assms by (auto simp: os_read_file_def sys_def Let_def data_at_def split: if_splits option.splits)

lemma stat_mode_files:
  "os_stat_mode p s = (r, t) \<Longrightarrow> fs_files t = fs_files s \<and> fs_eval t = fs_eval s"
  by (auto simp: os_stat_mode_def sys_def Let_def split: if_splits option.splits)

text \<open>What preparing a patch finds out, and that it changes nothing.\<close>

definition prepared_ok :: "guard \<Rightarrow> file_sys \<Rightarrow> plan_patch \<Rightarrow> prepared \<times> snapshot \<Rightarrow> bool" where
  "prepared_ok g s p x \<longleftrightarrow>
     resolve_write (fs_eval s) g (pt_Path p) = Inr (pp_path (fst x)) \<and>
     sn_Path (snd x) = pp_path (fst x) \<and> snapshot_of s (snd x) \<and>
     apply_unified_diff (case data_at s (pp_path (fst x)) of None \<Rightarrow> [] | Some d \<Rightarrow> d) (pt_UnifiedDiff p)
       = Inr (pp_data (fst x))"

lemma prepare_patch_cases:
  assumes "prepare_patch sha g p s = (r, t)"
  shows "fs_files t = fs_files s \<and> fs_eval t = fs_eval s \<and> (\<forall>x. r = Inr x \<longrightarrow> prepared_ok g s p x)"
proof (cases "resolve_write (fs_eval s) g (pt_Path p)")
  case (Inl e)
  with assms show ?thesis by (auto simp: prepare_patch_def guarded_path_def bindE_def)
next
  case (Inr path)
  obtain rd s1 where rd: "os_read_file path s = (rd, s1)" by fastforce
  obtain st s2 where st: "os_stat_mode path s1 = (st, s2)" by fastforce
  note files = read_file_cases [OF rd] stat_mode_files [OF st]
  from files(1) consider "rd = Inl (Sent OsFailure)"
    | "rd = Inl (Sent OsNotExist)" "data_at s path = None" | d where "rd = Inr d" "data_at s path = Some d"
    by auto
  then show ?thesis
  proof cases
    case 1
    with assms Inr rd files show ?thesis
      by (auto simp: prepare_patch_def guarded_path_def prog_simps)
  next
    case 2
    with assms Inr rd st files show ?thesis
      by (auto simp: prepare_patch_def guarded_path_def prog_simps Let_def prepared_ok_def snapshot_of_def
          split: if_splits sum.splits)
  next
    case (3 d)
    with assms Inr rd st files show ?thesis
      by (auto simp: prepare_patch_def guarded_path_def prog_simps Let_def prepared_ok_def snapshot_of_def
          split: if_splits sum.splits)
  qed
qed

lemma data_at_cong: "fs_files t = fs_files s \<Longrightarrow> data_at t p = data_at s p"
  by (simp add: data_at_def)

lemma prepared_ok_cong:
  "fs_files t = fs_files s \<Longrightarrow> fs_eval t = fs_eval s \<Longrightarrow> prepared_ok g t p x = prepared_ok g s p x"
  by (simp add: prepared_ok_def snapshot_of_def data_at_cong [of t s])

lemma prepare_all:
  assumes "forE patches (prepare_patch sha g) s = (r, t)"
  shows "fs_files t = fs_files s \<and> fs_eval t = fs_eval s \<and>
    (\<forall>xs. r = Inr xs \<longrightarrow> list_all2 (prepared_ok g s) patches xs)"
  using assms
proof (induction patches arbitrary: s r t)
  case Nil
  then show ?case by (auto simp: returnE_def)
next
  case (Cons p ps)
  obtain a s1 where a: "prepare_patch sha g p s = (a, s1)" by fastforce
  note one = prepare_patch_cases [OF a]
  obtain b s2 where b: "forE ps (prepare_patch sha g) s1 = (b, s2)" by fastforce
  note rest = Cons.IH [OF b]
  have "list_all2 (prepared_ok g s1) ps xs = list_all2 (prepared_ok g s) ps xs" for xs
    using one prepared_ok_cong [of s1 s g] by (intro list.rel_cong) auto
  with Cons.prems a b one rest show ?case
    by (cases a; cases b) (auto simp: bindE_def returnE_def)
qed

text \<open>The prepared data of a path: of its last patch.\<close>

definition last_data :: "prepared list \<Rightarrow> string \<Rightarrow> string option" where
  "last_data ps q = map_option pp_data (List.find (\<lambda>p. pp_path p = q) (rev ps))"

lemma find_append: "List.find P (xs @ ys) = (case List.find P xs of None \<Rightarrow> List.find P ys | Some x \<Rightarrow> Some x)"
  by (induction xs) auto

lemma last_data_Cons:
  "last_data (p # ps) q = (case last_data ps q of
     None \<Rightarrow> if pp_path p = q then Some (pp_data p) else None | Some d \<Rightarrow> Some d)"
  by (auto simp: last_data_def find_append split: option.splits)

lemma write_prepared_cases:
  assumes "write_prepared ps s = (r, t)" "\<forall>p\<in>set ps. \<not> is_temp (pp_path p)"
  shows "same_files (pp_path ` set ps) s t \<and>
    (r \<in> range Inr \<longrightarrow> (\<forall>q. \<not> is_temp q \<longrightarrow>
       data_at t q = (case last_data ps q of None \<Rightarrow> data_at s q | Some d \<Rightarrow> Some d)))"
  using assms
proof (induction ps arbitrary: s r t)
  case Nil
  then show ?case by (auto simp: write_prepared_def returnE_def last_data_def)
next
  case (Cons p ps)
  obtain a s1 where a: "replace_file (pp_path p) (pp_data p) (pp_mode p) s = (a, s1)" by fastforce
  obtain b s2 where b: "write_prepared ps s1 = (b, s2)" by fastforce
  have t: "(r, t) = (case a of Inl e \<Rightarrow> (Inl e, s1) | Inr _ \<Rightarrow>
      (case b of Inl e \<Rightarrow> (Inl e, s2) | Inr ys \<Rightarrow> (Inr (() # ys), s2)))"
    using Cons.prems(1) a b by (auto simp: write_prepared_def bindE_def returnE_def split: sum.splits)
  note rest = Cons.IH [OF b]
  from replace_file_cases [OF a] Cons.prems(2)
  consider e where "a = Inl e" "same_files {} s s1"
    | "a = Inr ()" "same_files {pp_path p} s s1"
      "fs_files s1 (pp_path p) = Some \<lparr>file_Mode = pp_mode p, file_Data = pp_data p\<rparr>"
    by auto
  then show ?case
  proof cases
    case 1
    with t show ?thesis by (auto simp: same_files_def)
  next
    case 2
    have "same_files (pp_path ` set (p # ps)) s t"
      using 2 t rest Cons.prems(2) by (auto simp: same_files_def split: sum.splits)
    moreover have "data_at t q = (case last_data (p # ps) q of None \<Rightarrow> data_at s q | Some d \<Rightarrow> Some d)"
      if "r \<in> range Inr" "\<not> is_temp q" for q
    proof -
      have b': "b \<in> range Inr" "t = s2" using that(1) t 2(1) by (auto split: sum.splits)
      then have "data_at t q = (case last_data ps q of None \<Rightarrow> data_at s1 q | Some d \<Rightarrow> Some d)"
        using rest Cons.prems(2) that(2) by simp
      moreover have "data_at s1 q = (if pp_path p = q then Some (pp_data p) else data_at s q)"
        using 2 that(2) by (auto simp: same_files_def data_at_def)
      ultimately show ?thesis by (auto simp: last_data_Cons split: option.splits)
    qed
    ultimately show ?thesis by blast
  qed
qed

lemma restore_loop_error: "fst (restore_loop sns (Some e) s) = Inl e"
  by (induction sns arbitrary: s) (auto simp: prog_simps split: prod.splits sum.splits)

lemma remove_cases:
  assumes "os_remove p s = (r, t)"
  shows "same_files {p} s t \<and>
    (r = Inl (Sent OsFailure) \<or> ((r = Inl (Sent OsNotExist) \<or> r = Inr ()) \<and> data_at t p = None))"
  using assms
  by (auto simp: os_remove_def sys_def Let_def same_files_def data_at_def split: if_splits option.splits)

lemma restore_loop_cases:
  assumes "restore_loop sns None s = (r, t)" "\<forall>sn\<in>set sns. \<not> is_temp (sn_Path sn) \<and> snapshot_of orig sn"
  shows "r = Inr () \<longrightarrow> same_files (sn_Path ` set sns) s t \<and>
     (\<forall>sn\<in>set sns. data_at t (sn_Path sn) = data_at orig (sn_Path sn))"
  using assms
proof (induction sns arbitrary: s)
  case Nil
  then show ?case by (auto simp: returnE_def)
next
  case (Cons sn sns)
  define step where "step = (if sn_Existed sn then replace_file (sn_Path sn) (sn_Content sn) (sn_Mode sn)
      else os_remove (sn_Path sn))"
  obtain a s1 where a: "step s = (a, s1)" by fastforce
  have ok: "\<not> is_temp (sn_Path sn)" "snapshot_of orig sn" using Cons.prems(2) by simp_all
  have one: "same_files {sn_Path sn} s s1 \<and>
      (restore_loop sns None s1 = (r, t) \<and> data_at s1 (sn_Path sn) = data_at orig (sn_Path sn) \<or> r \<noteq> Inr ())"
  proof (cases "sn_Existed sn")
    case True
    from a True have "replace_file (sn_Path sn) (sn_Content sn) (sn_Mode sn) s = (a, s1)"
      by (simp add: step_def)
    from replace_file_cases [OF this ok(1)] show ?thesis
    proof (elim disjE exE conjE)
      fix e assume e: "a = Inl e" "same_files {} s s1"
      then have "(r, t) = restore_loop sns (Some e) s1"
        using Cons.prems(1) a True by (simp add: step_def prog_simps)
      with restore_loop_error [of sns e s1] e show ?thesis by (auto simp: same_files_def dest: sym)
    next
      assume "a = Inr ()" "same_files {sn_Path sn} s s1"
        "fs_files s1 (sn_Path sn) = Some \<lparr>file_Mode = sn_Mode sn, file_Data = sn_Content sn\<rparr>"
      with Cons.prems(1) a True ok show ?thesis
        by (auto simp: step_def prog_simps snapshot_of_def data_at_def)
    qed
  next
    case False
    from a False have "os_remove (sn_Path sn) s = (a, s1)" by (simp add: step_def)
    from remove_cases [OF this] show ?thesis
    proof (elim conjE disjE)
      assume e: "a = Inl (Sent OsFailure)" "same_files {sn_Path sn} s s1"
      then have "(r, t) = restore_loop sns (Some (Sent OsFailure)) s1"
        using Cons.prems(1) a False by (simp add: step_def prog_simps)
      with restore_loop_error [of sns "Sent OsFailure" s1] e show ?thesis by (auto dest: sym)
    qed (use Cons.prems(1) a False ok in \<open>simp_all add: step_def prog_simps snapshot_of_def\<close>)
  qed
  show ?case
  proof
    assume r: "r = Inr ()"
    with one have rest: "restore_loop sns None s1 = (r, t)"
      and d: "data_at s1 (sn_Path sn) = data_at orig (sn_Path sn)" by auto
    from Cons.IH [OF rest] Cons.prems(2) r
    have IH: "same_files (sn_Path ` set sns) s1 t"
      "\<forall>x\<in>set sns. data_at t (sn_Path x) = data_at orig (sn_Path x)" by auto
    have "data_at t (sn_Path sn) = data_at orig (sn_Path sn)"
    proof (cases "sn_Path sn \<in> sn_Path ` set sns")
      case True
      with IH(2) show ?thesis by auto
    next
      case False
      with same_files_data [OF IH(1) ok(1)] d show ?thesis by simp
    qed
    moreover have "same_files (sn_Path ` set (sn # sns)) s t"
      using same_files_trans [OF conjunct1 [OF one] IH(1)] by simp
    ultimately show "same_files (sn_Path ` set (sn # sns)) s t \<and>
        (\<forall>x\<in>set (sn # sns). data_at t (sn_Path x) = data_at orig (sn_Path x))"
      using IH(2) by simp
  qed
qed

section \<open>Properties\<close>

text \<open>No patch of the plan names a file that looks like one of the transaction's own
  temporary files.\<close>

definition no_temp_targets :: "guard \<Rightarrow> file_sys \<Rightarrow> plan_patch list \<Rightarrow> bool" where
  "no_temp_targets g s patches \<longleftrightarrow>
     (\<forall>p path. p \<in> set patches \<and> resolve_write (fs_eval s) g (pt_Path p) = Inr path \<longrightarrow> \<not> is_temp path)"

lemma prepared_paths:
  assumes "list_all2 (prepared_ok g s) patches xs" "no_temp_targets g s patches"
  shows "\<forall>x\<in>set xs. \<not> is_temp (pp_path (fst x)) \<and> sn_Path (snd x) = pp_path (fst x) \<and> snapshot_of s (snd x)"
  using assms by (induction rule: list_all2_induct) (auto simp: prepared_ok_def no_temp_targets_def)

lemma tx_apply_error:
  assumes "tx_apply sha g patches s = (Inl e, t)" "\<not> is_rollback_error e" "no_temp_targets g s patches"
    and "\<not> is_temp q"
  shows "data_at t q = data_at s q"
proof -
  obtain b s1 where b: "forE patches (prepare_patch sha g) s = (b, s1)" by fastforce
  note prep = prepare_all [OF b]
  show ?thesis
  proof (cases b)
    case (Inl e')
    with assms(1) b prep show ?thesis by (simp add: tx_apply_def bindE_def data_at_def)
  next
    case (Inr ps)
    from prep Inr have ok: "list_all2 (prepared_ok g s) patches ps" and same: "fs_files s1 = fs_files s" by auto
    note paths = prepared_paths [OF ok assms(3)]
    obtain w s2 where w: "write_prepared (map fst ps) s1 = (w, s2)" by fastforce
    obtain z s3 where z: "restore_loop (rev (map snd ps)) None s2 = (z, s3)" by fastforce
    have X: "pp_path ` set (map fst ps) = sn_Path ` set (rev (map snd ps))"
      using paths by (force simp: image_iff)
    have wr: "same_files (sn_Path ` set (rev (map snd ps))) s1 s2"
      using write_prepared_cases [OF w] paths unfolding X by auto
    have "w \<noteq> Inr u" for u
      using assms(1) b Inr w by (auto simp: tx_apply_def prog_simps Let_def)
    then have "z = Inr () \<and> t = s3"
      using assms(1,2) b Inr w z
      by (cases w; cases z)
         (auto simp: tx_apply_def prog_simps Let_def tx_restore_def rollback_error_def is_rollback_error_def)
    moreover have "\<forall>sn\<in>set (rev (map snd ps)). \<not> is_temp (sn_Path sn) \<and> snapshot_of s sn"
      using paths by auto
    ultimately have re: "same_files (sn_Path ` set (rev (map snd ps))) s2 t"
      "\<forall>sn\<in>set (rev (map snd ps)). data_at t (sn_Path sn) = data_at s (sn_Path sn)"
      using restore_loop_cases [OF z, of s] by auto
    show ?thesis
    proof (cases "q \<in> sn_Path ` set (rev (map snd ps))")
      case True
      with re(2) show ?thesis by auto
    next
      case False
      with same_files_data [OF re(1) assms(4)] same_files_data [OF wr assms(4)] data_at_cong [OF same]
      show ?thesis by simp
    qed
  qed
qed

lemma last_data_prepared:
  assumes "list_all2 (prepared_ok g s) patches xs"
  shows "case List.find (\<lambda>p. resolve_write (fs_eval s) g (pt_Path p) = Inr q) (rev patches) of
       None \<Rightarrow> last_data (map fst xs) q = None
     | Some p \<Rightarrow> \<exists>d. last_data (map fst xs) q = Some d \<and>
         apply_unified_diff (case data_at s q of None \<Rightarrow> [] | Some d \<Rightarrow> d) (pt_UnifiedDiff p) = Inr d"
  using assms
proof (induction rule: list_all2_induct)
  case Nil
  then show ?case by (simp add: last_data_def)
next
  case (Cons p ps x xs)
  from Cons.hyps(1) Cons.IH show ?case
    by (cases "List.find (\<lambda>p. resolve_write (fs_eval s) g (pt_Path p) = Inr q) (rev ps)")
       (auto simp: last_data_Cons find_append prepared_ok_def split: option.splits sum.splits)
qed

lemma tx_apply_ok:
  assumes "tx_apply sha g patches s = (Inr snaps, t)" "no_temp_targets g s patches"
  shows "\<not> is_temp q \<Longrightarrow> data_at t q =
      (case List.find (\<lambda>p. resolve_write (fs_eval s) g (pt_Path p) = Inr q) (rev patches) of
         None \<Rightarrow> data_at s q
       | Some p \<Rightarrow> (case apply_unified_diff (case data_at s q of None \<Rightarrow> [] | Some d \<Rightarrow> d) (pt_UnifiedDiff p) of
            Inl _ \<Rightarrow> data_at s q | Inr d \<Rightarrow> Some d))"
    and "\<forall>sn\<in>set snaps. \<not> is_temp (sn_Path sn) \<and> snapshot_of s sn"
    and "same_files (sn_Path ` set snaps) s t"
proof -
  obtain b s1 where b: "forE patches (prepare_patch sha g) s = (b, s1)" by fastforce
  note prep = prepare_all [OF b]
  from assms(1) b obtain ps where ps: "b = Inr ps"
    by (cases b) (auto simp: tx_apply_def bindE_def)
  from prep ps have ok: "list_all2 (prepared_ok g s) patches ps"
    and same: "fs_files s1 = fs_files s" "fs_eval s1 = fs_eval s" by auto
  note paths = prepared_paths [OF ok assms(2)]
  obtain w s2 where w: "write_prepared (map fst ps) s1 = (w, s2)" by fastforce
  have w_ok: "w \<in> range Inr" "t = s2" "snaps = map snd ps"
    using assms(1) b ps w
    by (cases w; auto simp: tx_apply_def prog_simps Let_def split: prod.splits sum.splits)+
  have wr: "\<forall>p\<in>set (map fst ps). \<not> is_temp (pp_path p)" using paths by auto
  note wc = write_prepared_cases [OF w wr]
  show "data_at t q =
      (case List.find (\<lambda>p. resolve_write (fs_eval s) g (pt_Path p) = Inr q) (rev patches) of
         None \<Rightarrow> data_at s q
       | Some p \<Rightarrow> (case apply_unified_diff (case data_at s q of None \<Rightarrow> [] | Some d \<Rightarrow> d) (pt_UnifiedDiff p) of
            Inl _ \<Rightarrow> data_at s q | Inr d \<Rightarrow> Some d))" if q: "\<not> is_temp q"
    using wc w_ok q data_at_cong [OF same(1)] last_data_prepared [OF ok, of q]
    by (auto split: option.splits sum.splits)
  show "\<forall>sn\<in>set snaps. \<not> is_temp (sn_Path sn) \<and> snapshot_of s sn"
    using paths w_ok(3) by auto
  have "pp_path ` set (map fst ps) = sn_Path ` set snaps"
    using paths w_ok(3) by (force simp: image_iff)
  with wc same w_ok(2) show "same_files (sn_Path ` set snaps) s t"
    by (auto simp: same_files_def)
qed

lemma failed_apply_restores':
  assumes "tx_apply sha g patches s = (Inl e, t)" "\<not> is_rollback_error e" "no_temp_targets g s patches"
  shows "\<forall>q. \<not> is_temp q \<longrightarrow> data_at t q = data_at s q"
  using tx_apply_error [OF assms] by blast

lemma restore_undoes:
  assumes "tx_apply sha g patches s = (Inr snaps, t)" "no_temp_targets g s patches"
    and "same_files (sn_Path ` set snaps) t u"
    and "tx_restore snaps u = (Inr (), v)"
  shows "\<forall>q. \<not> is_temp q \<longrightarrow> data_at v q = data_at s q"
proof (intro allI impI)
  fix q
  assume q: "\<not> is_temp q"
  note ok = tx_apply_ok(2,3) [OF assms(1,2)]
  from assms(4) have loop: "restore_loop (rev snaps) None u = (Inr (), v)" by (simp add: tx_restore_def)
  have "\<forall>sn\<in>set (rev snaps). \<not> is_temp (sn_Path sn) \<and> snapshot_of s sn" using ok(1) by simp
  from restore_loop_cases [OF loop this] have re: "same_files (sn_Path ` set snaps) u v"
    "\<forall>sn\<in>set snaps. data_at v (sn_Path sn) = data_at s (sn_Path sn)" by auto
  show "data_at v q = data_at s q"
  proof (cases "q \<in> sn_Path ` set snaps")
    case True
    with re(2) show ?thesis by auto
  next
    case False
    with same_files_data [OF re(1) q] same_files_data [OF assms(3) q] same_files_data [OF ok(2) q]
    show ?thesis by simp
  qed
qed

text \<open>A workspace \<open>/w\<close> with one file, and a plan that replaces its second line.\<close>

definition sample_hunks :: script where
  "sample_hunks = [([], [Keep ''a'', Del ''b'', Add ''c''])]"

definition sample_patch :: plan_patch where
  "sample_patch = \<lparr>pt_Path = ''a.txt'', pt_UnifiedDiff = diff_text None sample_hunks, pt_BeforeHash = []\<rparr>"

definition sample_guard :: guard where
  "sample_guard = \<lparr>g_root = ''/w'', g_maxBytes = 0\<rparr>"

definition sample_fs :: "(nat \<Rightarrow> bool) \<Rightarrow> file_sys" where
  "sample_fs fail = \<lparr>fs_files = [''/w/a.txt'' \<mapsto> \<lparr>file_Mode = 420, file_Data = file_text [''a'', ''b'']\<rparr>],
     fs_eval = Inr, fs_names = [''1''], fs_fail = fail, fs_calls = 0\<rparr>"

lemma sample_diff:
  "apply_unified_diff (file_text [''a'', ''b'']) (diff_text None sample_hunks) = Inr (file_text [''a'', ''c''])"
proof -
  have old: "script_old sample_hunks [] = [''a'', ''b'']" and new: "script_new sample_hunks [] = [''a'', ''c'']"
    by (simp_all add: script_old_def script_new_def sample_hunks_def)
  have "plain_script sample_hunks []" by (simp add: plain_script_def plain_line_def sample_hunks_def)
  then have "apply_unified_diff (file_text (script_old sample_hunks [])) (diff_text None sample_hunks)
      = Inr (join_with [newline] (script_new sample_hunks []) @ [newline])"
    by (intro apply_script_diff) (simp_all add: old)
  then show ?thesis unfolding old new by (simp only: file_text_def list.simps if_False)
qed

lemma sample_resolve: "resolve_write Inr sample_guard ''a.txt'' = Inr ''/w/a.txt''"
proof -
  have g: "rooted_at sample_guard [''w'']"
    by (simp add: rooted_at_def sample_guard_def normal_comp_def abs_path_def)
  have "\<not> is_sensitive (abs_path ([''w''] @ [''a.txt'']))"
    by (simp add: guard_eval del: to_lower.simps)
  from resolve_write_accepts [OF g _ _ this, of Inr] show ?thesis
    by (simp add: normal_comp_def abs_path_def)
qed

lemma sample_dir: "path_dir ''/w/a.txt'' = ''/w''"
  by (simp add: guard_eval)

lemma short_not_temp: "length p < 12 \<Longrightarrow> \<not> is_temp p"
  by (auto simp: is_temp_def)

lemma sample_targets: "no_temp_targets sample_guard (sample_fs fail) [sample_patch]"
  by (simp add: no_temp_targets_def sample_fs_def sample_patch_def sample_resolve short_not_temp)

lemmas tx_eval = tx_apply_def prepare_patch_def guarded_path_def write_prepared_def replace_file_def
  fill_temp_def or_close_def os_read_file_def os_stat_mode_def os_create_temp_def tmp_write_def
  tmp_sync_def tmp_chmod_def tmp_close_def os_rename_def os_remove_def sys_def tx_restore_def
  prog_simps temp_path_def sample_fs_def sample_patch_def sample_resolve sample_diff sample_dir Let_def

text \<open>The eighth system call, the rename into place, fails.\<close>

lemma sample_failing:
  "fst (tx_apply (\<lambda>x. x) sample_guard [sample_patch] (sample_fs (\<lambda>n. n = 7))) = Inl (Sent OsFailure)"
  by (simp add: tx_eval)

lemma sample_working:
  "fst (tx_apply (\<lambda>x. x) sample_guard [sample_patch] (sample_fs (\<lambda>n. False))) =
    Inr [\<lparr>sn_Path = ''/w/a.txt'', sn_Existed = True, sn_Mode = 420, sn_Content = file_text [''a'', ''b''],
      sn_Hash = file_text [''a'', ''b'']\<rparr>]"
  by (simp add: tx_eval)

text \<open>
  C19. A transaction that fails leaves the workspace as it was. When Apply returns an error
  that is not a RollbackError, whichever system call failed, every file of the file system
  has the content it had before and no file appeared or vanished (temporary files left
  behind by a failed clean-up aside).
\<close>

theorem failed_apply_restores:
  assumes "tx_apply sha g patches s = (Inl e, t)" "\<not> is_rollback_error e" "no_temp_targets g s patches"
  shows "\<forall>q. \<not> is_temp q \<longrightarrow> data_at t q = data_at s q"
  using tx_apply_error [OF assms] by blast

theorem failed_apply_restores_witness:
  "\<exists>t. tx_apply (\<lambda>x. x) sample_guard [sample_patch] (sample_fs (\<lambda>n. n = 7)) = (Inl (Sent OsFailure), t) \<and>
     data_at t ''/w/a.txt'' = Some (file_text [''a'', ''b''])"
proof -
  obtain t where t: "tx_apply (\<lambda>x. x) sample_guard [sample_patch] (sample_fs (\<lambda>n. n = 7))
      = (Inl (Sent OsFailure), t)"
    using sample_failing by (metis prod.collapse)
  have "\<not> is_rollback_error (Sent OsFailure)" by (simp add: is_rollback_error_def)
  from failed_apply_restores [OF t this sample_targets] have "data_at t ''/w/a.txt'' = data_at (sample_fs (\<lambda>n. n = 7)) ''/w/a.txt''"
    by (simp add: short_not_temp)
  with t show ?thesis by (auto simp: data_at_def sample_fs_def)
qed

text \<open>
  C20. When Apply succeeds, every file a patch resolves to holds the result of a diff on its
  original content, namely of the last patch for it, and no other file changed.
\<close>

theorem apply_writes_patches:
  assumes "tx_apply sha g patches s = (Inr snaps, t)" "no_temp_targets g s patches" "\<not> is_temp q"
  shows "data_at t q =
      (case List.find (\<lambda>p. resolve_write (fs_eval s) g (pt_Path p) = Inr q) (rev patches) of
         None \<Rightarrow> data_at s q
       | Some p \<Rightarrow> (case apply_unified_diff (case data_at s q of None \<Rightarrow> [] | Some d \<Rightarrow> d) (pt_UnifiedDiff p) of
            Inl _ \<Rightarrow> data_at s q | Inr d \<Rightarrow> Some d))"
  by (rule tx_apply_ok(1) [OF assms])

theorem apply_writes_patches_witness:
  "\<exists>snaps t. tx_apply (\<lambda>x. x) sample_guard [sample_patch] (sample_fs (\<lambda>n. False)) = (Inr snaps, t) \<and>
     data_at t ''/w/a.txt'' = Some (file_text [''a'', ''c'']) \<and> data_at t ''/etc/x'' = None"
proof -
  obtain snaps t where t: "tx_apply (\<lambda>x. x) sample_guard [sample_patch] (sample_fs (\<lambda>n. False)) = (Inr snaps, t)"
    using sample_working by (metis prod.collapse)
  note w = apply_writes_patches [OF t sample_targets]
  have "data_at t ''/w/a.txt'' = Some (file_text [''a'', ''c''])" "data_at t ''/etc/x'' = None"
    using w [of "''/w/a.txt''"] w [of "''/etc/x''"] sample_resolve sample_diff
    by (simp_all add: short_not_temp data_at_def sample_fs_def sample_patch_def)
  with t show ?thesis by blast
qed

text \<open>
  Restore undoes Apply. After a successful Apply, whatever else then changed the patched
  files and nothing else, a Restore that reports no error gives every file the content it
  had before Apply, and removes the files the patches created.
\<close>

theorem restore_undoes_apply:
  assumes "tx_apply sha g patches s = (Inr snaps, t)" "no_temp_targets g s patches"
    and "same_files (sn_Path ` set snaps) t u"
    and "tx_restore snaps u = (Inr (), v)"
  shows "\<forall>q. \<not> is_temp q \<longrightarrow> data_at v q = data_at s q"
  by (rule restore_undoes [OF assms])

theorem restore_undoes_apply_witness:
  "\<exists>snaps t v. tx_apply (\<lambda>x. x) sample_guard [sample_patch] (sample_fs (\<lambda>n. False)) = (Inr snaps, t) \<and>
     tx_restore snaps t = (Inr (), v) \<and> data_at v ''/w/a.txt'' = Some (file_text [''a'', ''b''])"
proof -
  obtain snaps t where t: "tx_apply (\<lambda>x. x) sample_guard [sample_patch] (sample_fs (\<lambda>n. False)) = (Inr snaps, t)"
    using sample_working by (metis prod.collapse)
  have "fst (bindE (tx_apply (\<lambda>x. x) sample_guard [sample_patch]) tx_restore (sample_fs (\<lambda>n. False))) = Inr ()"
    by (simp add: tx_eval)
  then obtain v where v: "tx_restore snaps t = (Inr (), v)" using t by (auto simp: bindE_def prod_eq_iff)
  from restore_undoes_apply [OF t sample_targets same_files_refl v]
  have "data_at v ''/w/a.txt'' = data_at (sample_fs (\<lambda>n. False)) ''/w/a.txt''" by (simp add: short_not_temp)
  with t v show ?thesis by (auto simp: data_at_def sample_fs_def)
qed

end
