(* ===== verification/Command_Executor.thy ===== *)
theory Command_Executor
  imports File_Transaction
begin

text \<open>
  \<open>internal/runner/command/executor.go\<close>: running one command of an approved plan. Starting
  the process is the operating system's: the parameter \<open>run\<close> gives, for a command and a
  file system, the outcome of the process and the file system it leaves. What the process
  writes arrives in chunks, which the buffers of the code cut off.
\<close>

section \<open>Operations\<close>

record exec_spec =
  xs_Executable :: string
  xs_Args :: "string slice"
  xs_WorkDir :: string
  xs_Timeout :: int \<comment> \<open>nanoseconds\<close>
  xs_OutputLimit :: int

record exec_result =
  xr_ExitCode :: int
  xr_Stdout :: string
  xr_Stderr :: string
  xr_Duration :: int
  xr_TimedOut :: bool

definition zero_result :: exec_result where
  "zero_result = \<lparr>xr_ExitCode = 0, xr_Stdout = [], xr_Stderr = [], xr_Duration = 0, xr_TimedOut = False\<rparr>"

text \<open>The process as it is started, and what \<open>cmd.Run\<close> makes known of it.\<close>

record exec_cmd =
  xc_Executable :: string
  xc_Args :: "string list"
  xc_Dir :: string
  xc_Env :: "string list"
  xc_Timeout :: int

record proc_outcome =
  po_State :: "int option" \<comment> \<open>the exit code, if \<open>cmd.ProcessState\<close> is not nil\<close>
  po_Stdout :: "string list"
  po_Stderr :: "string list"
  po_Duration :: int
  po_Deadline :: bool \<comment> \<open>\<open>ctx.Err() == context.DeadlineExceeded\<close>\<close>

record limit_buffer =
  lb_data :: string
  lb_limit :: int
  lb_truncated :: bool

definition lb_write :: "string \<Rightarrow> limit_buffer \<Rightarrow> limit_buffer" where
  "lb_write p b =
     (let remain = lb_limit b - int (length (lb_data b)) in
      if remain \<le> 0 then b\<lparr>lb_truncated := True\<rparr>
      else if int (length p) > remain
        then b\<lparr>lb_data := lb_data b @ take (nat remain) p, lb_truncated := True\<rparr>
      else b\<lparr>lb_data := lb_data b @ p\<rparr>)"

definition new_buffer :: "int \<Rightarrow> limit_buffer" where
  "new_buffer limit = \<lparr>lb_data = [], lb_limit = limit, lb_truncated = False\<rparr>"

text \<open>\<open>safeEnvironment\<close>, over \<open>os.LookupEnv\<close>.\<close>

definition safe_keys :: "string list" where
  "safe_keys = [''PATH'', ''PATHEXT'', ''SystemRoot'', ''ComSpec'', ''TEMP'', ''TMP'']"

definition safe_environment :: "(string \<Rightarrow> string option) \<Rightarrow> string list" where
  "safe_environment lookup =
     concat (map (\<lambda>key. case lookup key of None \<Rightarrow> [] | Some v \<Rightarrow> [key @ ''='' @ v]) safe_keys)"

definition executor_run ::
  "(exec_cmd \<Rightarrow> file_sys \<Rightarrow> proc_outcome \<times> file_sys) \<Rightarrow> (file_sys \<Rightarrow> string \<Rightarrow> int result) \<Rightarrow>
   (string \<Rightarrow> string option) \<Rightarrow> guard \<Rightarrow> exec_spec \<Rightarrow> (file_sys, exec_result) prog" where
  "executor_run run stat env g spec s =
     (let timeout = (if xs_Timeout spec \<le> 0 then 60 * 1000000000 else xs_Timeout spec);
          limit = (if xs_OutputLimit spec \<le> 0 then 1048576 else xs_OutputLimit spec) in
      case resolve_directory (fs_eval s) (stat s) g (xs_WorkDir spec) of
        Inl e \<Rightarrow> (Inl e, s)
      | Inr work_dir \<Rightarrow>
          let (out, s') = run \<lparr>xc_Executable = xs_Executable spec, xc_Args = elems (xs_Args spec),
                xc_Dir = work_dir, xc_Env = safe_environment env, xc_Timeout = timeout\<rparr> s in
          (Inr \<lparr>xr_ExitCode = (case po_State out of None \<Rightarrow> -1 | Some c \<Rightarrow> c),
             xr_Stdout = lb_data (fold lb_write (po_Stdout out) (new_buffer limit)),
             xr_Stderr = lb_data (fold lb_write (po_Stderr out) (new_buffer limit)),
             xr_Duration = po_Duration out, xr_TimedOut = po_Deadline out\<rparr>, s'))"

section \<open>Bounded output\<close>

definition allowed_variable :: "(string \<Rightarrow> string option) \<Rightarrow> string \<Rightarrow> bool" where
  "allowed_variable env v \<longleftrightarrow> (\<exists>k\<in>set safe_keys. \<exists>x. env k = Some x \<and> v = k @ ''='' @ x)"

definition lb_ok :: "limit_buffer \<Rightarrow> string \<Rightarrow> bool" where
  "lb_ok b written \<longleftrightarrow>
     lb_data b = take (nat (lb_limit b)) written \<and>
     (lb_limit b < int (length written) \<longrightarrow> lb_truncated b) \<and>
     (lb_truncated b \<longrightarrow> lb_limit b \<le> int (length written))"

lemma lb_write_limit [simp]: "lb_limit (lb_write p b) = lb_limit b"
  by (simp add: lb_write_def Let_def)

lemma lb_write_ok:
  assumes "lb_ok b w" "0 < lb_limit b"
  shows "lb_ok (lb_write p b) (w @ p)"
proof -
  let ?k = "lb_limit b"
  have d: "lb_data b = take (nat ?k) w" using assms(1) by (simp add: lb_ok_def)
  show ?thesis
  proof (cases "int (length w) \<ge> ?k")
    case True
    then have "length (lb_data b) = nat ?k" using d by simp
    with True assms show ?thesis by (simp add: lb_ok_def lb_write_def Let_def)
  next
    case False
    then have "lb_data b = w" using d by simp
    with False assms show ?thesis
      by (auto simp: lb_ok_def lb_write_def Let_def nat_diff_distrib)
  qed
qed

lemma lb_writes_ok:
  "lb_ok b w \<Longrightarrow> 0 < lb_limit b \<Longrightarrow> lb_ok (fold lb_write chunks b) (w @ concat chunks)"
proof (induction chunks arbitrary: b w)
  case (Cons c cs)
  from lb_write_ok [OF Cons.prems] Cons.IH [of "lb_write c b" "w @ c"] Cons.prems show ?case by simp
qed simp

lemma captured_output:
  assumes "0 < limit"
  shows "lb_data (fold lb_write chunks (new_buffer limit)) = take (nat limit) (concat chunks)"
proof -
  have "lb_ok (new_buffer limit) []" using assms by (simp add: lb_ok_def new_buffer_def)
  from lb_writes_ok [OF this, of chunks] assms
  have "lb_ok (fold lb_write chunks (new_buffer limit)) (concat chunks)" by (simp add: new_buffer_def)
  moreover have "lb_limit (fold lb_write chunks b) = lb_limit b" for b
    by (induction chunks arbitrary: b) simp_all
  ultimately show ?thesis by (simp add: lb_ok_def new_buffer_def)
qed

text \<open>
  What a command's result reports: the standard output and error are exactly the first
  bytes the process wrote, up to the limit (1 MiB when none is given), however the writes
  were chunked; the process ran in a directory below the guard's root, with the six
  allowed environment variables at most; and a missing process state is exit code -1.
\<close>

theorem executor_result:
  assumes "executor_run run stat env g spec s = (Inr res, s')"
    and "rooted_at g rs" "evals_to_clean (fs_eval s)"
  shows "\<exists>cmd out. run cmd s = (out, s') \<and> below rs (xc_Dir cmd) \<and>
      xc_Executable cmd = xs_Executable spec \<and> xc_Args cmd = elems (xs_Args spec) \<and> 0 < xc_Timeout cmd \<and>
      list_all (allowed_variable env) (xc_Env cmd) \<and>
      (let limit = nat (if xs_OutputLimit spec \<le> 0 then 1048576 else xs_OutputLimit spec) in
       xr_Stdout res = take limit (concat (po_Stdout out)) \<and>
       xr_Stderr res = take limit (concat (po_Stderr out))) \<and>
      xr_ExitCode res = (case po_State out of None \<Rightarrow> -1 | Some c \<Rightarrow> c) \<and>
      xr_TimedOut res = po_Deadline out"
proof -
  from assms(1) obtain dir where dir: "resolve_directory (fs_eval s) (stat s) g (xs_WorkDir spec) = Inr dir"
    by (auto simp: executor_run_def Let_def split: sum.splits)
  have b: "below rs dir"
    using resolve_read_cases [OF assms(2,3)] dir by (simp add: resolve_directory_def)
  let ?cmd = "\<lparr>xc_Executable = xs_Executable spec, xc_Args = elems (xs_Args spec), xc_Dir = dir,
      xc_Env = safe_environment env,
      xc_Timeout = (if xs_Timeout spec \<le> 0 then 60 * 1000000000 else xs_Timeout spec)\<rparr>"
  obtain out t where r: "run ?cmd s = (out, t)" by fastforce
  have env: "list_all (allowed_variable env) (safe_environment env)"
    unfolding list_all_iff safe_environment_def
  proof
    fix v
    assume "v \<in> set (concat (map (\<lambda>key. case env key of None \<Rightarrow> [] | Some v \<Rightarrow> [key @ ''='' @ v]) safe_keys))"
    then obtain key where "key \<in> set safe_keys" "v \<in> set (case env key of None \<Rightarrow> [] | Some v \<Rightarrow> [key @ ''='' @ v])"
      by auto
    then show "allowed_variable env v"
      by (cases "env key") (auto simp: allowed_variable_def)
  qed
  from assms(1) dir r have "s' = t" and res:
    "res = (let limit = (if xs_OutputLimit spec \<le> 0 then 1048576 else xs_OutputLimit spec) in
      \<lparr>xr_ExitCode = (case po_State out of None \<Rightarrow> -1 | Some c \<Rightarrow> c),
        xr_Stdout = take (nat limit) (concat (po_Stdout out)),
        xr_Stderr = take (nat limit) (concat (po_Stderr out)),
        xr_Duration = po_Duration out, xr_TimedOut = po_Deadline out\<rparr>)"
    by (simp_all add: executor_run_def Let_def captured_output)
  with r b env show ?thesis
    by (intro exI [of _ ?cmd] exI [of _ out]) (simp add: Let_def)
qed

definition sample_fs2 :: file_sys where
  "sample_fs2 = (sample_fs (\<lambda>_. False))\<lparr>fs_eval := sample_eval\<rparr>"

theorem executor_result_witness:
  "let run = (\<lambda>cmd fs. (\<lparr>po_State = Some 0, po_Stdout = [''hel'', ''lo''], po_Stderr = [],
         po_Duration = 1, po_Deadline = False\<rparr>, fs));
       spec = \<lparr>xs_Executable = ''go'', xs_Args = None, xs_WorkDir = ''.'', xs_Timeout = 0, xs_OutputLimit = 4\<rparr> in
   \<exists>res s'. executor_run run (\<lambda>_ _. Inr 0) (\<lambda>_. None) sample_guard spec sample_fs2 = (Inr res, s') \<and>
     xr_Stdout res = ''hell''"
proof -
  let ?run = "\<lambda>cmd fs. (\<lparr>po_State = Some 0, po_Stdout = [''hel'', ''lo''], po_Stderr = [],
         po_Duration = 1, po_Deadline = False\<rparr>, fs) :: proc_outcome \<times> file_sys"
  let ?spec = "\<lparr>xs_Executable = ''go'', xs_Args = None, xs_WorkDir = ''.'', xs_Timeout = 0, xs_OutputLimit = 4\<rparr>"
  have g: "rooted_at sample_guard [''w'']"
    by (simp add: rooted_at_def sample_guard_def normal_comp_def abs_path_def)
  have ev: "evals_to_clean (fs_eval sample_fs2)"
    by (simp add: sample_fs2_def sample_eval_clean)
  have "resolve_directory sample_eval (\<lambda>_. Inr 0) sample_guard ''.'' = Inr ''/w''"
    by (simp add: resolve_directory_def sample_guard_def guard_eval del: to_lower.simps)
  then obtain res s' where r: "executor_run ?run (\<lambda>_ _. Inr 0) (\<lambda>_. None) sample_guard ?spec sample_fs2 = (Inr res, s')"
    by (simp add: executor_run_def sample_fs2_def)
  from executor_result [OF r g ev] have "xr_Stdout res = ''hell''" by auto
  with r show ?thesis by (auto simp: Let_def)
qed

end
