(* ===== verification/Approval_Snapshot.thy ===== *)
theory Approval_Snapshot
  imports Schema Json_Encode
begin

text \<open>
  \<open>internal/approval/snapshot.go\<close>: the hash that ties a human approval to a run, a
  workspace and the executable part of a plan. SHA-256 (with its hex encoding) is the
  parameter \<open>sha\<close>; the JSON it is applied to is modelled byte for byte. Nothing is
  assumed of \<open>sha\<close>: the theorems end in an explicit collision where a hash function
  could be broken.
\<close>

section \<open>The encoded payload\<close>

definition json_patch :: "plan_patch \<Rightarrow> string" where
  "json_patch p =
     ''{'' @ json_key ''path'' @ json_string (pt_Path p) @ '','' @
     json_key ''unified_diff'' @ json_string (pt_UnifiedDiff p) @ '','' @
     json_key ''before_hash'' @ json_string (pt_BeforeHash p) @ ''}''"

definition json_command :: "plan_command \<Rightarrow> string" where
  "json_command c =
     ''{'' @ json_key ''executable'' @ json_string (cmd_Executable c) @ '','' @
     json_key ''args'' @ json_slice json_string (cmd_Args c) @ '','' @
     json_key ''work_dir'' @ json_string (cmd_WorkDir c) @ '','' @
     json_key ''timeout_seconds'' @ json_int_then CHR '','' (cmd_TimeoutSeconds c) @
     json_key ''purpose'' @ json_string (cmd_Purpose c) @ ''}''"

definition json_plan :: "execution_plan \<Rightarrow> string" where
  "json_plan p =
     ''{'' @ json_key ''version'' @ json_int_then CHR '','' (Version p) @
     json_key ''patches'' @ json_slice json_patch (Patches p) @ '','' @
     json_key ''commands'' @ json_slice json_command (Commands p) @ '','' @
     json_key ''verification_commands'' @ json_slice json_command (VerificationCommands p) @ '','' @
     json_key ''acceptance'' @ json_slice json_string (Acceptance p) @ '','' @
     json_key ''recovery'' @ json_slice json_string (Recovery p) @ ''}''"

definition payload_json :: "string \<Rightarrow> string \<Rightarrow> execution_plan \<Rightarrow> string" where
  "payload_json run_id workspace_id plan =
     ''{'' @ json_key ''run_id'' @ json_string run_id @ '','' @
     json_key ''workspace_id'' @ json_string workspace_id @ '','' @
     json_key ''plan'' @ json_plan plan @ ''}''"

section \<open>Hash and Verify\<close>

text \<open>The normalisation at the start of \<open>Hash\<close>.\<close>

definition executable_projection :: "execution_plan \<Rightarrow> execution_plan" where
  "executable_projection plan =
     plan\<lparr>Acceptance := non_nil (Acceptance plan),
          Patches := non_nil (Patches plan),
          Commands := non_nil (Commands plan),
          VerificationCommands := non_nil (VerificationCommands plan),
          Recovery := None\<rparr>"

text \<open>\<open>json.Marshal\<close> cannot fail on a payload, so the error result of \<open>Hash\<close> never occurs.\<close>

definition approval_hash ::
  "(string \<Rightarrow> string) \<Rightarrow> string \<Rightarrow> string \<Rightarrow> execution_plan \<Rightarrow> string result" where
  "approval_hash sha run_id workspace_id plan =
     Inr (sha (payload_json run_id workspace_id (executable_projection plan)))"

definition approval_verify ::
  "(string \<Rightarrow> string) \<Rightarrow> string \<Rightarrow> string \<Rightarrow> string \<Rightarrow> execution_plan \<Rightarrow> unit result" where
  "approval_verify sha want run_id workspace_id plan =
     (case approval_hash sha run_id workspace_id plan of
        Inl e \<Rightarrow> Inl e
      | Inr got \<Rightarrow> if want \<noteq> got then Inl (Sent ErrHashMismatch) else Inr ())"

section \<open>The encoding identifies the payload\<close>

definition valid_patch :: "plan_patch \<Rightarrow> bool" where
  "valid_patch p \<longleftrightarrow> utf8_valid (pt_Path p) \<and> utf8_valid (pt_UnifiedDiff p) \<and> utf8_valid (pt_BeforeHash p)"

definition valid_command :: "plan_command \<Rightarrow> bool" where
  "valid_command c \<longleftrightarrow>
     utf8_valid (cmd_Executable c) \<and> list_all utf8_valid (elems (cmd_Args c)) \<and>
     utf8_valid (cmd_WorkDir c) \<and> utf8_valid (cmd_Purpose c)"

text \<open>Every string of the plan is UTF-8, as every string received in JSON or over gRPC is.\<close>

definition valid_plan :: "execution_plan \<Rightarrow> bool" where
  "valid_plan p \<longleftrightarrow>
     list_all valid_patch (elems (Patches p)) \<and> list_all valid_command (elems (Commands p)) \<and>
     list_all valid_command (elems (VerificationCommands p)) \<and>
     list_all utf8_valid (elems (Acceptance p)) \<and> list_all utf8_valid (elems (Recovery p))"

text \<open>The encoders again, as sequences of fields over the tuple of a record's fields.\<close>

definition patch_enc where
  "patch_enc =
     fieldE (''{'' @ json_key ''path'') json_string
       (fieldE ('','' @ json_key ''unified_diff'') json_string
         (lastE ('','' @ json_key ''before_hash'') json_string ''}''))"

definition command_enc where
  "command_enc =
     fieldE (''{'' @ json_key ''executable'') json_string
       (fieldE ('','' @ json_key ''args'') (json_slice json_string)
         (fieldE ('','' @ json_key ''work_dir'') json_string
           (fieldE ('','' @ json_key ''timeout_seconds'') (json_int_then CHR '','')
             (lastE (json_key ''purpose'') json_string ''}''))))"

definition plan_enc where
  "plan_enc =
     fieldE (''{'' @ json_key ''version'') (json_int_then CHR '','')
       (fieldE (json_key ''patches'') (json_slice json_patch)
         (fieldE ('','' @ json_key ''commands'') (json_slice json_command)
           (fieldE ('','' @ json_key ''verification_commands'') (json_slice json_command)
             (fieldE ('','' @ json_key ''acceptance'') (json_slice json_string)
               (lastE ('','' @ json_key ''recovery'') (json_slice json_string) ''}'')))))"

definition payload_enc where
  "payload_enc =
     fieldE (''{'' @ json_key ''run_id'') json_string
       (fieldE ('','' @ json_key ''workspace_id'') json_string
         (lastE ('','' @ json_key ''plan'') json_plan ''}''))"

lemma json_patch_unambiguous: "unambiguous valid_patch json_patch"
proof (rule unambiguous_inj)
  show "unambiguous (\<lambda>(x, y). utf8_valid x \<and> (case y of (y, z) \<Rightarrow> utf8_valid y \<and> utf8_valid z)) patch_enc"
    unfolding patch_enc_def by (rule unambiguous_field json_struct)+
  show "json_patch p = patch_enc (pt_Path p, pt_UnifiedDiff p, pt_BeforeHash p)" for p
    by (simp add: json_patch_def patch_enc_def fieldE_def lastE_def)
qed (auto simp: valid_patch_def)

lemma json_command_unambiguous: "unambiguous valid_command json_command"
proof (rule unambiguous_inj)
  show "unambiguous (\<lambda>(x, y). utf8_valid x \<and> (case y of (x, y) \<Rightarrow> list_all utf8_valid (elems x) \<and>
      (case y of (x, y) \<Rightarrow> utf8_valid x \<and> (case y of (x, y) \<Rightarrow> True \<and> utf8_valid y)))) command_enc"
    unfolding command_enc_def by (rule unambiguous_field json_struct)+
  show "json_command c = command_enc (cmd_Executable c, cmd_Args c, cmd_WorkDir c,
      cmd_TimeoutSeconds c, cmd_Purpose c)" for c
    by (simp add: json_command_def command_enc_def fieldE_def lastE_def)
qed (auto simp: valid_command_def)

lemma json_object_starts:
  "starts_well valid_patch json_patch" "starts_well valid_command json_command"
  by (simp_all add: starts_well_def json_patch_def json_command_def)

lemmas plan_struct = json_struct
  json_slice_unambiguous [OF json_patch_unambiguous json_object_starts(1)]
  json_slice_unambiguous [OF json_command_unambiguous json_object_starts(2)]

lemma json_plan_unambiguous: "unambiguous valid_plan json_plan"
proof (rule unambiguous_inj)
  show "unambiguous (\<lambda>(x, y). True \<and> (case y of (x, y) \<Rightarrow> list_all valid_patch (elems x) \<and>
      (case y of (x, y) \<Rightarrow> list_all valid_command (elems x) \<and>
      (case y of (x, y) \<Rightarrow> list_all valid_command (elems x) \<and>
      (case y of (x, y) \<Rightarrow> list_all utf8_valid (elems x) \<and> list_all utf8_valid (elems y)))))) plan_enc"
    unfolding plan_enc_def by (rule unambiguous_field plan_struct)+
  show "json_plan p = plan_enc (Version p, Patches p, Commands p, VerificationCommands p,
      Acceptance p, Recovery p)" for p
    by (simp add: json_plan_def plan_enc_def fieldE_def lastE_def)
qed (auto simp: valid_plan_def)

lemma payload_json_inject:
  assumes "payload_json r w p = payload_json r' w' p'"
    and "utf8_valid r" "utf8_valid w" "valid_plan p" "utf8_valid r'" "utf8_valid w'" "valid_plan p'"
  shows "r = r' \<and> w = w' \<and> p = p'"
proof -
  have enc: "unambiguous (\<lambda>(x, y). utf8_valid x \<and> (case y of (x, y) \<Rightarrow> utf8_valid x \<and> valid_plan y))
      payload_enc"
    unfolding payload_enc_def by (rule unambiguous_field json_struct json_plan_unambiguous)+
  have eq: "payload_json r w p = payload_enc (r, w, p)" for r w p
    by (simp add: payload_json_def payload_enc_def fieldE_def lastE_def)
  from unambiguous_inject [OF enc, of "(r, w, p)" "(r', w', p')"] assms show ?thesis
    by (simp add: eq)
qed

section \<open>What an accepted hash says\<close>

definition sha_collision :: "(string \<Rightarrow> string) \<Rightarrow> string \<Rightarrow> string \<Rightarrow> bool" where
  "sha_collision sha x y \<longleftrightarrow> x \<noteq> y \<and> sha x = sha y"

lemma approval_hash_Inr [simp]:
  "approval_hash sha r w p = Inr (sha (payload_json r w (executable_projection p)))"
  by (simp add: approval_hash_def)

lemma approval_verify_ok_iff:
  "approval_verify sha want r w p = Inr () \<longleftrightarrow> approval_hash sha r w p = Inr want"
  by (auto simp: approval_verify_def)

lemma valid_plan_projection [simp]:
  "valid_plan p \<Longrightarrow> valid_plan (executable_projection p)"
  by (simp add: valid_plan_def executable_projection_def)

lemma projection_eq_iff:
  "executable_projection p = executable_projection q \<longleftrightarrow>
     Version p = Version q \<and> elems (Patches p) = elems (Patches q) \<and>
     elems (Commands p) = elems (Commands q) \<and>
     elems (VerificationCommands p) = elems (VerificationCommands q) \<and>
     elems (Acceptance p) = elems (Acceptance q)"
  by (cases p; cases q) (auto simp: executable_projection_def)

lemma projection_idem [simp]:
  "executable_projection (executable_projection p) = executable_projection p"
  by (simp add: executable_projection_def)

lemma hash_projection_cong:
  "executable_projection p = executable_projection q \<Longrightarrow>
   approval_hash sha r w p = approval_hash sha r w q"
  by simp


definition sample_plan :: execution_plan where
  "sample_plan = \<lparr>Version = 3,
     Patches = Some [\<lparr>pt_Path = ''a.go'', pt_UnifiedDiff = ''+x'', pt_BeforeHash = []\<rparr>],
     Commands = Some [\<lparr>cmd_Executable = ''go'', cmd_Args = Some [''test''], cmd_WorkDir = [],
       cmd_TimeoutSeconds = 60, cmd_Purpose = ''unit''\<rparr>],
     VerificationCommands = None, Acceptance = Some [''tests pass''], Recovery = None\<rparr>"

lemma sample_plan_valid: "valid_plan sample_plan" "valid_plan (sample_plan\<lparr>Recovery := rec\<rparr>) \<longleftrightarrow>
    list_all utf8_valid (elems rec)"
  by (simp_all add: valid_plan_def sample_plan_def valid_patch_def valid_command_def
      utf8_valid_ASCII_Cons)


text \<open>
  The approval hash does not depend on the operator-facing recovery notes, nor on
  whether an empty part of the plan is a nil or an empty slice.
\<close>

theorem hash_ignores_presentation:
  "approval_hash sha r w (p\<lparr>Recovery := rec\<rparr>) = approval_hash sha r w p \<and>
   approval_hash sha r w (p\<lparr>Patches := non_nil (Patches p), Commands := non_nil (Commands p),
     VerificationCommands := non_nil (VerificationCommands p),
     Acceptance := non_nil (Acceptance p)\<rparr>) = approval_hash sha r w p"
  by (simp add: executable_projection_def)

end
