(* ===== verification/Runner_Service.thy ===== *)
theory Runner_Service
  imports Idempotency Command_Executor Approval_Snapshot
begin

text \<open>
  \<open>internal/runner/grpc/service.go\<close>: the runner's RPC handlers. Their state is the file
  system of the workspace and the idempotency store. A gRPC status error is a wrapped error
  that carries the status code. What is not in the repository (the process runner, the
  \<open>os.Stat\<close> sizes, SHA-256, \<open>protojson\<close>, the database) is gathered in a \<open>runner_env\<close>.
\<close>

section \<open>State and environment\<close>

record 'db runner =
  rn_fs :: file_sys
  rn_idem :: "'db idem_store"

record 'db runner_env =
  re_sha :: "string \<Rightarrow> string"
  re_run :: "exec_cmd \<Rightarrow> file_sys \<Rightarrow> proc_outcome \<times> file_sys"
  re_stat :: "file_sys \<Rightarrow> string \<Rightarrow> int result"
  re_env :: "string \<Rightarrow> string option"
  re_guard :: guard
  re_DB :: "'db gorm_db option"
  re_enc :: "exec_response \<Rightarrow> string result"
  re_dec :: "string \<Rightarrow> exec_response result"

definition status_error :: "string \<Rightarrow> string \<Rightarrow> go_error" where
  "status_error code msg = Wrap code (Err msg)"

section \<open>Handlers\<close>

definition get_execution ::
  "'db runner_env \<Rightarrow> string \<Rightarrow> 'db runner \<Rightarrow> exec_response result \<times> 'db runner" where
  "get_execution E rid st =
     (case idem_get (re_DB E) (re_dec E) rid (rn_idem st) of
        (Some v, i) \<Rightarrow> (Inr v, st\<lparr>rn_idem := i\<rparr>)
      | (None, i) \<Rightarrow> (Inl (status_error ''NotFound'' ''execution not found''), st\<lparr>rn_idem := i\<rparr>))"

definition rebuild_command :: "approved_command \<Rightarrow> plan_command" where
  "rebuild_command c = \<lparr>cmd_Executable = ac_Executable c, cmd_Args = ac_Args c, cmd_WorkDir = ac_WorkDir c,
     cmd_TimeoutSeconds = ac_TimeoutSeconds c, cmd_Purpose = ac_Purpose c\<rparr>"

definition rebuild_patch :: "approved_patch \<Rightarrow> plan_patch" where
  "rebuild_patch p = \<lparr>pt_Path = ap_Path p, pt_UnifiedDiff = ap_UnifiedDiff p, pt_BeforeHash = ap_BeforeHash p\<rparr>"

text \<open>The plan the handler rebuilds from the request.\<close>

definition rebuild_plan :: "exec_request \<Rightarrow> execution_plan" where
  "rebuild_plan req = \<lparr>Version = rq_PlanVersion req,
     Patches = Some (map rebuild_patch (elems (rq_Patches req))),
     Commands = Some (map rebuild_command (elems (rq_Commands req))),
     VerificationCommands = slice_of (map rebuild_command (elems (rq_VerificationCommands req))),
     Acceptance = non_nil (rq_Acceptance req), Recovery = None\<rparr>"

text \<open>\<open>time.Duration.Milliseconds\<close> divides and truncates towards zero.\<close>

definition milliseconds :: "int \<Rightarrow> int" where
  "milliseconds d = sgn d * (\<bar>d\<bar> div 1000000)"

definition step_of :: "string \<Rightarrow> plan_command \<Rightarrow> exec_result \<Rightarrow> step_result" where
  "step_of kind c res = \<lparr>st_Kind = kind, st_Name = cmd_Executable c, st_ExitCode = to_int32 (xr_ExitCode res),
     st_Stdout = xr_Stdout res, st_Stderr = xr_Stderr res, st_DurationMs = milliseconds (xr_Duration res),
     st_Status = ''SUCCEEDED''\<rparr>"

definition spec_of :: "plan_command \<Rightarrow> exec_spec" where
  "spec_of c = \<lparr>xs_Executable = cmd_Executable c, xs_Args = cmd_Args c, xs_WorkDir = cmd_WorkDir c,
     xs_Timeout = int64 (cmd_TimeoutSeconds c * 1000000000), xs_OutputLimit = 1048576\<rparr>"

text \<open>\<open>runCommands\<close>: the commands in order, up to the first that fails; then the patches are
  taken back. \<open>executor.Run\<close> with an error returns the zero result.\<close>

fun run_commands ::
  "'db runner_env \<Rightarrow> snapshot list option \<Rightarrow> string \<Rightarrow> plan_command list \<Rightarrow> exec_response \<Rightarrow> file_sys \<Rightarrow>
   bool \<times> exec_response \<times> file_sys" where
  "run_commands E applied kind [] resp fs = (True, resp, fs)"
| "run_commands E applied kind (c # cs) resp fs =
     (let (r, fs1) = executor_run (re_run E) (re_stat E) (re_env E) (re_guard E) (spec_of c) fs;
          res = (case r of Inl _ \<Rightarrow> zero_result | Inr x \<Rightarrow> x);
          step = step_of kind c res in
      if (case r of Inl _ \<Rightarrow> True | Inr _ \<Rightarrow> False) \<or> xr_TimedOut res \<or> xr_ExitCode res \<noteq> 0 then
        (let resp1 = resp\<lparr>rs_Status := ''FAILED'',
               rs_ErrorCode := kind @ ''_failed:'' @ cmd_Executable c,
               rs_Steps := rs_Steps resp @ [step\<lparr>st_Status := ''FAILED''\<rparr>]\<rparr> in
         case applied of
           None \<Rightarrow> (False, resp1, fs1)
         | Some snaps \<Rightarrow>
             (case tx_restore snaps fs1 of
                (Inl _, fs2) \<Rightarrow>
                  (False, resp1\<lparr>rs_ErrorCode := ''rollback_failed:'' @ rs_ErrorCode resp1\<rparr>, fs2)
              | (Inr _, fs2) \<Rightarrow> (False, resp1, fs2)))
      else run_commands E applied kind cs (resp\<lparr>rs_Steps := rs_Steps resp @ [step]\<rparr>) fs1)"

definition run_all ::
  "'db runner_env \<Rightarrow> snapshot list option \<Rightarrow> execution_plan \<Rightarrow> exec_response \<Rightarrow> file_sys \<Rightarrow>
   exec_response \<times> file_sys" where
  "run_all E applied plan resp fs =
     (case run_commands E applied ''command'' (elems (Commands plan)) resp fs of
        (ok, resp1, fs1) \<Rightarrow>
          if ok then snd (run_commands E applied ''verification'' (elems (VerificationCommands plan)) resp1 fs1)
          else (resp1, fs1))"

definition new_response :: "exec_request \<Rightarrow> exec_response" where
  "new_response req = \<lparr>rs_RequestId = rq_RequestId req, rs_Status = ''SUCCEEDED'', rs_Steps = [],
     rs_ActualDiff = [], rs_ErrorCode = []\<rparr>"

text \<open>The effects of a verified plan: the response, or the panic that ends the process.\<close>

definition perform_plan ::
  "'db runner_env \<Rightarrow> exec_request \<Rightarrow> execution_plan \<Rightarrow> file_sys \<Rightarrow> exec_response result \<times> file_sys" where
  "perform_plan E req plan fs =
     (let resp = new_response req; patches = elems (Patches plan) in
      if patches \<noteq> [] then
        (case tx_apply (re_sha E) (re_guard E) patches fs of
           (Inl e, fs1) \<Rightarrow>
             if e = Sent GoPanic then (Inl (Sent GoPanic), fs1)
             else (Inr (resp\<lparr>rs_Status := ''FAILED'',
                 rs_ErrorCode := (case e of
                    Wrap m _ \<Rightarrow> if m = ''rollback failed: '' then ''rollback_failed:patch_failed'' else ''patch_failed''
                  | _ \<Rightarrow> ''patch_failed'')\<rparr>), fs1)
         | (Inr snaps, fs1) \<Rightarrow> (case run_all E (Some snaps) plan resp fs1 of (r, fs2) \<Rightarrow> (Inr r, fs2)))
      else (case run_all E None plan resp fs of (r, fs2) \<Rightarrow> (Inr r, fs2)))"

definition execute_approved_plan ::
  "'db runner_env \<Rightarrow> exec_request \<Rightarrow> 'db runner \<Rightarrow> exec_response result \<times> 'db runner" where
  "execute_approved_plan E req st =
     (if rq_RequestId req = [] then
        (Inl (status_error ''InvalidArgument'' ''request_id is required''), st)
      else case idem_get (re_DB E) (re_dec E) (rq_RequestId req) (rn_idem st) of
        (Some saved, i) \<Rightarrow> (Inr saved, st\<lparr>rn_idem := i\<rparr>)
      | (None, i) \<Rightarrow>
        (case idem_begin (re_DB E) (re_dec E) (rq_RequestId req) i of
           (Inl _, i1) \<Rightarrow>
             (Inl (status_error ''Aborted'' ''execution already in progress''), st\<lparr>rn_idem := i1\<rparr>)
         | (Inr real, i1) \<Rightarrow>
           (let plan = rebuild_plan req in
            case approval_verify (re_sha E) (rq_ApprovalHash req) (rq_RunId req) (rq_WorkspaceId req) plan of
              Inl _ \<Rightarrow> (Inl (status_error ''PermissionDenied'' ''approval mismatch''),
                 st\<lparr>rn_idem := idem_release real (rq_RequestId req) i1\<rparr>)
            | Inr _ \<Rightarrow>
              (case perform_plan E req plan (rn_fs st) of
                 (Inl e, fs1) \<Rightarrow> (Inl e, st\<lparr>rn_fs := fs1, rn_idem := i1\<rparr>)
               | (Inr resp, fs1) \<Rightarrow> (Inr resp, st\<lparr>rn_fs := fs1,
                   rn_idem := idem_release real (rq_RequestId req)
                     (idem_complete (re_DB E) (re_enc E) (rq_RequestId req) resp i1)\<rparr>)))))"

section \<open>No effect without an approval\<close>

lemma execute_effect:
  assumes "execute_approved_plan E req st = (r, st')" "rn_fs st' \<noteq> rn_fs st"
  shows "rq_RequestId req \<noteq> [] \<and>
    (\<exists>i. idem_get (re_DB E) (re_dec E) (rq_RequestId req) (rn_idem st) = (None, i) \<and>
       fst (idem_begin (re_DB E) (re_dec E) (rq_RequestId req) i) \<in> range Inr) \<and>
    approval_verify (re_sha E) (rq_ApprovalHash req) (rq_RunId req) (rq_WorkspaceId req) (rebuild_plan req) = Inr ()"
  using assms
  by (auto simp: execute_approved_plan_def Let_def split: if_splits option.splits prod.splits sum.splits)

lemma execute_response_saved:
  assumes "execute_approved_plan E req st = (Inr resp, st')"
  shows "rq_RequestId req \<noteq> [] \<and> idm_done (rn_idem st') (rq_RequestId req) = Some resp"
  using assms idem_get_done [of "re_DB E" "re_dec E" "rq_RequestId req" "rn_idem st" resp]
  by (auto simp: execute_approved_plan_def Let_def split: if_splits option.splits prod.splits sum.splits)

text \<open>A runner process started on the database an earlier one left.\<close>

definition restarted :: "file_sys \<Rightarrow> 'db \<Rightarrow> 'db runner" where
  "restarted fs d = \<lparr>rn_fs = fs, rn_idem = idem_new d\<rparr>"

section \<open>A sample runner\<close>

text \<open>The runner on the sample workspace with a database in memory; its only command
  exits with code 1.\<close>

definition sample_run_cmd :: "int \<Rightarrow> exec_cmd \<Rightarrow> file_sys \<Rightarrow> proc_outcome \<times> file_sys" where
  "sample_run_cmd code cmd fs = (\<lparr>po_State = Some code, po_Stdout = [''out''], po_Stderr = [],
     po_Duration = 2000000, po_Deadline = False\<rparr>, fs)"

definition sample_runner_env :: "int \<Rightarrow> tables runner_env" where
  "sample_runner_env code = \<lparr>re_sha = (\<lambda>x. x), re_run = sample_run_cmd code, re_stat = (\<lambda>_ _. Inr 0),
     re_env = (\<lambda>_. None), re_guard = sample_guard, re_DB = Some mem_db,
     re_enc = (\<lambda>r. Inr (rs_RequestId r)),
     re_dec = (\<lambda>s. Inr \<lparr>rs_RequestId = s, rs_Status = [], rs_Steps = [], rs_ActualDiff = [], rs_ErrorCode = []\<rparr>)\<rparr>"

definition sample_exec_plan :: execution_plan where
  "sample_exec_plan = \<lparr>Version = 1, Patches = Some [sample_patch],
     Commands = Some [\<lparr>cmd_Executable = ''go'', cmd_Args = None, cmd_WorkDir = ''.'', cmd_TimeoutSeconds = 5,
       cmd_Purpose = []\<rparr>], VerificationCommands = None, Acceptance = Some [], Recovery = None\<rparr>"

definition sample_exec_request :: exec_request where
  "sample_exec_request = \<lparr>rq_RequestId = ''q1'', rq_RunId = ''r1'', rq_WorkspaceId = ''w'', rq_PlanVersion = 1,
     rq_Patches = Some [\<lparr>ap_Path = ''a.txt'', ap_UnifiedDiff = diff_text None sample_hunks, ap_BeforeHash = []\<rparr>],
     rq_Commands = Some [\<lparr>ac_Executable = ''go'', ac_Args = None, ac_WorkDir = ''.'', ac_TimeoutSeconds = 5,
       ac_Purpose = []\<rparr>], rq_Acceptance = None,
     rq_ApprovalHash = payload_json ''r1'' ''w'' (executable_projection sample_exec_plan),
     rq_VerificationCommands = None\<rparr>"

definition sample_runner :: "tables runner" where
  "sample_runner = restarted (sample_fs (\<lambda>_. False)) empty_tables"

lemma sample_rebuild: "rebuild_plan sample_exec_request = sample_exec_plan"
  by (simp add: rebuild_plan_def sample_exec_request_def sample_exec_plan_def rebuild_patch_def
      rebuild_command_def sample_patch_def non_nil_def slice_of_def)

lemma sample_dir_ok: "resolve_directory Inr (\<lambda>_. Inr 0) sample_guard ''.'' = Inr ''/w''"
  by (simp add: resolve_directory_def sample_guard_def guard_eval del: to_lower.simps)

lemma sample_executor:
  assumes "fs_eval fs = Inr" "xs_WorkDir spec = ''.''" "0 < xs_OutputLimit spec"
  shows "\<exists>res. executor_run (sample_run_cmd code) (\<lambda>_ _. Inr 0) (\<lambda>_. None) sample_guard spec fs = (Inr res, fs) \<and>
    xr_ExitCode res = code \<and> \<not> xr_TimedOut res"
  using assms by (simp add: executor_run_def Let_def sample_dir_ok sample_run_cmd_def)

lemma sample_apply:
  obtains snaps t where
    "tx_apply (\<lambda>x. x) sample_guard [sample_patch] (sample_fs (\<lambda>_. False)) = (Inr snaps, t)"
    "fs_eval t = Inr" "data_at t ''/w/a.txt'' = Some (file_text [''a'', ''c''])"
    "fst (tx_restore snaps t) = Inr ()"
proof -
  obtain snaps t where t: "tx_apply (\<lambda>x. x) sample_guard [sample_patch] (sample_fs (\<lambda>_. False)) = (Inr snaps, t)"
    using sample_working by (metis prod.collapse)
  have "fst (bindE (tx_apply (\<lambda>x. x) sample_guard [sample_patch]) tx_restore (sample_fs (\<lambda>_. False))) = Inr ()"
    by (simp add: tx_eval)
  with t have "fst (tx_restore snaps t) = Inr ()" by (simp add: bindE_def)
  moreover have "fs_eval t = Inr"
    using tx_apply_ok(3) [OF t sample_targets] by (simp add: same_files_def sample_fs_def)
  moreover have "data_at t ''/w/a.txt'' = Some (file_text [''a'', ''c''])"
    using tx_apply_ok(1) [OF t sample_targets, of "''/w/a.txt''"] sample_resolve sample_diff
    by (simp add: short_not_temp data_at_def sample_fs_def sample_patch_def)
  ultimately show thesis using that t by blast
qed

lemma sample_perform_ok:
  obtains resp t where
    "perform_plan (sample_runner_env 0) sample_exec_request sample_exec_plan (sample_fs (\<lambda>_. False)) = (Inr resp, t)"
    "rs_Status resp = ''SUCCEEDED''" "rs_RequestId resp = ''q1''"
    "data_at t ''/w/a.txt'' = Some (file_text [''a'', ''c''])"
proof (rule sample_apply)
  fix snaps t
  assume t: "tx_apply (\<lambda>x. x) sample_guard [sample_patch] (sample_fs (\<lambda>_. False)) = (Inr snaps, t)"
    and ev: "fs_eval t = Inr" and data: "data_at t ''/w/a.txt'' = Some (file_text [''a'', ''c''])"
  let ?spec = "spec_of (hd (elems (Commands sample_exec_plan)))"
  have "xs_WorkDir ?spec = ''.''" "0 < xs_OutputLimit ?spec" by (simp_all add: spec_of_def sample_exec_plan_def)
  from sample_executor [OF ev this, of 0] obtain res where
    "executor_run (sample_run_cmd 0) (\<lambda>_ _. Inr 0) (\<lambda>_. None) sample_guard ?spec t = (Inr res, t)"
    "xr_ExitCode res = 0" "\<not> xr_TimedOut res" by blast
  with t data that show thesis
    by (simp add: perform_plan_def sample_exec_plan_def sample_runner_env_def run_all_def Let_def
        new_response_def sample_exec_request_def)
qed

lemma sample_perform_fail:
  obtains resp t where
    "perform_plan (sample_runner_env 1) sample_exec_request sample_exec_plan (sample_fs (\<lambda>_. False)) = (Inr resp, t)"
    "rs_Status resp = ''FAILED''" "rs_ErrorCode resp = ''command_failed:go''"
proof (rule sample_apply)
  fix snaps t
  assume t: "tx_apply (\<lambda>x. x) sample_guard [sample_patch] (sample_fs (\<lambda>_. False)) = (Inr snaps, t)"
    and ev: "fs_eval t = Inr" and re: "fst (tx_restore snaps t) = Inr ()"
  obtain u where u: "tx_restore snaps t = (Inr (), u)" using re by (cases "tx_restore snaps t") simp
  let ?spec = "spec_of (hd (elems (Commands sample_exec_plan)))"
  have "xs_WorkDir ?spec = ''.''" "0 < xs_OutputLimit ?spec" by (simp_all add: spec_of_def sample_exec_plan_def)
  from sample_executor [OF ev this, of 1] obtain res where
    "executor_run (sample_run_cmd 1) (\<lambda>_ _. Inr 0) (\<lambda>_. None) sample_guard ?spec t = (Inr res, t)"
    "xr_ExitCode res = 1" "\<not> xr_TimedOut res" by blast
  with t u that show thesis
    by (simp add: perform_plan_def sample_exec_plan_def sample_runner_env_def run_all_def Let_def
        new_response_def sample_exec_request_def)
qed

lemma sample_execute:
  obtains resp st' where
    "execute_approved_plan (sample_runner_env 0) sample_exec_request sample_runner = (Inr resp, st')"
    "rn_fs st' \<noteq> rn_fs sample_runner" "rs_Status resp = ''SUCCEEDED''"
    "map ex_RequestID (t_executions (idm_db (rn_idem st'))) = [''q1'']"
proof (rule sample_perform_ok)
  fix resp t
  assume p: "perform_plan (sample_runner_env 0) sample_exec_request sample_exec_plan (sample_fs (\<lambda>_. False)) = (Inr resp, t)"
    and ok: "rs_Status resp = ''SUCCEEDED''" "rs_RequestId resp = ''q1''"
    and data: "data_at t ''/w/a.txt'' = Some (file_text [''a'', ''c''])"
  have "t \<noteq> sample_fs (\<lambda>_. False)" using data by (auto simp: data_at_def sample_fs_def file_text_def)
  moreover have "approval_verify (\<lambda>x. x) (rq_ApprovalHash sample_exec_request) (rq_RunId sample_exec_request)
      (rq_WorkspaceId sample_exec_request) sample_exec_plan = Inr ()"
    by (simp add: approval_verify_ok_iff sample_exec_request_def)
  moreover have "rq_RequestId sample_exec_request = ''q1''" by (simp add: sample_exec_request_def)
  ultimately show thesis
    using p ok that
    by (simp add: execute_approved_plan_def sample_rebuild sample_runner_def restarted_def idem_new_def
        sample_runner_env_def idem_get_def idem_begin_def begin_new_def idem_complete_def idem_release_def
        find_execution_def sql_first_def on_db_def prog_simps mem_db_def mem_table_def db_frames
        empty_tables_def Let_def save_rows_def)
qed



text \<open>
  A request id is answered once and for all. After a response was returned for it,
  every later request with that id gets the same response, whatever plan and hash it
  carries, and neither the workspace nor the store changes.
\<close>

theorem repeated_request_replays:
  assumes "execute_approved_plan E req st = (Inr resp, st')"
    and "rq_RequestId req2 = rq_RequestId req"
  shows "execute_approved_plan E req2 st' = (Inr resp, st')"
  using execute_response_saved [OF assms(1)] assms(2)
  by (auto simp: execute_approved_plan_def idem_get_hit)

theorem repeated_request_replays_witness:
  "\<exists>resp st'. execute_approved_plan (sample_runner_env 0) sample_exec_request sample_runner = (Inr resp, st') \<and>
     execute_approved_plan (sample_runner_env 0) (sample_exec_request\<lparr>rq_ApprovalHash := ''x''\<rparr>) st' = (Inr resp, st')"
proof (rule sample_execute)
  fix resp st'
  assume x: "execute_approved_plan (sample_runner_env 0) sample_exec_request sample_runner = (Inr resp, st')"
  have "rq_RequestId (sample_exec_request\<lparr>rq_ApprovalHash := ''x''\<rparr>) = rq_RequestId sample_exec_request" by simp
  from repeated_request_replays [OF x this] x show ?thesis by blast
qed

section \<open>Restarts\<close>

context gorm_store
begin

lemma on_db_find_view:
  "on_db (find_execution D rid) i = (q, j) \<Longrightarrow> view (idm_db j) = view (idm_db i)"
  using find_execution_cases by (fastforce simp: on_db_def split: prod.splits)

lemma begin_proceeds_known:
  assumes "idem_begin (Some D) dec rid i = (Inr b, j)" "idm_done i rid = None"
  shows "rid \<in> known_requests (view (idm_db j))"
proof (cases b)
  case True
  with assms(1) show ?thesis using idem_begin_recorded [of dec rid i j] by simp
next
  case False
  obtain q k where f: "on_db (find_execution D rid) i = (q, k)" by fastforce
  then obtain d where d: "find_execution D rid (idm_db i) = (q, d)" "k = i\<lparr>idm_db := d\<rparr>"
    by (auto simp: on_db_def split: prod.splits)
  from False assms f begin_new_result [of rid k b j] obtain r where "q = Inr r" "idm_db j = idm_db k"
    by (cases q) (auto simp: idem_begin_def split: if_splits option.splits)
  with find_execution_cases [OF d(1)] d(2) show ?thesis
    by (auto simp: known_requests_def)
qed

lemma complete_known:
  assumes "rid \<in> known_requests (view (idm_db i))"
  shows "rid \<in> known_requests (view (idm_db (idem_complete (Some D) enc rid resp i)))"
proof (cases "enc resp")
  case (Inr raw)
  let ?row = "\<lparr>ex_RequestID = rid, ex_Status = ''complete'', ex_ResponseJSON = raw, ex_CreatedAt = 0\<rparr>"
  obtain q d where q: "sql_save (gd_executions D) ?row (idm_db i) = (q, d)" by fastforce
  have "idm_db (idem_complete (Some D) enc rid resp i) = d"
    using Inr q by (simp add: idem_complete_def on_db_def)
  moreover have "rid \<in> known_requests (view d)"
  proof (cases rule: sql_saveE [OF executions_ok q])
    case (1 e)
    with assms show ?thesis by simp
  next
    case (2 r')
    from execution_norm [OF 2(2)] have "ex_RequestID r' = rid" by simp
    with 2(3) show ?thesis by (auto simp: known_requests_def executions_spec_def save_rows_def)
  qed
  ultimately show ?thesis by simp
qed (use assms in \<open>simp add: idem_complete_def Let_def\<close>)

lemma release_db [simp]: "idm_db (idem_release b rid i) = idm_db i"
  by (simp add: idem_release_def)

lemma effect_known:
  assumes "execute_approved_plan E req st = (r, st')" "rn_fs st' \<noteq> rn_fs st" "re_DB E = Some D"
  shows "rq_RequestId req \<in> known_requests (view (idm_db (rn_idem st')))"
proof -
  let ?rid = "rq_RequestId req"
  from execute_effect [OF assms(1,2)] obtain i b j where
    get: "idem_get (Some D) (re_dec E) ?rid (rn_idem st) = (None, i)"
    and beg: "idem_begin (Some D) (re_dec E) ?rid i = (Inr b, j)"
    unfolding assms(3) by (metis (no_types, lifting) prod.collapse rangeE)
  have "idm_done i ?rid = None"
    using get by (auto simp: idem_get_def on_db_def split: option.splits prod.splits sum.splits if_splits)
  then have "?rid \<in> known_requests (view (idm_db j))" using begin_proceeds_known [OF beg] by simp
  with assms get beg show ?thesis
    by (auto simp: execute_approved_plan_def Let_def complete_known split: if_splits sum.splits prod.splits)
qed

lemma known_is_inert:
  assumes "re_DB E = Some D" "rq_RequestId req \<in> known_requests (view d)"
    and "distinct (map ex_RequestID (t_executions (view d)))"
    and "\<And>e. fst (find_execution D (rq_RequestId req) d) = Inl e \<Longrightarrow> \<not> db_error e"
    and "execute_approved_plan E req (restarted fs d) = (r, st')"
  shows "rn_fs st' = fs"
proof (rule ccontr)
  let ?rid = "rq_RequestId req"
  assume "rn_fs st' \<noteq> fs"
  with execute_effect [OF assms(5)] obtain i b j where
    get: "idem_get (Some D) (re_dec E) ?rid (idem_new d) = (None, i)"
    and beg: "idem_begin (Some D) (re_dec E) ?rid i = (Inr b, j)"
    unfolding assms(1) restarted_def
    by (metis (no_types, lifting) prod.collapse rangeE runner.select_convs)
  obtain q d1 where q: "find_execution D ?rid d = (q, d1)" by fastforce
  with find_execution_cases [OF q] assms(2,4) obtain row where
    row: "q = Inr row" "row \<in> set (t_executions (view d))" "ex_RequestID row = ?rid" and v1: "view d1 = view d"
    by fastforce
  with get q have i: "i = (idem_new d)\<lparr>idm_db := d1\<rparr>"
    and dec: "ex_Status row = ''running'' \<or> (\<exists>e. re_dec E (ex_ResponseJSON row) = Inl e)"
    by (auto simp: idem_get_def on_db_def idem_new_def split: if_splits sum.splits)
  have "?rid \<in> known_requests (view (idm_db i))" "idm_done i ?rid = None"
    using i v1 assms(2) by (simp_all add: idem_new_def)
  with idem_begin_known [of ?rid i "re_dec E"] beg have "\<not> b" by (cases b) auto
  obtain q2 d2 where q2: "find_execution D ?rid d1 = (q2, d2)" by fastforce
  have "fst (begin_new D ?rid (i\<lparr>idm_db := d2\<rparr>)) = Inl (Sent ErrInProgress)"
    using begin_new_known find_execution_cases [OF q2] v1 assms(2) by simp
  moreover have "q2 = Inr row2 \<Longrightarrow> row2 = row" for row2
    using find_execution_cases [OF q2] v1 row assms(3)
    by (auto simp: distinct_map inj_on_def)
  ultimately show False
    using beg i q2 dec by (cases q2)
      (auto simp: idem_begin_def on_db_def idem_new_def decode_response_def split: if_splits)
qed

end


lemma mem_find_execution: "fst (find_execution mem_db rid d) = Inl e \<Longrightarrow> \<not> db_error e"
  by (auto simp: find_execution_def sql_first_def prog_simps mem_db_def mem_table_def split: list.splits)


section \<open>What a response reports\<close>

text \<open>The commands of the plan only touch files of \<open>X\<close>.\<close>

definition commands_within :: "'db runner_env \<Rightarrow> string set \<Rightarrow> bool" where
  "commands_within E X \<longleftrightarrow> (\<forall>cmd s. same_files X s (snd (re_run E cmd s)))"

definition rollback_reported :: "exec_response \<Rightarrow> bool" where
  "rollback_reported r \<longleftrightarrow> has_prefix (rs_ErrorCode r) ''rollback_failed:''"

lemma executor_within:
  assumes "commands_within E X" "executor_run (re_run E) (re_stat E) (re_env E) (re_guard E) spec s = (r, t)"
  shows "same_files X s t"
proof (cases "resolve_directory (fs_eval s) (re_stat E s) (re_guard E) (xs_WorkDir spec)")
  case (Inl e)
  with assms(2) show ?thesis by (simp add: executor_run_def Let_def)
next
  case (Inr dir)
  let ?cmd = "\<lparr>xc_Executable = xs_Executable spec, xc_Args = elems (xs_Args spec), xc_Dir = dir,
      xc_Env = safe_environment (re_env E),
      xc_Timeout = (if xs_Timeout spec \<le> 0 then 60 * 1000000000 else xs_Timeout spec)\<rparr>"
  have "t = snd (re_run E ?cmd s)"
    using assms(2) Inr by (auto simp: executor_run_def Let_def split: prod.splits)
  with assms(1) show ?thesis by (simp add: commands_within_def)
qed

lemma same_files_chainX: "same_files X s t \<Longrightarrow> same_files X t u \<Longrightarrow> same_files X s u"
  using same_files_trans by fastforce

text \<open>One command of \<open>runCommands\<close>.\<close>

lemma run_commands_step:
  assumes "run_commands E (Some snaps) kind (c # cs) resp fs = (ok, resp', fs')" "commands_within E X"
  obtains (more) fs1 res where "same_files X fs fs1"
      "run_commands E (Some snaps) kind cs (resp\<lparr>rs_Steps := rs_Steps resp @ [step_of kind c res]\<rparr>) fs1
        = (ok, resp', fs')"
  | (restored) fs1 where "\<not> ok" "same_files X fs fs1" "tx_restore snaps fs1 = (Inr (), fs')"
      "rs_Status resp' = ''FAILED''"
  | (failed) "\<not> ok" "rollback_reported resp'" "rs_Status resp' = ''FAILED''"
proof -
  obtain r fs1 where r: "executor_run (re_run E) (re_stat E) (re_env E) (re_guard E) (spec_of c) fs = (r, fs1)"
    by fastforce
  note within = executor_within [OF assms(2) r]
  obtain q fs2 where q: "tx_restore snaps fs1 = (q, fs2)" by fastforce
  let ?res = "case r of Inl _ \<Rightarrow> zero_result | Inr x \<Rightarrow> x"
  show thesis
  proof (cases "(case r of Inl _ \<Rightarrow> True | Inr _ \<Rightarrow> False) \<or> xr_TimedOut ?res \<or> xr_ExitCode ?res \<noteq> 0")
    case True
    then show thesis
      using assms(1) r q within restored [of fs1] failed
      by (cases q) (auto simp: Let_def rollback_reported_def)
  next
    case False
    then show thesis using assms(1) r within more [of fs1 ?res] by (simp add: Let_def)
  qed
qed

lemma run_commands_outcome:
  assumes "run_commands E (Some snaps) kind cs resp fs = (ok, resp', fs')" "commands_within E X"
  shows "if ok then same_files X fs fs' \<and> rs_Status resp' = rs_Status resp
    else rs_Status resp' = ''FAILED'' \<and> (rollback_reported resp' \<or>
       (\<exists>u. same_files X fs u \<and> tx_restore snaps u = (Inr (), fs')))"
  using assms(1)
proof (induction cs arbitrary: resp fs)
  case (Cons c cs)
  from Cons.prems assms(2) show ?case
  proof (cases rule: run_commands_step)
    case (more fs1 res)
    from Cons.IH [OF more(2)] more(1) show ?thesis
      by (auto intro: same_files_chainX split: if_splits)
  qed auto
qed auto

lemma run_all_outcome:
  assumes "run_all E (Some snaps) plan resp fs = (resp', fs')" "commands_within E X"
    and "rs_Status resp = ''SUCCEEDED''"
  shows "rs_Status resp' = ''SUCCEEDED'' \<and> same_files X fs fs' \<or>
    rs_Status resp' = ''FAILED'' \<and> (rollback_reported resp' \<or>
       (\<exists>u. same_files X fs u \<and> tx_restore snaps u = (Inr (), fs')))"
proof -
  obtain ok resp1 fs1 where one: "run_commands E (Some snaps) ''command'' (elems (Commands plan)) resp fs
      = (ok, resp1, fs1)" by (metis prod.exhaust)
  obtain ok2 resp2 fs2 where two: "run_commands E (Some snaps) ''verification''
      (elems (VerificationCommands plan)) resp1 fs1 = (ok2, resp2, fs2)" by (metis prod.exhaust)
  note o1 = run_commands_outcome [OF one assms(2)] and o2 = run_commands_outcome [OF two assms(2)]
  show ?thesis
  proof (cases ok)
    case True
    then have "resp' = resp2" "fs' = fs2" using assms(1) one two by (simp_all add: run_all_def)
    with o1 o2 True assms(3) show ?thesis by (auto intro: same_files_chainX split: if_splits)
  next
    case False
    then have "resp' = resp1" "fs' = fs1" using assms(1) one by (simp_all add: run_all_def)
    with o1 False show ?thesis by auto
  qed
qed

text \<open>
  C6. A failed execution leaves the workspace as it found it. If the plan has patches, its
  commands touch no file but the patched ones, and the response says FAILED without
  reporting a failed rollback, then every file has the content it had before the request
  (temporary files left behind by a failed clean-up aside).
\<close>

theorem failed_execution_restores:
  assumes "perform_plan E req plan fs = (Inr resp, fs')"
    and "elems (Patches plan) \<noteq> []" "no_temp_targets (re_guard E) fs (elems (Patches plan))"
    and "\<And>snaps t. tx_apply (re_sha E) (re_guard E) (elems (Patches plan)) fs = (Inr snaps, t) \<Longrightarrow>
      commands_within E (sn_Path ` set snaps)"
    and "rs_Status resp = ''FAILED''" "\<not> rollback_reported resp" "\<not> is_temp q"
  shows "data_at fs' q = data_at fs q"
proof -
  obtain a t where a: "tx_apply (re_sha E) (re_guard E) (elems (Patches plan)) fs = (a, t)" by fastforce
  show ?thesis
  proof (cases a)
    case (Inl e)
    with a assms(1,2) have "fs' = t" "e \<noteq> Sent GoPanic"
      by (auto simp: perform_plan_def Let_def split: if_splits)
    moreover have "\<not> is_rollback_error e"
      using a Inl assms(1,2,6) calculation(2)
      by (auto simp: perform_plan_def Let_def is_rollback_error_def rollback_reported_def)
    ultimately show ?thesis
      using failed_apply_restores' [OF a [unfolded Inl] _ assms(3)] assms(7) by blast
  next
    case (Inr snaps)
    obtain r u where r: "run_all E (Some snaps) plan (new_response req) t = (r, u)" by fastforce
    with a Inr assms(1,2) have res: "resp = r" "fs' = u" by (simp_all add: perform_plan_def Let_def)
    have "rs_Status (new_response req) = ''SUCCEEDED''" by (simp add: new_response_def)
    from run_all_outcome [OF r assms(4) [OF a [unfolded Inr]] this] res assms(5,6)
    obtain v where "same_files (sn_Path ` set snaps) t v" "tx_restore snaps v = (Inr (), fs')" by auto
    with restore_undoes [OF a [unfolded Inr] assms(3)] assms(7) show ?thesis by blast
  qed
qed

lemma sample_within: "commands_within (sample_runner_env code) X"
  by (simp add: commands_within_def sample_runner_env_def sample_run_cmd_def)

theorem failed_execution_restores_witness:
  "\<exists>resp t. perform_plan (sample_runner_env 1) sample_exec_request sample_exec_plan (sample_fs (\<lambda>_. False))
      = (Inr resp, t) \<and> rs_Status resp = ''FAILED'' \<and>
    data_at t ''/w/a.txt'' = data_at (sample_fs (\<lambda>_. False)) ''/w/a.txt''"
proof (rule sample_perform_fail)
  fix resp t
  assume p: "perform_plan (sample_runner_env 1) sample_exec_request sample_exec_plan (sample_fs (\<lambda>_. False)) = (Inr resp, t)"
    and f: "rs_Status resp = ''FAILED''" and e: "rs_ErrorCode resp = ''command_failed:go''"
  have "elems (Patches sample_exec_plan) \<noteq> []" "\<not> rollback_reported resp" "\<not> is_temp ''/w/a.txt''"
    using e by (simp_all add: sample_exec_plan_def rollback_reported_def short_not_temp)
  moreover have "no_temp_targets (re_guard (sample_runner_env 1)) (sample_fs (\<lambda>_. False)) (elems (Patches sample_exec_plan))"
    using sample_targets by (simp add: sample_runner_env_def sample_exec_plan_def)
  ultimately have "data_at t ''/w/a.txt'' = data_at (sample_fs (\<lambda>_. False)) ''/w/a.txt''"
    using failed_execution_restores [OF p _ _ sample_within f] by blast
  with p f show ?thesis by blast
qed

text \<open>Every step of a successful response succeeded.\<close>

lemma run_commands_ok:
  assumes "run_commands E applied kind cs resp fs = (True, resp', fs')"
  shows "rs_Status resp' = rs_Status resp \<and>
    (\<exists>steps. rs_Steps resp' = rs_Steps resp @ steps \<and> map st_Name steps = map cmd_Executable cs \<and>
       (\<forall>st\<in>set steps. st_Kind st = kind \<and> st_Status st = ''SUCCEEDED'' \<and> st_ExitCode st = 0))"
  using assms
proof (induction cs arbitrary: resp fs)
  case (Cons c cs)
  obtain r fs1 where r: "executor_run (re_run E) (re_stat E) (re_env E) (re_guard E) (spec_of c) fs = (r, fs1)"
    by fastforce
  let ?res = "case r of Inl _ \<Rightarrow> zero_result | Inr x \<Rightarrow> x"
  from Cons.prems r have ok: "\<not> ((case r of Inl _ \<Rightarrow> True | Inr _ \<Rightarrow> False) \<or> xr_TimedOut ?res \<or> xr_ExitCode ?res \<noteq> 0)"
    by (auto simp: Let_def split: if_splits option.splits prod.splits sum.splits)
  with Cons.prems r have "run_commands E applied kind cs
      (resp\<lparr>rs_Steps := rs_Steps resp @ [step_of kind c ?res]\<rparr>) fs1 = (True, resp', fs')"
    by (simp add: Let_def)
  from Cons.IH [OF this] obtain steps where
    "rs_Steps resp' = (rs_Steps resp @ [step_of kind c ?res]) @ steps" "map st_Name steps = map cmd_Executable cs"
    "\<forall>st\<in>set steps. st_Kind st = kind \<and> st_Status st = ''SUCCEEDED'' \<and> st_ExitCode st = 0"
    "rs_Status resp' = rs_Status resp" by auto
  moreover have "st_ExitCode (step_of kind c ?res) = 0" using ok by (simp add: step_of_def to_int32_def)
  ultimately show ?case
    by (intro conjI exI [of _ "step_of kind c ?res # steps"]) (simp_all add: step_of_def)
qed simp

lemma run_commands_failed:
  "run_commands E applied kind cs resp fs = (False, resp', fs') \<Longrightarrow> rs_Status resp' = ''FAILED''"
proof (induction cs arbitrary: resp fs)
  case (Cons c cs)
  obtain r fs1 where r: "executor_run (re_run E) (re_stat E) (re_env E) (re_guard E) (spec_of c) fs = (r, fs1)"
    by fastforce
  with Cons show ?case by (auto simp: Let_def split: if_splits option.splits prod.splits sum.splits)
qed simp

text \<open>
  A response SUCCEEDED means what it says: its steps are exactly the plan's commands in
  order, then its verification commands in order, each of which ran and exited with 0.
\<close>

theorem success_means_all_ran:
  assumes "perform_plan E req plan fs = (Inr resp, fs')" "rs_Status resp = ''SUCCEEDED''"
  shows "map (\<lambda>st. (st_Kind st, st_Name st)) (rs_Steps resp) =
      map (\<lambda>c. (''command'', cmd_Executable c)) (elems (Commands plan)) @
      map (\<lambda>c. (''verification'', cmd_Executable c)) (elems (VerificationCommands plan)) \<and>
    (\<forall>st\<in>set (rs_Steps resp). st_Status st = ''SUCCEEDED'' \<and> st_ExitCode st = 0)"
proof -
  from assms obtain applied t where all: "run_all E applied plan (new_response req) t = (resp, fs')"
    by (auto simp: perform_plan_def Let_def split: if_splits prod.splits sum.splits)
  obtain ok resp1 fs1 where one: "run_commands E applied ''command'' (elems (Commands plan)) (new_response req) t
      = (ok, resp1, fs1)" by (metis prod.exhaust)
  obtain ok2 resp2 fs2 where two: "run_commands E applied ''verification''
      (elems (VerificationCommands plan)) resp1 fs1 = (ok2, resp2, fs2)" by (metis prod.exhaust)
  have ok: "ok" using all one run_commands_failed [of E applied "''command''"] assms(2)
    by (cases ok) (auto simp: run_all_def)
  with all one two have r: "resp = resp2" by (simp add: run_all_def)
  have ok2: "ok2" using two run_commands_failed [of E applied "''verification''"] assms(2) r
    by (cases ok2) auto
  from run_commands_ok one ok obtain xs where
    xs: "rs_Steps resp1 = xs" "map st_Name xs = map cmd_Executable (elems (Commands plan))"
      "\<forall>st\<in>set xs. st_Kind st = ''command'' \<and> st_Status st = ''SUCCEEDED'' \<and> st_ExitCode st = 0"
    by (force simp: new_response_def)
  from run_commands_ok two ok2 obtain ys where
    ys: "rs_Steps resp2 = xs @ ys" "map st_Name ys = map cmd_Executable (elems (VerificationCommands plan))"
      "\<forall>st\<in>set ys. st_Kind st = ''verification'' \<and> st_Status st = ''SUCCEEDED'' \<and> st_ExitCode st = 0"
    using xs(1) by force
  have pairs: "map (\<lambda>st. (st_Kind st, st_Name st)) zs = map (\<lambda>c. (k, cmd_Executable c)) cs"
    if "map st_Name zs = map cmd_Executable cs" "\<forall>st\<in>set zs. st_Kind st = k" for zs k and cs :: "plan_command list"
    using that by (induction zs cs rule: list_induct2') auto
  have "map (\<lambda>st. (st_Kind st, st_Name st)) xs = map (\<lambda>c. (''command'', cmd_Executable c)) (elems (Commands plan))"
    "map (\<lambda>st. (st_Kind st, st_Name st)) ys
       = map (\<lambda>c. (''verification'', cmd_Executable c)) (elems (VerificationCommands plan))"
    by (rule pairs; use xs ys in simp)+
  with xs ys r show ?thesis by auto
qed

theorem success_means_all_ran_witness:
  "\<exists>resp t. perform_plan (sample_runner_env 0) sample_exec_request sample_exec_plan (sample_fs (\<lambda>_. False))
      = (Inr resp, t) \<and> map st_Name (rs_Steps resp) = [''go'']"
proof (rule sample_perform_ok)
  fix resp t
  assume p: "perform_plan (sample_runner_env 0) sample_exec_request sample_exec_plan (sample_fs (\<lambda>_. False)) = (Inr resp, t)"
    and ok: "rs_Status resp = ''SUCCEEDED''"
  from success_means_all_ran [OF p ok]
  have "map (\<lambda>st. (st_Kind st, st_Name st)) (rs_Steps resp) = [(''command'', ''go'')]"
    by (simp add: sample_exec_plan_def)
  then have "map st_Name (rs_Steps resp) = [''go'']" by auto
  with p show ?thesis by (intro exI conjI)
qed

end
