(* ===== verification/Provider.thy ===== *)
theory Provider
  imports Json_Encode
begin

text \<open>
  \<open>internal/provider\<close>: the vocabulary of model requests, the registry, the price table, the
  cost meter, the retrying JSON client of \<open>httputil\<close> and the three vendor adapters. The
  HTTP transport, the vendors' answers, the decoder of their JSON and the Unicode case
  table behind \<open>strings.ToLower\<close> are parameters. A \<open>float64\<close> temperature is kept as the
  text \<open>encoding/json\<close> writes for it.
\<close>

section \<open>Requests and responses (provider.go)\<close>

record message =
  ms_Role :: string
  ms_Content :: string

record usage =
  us_InputTokens :: int
  us_OutputTokens :: int
  us_EstimatedCostMicros :: int

record gen_request =
  gq_Model :: string
  gq_Messages :: "message slice"
  gq_JSONSchema :: string
  gq_Temperature :: string

record gen_response =
  gr_Content :: string
  gr_Usage :: usage
  gr_ProviderRequestID :: string

definition zero_usage :: usage where
  "zero_usage = \<lparr>us_InputTokens = 0, us_OutputTokens = 0, us_EstimatedCostMicros = 0\<rparr>"

text \<open>\<open>ModelProvider\<close>: the world \<open>'w\<close> is whatever the vendor's answers depend on.\<close>

record 'w model_provider =
  mp_Name :: string
  mp_Generate :: "gen_request \<Rightarrow> 'w \<Rightarrow> gen_response result \<times> 'w"

text \<open>\<open>APIError\<close>: \<open>Unwrap\<close> gives its kind, which may be \<open>nil\<close>.\<close>

definition api_error :: "string \<Rightarrow> int \<Rightarrow> sentinel option \<Rightarrow> string \<Rightarrow> go_error" where
  "api_error provider status kind msg =
     (let text = provider @ '': status '' @ itoa status @ '': '' @ msg in
      case kind of None \<Rightarrow> Err text | Some k \<Rightarrow> Wrap text (Sent k))"

section \<open>The registry (registry.go)\<close>

type_synonym 'w registry = "string \<rightharpoonup> 'w model_provider"

definition new_registry :: "'w model_provider list \<Rightarrow> 'w registry" where
  "new_registry items = foldl (\<lambda>m p. m(mp_Name p \<mapsto> p)) Map.empty items"

definition registry_get :: "'w registry \<Rightarrow> string \<Rightarrow> 'w model_provider option" where
  "registry_get r name = r name"

section \<open>Prices (cost.go, metered.go)\<close>

record price =
  pc_InputPerMillionMicros :: int
  pc_OutputPerMillionMicros :: int

definition price_table :: "string \<Rightarrow> price option" where
  "price_table = map_of
     [(''gpt-4o'', \<lparr>pc_InputPerMillionMicros = 5000000, pc_OutputPerMillionMicros = 15000000\<rparr>),
      (''claude-3-5-sonnet'', \<lparr>pc_InputPerMillionMicros = 3000000, pc_OutputPerMillionMicros = 15000000\<rparr>),
      (''deepseek-chat'', \<lparr>pc_InputPerMillionMicros = 140000, pc_OutputPerMillionMicros = 280000\<rparr>)]"

text \<open>Go's \<open>/\<close> truncates towards zero; products and sums wrap.\<close>

definition go_div :: "int \<Rightarrow> int \<Rightarrow> int" where
  "go_div a b = sgn a * sgn b * (\<bar>a\<bar> div \<bar>b\<bar>)"

definition estimate_cost :: "string \<Rightarrow> usage \<Rightarrow> int" where
  "estimate_cost model u =
     (case price_table model of None \<Rightarrow> 0
      | Some p \<Rightarrow> int64 (go_div (int64 (us_InputTokens u * pc_InputPerMillionMicros p)) 1000000 +
                        go_div (int64 (us_OutputTokens u * pc_OutputPerMillionMicros p)) 1000000))"

definition metered_generate ::
  "'w model_provider \<Rightarrow> gen_request \<Rightarrow> 'w \<Rightarrow> gen_response result \<times> 'w" where
  "metered_generate inner req w =
     (case mp_Generate inner req w of
        (Inl e, w1) \<Rightarrow> (Inl e, w1)
      | (Inr r, w1) \<Rightarrow>
          (Inr (r\<lparr>gr_Usage := (gr_Usage r)\<lparr>us_EstimatedCostMicros := estimate_cost (gq_Model req) (gr_Usage r)\<rparr>\<rparr>), w1))"

definition with_cost_meter :: "'w model_provider \<Rightarrow> 'w model_provider" where
  "with_cost_meter p = \<lparr>mp_Name = mp_Name p, mp_Generate = metered_generate p\<rparr>"

section \<open>The JSON client (httputil.go)\<close>

record http_request =
  hq_Method :: string
  hq_URL :: string
  hq_Headers :: "(string \<times> string) list"
  hq_Body :: string

text \<open>\<open>hr_ReadErr\<close> is the error met when the body is read past \<open>hr_Body\<close>, if any.\<close>

record http_response =
  hr_Status :: int
  hr_Body :: string
  hr_ReadErr :: "go_error option"

text \<open>\<open>he_Wait d\<close> is the \<open>select\<close> between the context and a timer of \<open>d\<close> nanoseconds.\<close>

record 'w http_env =
  he_Do :: "http_request \<Rightarrow> 'w \<Rightarrow> http_response result \<times> 'w"
  he_Wait :: "int \<Rightarrow> 'w \<Rightarrow> go_error option \<times> 'w"
  he_StatusText :: "int \<Rightarrow> string"
  he_Lower :: "string \<Rightarrow> string"

definition max_error_body :: nat where
  "max_error_body = 2048"

definition endpoint :: "string \<Rightarrow> string \<Rightarrow> string" where
  "endpoint base path = rev (dropWhile (\<lambda>c. c = CHR ''/'') (rev base)) @ ''/'' @
     dropWhile (\<lambda>c. c = CHR ''/'') path"

text \<open>\<open>strings.Index\<close> and \<open>strings.IndexAny\<close>.\<close>

fun index_of :: "string \<Rightarrow> string \<Rightarrow> nat option" where
  "index_of pat [] = (if pat = [] then Some 0 else None)"
| "index_of pat (c # s) =
     (if prefix pat (c # s) then Some 0 else map_option Suc (index_of pat s))"

fun index_any :: "string \<Rightarrow> string \<Rightarrow> nat option" where
  "index_any cs [] = None"
| "index_any cs (c # s) = (if c \<in> set cs then Some 0 else map_option Suc (index_any cs s))"

text \<open>One round of the redaction loop. Slicing past the end of the text panics.\<close>

definition redact_key :: "(string \<Rightarrow> string) \<Rightarrow> string \<Rightarrow> string \<Rightarrow> string result" where
  "redact_key lower key s =
     (case index_of (lower key) (lower s) of
        None \<Rightarrow> Inr s
      | Some i \<Rightarrow>
          if i > length s then Inl (Sent GoPanic)
          else let stop = (case index_any [CHR '','', CHR ''}'', CHR 0x0A] (drop i s) of
                             None \<Rightarrow> length s - i | Some k \<Rightarrow> k) in
            Inr (take i s @ key @ '': [REDACTED]'' @ drop (i + stop) s))"

fun redact_keys :: "(string \<Rightarrow> string) \<Rightarrow> string list \<Rightarrow> string \<Rightarrow> string result" where
  "redact_keys lower [] s = Inr s"
| "redact_keys lower (k # ks) s =
     (case redact_key lower k s of Inl e \<Rightarrow> Inl e | Inr s1 \<Rightarrow> redact_keys lower ks s1)"

definition sanitize_body :: "(string \<Rightarrow> string) \<Rightarrow> string \<Rightarrow> string result" where
  "sanitize_body lower data =
     redact_keys lower [''Authorization'', ''authorization'', ''api_key'', ''apiKey'']
       (if length data > max_error_body
        then take max_error_body data @ [byte 0xE2, byte 0x80, byte 0xA6] else data)"

text \<open>The loop over the attempts: a transport error ends it, 429 and 5xx are tried again after
  100 ms and 200 ms. A loop that ran no attempt would dereference a nil response.\<close>

fun do_attempts ::
  "'w http_env \<Rightarrow> string \<Rightarrow> http_request \<Rightarrow> nat list \<Rightarrow> (int \<times> string) option \<Rightarrow> 'w \<Rightarrow>
   (int \<times> string) result \<times> 'w" where
  "do_attempts E name req [] last_resp w =
     (case last_resp of None \<Rightarrow> (Inl (Sent GoPanic), w) | Some r \<Rightarrow> (Inr r, w))"
| "do_attempts E name req (attempt # rest) last_resp w =
     (case he_Do E req w of
        (Inl e, w1) \<Rightarrow> (Inl (Wrap (name @ '': request failed: '') e), w1)
      | (Inr resp, w1) \<Rightarrow>
          let data = take (max_error_body + 1) (hr_Body resp);
              read_err = (if length (hr_Body resp) > max_error_body then None else hr_ReadErr resp) in
          case read_err of
            Some e \<Rightarrow> (Inl (Wrap (name @ '': read response: '') e), w1)
          | None \<Rightarrow>
              if hr_Status resp \<noteq> 429 \<and> hr_Status resp < 500 then (Inr (hr_Status resp, data), w1)
              else if attempt < 2 then
                (case he_Wait E (2 ^ attempt * 100000000) w1 of
                   (Some e, w2) \<Rightarrow> (Inl e, w2)
                 | (None, w2) \<Rightarrow> do_attempts E name req rest (Some (hr_Status resp, data)) w2)
              else do_attempts E name req rest (Some (hr_Status resp, data)) w1)"

declare do_attempts.simps(2) [simp del]

definition status_kind :: "int \<Rightarrow> sentinel option" where
  "status_kind status =
     (if status = 401 \<or> status = 403 then Some ProviderUnauthorized
      else if status = 429 then Some ProviderRateLimited else None)"

text \<open>What is made of the last response. \<open>dec\<close> is \<open>json.Unmarshal\<close> into the vendor's struct.\<close>

definition finish_response ::
  "'w http_env \<Rightarrow> (string \<Rightarrow> 'r result) \<Rightarrow> string \<Rightarrow> int \<Rightarrow> string \<Rightarrow> 'r result" where
  "finish_response E dec name status data =
     (if status < 200 \<or> status \<ge> 300 then
        (case sanitize_body (he_Lower E) data of
           Inl e \<Rightarrow> Inl e
         | Inr msg \<Rightarrow> Inl (api_error name status (status_kind status)
             (if msg = [] then he_StatusText E status else msg)))
      else case dec data of Inl e \<Rightarrow> Inl (Wrap (name @ '': decode response: '') e) | Inr v \<Rightarrow> Inr v)"

definition do_json_headers ::
  "'w http_env \<Rightarrow> (string \<Rightarrow> 'r result) \<Rightarrow> string \<Rightarrow> string \<Rightarrow> (string \<times> string) list \<Rightarrow> string \<Rightarrow>
   string \<Rightarrow> 'w \<Rightarrow> 'r result \<times> 'w" where
  "do_json_headers E dec meth url headers payload name w =
     (let req = \<lparr>hq_Method = meth, hq_URL = url,
         hq_Headers = (''Content-Type'', ''application/json'') # filter (\<lambda>(k, v). v \<noteq> []) headers,
         hq_Body = payload\<rparr> in
      case do_attempts E name req [0, 1, 2] None w of
        (Inl e, w1) \<Rightarrow> (Inl e, w1)
      | (Inr (status, data), w1) \<Rightarrow> (finish_response E dec name status data, w1))"

definition do_json ::
  "'w http_env \<Rightarrow> (string \<Rightarrow> 'r result) \<Rightarrow> string \<Rightarrow> string \<Rightarrow> string \<Rightarrow> string \<Rightarrow> string \<Rightarrow> 'w \<Rightarrow>
   'r result \<times> 'w" where
  "do_json E dec meth url token payload name w =
     do_json_headers E dec meth url [(''Authorization'', ''Bearer '' @ token)] payload name w"

section \<open>The vendor adapters\<close>

record provider_config =
  vc_APIKey :: string
  vc_BaseURL :: string
  vc_Model :: string

definition new_config :: "string \<Rightarrow> provider_config \<Rightarrow> provider_config" where
  "new_config default_url cfg = (if vc_BaseURL cfg = [] then cfg\<lparr>vc_BaseURL := default_url\<rparr> else cfg)"

definition anthropic_new :: "provider_config \<Rightarrow> provider_config" where
  "anthropic_new = new_config ''https://api.anthropic.com/v1''"

definition openai_new :: "provider_config \<Rightarrow> provider_config" where
  "openai_new = new_config ''https://api.openai.com/v1''"

definition deepseek_new :: "provider_config \<Rightarrow> provider_config" where
  "deepseek_new = new_config ''https://api.deepseek.com/v1''"

definition model_for :: "provider_config \<Rightarrow> gen_request \<Rightarrow> string" where
  "model_for p req = (if gq_Model req = [] then vc_Model p else gq_Model req)"

text \<open>\<open>provider.Message\<close> has no JSON tags, so its keys are the field names.\<close>

definition json_message :: "message \<Rightarrow> string" where
  "json_message m = ''{'' @ json_key ''Role'' @ json_string (ms_Role m) @ '','' @
     json_key ''Content'' @ json_string (ms_Content m) @ ''}''"

text \<open>The map the OpenAI adapter builds instead; map keys are written in order.\<close>

definition json_input :: "message \<Rightarrow> string" where
  "json_input m = ''{'' @ json_key ''content'' @ json_string (ms_Content m) @ '','' @
     json_key ''role'' @ json_string (ms_Role m) @ ''}''"

text \<open>The last key of the payload maps is \<open>temperature\<close>, present when it is not 0.\<close>

definition json_temperature :: "gen_request \<Rightarrow> string" where
  "json_temperature req =
     (if gq_Temperature req = ''0'' \<or> gq_Temperature req = ''-0'' then []
      else '','' @ json_key ''temperature'' @ gq_Temperature req)"

definition anthropic_payload :: "string \<Rightarrow> gen_request \<Rightarrow> string" where
  "anthropic_payload model req =
     ''{'' @ json_key ''max_tokens'' @ ''4096,'' @
     json_key ''messages'' @ json_slice json_message (gq_Messages req) @ '','' @
     json_key ''model'' @ json_string model @ json_temperature req @ ''}''"

definition openai_payload :: "string \<Rightarrow> gen_request \<Rightarrow> string" where
  "openai_payload model req =
     ''{'' @ json_key ''input'' @ json_slice json_input (non_nil (gq_Messages req)) @ '','' @
     json_key ''model'' @ json_string model @ json_temperature req @ ''}''"

definition deepseek_payload :: "string \<Rightarrow> gen_request \<Rightarrow> string" where
  "deepseek_payload model req =
     ''{'' @ json_key ''messages'' @ json_slice json_message (gq_Messages req) @ '','' @
     json_key ''model'' @ json_string model @ '','' @
     json_key ''response_format'' @ ''{'' @ json_key ''type'' @ json_string ''json_object'' @ ''}'' @
     json_temperature req @ ''}''"

record anthropic_response =
  an_ID :: string
  an_Content :: "string list"
  an_InputTokens :: int
  an_OutputTokens :: int

record openai_response =
  oa_ID :: string
  oa_Output :: "string list list"
  oa_InputTokens :: int
  oa_OutputTokens :: int

record deepseek_response =
  ds_ID :: string
  ds_Choices :: "string list"
  ds_PromptTokens :: int
  ds_CompletionTokens :: int

definition invalid_output :: "string \<Rightarrow> string \<Rightarrow> go_error" where
  "invalid_output name msg = api_error name 0 (Some ProviderInvalidOutput) msg"

definition answer :: "string \<Rightarrow> string \<Rightarrow> int \<Rightarrow> int \<Rightarrow> gen_response" where
  "answer content rid i out = \<lparr>gr_Content = content,
     gr_Usage = \<lparr>us_InputTokens = i, us_OutputTokens = out, us_EstimatedCostMicros = 0\<rparr>,
     gr_ProviderRequestID = rid\<rparr>"

definition anthropic_generate ::
  "'w http_env \<Rightarrow> (string \<Rightarrow> anthropic_response result) \<Rightarrow> provider_config \<Rightarrow> gen_request \<Rightarrow> 'w \<Rightarrow>
   gen_response result \<times> 'w" where
  "anthropic_generate E dec p req w =
     (case do_json_headers E dec ''POST'' (endpoint (vc_BaseURL p) ''messages'')
          [(''Authorization'', ''Bearer '' @ vc_APIKey p), (''x-api-key'', vc_APIKey p),
           (''anthropic-version'', ''2023-06-01'')]
          (anthropic_payload (model_for p req) req) ''anthropic'' w of
        (Inl e, w1) \<Rightarrow> (Inl e, w1)
      | (Inr out, w1) \<Rightarrow>
          (let content = concat (an_Content out) in
           if content = [] then (Inl (invalid_output ''anthropic'' ''response contained no text''), w1)
           else (Inr (answer content (an_ID out) (an_InputTokens out) (an_OutputTokens out)), w1)))"

definition openai_generate ::
  "'w http_env \<Rightarrow> (string \<Rightarrow> openai_response result) \<Rightarrow> provider_config \<Rightarrow> gen_request \<Rightarrow> 'w \<Rightarrow>
   gen_response result \<times> 'w" where
  "openai_generate E dec p req w =
     (case do_json E dec ''POST'' (endpoint (vc_BaseURL p) ''responses'') (vc_APIKey p)
          (openai_payload (model_for p req) req) ''openai'' w of
        (Inl e, w1) \<Rightarrow> (Inl e, w1)
      | (Inr out, w1) \<Rightarrow>
          (let text = concat (filter (\<lambda>t. t \<noteq> []) (concat (oa_Output out))) in
           if text = [] then (Inl (invalid_output ''openai'' ''response contained no text''), w1)
           else (Inr (answer text (oa_ID out) (oa_InputTokens out) (oa_OutputTokens out)), w1)))"

definition deepseek_generate ::
  "'w http_env \<Rightarrow> (string \<Rightarrow> deepseek_response result) \<Rightarrow> provider_config \<Rightarrow> gen_request \<Rightarrow> 'w \<Rightarrow>
   gen_response result \<times> 'w" where
  "deepseek_generate E dec p req w =
     (case do_json E dec ''POST'' (endpoint (vc_BaseURL p) ''chat/completions'') (vc_APIKey p)
          (deepseek_payload (model_for p req) req) ''deepseek'' w of
        (Inl e, w1) \<Rightarrow> (Inl e, w1)
      | (Inr out, w1) \<Rightarrow>
          (case ds_Choices out of
             [] \<Rightarrow> (Inl (invalid_output ''deepseek'' ''response contained no choices''), w1)
           | c # _ \<Rightarrow>
             if c = [] then (Inl (invalid_output ''deepseek'' ''response contained no choices''), w1)
             else (Inr (answer c (ds_ID out) (ds_PromptTokens out) (ds_CompletionTokens out)), w1)))"

section \<open>Retries\<close>

definition retryable :: "http_response \<Rightarrow> bool" where
  "retryable r \<longleftrightarrow> hr_Status r = 429 \<or> hr_Status r \<ge> 500"

text \<open>The number of requests made to a server that would answer \<open>rs\<close> in turn.\<close>

definition tries :: "http_response list \<Rightarrow> nat" where
  "tries rs = Suc (length (takeWhile retryable (take 2 rs)))"

text \<open>A server that answers the listed responses, over a connection that does not break.\<close>

definition scripted :: "http_response list http_env \<Rightarrow> bool" where
  "scripted E \<longleftrightarrow> (\<forall>q r rs. he_Do E q (r # rs) = (Inr r, rs)) \<and> (\<forall>d rs. he_Wait E d rs = (None, rs))"

lemma scriptedD:
  assumes "scripted E"
  shows "he_Do E q (r # rs) = (Inr r, rs)" "he_Wait E d rs = (None, rs)"
  using assms by (simp_all add: scripted_def)

lemma do_attempts_scripted:
  assumes "scripted E" "hr_ReadErr r = None"
  shows "do_attempts E name req (a # as) l (r # rs) =
    (let data = take (max_error_body + 1) (hr_Body r) in
     if retryable r then do_attempts E name req as (Some (hr_Status r, data)) rs
     else (Inr (hr_Status r, data), rs))"
  using assms by (auto simp: do_attempts.simps(2) scriptedD retryable_def Let_def)

lemma do_attempts_answer:
  assumes "scripted E" "3 \<le> length rs" "\<forall>r\<in>set rs. hr_ReadErr r = None"
  shows "do_attempts E name req [0, 1, 2] None rs =
    (let r = rs ! (tries rs - 1) in
     (Inr (hr_Status r, take (max_error_body + 1) (hr_Body r)), drop (tries rs) rs))"
proof -
  obtain r1 r2 r3 rest where rs: "rs = r1 # r2 # r3 # rest"
    using assms(2) by (auto simp: numeral_eq_Suc Suc_le_length_iff)
  have "hr_ReadErr r1 = None" "hr_ReadErr r2 = None" "hr_ReadErr r3 = None"
    using assms(3) rs by auto
  then show ?thesis
    by (simp add: rs do_attempts_scripted [OF assms(1)] tries_def Let_def numeral_eq_Suc)
qed

text \<open>
  The JSON client asks at most three times: it stops at the first answer that is neither
  429 nor 5xx, and takes the third answer whatever it is. The answer it stops at, cut to 2049
  bytes, decides the result, and no request is made after it.
\<close>

theorem client_retries:
  assumes "scripted E" "3 \<le> length rs" "\<forall>r\<in>set rs. hr_ReadErr r = None"
  shows "tries rs \<le> 3 \<and>
    do_json_headers E dec meth url headers payload name rs =
      (let r = rs ! (tries rs - 1) in
       (finish_response E dec name (hr_Status r) (take 2049 (hr_Body r)), drop (tries rs) rs)) \<and>
    (\<forall>k < tries rs - 1. retryable (rs ! k)) \<and>
    (tries rs < 3 \<longrightarrow> \<not> retryable (rs ! (tries rs - 1)))"
proof -
  let ?n = "length (takeWhile retryable (take 2 rs))"
  have len: "length (take 2 rs) = 2" using assms(2) by simp
  have le: "?n \<le> 2" using length_takeWhile_le [of retryable "take 2 rs"] len by simp
  have pre: "retryable (rs ! k)" if "k < ?n" for k
    using nth_mem [OF that] set_takeWhileD [of "takeWhile retryable (take 2 rs) ! k" retryable "take 2 rs"]
      takeWhile_nth [OF that] that le by simp
  have stop: "\<not> retryable (rs ! ?n)" if "?n < 2"
    using nth_length_takeWhile [of retryable "take 2 rs"] that len by simp
  have run: "do_json_headers E dec meth url headers payload name rs =
      (let r = rs ! (tries rs - 1) in
       (finish_response E dec name (hr_Status r) (take 2049 (hr_Body r)), drop (tries rs) rs))"
    unfolding do_json_headers_def Let_def do_attempts_answer [OF assms, unfolded Let_def]
    by (simp add: max_error_body_def)
  show ?thesis using le pre stop run by (auto simp: tries_def)
qed

definition sample_server :: "http_response list http_env" where
  "sample_server = \<lparr>he_Do = (\<lambda>q rs. case rs of [] \<Rightarrow> (Inl (Sent OsFailure), []) | r # t \<Rightarrow> (Inr r, t)),
     he_Wait = (\<lambda>d rs. (None, rs)), he_StatusText = (\<lambda>_. ''status''), he_Lower = to_lower\<rparr>"

definition sample_answers :: "http_response list" where
  "sample_answers = map (\<lambda>s. \<lparr>hr_Status = s, hr_Body = ''{}'', hr_ReadErr = None\<rparr>) [503, 200, 429]"

theorem client_retries_witness:
  "fst (do_json_headers sample_server Inr ''POST'' ''u'' [] ''{}'' ''openai'' sample_answers) = Inr ''{}'' \<and>
   length (snd (do_json_headers sample_server Inr ''POST'' ''u'' [] ''{}'' ''openai'' sample_answers)) = 1"
proof -
  have s: "scripted sample_server" by (simp add: scripted_def sample_server_def)
  have t: "tries sample_answers = 2" by (simp add: tries_def sample_answers_def retryable_def)
  have h: "3 \<le> length sample_answers" "\<forall>r\<in>set sample_answers. hr_ReadErr r = None"
    by (simp_all add: sample_answers_def)
  have "do_json_headers sample_server Inr ''POST'' ''u'' [] ''{}'' ''openai'' sample_answers =
      (finish_response sample_server Inr ''openai'' (hr_Status (sample_answers ! 1))
         (take 2049 (hr_Body (sample_answers ! 1))), drop 2 sample_answers)"
    using client_retries [OF s h, of "Inr" "''POST''" "''u''" "[]" "''{}''" "''openai''"]
    by (simp add: t Let_def)
  then show ?thesis by (simp add: sample_answers_def finish_response_def)
qed

section \<open>Errors by status\<close>

lemma redact_keys_error: "redact_keys lower ks s = Inl e \<Longrightarrow> e = Sent GoPanic"
  by (induction ks arbitrary: s)
    (auto simp: redact_key_def Let_def split: option.splits if_splits sum.splits)



section \<open>Cost estimates\<close>

lemma int64_range: "- (2 ^ 63) \<le> x \<Longrightarrow> x < 2 ^ 63 \<Longrightarrow> int64 x = x"
  by (simp add: int64_def)

lemma go_div_nonneg: "0 \<le> a \<Longrightarrow> 0 < b \<Longrightarrow> go_div a b = a div b"
  by (cases "a = 0") (simp_all add: go_div_def)

lemma price_range:
  "price_table m = Some p \<Longrightarrow> 0 < pc_InputPerMillionMicros p \<and> pc_InputPerMillionMicros p \<le> 5000000 \<and>
     0 < pc_OutputPerMillionMicros p \<and> pc_OutputPerMillionMicros p \<le> 15000000"
  by (auto simp: price_table_def split: if_splits)

lemma priced_tokens:
  assumes "0 \<le> t" "t \<le> 600000000000" "0 < (p :: int)" "p \<le> 15000000"
  shows "go_div (int64 (t * p)) 1000000 = t * p div 1000000 \<and> 0 \<le> t * p \<and> t * p div 1000000 \<le> 9 * 10 ^ 12"
proof -
  have "t * p \<le> 600000000000 * 15000000" using assms by (intro mult_mono) auto
  then have b: "0 \<le> t * p" "t * p \<le> 9 * 10 ^ 18" using assms by auto
  have "t * p div 1000000 \<le> 9 * 10 ^ 18 div 1000000" using b(2) by (rule zdiv_mono1) simp
  with b show ?thesis by (simp add: int64_range go_div_nonneg)
qed

text \<open>
  Up to 600 billion tokens a call, cost estimates are exact: no product or sum of the
  64-bit arithmetic wraps, the estimate is the sum of the two prices rounded down to
  micro-units, it is never negative, and it grows with the token counts.
\<close>

theorem estimate_cost_exact:
  assumes "price_table model = Some p"
    and "0 \<le> us_InputTokens u" "us_InputTokens u \<le> us_InputTokens v" "us_InputTokens v \<le> 600000000000"
    and "0 \<le> us_OutputTokens u" "us_OutputTokens u \<le> us_OutputTokens v" "us_OutputTokens v \<le> 600000000000"
  shows "estimate_cost model u = us_InputTokens u * pc_InputPerMillionMicros p div 1000000 +
           us_OutputTokens u * pc_OutputPerMillionMicros p div 1000000 \<and>
         0 \<le> estimate_cost model u \<and> estimate_cost model u \<le> estimate_cost model v"
proof -
  let ?i = "pc_InputPerMillionMicros p" and ?o = "pc_OutputPerMillionMicros p"
  have p: "0 < ?i" "?i \<le> 15000000" "0 < ?o" "?o \<le> 15000000"
    using price_range [OF assms(1)] by auto
  have exact: "estimate_cost model w = us_InputTokens w * ?i div 1000000 + us_OutputTokens w * ?o div 1000000 \<and>
      0 \<le> estimate_cost model w"
    if "0 \<le> us_InputTokens w" "us_InputTokens w \<le> 600000000000"
      "0 \<le> us_OutputTokens w" "us_OutputTokens w \<le> 600000000000" for w
    using priced_tokens [OF that(1,2) p(1,2)] priced_tokens [OF that(3,4) p(3,4)] assms(1)
    by (simp add: estimate_cost_def int64_range pos_imp_zdiv_nonneg_iff)
  have "us_InputTokens u * ?i div 1000000 \<le> us_InputTokens v * ?i div 1000000"
    "us_OutputTokens u * ?o div 1000000 \<le> us_OutputTokens v * ?o div 1000000"
    using assms p by (intro zdiv_mono1 mult_right_mono; simp)+
  then show ?thesis using exact [of u] exact [of v] assms by simp
qed

theorem estimate_cost_exact_witness:
  "estimate_cost ''gpt-4o'' \<lparr>us_InputTokens = 1000, us_OutputTokens = 333, us_EstimatedCostMicros = 0\<rparr> = 9995 \<and>
   estimate_cost ''gpt-4o'' \<lparr>us_InputTokens = 1000, us_OutputTokens = 333, us_EstimatedCostMicros = 0\<rparr>
     \<le> estimate_cost ''gpt-4o'' \<lparr>us_InputTokens = 1001, us_OutputTokens = 333, us_EstimatedCostMicros = 0\<rparr>"
  using estimate_cost_exact [of "''gpt-4o''"
      "\<lparr>pc_InputPerMillionMicros = 5000000, pc_OutputPerMillionMicros = 15000000\<rparr>"
      "\<lparr>us_InputTokens = 1000, us_OutputTokens = 333, us_EstimatedCostMicros = 0\<rparr>"
      "\<lparr>us_InputTokens = 1001, us_OutputTokens = 333, us_EstimatedCostMicros = 0\<rparr>"]
  by (simp add: price_table_def)

text \<open>Beyond that range the estimate wraps and can turn negative.\<close>

lemma estimate_cost_wraps:
  "estimate_cost ''gpt-4o'' \<lparr>us_InputTokens = 2 * 10 ^ 12, us_OutputTokens = 0, us_EstimatedCostMicros = 0\<rparr> < 0"
  by (simp add: estimate_cost_def price_table_def int64_def go_div_def)

section \<open>What the adapters send and read\<close>

text \<open>The Anthropic and DeepSeek adapters send \<open>Role\<close> and \<open>Content\<close>, the OpenAI one lower case.\<close>

lemma anthropic_message_keys:
  "json_message \<lparr>ms_Role = [], ms_Content = []\<rparr> =
     ''{'' @ [quote] @ ''Role'' @ [quote] @ '':'' @ [quote, quote] @ '','' @
     [quote] @ ''Content'' @ [quote] @ '':'' @ [quote, quote] @ ''}''"
  by (simp add: json_message_def json_key_def json_string_def json_body.simps)

text \<open>A long successful answer is decoded from its first 2049 bytes only.\<close>

lemma long_answer_cut:
  assumes "scripted E" "hr_ReadErr r = None" "hr_Status r = 200" "length (hr_Body r) > 2049"
  shows "fst (do_json_headers E dec meth url headers payload name (r # rs)) =
    (case dec (take 2049 (hr_Body r)) of Inl e \<Rightarrow> Inl (Wrap (name @ '': decode response: '') e) | Inr v \<Rightarrow> Inr v)"
  using assms
  by (simp add: do_json_headers_def do_attempts_scripted retryable_def finish_response_def Let_def
      max_error_body_def)

text \<open>Redaction slices the text at an index of its lower-case copy, which may be longer.\<close>

lemma redaction_may_panic:
  "index_of (lower key) (lower s) = Some i \<Longrightarrow> length s < i \<Longrightarrow> redact_key lower key s = Inl (Sent GoPanic)"
  by (simp add: redact_key_def)

end
