(* ===== verification/Council_Engine.thy ===== *)
theory Council_Engine
  imports Provider Approval_Snapshot Go_Path "HOL-Library.Multiset"
begin

text \<open>
  \<open>internal/council\<close>: \<open>anonymize.go\<close>, \<open>limits.go\<close> and \<open>engine.go\<close>. The seats of the
  council propose in parallel, review each other's proposals anonymously, a judge decides
  and a red team attacks the decision; \<open>BuildExecutionPlan\<close> admits the plan. A goroutine is
  a worker whose steps are interleaved by a schedule, a list of worker indices; the theorems
  hold for every schedule. The models' answers come from the registry's providers over a
  world \<open>'w\<close>; the decoders of their JSON are parameters, the prompts are built byte for byte.
\<close>

section \<open>Aliases (anonymize.go)\<close>

function alias_loop :: "nat \<Rightarrow> string \<Rightarrow> string" where
  "alias_loop 0 name = name"
| "alias_loop (Suc k) name = alias_loop (k div 26) (char_of (65 + k mod 26) # name)"
  by pat_completeness auto
termination
  by (relation "measure fst") (auto simp: less_Suc_eq_le)

definition proposal_alias :: "int \<Rightarrow> string" where
  "proposal_alias index =
     (if index < 0 then ''Proposal''
      else ''Proposal '' @ alias_loop (nat (int64 (index + 1))) [])"

section \<open>Limits (limits.go)\<close>

record limits =
  lm_Quorum :: int
  lm_MaxRounds :: int
  lm_MaxInputTokens :: int
  lm_MaxOutputTokens :: int
  lm_MaxCostMicros :: int
  lm_Timeout :: int

record meter =
  mt_InputTokens :: int
  mt_OutputTokens :: int
  mt_CostMicros :: int

definition quorum_met :: "int \<Rightarrow> limits \<Rightarrow> bool" where
  "quorum_met successes l = (if lm_Quorum l \<le> 0 then successes > 0 else successes \<ge> lm_Quorum l)"

definition meter_allows :: "meter \<Rightarrow> usage \<Rightarrow> limits \<Rightarrow> bool" where
  "meter_allows m u l \<longleftrightarrow>
     (lm_MaxInputTokens l \<le> 0 \<or> int64 (mt_InputTokens m + us_InputTokens u) \<le> lm_MaxInputTokens l) \<and>
     (lm_MaxOutputTokens l \<le> 0 \<or> int64 (mt_OutputTokens m + us_OutputTokens u) \<le> lm_MaxOutputTokens l) \<and>
     (lm_MaxCostMicros l \<le> 0 \<or> int64 (mt_CostMicros m + us_EstimatedCostMicros u) \<le> lm_MaxCostMicros l)"

section \<open>Seats and generated artifacts\<close>

record seat =
  se_ID :: string
  se_Provider :: string
  se_Model :: string
  se_Role :: string
  se_ProposalAlias :: string

record 'v generated =
  gn_Seat :: seat
  gn_Value :: 'v
  gn_Usage :: usage

definition zero_proposal :: proposal where
  "zero_proposal = \<lparr>pr_ID = [], pr_Summary = [], pr_Approach = None, pr_Files = None, pr_Risks = None,
     pr_Tests = None, pr_Evidence = None\<rparr>"

definition zero_review :: peer_review where
  "zero_review = \<lparr>rv_ReviewerSeatID = [], rv_ProposalAlias = [], rv_Correctness = None, rv_Risks = None,
     rv_Missing = None, rv_Verdict = []\<rparr>"

definition zero_decision :: council_decision where
  "zero_decision = \<lparr>cd_SelectedAliases = None, cd_Reasons = None, cd_Rejected = None,
     cd_PlanSummary = None, cd_Plan = zero_plan\<rparr>"

definition zero_report :: red_team_report where
  "zero_report = \<lparr>rt_Blocking = None, rt_NonBlocking = None, rt_Recommendation = []\<rparr>"

section \<open>The JSON of the prompts\<close>

definition json_strings :: "string slice \<Rightarrow> string" where
  "json_strings = json_slice json_string"

definition json_evidence :: "evidence \<Rightarrow> string" where
  "json_evidence e = ''{'' @ json_key ''path'' @ json_string (ev_Path e) @ '','' @
     (if ev_Line e = 0 then [] else json_key ''line'' @ json_int_then CHR '','' (ev_Line e)) @
     json_key ''claim'' @ json_string (ev_Claim e) @ ''}''"

definition json_file_change :: "file_change \<Rightarrow> string" where
  "json_file_change c = ''{'' @ json_key ''path'' @ json_string (fc_Path c) @ '','' @
     json_key ''operation'' @ json_string (fc_Operation c) @ '','' @
     json_key ''rationale'' @ json_string (fc_Rationale c) @ ''}''"

definition json_workspace_file :: "workspace_file \<Rightarrow> string" where
  "json_workspace_file f = ''{'' @ json_key ''path'' @ json_string (wf_Path f) @ '','' @
     json_key ''content'' @ json_string (wf_Content f) @ ''}''"

definition json_brief :: "task_brief \<Rightarrow> string" where
  "json_brief b = ''{'' @ json_key ''requirement'' @ json_string (tb_Requirement b) @ '','' @
     json_key ''constraints'' @ json_strings (tb_Constraints b) @ '','' @
     json_key ''acceptance'' @ json_strings (tb_Acceptance b) @ '','' @
     json_key ''workspace_facts'' @ json_slice json_evidence (tb_WorkspaceFacts b) @ '','' @
     json_key ''workspace_files'' @ json_slice json_workspace_file (tb_WorkspaceFiles b) @ ''}''"

definition json_proposal :: "proposal \<Rightarrow> string" where
  "json_proposal p = ''{'' @ json_key ''id'' @ json_string (pr_ID p) @ '','' @
     json_key ''summary'' @ json_string (pr_Summary p) @ '','' @
     json_key ''approach'' @ json_strings (pr_Approach p) @ '','' @
     json_key ''files'' @ json_slice json_file_change (pr_Files p) @ '','' @
     json_key ''risks'' @ json_strings (pr_Risks p) @ '','' @
     json_key ''tests'' @ json_strings (pr_Tests p) @ '','' @
     json_key ''evidence'' @ json_slice json_evidence (pr_Evidence p) @ ''}''"

definition json_review :: "peer_review \<Rightarrow> string" where
  "json_review r = ''{'' @ json_key ''reviewer_seat_id'' @ json_string (rv_ReviewerSeatID r) @ '','' @
     json_key ''proposal_alias'' @ json_string (rv_ProposalAlias r) @ '','' @
     json_key ''correctness'' @ json_strings (rv_Correctness r) @ '','' @
     json_key ''risks'' @ json_strings (rv_Risks r) @ '','' @
     json_key ''missing'' @ json_strings (rv_Missing r) @ '','' @
     json_key ''verdict'' @ json_string (rv_Verdict r) @ ''}''"

text \<open>A Go map is written with its keys in order.\<close>

fun json_members :: "(string \<times> string) list \<Rightarrow> string" where
  "json_members [] = ''}''"
| "json_members [(k, v)] = json_string k @ '':'' @ v @ ''}''"
| "json_members ((k, v) # m) = json_string k @ '':'' @ v @ '','' @ json_members m"

definition json_rejected :: "(string \<times> string slice) slice \<Rightarrow> string" where
  "json_rejected m = (case m of None \<Rightarrow> ''null''
     | Some kvs \<Rightarrow> ''{'' @ json_members (map (\<lambda>(k, v). (k, json_strings v)) (sort_key fst kvs)))"

definition json_decision :: "council_decision \<Rightarrow> string" where
  "json_decision d = ''{'' @ json_key ''selected_aliases'' @ json_strings (cd_SelectedAliases d) @ '','' @
     json_key ''reasons'' @ json_strings (cd_Reasons d) @ '','' @
     json_key ''rejected'' @ json_rejected (cd_Rejected d) @ '','' @
     json_key ''plan_summary'' @ json_strings (cd_PlanSummary d) @ '','' @
     json_key ''plan'' @ json_plan (cd_Plan d) @ ''}''"

definition json_report :: "red_team_report \<Rightarrow> string" where
  "json_report r = ''{'' @ json_key ''blocking'' @ json_strings (rt_Blocking r) @ '','' @
     json_key ''non_blocking'' @ json_strings (rt_NonBlocking r) @ '','' @
     json_key ''recommendation'' @ json_string (rt_Recommendation r) @ ''}''"

text \<open>\<open>Seat\<close>, \<open>Usage\<close> and \<open>Generated\<close> have no JSON tags.\<close>

definition json_seat :: "seat \<Rightarrow> string" where
  "json_seat s = ''{'' @ json_key ''ID'' @ json_string (se_ID s) @ '','' @
     json_key ''Provider'' @ json_string (se_Provider s) @ '','' @
     json_key ''Model'' @ json_string (se_Model s) @ '','' @
     json_key ''Role'' @ json_string (se_Role s) @ '','' @
     json_key ''ProposalAlias'' @ json_string (se_ProposalAlias s) @ ''}''"

definition json_usage :: "usage \<Rightarrow> string" where
  "json_usage u = ''{'' @ json_key ''InputTokens'' @ json_int_then CHR '','' (us_InputTokens u) @
     json_key ''OutputTokens'' @ json_int_then CHR '','' (us_OutputTokens u) @
     json_key ''EstimatedCostMicros'' @ json_int_then CHR ''}'' (us_EstimatedCostMicros u)"

definition json_generated :: "('v \<Rightarrow> string) \<Rightarrow> 'v generated \<Rightarrow> string" where
  "json_generated enc g = ''{'' @ json_key ''Seat'' @ json_seat (gn_Seat g) @ '','' @
     json_key ''Value'' @ enc (gn_Value g) @ '','' @ json_key ''Usage'' @ json_usage (gn_Usage g) @ ''}''"

section \<open>Prompts\<close>

abbreviation nl :: string where "nl \<equiv> [CHR 0x0A]"

definition user_request :: "string \<Rightarrow> string \<Rightarrow> gen_request" where
  "user_request model content = \<lparr>gq_Model = model,
     gq_Messages = Some [\<lparr>ms_Role = ''user'', ms_Content = content\<rparr>], gq_JSONSchema = [],
     gq_Temperature = ''0''\<rparr>"

definition proposal_prompt :: "task_brief \<Rightarrow> string" where
  "proposal_prompt brief = ''Task brief JSON:'' @ nl @ json_brief brief @ nl @
     ''Return only JSON matching this schema:'' @ nl @ json_proposal zero_proposal"

text \<open>All a reviewer is shown: the position-derived alias and the proposal.\<close>

definition review_prompt :: "nat \<Rightarrow> proposal \<Rightarrow> string" where
  "review_prompt pi value =
     ''Review the anonymous proposal JSON below. Do not infer vendor or model identity.'' @ nl @
     ''{'' @ json_key ''alias'' @ json_string (proposal_alias (int pi)) @ '','' @
     json_key ''proposal'' @ json_proposal value @ ''}'' @ nl @
     ''Return only JSON matching this schema:'' @ nl @ json_review zero_review"

definition judge_prompt :: "proposal generated list \<Rightarrow> peer_review generated list \<Rightarrow> string" where
  "judge_prompt proposals reviews =
     ''Select the best proposals from this council record:'' @ nl @
     ''{'' @ json_key ''proposals'' @ json_slice (json_generated json_proposal) (Some proposals) @ '','' @
     json_key ''reviews'' @ json_slice (json_generated json_review) (Some reviews) @ ''}'' @ nl @
     ''Return only JSON matching this schema:'' @ nl @ json_decision zero_decision"

definition repair_prompt :: string where
  "repair_prompt = ''Repair the previous response into valid JSON only for the CouncilDecision schema.''"

definition red_team_prompt :: "council_decision \<Rightarrow> string" where
  "red_team_prompt decision = ''Find blocking risks in this decision:'' @ nl @ json_decision decision @ nl @
     ''Return only JSON matching this schema:'' @ nl @ json_report zero_report"

section \<open>The engine\<close>

text \<open>
  \<open>ce_dec_decision\<close> updates a decision in place and says whether it succeeded:
  \<open>json.Unmarshal\<close> may fill some fields before it fails. A nil registry is \<open>None\<close>.
\<close>

record 'w engine =
  ce_registry :: "'w registry option"
  ce_limits :: limits
  ce_dec_proposal :: "string \<Rightarrow> proposal option"
  ce_dec_review :: "string \<Rightarrow> peer_review option"
  ce_dec_decision :: "string \<Rightarrow> council_decision \<Rightarrow> council_decision \<times> bool"
  ce_dec_report :: "string \<Rightarrow> red_team_report option"

text \<open>The message, up to the escapes \<open>%q\<close> would put into an unusual provider name.\<close>

definition provider_missing :: "string \<Rightarrow> go_error" where
  "provider_missing name = Err (''provider '' @ [quote] @ name @ [quote] @ '' not found'')"

text \<open>\<open>Registry.Get\<close> on the engine's registry; a nil registry panics.\<close>

definition engine_provider :: "'w engine \<Rightarrow> string \<Rightarrow> 'w model_provider result" where
  "engine_provider E name =
     (case ce_registry E of None \<Rightarrow> Inl (Sent GoPanic)
      | Some r \<Rightarrow> (case registry_get r name of None \<Rightarrow> Inl (provider_missing name) | Some p \<Rightarrow> Inr p))"

subsection \<open>Workspace files\<close>

definition path_fields :: "string \<Rightarrow> string list" where
  "path_fields path =
     filter (\<lambda>c. c \<noteq> []) (concat (map (split_on backslash) (split_on slash path)))"

definition has_traversal_component :: "string \<Rightarrow> bool" where
  "has_traversal_component path \<longleftrightarrow> ''..'' \<in> set (path_fields path)"

definition is_safe_relative_path :: "string \<Rightarrow> bool" where
  "is_safe_relative_path raw =
     (let value = trim_space raw in
      value \<noteq> [] \<and> \<not> is_abs value \<and> volume_name value = [] \<and> \<not> has_traversal_component value)"

definition is_safe_work_dir :: "string \<Rightarrow> bool" where
  "is_safe_work_dir raw =
     (let value = trim_space raw in value = [] \<or> value = ''.'' \<or> is_safe_relative_path value)"

fun check_files :: "workspace_file list \<Rightarrow> int \<Rightarrow> unit result" where
  "check_files [] sofar = Inr ()"
| "check_files (f # fs) sofar =
     (if \<not> is_safe_relative_path (wf_Path f) then
        Inl (Err ''workspace context file path must be a nonempty relative path'')
      else if \<not> utf8_valid (wf_Content f) then
        Inl (Err ''workspace context file content must be valid UTF-8'')
      else let n = int (length (wf_Content f)) in
        if n > 65536 then Inl (Err ''workspace context contains a file that exceeds the maximum size'')
        else if int64 (sofar + n) > 2097152 then
          Inl (Err ''workspace context exceeds the maximum total size'')
        else check_files fs (int64 (sofar + n)))"

definition validate_workspace_files :: "workspace_file slice \<Rightarrow> unit result" where
  "validate_workspace_files files =
     (if length (elems files) > 200 then Inl (Err ''workspace context exceeds maximum file count'')
      else check_files (elems files) 0)"

subsection \<open>Propose\<close>

text \<open>The body of one proposer's goroutine.\<close>

definition propose_seat ::
  "'w engine \<Rightarrow> task_brief \<Rightarrow> seat \<Rightarrow> 'w \<Rightarrow> (proposal \<times> usage) result \<times> 'w" where
  "propose_seat E brief s w =
     (case engine_provider E (se_Provider s) of
        Inl e \<Rightarrow> (Inl e, w)
      | Inr p \<Rightarrow>
          (case mp_Generate p (user_request (se_Model s) (proposal_prompt brief)) w of
             (Inl e, w1) \<Rightarrow> (Inl e, w1)
           | (Inr resp, w1) \<Rightarrow>
               (case ce_dec_proposal E (gr_Content resp) of
                  None \<Rightarrow> (Inl (Sent ErrInvalidArtifact), w1)
                | Some v \<Rightarrow> (Inr (v, gr_Usage resp), w1))))"

definition seat_slot :: "seat list \<Rightarrow> nat \<Rightarrow> proposal generated" where
  "seat_slot seats i = \<lparr>gn_Seat = (seats ! i)\<lparr>se_ProposalAlias := proposal_alias (int i)\<rparr>,
     gn_Value = zero_proposal, gn_Usage = zero_usage\<rparr>"

text \<open>The goroutines in the order in which their calls reach the world; each writes its own
  entries of \<open>results\<close> and \<open>errs\<close>.\<close>

fun propose_run ::
  "'w engine \<Rightarrow> task_brief \<Rightarrow> seat list \<Rightarrow> nat list \<Rightarrow>
   proposal generated list \<times> go_error option list \<times> 'w \<Rightarrow>
   proposal generated list \<times> go_error option list \<times> 'w" where
  "propose_run E brief seats [] st = st"
| "propose_run E brief seats (i # order) (results, errs, w) =
     propose_run E brief seats order
       (case propose_seat E brief (seats ! i) w of
          (Inl e, w1) \<Rightarrow> (results, errs[i := Some e], w1)
        | (Inr (v, u), w1) \<Rightarrow> (results[i := (results ! i)\<lparr>gn_Value := v, gn_Usage := u\<rparr>], errs, w1))"

fun first_error :: "go_error option list \<Rightarrow> go_error option" where
  "first_error [] = None"
| "first_error (None # es) = first_error es"
| "first_error (Some e # es) = Some e"

definition propose ::
  "'w engine \<Rightarrow> task_brief \<Rightarrow> seat list \<Rightarrow> nat list \<Rightarrow> 'w \<Rightarrow> proposal generated list result \<times> 'w" where
  "propose E brief seats order w =
     (if ce_registry E = None then (Inl (Err ''provider registry is required''), w)
      else if seats = [] then (Inl (Err ''at least one proposer seat is required''), w)
      else case validate_workspace_files (tb_WorkspaceFiles brief) of
        Inl e \<Rightarrow> (Inl e, w)
      | Inr _ \<Rightarrow>
          (let n = length seats in
           case propose_run E brief seats order (map (seat_slot seats) [0..<n], replicate n None, w) of
             (results, errs, w1) \<Rightarrow>
               (case first_error errs of Some e \<Rightarrow> (Inl e, w1) | None \<Rightarrow> (Inr results, w1))))"

subsection \<open>Review\<close>

text \<open>
  A reviewer's goroutine: about to look at an offset, holding a review it has not yet
  appended, holding an error it has not yet recorded, or done. A step is what happens
  between two points where another goroutine can interfere: a call of the model, or a
  section under the mutex.
\<close>

datatype worker =
    Looking nat
  | Holding nat peer_review usage
  | Failing nat go_error
  | Finished

record 'w review_state =
  rs_workers :: "worker list"
  rs_results :: "peer_review generated list"
  rs_first :: "go_error option"
  rs_world :: 'w

text \<open>\<open>json.Unmarshal\<close> succeeded; the two identifying fields are overwritten.\<close>

definition stamp_review :: "seat \<Rightarrow> nat \<Rightarrow> peer_review \<Rightarrow> peer_review" where
  "stamp_review reviewer pi v =
     v\<lparr>rv_ReviewerSeatID := se_ID reviewer, rv_ProposalAlias := proposal_alias (int pi)\<rparr>"

definition review_call ::
  "'w engine \<Rightarrow> proposal generated list \<Rightarrow> seat \<Rightarrow> nat \<Rightarrow> nat \<Rightarrow> 'w \<Rightarrow> worker \<times> 'w" where
  "review_call E proposals reviewer offset pi w =
     (case engine_provider E (se_Provider reviewer) of
        Inl e \<Rightarrow> (Failing offset e, w)
      | Inr p \<Rightarrow>
          if se_ID (gn_Seat (proposals ! pi)) = se_ID reviewer then (Looking (Suc offset), w)
          else (case mp_Generate p (user_request (se_Model reviewer)
                  (review_prompt pi (gn_Value (proposals ! pi)))) w of
             (Inl e, w1) \<Rightarrow> (Failing offset e, w1)
           | (Inr resp, w1) \<Rightarrow>
               (case ce_dec_review E (gr_Content resp) of
                  None \<Rightarrow> (Failing offset (Sent ErrInvalidArtifact), w1)
                | Some v \<Rightarrow> (Holding offset (stamp_review reviewer pi v) (gr_Usage resp), w1))))"

definition review_step ::
  "'w engine \<Rightarrow> proposal generated list \<Rightarrow> seat list \<Rightarrow> nat \<Rightarrow> 'w review_state \<Rightarrow> 'w review_state" where
  "review_step E proposals reviewers ri st =
     (if ri \<ge> length (rs_workers st) then st
      else case rs_workers st ! ri of
        Looking offset \<Rightarrow>
          if offset > length proposals then st\<lparr>rs_workers := (rs_workers st)[ri := Finished]\<rparr>
          else (case review_call E proposals (reviewers ! ri) offset
                  ((ri + offset) mod length proposals) (rs_world st) of
                (k, w1) \<Rightarrow> st\<lparr>rs_workers := (rs_workers st)[ri := k], rs_world := w1\<rparr>)
      | Holding offset v u \<Rightarrow>
          st\<lparr>rs_results := rs_results st @ [\<lparr>gn_Seat = reviewers ! ri, gn_Value = v, gn_Usage = u\<rparr>],
             rs_workers := (rs_workers st)[ri := Looking (Suc offset)]\<rparr>
      | Failing offset e \<Rightarrow>
          st\<lparr>rs_first := (if rs_first st = None then Some e else rs_first st),
             rs_workers := (rs_workers st)[ri := Finished]\<rparr>
      | Finished \<Rightarrow> st)"

definition review_start :: "seat list \<Rightarrow> 'w \<Rightarrow> 'w review_state" where
  "review_start reviewers w = \<lparr>rs_workers = replicate (length reviewers) (Looking 1),
     rs_results = [], rs_first = None, rs_world = w\<rparr>"

definition review_run ::
  "'w engine \<Rightarrow> proposal generated list \<Rightarrow> seat list \<Rightarrow> nat list \<Rightarrow> 'w \<Rightarrow> 'w review_state" where
  "review_run E proposals reviewers schedule w =
     fold (review_step E proposals reviewers) schedule (review_start reviewers w)"

text \<open>\<open>wg.Wait\<close> returns when every worker is done; a schedule that stops before gives \<open>None\<close>.\<close>

definition review ::
  "'w engine \<Rightarrow> proposal generated list \<Rightarrow> seat list \<Rightarrow> nat list \<Rightarrow> 'w \<Rightarrow>
   (peer_review generated list result \<times> 'w) option" where
  "review E proposals reviewers schedule w =
     (if proposals = [] \<or> reviewers = [] then
        Some (Inl (Err ''proposals and reviewers are required''), w)
      else let st = review_run E proposals reviewers schedule w in
        if \<not> list_all (\<lambda>k. k = Finished) (rs_workers st) then None
        else case rs_first st of
          Some e \<Rightarrow> Some (Inl e, rs_world st)
        | None \<Rightarrow> Some (Inr (rs_results st), rs_world st))"

subsection \<open>Judge and red team\<close>

definition judge ::
  "'w engine \<Rightarrow> proposal generated list \<Rightarrow> peer_review generated list \<Rightarrow> seat \<Rightarrow> 'w \<Rightarrow>
   council_decision generated result \<times> 'w" where
  "judge E proposals reviews s w =
     (if list_ex (\<lambda>p. se_ID (gn_Seat p) = se_ID s) proposals then
        (Inl (Err ''judge seat must not be a proposer''), w)
      else case engine_provider E (se_Provider s) of
        Inl e \<Rightarrow> (Inl e, w)
      | Inr p \<Rightarrow>
          (case mp_Generate p (user_request (se_Model s) (judge_prompt proposals reviews)) w of
             (Inl e, w1) \<Rightarrow> (Inl e, w1)
           | (Inr resp, w1) \<Rightarrow>
               (case ce_dec_decision E (gr_Content resp) zero_decision of
                  (d, True) \<Rightarrow> (Inr \<lparr>gn_Seat = s, gn_Value = d, gn_Usage = gr_Usage resp\<rparr>, w1)
                | (d, False) \<Rightarrow>
                    (case mp_Generate p (user_request (se_Model s) repair_prompt) w1 of
                       (Inl e, w2) \<Rightarrow> (Inl (Sent ErrInvalidArtifact), w2)
                     | (Inr resp2, w2) \<Rightarrow>
                         (case ce_dec_decision E (gr_Content resp2) d of
                            (d2, True) \<Rightarrow>
                              (Inr \<lparr>gn_Seat = s, gn_Value = d2, gn_Usage = gr_Usage resp2\<rparr>, w2)
                          | (d2, False) \<Rightarrow> (Inl (Sent ErrInvalidArtifact), w2))))))"

definition red_team ::
  "'w engine \<Rightarrow> council_decision \<Rightarrow> seat \<Rightarrow> 'w \<Rightarrow> red_team_report generated result \<times> 'w" where
  "red_team E decision s w =
     (case engine_provider E (se_Provider s) of
        Inl e \<Rightarrow> (Inl e, w)
      | Inr p \<Rightarrow>
          (case mp_Generate p (user_request (se_Model s) (red_team_prompt decision)) w of
             (Inl e, w1) \<Rightarrow> (Inl e, w1)
           | (Inr resp, w1) \<Rightarrow>
               (case ce_dec_report E (gr_Content resp) of
                  None \<Rightarrow> (Inl (Sent ErrInvalidArtifact), w1)
                | Some v \<Rightarrow> (Inr \<lparr>gn_Seat = s, gn_Value = v, gn_Usage = gr_Usage resp\<rparr>, w1))))"

subsection \<open>The plan\<close>

fun check_commands :: "plan_command list \<Rightarrow> unit result" where
  "check_commands [] = Inr ()"
| "check_commands (c # cs) =
     (if trim_space (cmd_Executable c) = [] \<or> cmd_TimeoutSeconds c \<le> 0 then
        Inl (Err ''execution plan commands require an executable and positive timeout'')
      else if \<not> is_safe_work_dir (cmd_WorkDir c) then
        Inl (Err ''execution plan command work directory must be empty, dot, or a relative path'')
      else check_commands cs)"

definition build_execution_plan ::
  "council_decision \<Rightarrow> red_team_report \<Rightarrow> string slice \<Rightarrow> execution_plan result" where
  "build_execution_plan decision report acceptance =
     (let plan = cd_Plan decision in
      if elems (rt_Blocking report) \<noteq> [] then
        Inl (Err ''red-team report contains blocking findings'')
      else if elems (Patches plan) = [] \<and> elems (Commands plan) = [] then
        Inl (Err ''execution plan must include patches or commands'')
      else if Version plan \<le> 0 then Inl (Err ''execution plan version must be positive'')
      else if \<not> list_all (\<lambda>p. is_safe_relative_path (pt_Path p)) (elems (Patches plan)) then
        Inl (Err ''execution plan patch path must be a nonempty relative path'')
      else case check_commands (elems (Commands plan) @ elems (VerificationCommands plan)) of
        Inl e \<Rightarrow> Inl e
      | Inr _ \<Rightarrow> Inr (plan\<lparr>Acceptance := slice_of (elems acceptance)\<rparr>))"

section \<open>Aliases are distinct\<close>

text \<open>An alias is a numeral in base 26 whose digits run from 1; this reads it back.\<close>

definition alias_digit :: "nat \<Rightarrow> char \<Rightarrow> nat" where
  "alias_digit v c = 26 * v + (of_char c - 64)"

lemma alias_loop_value:
  "foldl alias_digit 0 (alias_loop n name) = foldl alias_digit n name"
proof (induction n name rule: alias_loop.induct)
  case (2 k name)
  have "(of_char (char_of (65 + k mod 26) :: char) :: nat) = 65 + k mod 26"
    by simp
  then have "alias_digit (k div 26) (char_of (65 + k mod 26)) = Suc k"
    by (simp add: alias_digit_def)
  with 2 show ?case by simp
qed simp

declare alias_loop.simps [simp del]

lemma alias_loop_inject: "alias_loop m [] = alias_loop n [] \<Longrightarrow> m = n"
  by (metis alias_loop_value foldl_Nil)

lemma proposal_alias_small:
  assumes "0 \<le> i" "i < 2 ^ 63 - 1"
  shows "proposal_alias i = ''Proposal '' @ alias_loop (nat (i + 1)) []"
proof -
  have "int64 (i + 1) = i + 1" using assms by (intro int64_small) auto
  with assms show ?thesis by (simp add: proposal_alias_def)
qed

lemma proposal_alias_inject:
  assumes "0 \<le> i" "i < 2 ^ 63 - 1" "0 \<le> j" "j < 2 ^ 63 - 1"
  shows "proposal_alias i = proposal_alias j \<longleftrightarrow> i = j"
proof
  assume "proposal_alias i = proposal_alias j"
  then have "alias_loop (nat (i + 1)) [] = alias_loop (nat (j + 1)) []"
    unfolding proposal_alias_small [OF assms(1,2)] proposal_alias_small [OF assms(3,4)] by simp
  then have "nat (i + 1) = nat (j + 1)" by (rule alias_loop_inject)
  with assms show "i = j" by linarith
qed simp

section \<open>Review covers every foreign proposal\<close>

definition foreign :: "proposal generated list \<Rightarrow> seat \<Rightarrow> nat \<Rightarrow> bool" where
  "foreign ps r pi \<longleftrightarrow> se_ID (gn_Seat (ps ! pi)) \<noteq> se_ID r"

text \<open>What reviewer \<open>ri\<close> has reviewed after its first \<open>k\<close> offsets.\<close>

definition reviewed ::
  "proposal generated list \<Rightarrow> seat list \<Rightarrow> nat \<Rightarrow> nat \<Rightarrow> (seat \<times> string) multiset" where
  "reviewed ps rs ri k =
     mset (map (\<lambda>pi. (rs ! ri, proposal_alias (int pi)))
       (filter (foreign ps (rs ! ri)) (map (\<lambda>o'. (ri + o') mod length ps) [1..<Suc k])))"

fun covered :: "nat \<Rightarrow> worker \<Rightarrow> nat" where
  "covered n (Looking o') = o' - 1"
| "covered n (Holding o' v u) = o' - 1"
| "covered n (Failing o' e) = o' - 1"
| "covered n Finished = n"

fun worker_ok :: "proposal generated list \<Rightarrow> seat list \<Rightarrow> nat \<Rightarrow> worker \<Rightarrow> bool" where
  "worker_ok ps rs ri (Looking o') \<longleftrightarrow> 1 \<le> o' \<and> o' \<le> Suc (length ps)"
| "worker_ok ps rs ri (Holding o' v u) \<longleftrightarrow> 1 \<le> o' \<and> o' \<le> length ps \<and>
     foreign ps (rs ! ri) ((ri + o') mod length ps) \<and> rv_ReviewerSeatID v = se_ID (rs ! ri) \<and>
     rv_ProposalAlias v = proposal_alias (int ((ri + o') mod length ps))"
| "worker_ok ps rs ri (Failing o' e) \<longleftrightarrow> 1 \<le> o' \<and> o' \<le> length ps"
| "worker_ok ps rs ri Finished \<longleftrightarrow> True"

definition review_tag :: "peer_review generated \<Rightarrow> seat \<times> string" where
  "review_tag g = (gn_Seat g, rv_ProposalAlias (gn_Value g))"

definition review_inv :: "proposal generated list \<Rightarrow> seat list \<Rightarrow> 'w review_state \<Rightarrow> bool" where
  "review_inv ps rs st \<longleftrightarrow>
     length (rs_workers st) = length rs \<and>
     (\<forall>ri<length rs. worker_ok ps rs ri (rs_workers st ! ri)) \<and>
     (\<forall>g\<in>set (rs_results st). rv_ReviewerSeatID (gn_Value g) = se_ID (gn_Seat g)) \<and>
     (rs_first st = None \<longrightarrow>
        mset (map review_tag (rs_results st)) =
        (\<Sum>ri<length rs. reviewed ps rs ri (covered (length ps) (rs_workers st ! ri))))"

lemma reviewed_Suc:
  "reviewed ps rs ri (Suc k) = reviewed ps rs ri k +
    (if foreign ps (rs ! ri) ((ri + Suc k) mod length ps)
     then {#(rs ! ri, proposal_alias (int ((ri + Suc k) mod length ps)))#} else {#})"
  by (simp add: reviewed_def)

text \<open>Only one worker changes in a step.\<close>

lemma sum_list_update:
  fixes f :: "nat \<Rightarrow> 'a \<Rightarrow> 'b::comm_monoid_add"
  assumes "i < length xs" "f i y = f i (xs ! i) + d"
  shows "(\<Sum>k<length xs. f k (xs[i := y] ! k)) = (\<Sum>k<length xs. f k (xs ! k)) + d"
proof -
  have "(\<Sum>k<length xs. f k (xs[i := y] ! k)) =
      f i y + (\<Sum>k\<in>{..<length xs} - {i}. f k (xs[i := y] ! k))"
    using assms(1) by (subst sum.remove [of _ i]) auto
  also have "(\<Sum>k\<in>{..<length xs} - {i}. f k (xs[i := y] ! k)) =
      (\<Sum>k\<in>{..<length xs} - {i}. f k (xs ! k))"
    by (intro sum.cong) auto
  also have "f i y + \<dots> = (\<Sum>k<length xs. f k (xs ! k)) + d"
    using assms by (subst (2) sum.remove [of _ i]) (auto simp: ac_simps)
  finally show ?thesis .
qed

text \<open>Steps that append nothing and leave the amount covered alone.\<close>

lemma review_inv_worker:
  assumes "review_inv ps rs st" "ri < length rs" "worker_ok ps rs ri k"
    and "rs_first st = None \<Longrightarrow>
      reviewed ps rs ri (covered (length ps) k) = reviewed ps rs ri (covered (length ps) (rs_workers st ! ri))"
  shows "review_inv ps rs (st\<lparr>rs_workers := (rs_workers st)[ri := k], rs_world := w\<rparr>)"
proof -
  have len: "length (rs_workers st) = length rs" using assms(1) by (simp add: review_inv_def)
  have "(\<Sum>i<length rs. reviewed ps rs i (covered (length ps) ((rs_workers st)[ri := k] ! i))) =
      (\<Sum>i<length rs. reviewed ps rs i (covered (length ps) (rs_workers st ! i)))"
    if "rs_first st = None"
    using sum_list_update [where xs = "rs_workers st" and i = ri and y = k and d = "{#}" and
        f = "\<lambda>i w. reviewed ps rs i (covered (length ps) w)"] assms(2,4) len that by simp
  with assms show ?thesis by (auto simp: review_inv_def nth_list_update)
qed

lemma review_call_cases:
  assumes "review_call E ps r off pi w = (k, w1)"
  shows "(\<exists>e. k = Failing off e) \<or> (\<not> foreign ps r pi \<and> k = Looking (Suc off)) \<or>
    (foreign ps r pi \<and> (\<exists>v u. k = Holding off v u \<and> rv_ReviewerSeatID v = se_ID r \<and>
       rv_ProposalAlias v = proposal_alias (int pi)))"
  using assms
  by (auto simp: review_call_def foreign_def stamp_review_def split: sum.splits prod.splits if_splits option.splits)

lemma review_inv_call:
  assumes inv: "review_inv ps rs st" and ri: "ri < length rs"
    and at: "rs_workers st ! ri = Looking off" "off \<le> length ps"
    and call: "review_call E ps (rs ! ri) off ((ri + off) mod length ps) w = (k, w1)"
  shows "review_inv ps rs (st\<lparr>rs_workers := (rs_workers st)[ri := k], rs_world := w1\<rparr>)"
proof -
  from inv ri at have off: "1 \<le> off" by (auto simp: review_inv_def dest!: spec [of _ ri])
  show ?thesis
    using review_call_cases [OF call] off at reviewed_Suc [of ps rs ri "off - 1"]
    by (intro review_inv_worker [OF inv ri]) auto
qed

lemma review_inv_hold:
  assumes inv: "review_inv ps rs st" and ri: "ri < length rs"
    and at: "rs_workers st ! ri = Holding off v u"
  shows "review_inv ps rs
    (st\<lparr>rs_results := rs_results st @ [\<lparr>gn_Seat = rs ! ri, gn_Value = v, gn_Usage = u\<rparr>],
        rs_workers := (rs_workers st)[ri := Looking (Suc off)]\<rparr>)"
proof -
  let ?pi = "(ri + off) mod length ps"
  have len: "length (rs_workers st) = length rs" using inv by (simp add: review_inv_def)
  have ok: "worker_ok ps rs ri (Holding off v u)" using inv ri at by (auto simp: review_inv_def dest!: spec [of _ ri])
  then obtain m where off: "off = Suc m" by (cases off) auto
  have "reviewed ps rs ri (covered (length ps) (Looking (Suc off))) =
      reviewed ps rs ri (covered (length ps) (rs_workers st ! ri)) + {#(rs ! ri, proposal_alias (int ?pi))#}"
    using ok reviewed_Suc [of ps rs ri m] by (simp add: at off)
  then have "(\<Sum>i<length rs. reviewed ps rs i (covered (length ps) ((rs_workers st)[ri := Looking (Suc off)] ! i))) =
      (\<Sum>i<length rs. reviewed ps rs i (covered (length ps) (rs_workers st ! i))) +
      {#(rs ! ri, proposal_alias (int ?pi))#}"
    using sum_list_update [where xs = "rs_workers st" and i = ri and y = "Looking (Suc off)" and
        f = "\<lambda>i w. reviewed ps rs i (covered (length ps) w)"] ri len by simp
  with inv ok ri show ?thesis by (auto simp: review_inv_def nth_list_update review_tag_def)
qed

lemma review_inv_step:
  assumes inv: "review_inv ps rs st"
  shows "review_inv ps rs (review_step E ps rs ri st)"
proof (cases "ri < length rs")
  case True
  have len: "length (rs_workers st) = length rs" using inv by (simp add: review_inv_def)
  have ok: "worker_ok ps rs ri (rs_workers st ! ri)" using inv True by (simp add: review_inv_def)
  show ?thesis
  proof (cases "rs_workers st ! ri")
    case (Looking off)
    show ?thesis
    proof (cases "off > length ps")
      case True
      then have "off = Suc (length ps)" using ok Looking by simp
      then show ?thesis
        using review_inv_worker [OF inv \<open>ri < length rs\<close>, of Finished "rs_world st"] Looking len \<open>ri < length rs\<close>
        by (simp add: review_step_def)
    next
      case False
      then show ?thesis
        using review_inv_call [OF inv \<open>ri < length rs\<close> Looking] Looking len \<open>ri < length rs\<close>
        by (auto simp: review_step_def split: prod.splits)
    qed
  next
    case (Holding off v u)
    then show ?thesis using review_inv_hold [OF inv True Holding] len True by (simp add: review_step_def)
  next
    case (Failing off e)
    then show ?thesis using inv len True by (auto simp: review_step_def review_inv_def nth_list_update)
  next
    case Finished
    then show ?thesis using inv len True by (simp add: review_step_def)
  qed
qed (use inv in \<open>simp add: review_step_def review_inv_def\<close>)

lemma review_inv_run: "review_inv ps rs (review_run E ps rs sched w)"
proof -
  have start: "review_inv ps rs (review_start rs w)"
    by (simp add: review_inv_def review_start_def reviewed_def)
  have "review_inv ps rs (fold (review_step E ps rs) sched st)" if "review_inv ps rs st" for st
    using that by (induction sched arbitrary: st) (simp_all add: review_inv_step)
  then show ?thesis using start by (simp add: review_run_def)
qed

text \<open>Going round the proposals from the reviewer's own position meets each of them once.\<close>

lemma rotation: "map (\<lambda>o'. (ri + o') mod n) [1..<Suc n] = rotate (Suc ri) [0..<n]"
  by (rule nth_equalityI) (simp_all add: nth_rotate del: upt_Suc rotate_Suc)

lemma mset_rotate: "mset (rotate n xs) = mset xs"
  by (metis append_take_drop_id mset_append rotate_drop_take union_commute)

lemma reviewed_all:
  "reviewed ps rs ri (length ps) =
    mset (map (\<lambda>pi. (rs ! ri, proposal_alias (int pi))) (filter (foreign ps (rs ! ri)) [0..<length ps]))"
  unfolding reviewed_def rotation by (simp only: mset_map mset_filter mset_rotate)

lemma reviewed_sum:
  "(\<Sum>ri<length rs. reviewed ps rs ri (length ps)) =
    mset (concat (map (\<lambda>r. map (\<lambda>pi. (r, proposal_alias (int pi))) (filter (foreign ps r) [0..<length ps])) rs))"
  (is "_ = mset (concat (map ?f rs))")
proof -
  have "mset (concat (map ?f rs)) = (\<Sum>i<length rs. mset (?f (rs ! i)))"
    by (simp add: mset_concat sum_list_sum_nth atLeast0LessThan)
  then show ?thesis by (simp only: reviewed_all)
qed

lemma review_InrD:
  assumes "review E ps rs sched w = Some (Inr results, w')"
  shows "ps \<noteq> [] \<and> rs \<noteq> [] \<and> list_all (\<lambda>k. k = Finished) (rs_workers (review_run E ps rs sched w)) \<and>
    rs_first (review_run E ps rs sched w) = None \<and> results = rs_results (review_run E ps rs sched w)"
  using assms by (auto simp: review_def Let_def split: if_splits option.splits)

text \<open>
  C28. However the reviewers' goroutines interleave, a review round that succeeds is complete
  and has nothing twice: it holds, for every reviewer and every proposal of another seat,
  exactly one review, filed under that reviewer's seat and the alias of that proposal, and
  none of a reviewer's own proposal.
\<close>

theorem peer_review_complete:
  assumes "review E ps rs sched w = Some (Inr results, w')"
  shows "mset (map review_tag results) =
      mset (concat (map (\<lambda>r. map (\<lambda>pi. (r, proposal_alias (int pi)))
        (filter (foreign ps r) [0..<length ps])) rs)) \<and>
    (\<forall>g\<in>set results. rv_ReviewerSeatID (gn_Value g) = se_ID (gn_Seat g))"
proof -
  let ?st = "review_run E ps rs sched w"
  have st: "list_all (\<lambda>k. k = Finished) (rs_workers ?st)" "rs_first ?st = None" "results = rs_results ?st"
    using review_InrD [OF assms] by auto
  have inv: "review_inv ps rs ?st" by (rule review_inv_run)
  then have "length (rs_workers ?st) = length rs" by (simp add: review_inv_def)
  with st(1) have "covered (length ps) (rs_workers ?st ! ri) = length ps" if "ri < length rs" for ri
    using that by (simp add: list_all_length)
  with inv st have "mset (map review_tag results) = (\<Sum>ri<length rs. reviewed ps rs ri (length ps))"
    by (simp add: review_inv_def)
  with inv st(3) show ?thesis by (simp only: reviewed_sum review_inv_def) simp
qed

section \<open>Review finishes\<close>

text \<open>The steps a worker still needs, at most.\<close>

fun todo :: "nat \<Rightarrow> worker \<Rightarrow> nat" where
  "todo n (Looking o') = 2 * (Suc n - o') + 1"
| "todo n (Holding o' v u) = 2 * (Suc n - o')"
| "todo n (Failing o' e) = 1"
| "todo n Finished = 0"

lemma todo_step:
  assumes "review_inv ps rs st" "ri < length rs"
  shows "todo (length ps) (rs_workers (review_step E ps rs rj st) ! ri) \<le>
    todo (length ps) (rs_workers st ! ri) - (if rj = ri then 1 else 0)"
proof -
  have len: "length (rs_workers st) = length rs" and ok: "worker_ok ps rs ri (rs_workers st ! ri)"
    using assms by (auto simp: review_inv_def)
  show ?thesis
  proof (cases "rj = ri")
    case True
    then show ?thesis
      using ok len assms(2)
      by (auto simp: review_step_def split: worker.splits prod.splits dest!: review_call_cases)
  next
    case False
    then show ?thesis
      using len assms(2) by (auto simp: review_step_def split: worker.splits prod.splits)
  qed
qed

lemma todo_run:
  assumes "review_inv ps rs st" "ri < length rs"
  shows "todo (length ps) (rs_workers (fold (review_step E ps rs) sched st) ! ri) \<le>
    todo (length ps) (rs_workers st ! ri) - count_list sched ri"
  using assms(1)
proof (induction sched arbitrary: st)
  case (Cons rj sched)
  have "todo (length ps) (rs_workers (fold (review_step E ps rs) sched (review_step E ps rs rj st)) ! ri) \<le>
      todo (length ps) (rs_workers (review_step E ps rs rj st) ! ri) - count_list sched ri"
    using Cons.IH review_inv_step [OF Cons.prems] by blast
  also have "\<dots> \<le> todo (length ps) (rs_workers st ! ri) - count_list (rj # sched) ri"
    using todo_step [OF Cons.prems assms(2), of E rj] by (auto split: if_splits)
  finally show ?case by simp
qed simp

lemma todo_0: "worker_ok ps rs ri k \<Longrightarrow> todo (length ps) k = 0 \<Longrightarrow> k = Finished"
  by (cases k) auto

lemma review_finishes:
  assumes "\<forall>ri<length rs. 2 * length ps + 1 \<le> count_list sched ri"
  shows "review E ps rs sched w \<noteq> None"
proof -
  let ?st = "review_run E ps rs sched w"
  have start: "review_inv ps rs (review_start rs w)"
    using review_inv_run [of ps rs E "[]" w] by (simp add: review_run_def)
  have "rs_workers ?st ! ri = Finished" if "ri < length rs" for ri
  proof (rule todo_0)
    show "worker_ok ps rs ri (rs_workers ?st ! ri)"
      using review_inv_run [of ps rs E sched w] that by (simp add: review_inv_def)
    have "todo (length ps) (rs_workers ?st ! ri) \<le>
        todo (length ps) (rs_workers (review_start rs w) ! ri) - count_list sched ri"
      unfolding review_run_def using start that by (rule todo_run)
    moreover have "todo (length ps) (rs_workers (review_start rs w) ! ri) \<le> count_list sched ri"
      using assms that by (simp add: review_start_def)
    ultimately show "todo (length ps) (rs_workers ?st ! ri) = 0" by simp
  qed
  moreover have "length (rs_workers ?st) = length rs"
    using review_inv_run [of ps rs E sched w] by (simp add: review_inv_def)
  ultimately have "list_all (\<lambda>k. k = Finished) (rs_workers ?st)" by (simp add: list_all_length)
  then show ?thesis by (simp add: review_def Let_def split: option.splits)
qed

text \<open>
  C29. A review round always comes to an end: whatever the models answer, no reviewer's
  goroutine takes more than two steps for each proposal and one more, so once every
  goroutine has been given that many turns, in any interleaving, \<open>wg.Wait\<close> returns.
\<close>

theorem review_terminates:
  assumes "\<forall>ri<length rs. 2 * length ps + 1 \<le> count_list sched ri"
  shows "review E ps rs sched w \<noteq> None"
  using assms by (rule review_finishes)

text \<open>If every model answers with a decodable review, there is no error.\<close>

definition answering :: "'w engine \<Rightarrow> seat \<Rightarrow> bool" where
  "answering E r \<longleftrightarrow> (\<exists>p. engine_provider E (se_Provider r) = Inr p \<and>
     (\<forall>q w. \<exists>resp w'. mp_Generate p q w = (Inr resp, w') \<and> ce_dec_review E (gr_Content resp) \<noteq> None))"

definition no_failure :: "'w review_state \<Rightarrow> bool" where
  "no_failure st \<longleftrightarrow> rs_first st = None \<and> (\<forall>k\<in>set (rs_workers st). \<forall>o' e. k \<noteq> Failing o' e)"

lemma review_call_answering:
  assumes "answering E r" "review_call E ps r off pi w = (k, w1)"
  shows "k \<noteq> Failing o' e"
proof -
  obtain p where p: "engine_provider E (se_Provider r) = Inr p"
    and gen: "\<And>q w. \<exists>resp w'. mp_Generate p q w = (Inr resp, w') \<and> ce_dec_review E (gr_Content resp) \<noteq> None"
    using assms(1) by (auto simp: answering_def)
  obtain resp w' where "mp_Generate p (user_request (se_Model r) (review_prompt pi (gn_Value (ps ! pi)))) w =
      (Inr resp, w')" "ce_dec_review E (gr_Content resp) \<noteq> None"
    using gen by blast
  with assms(2) p show ?thesis by (auto simp: review_call_def split: if_splits)
qed

lemma no_failure_step:
  assumes "no_failure st" "\<forall>r\<in>set rs. answering E r" "length (rs_workers st) = length rs"
  shows "no_failure (review_step E ps rs ri st)"
proof (cases "ri < length rs")
  case True
  then have k: "rs_workers st ! ri \<in> set (rs_workers st)" using assms(3) by simp
  have r: "answering E (rs ! ri)" using assms(2) True by simp
  show ?thesis
  proof (cases "rs_workers st ! ri")
    case (Looking off)
    have "review_call E ps (rs ! ri) off pi w \<noteq> (Failing o' e, w1)" for off pi w o' e w1
      using review_call_answering [OF r] by blast
    with Looking assms(1,3) True show ?thesis
      by (auto simp: no_failure_def review_step_def split: prod.splits dest!: set_update_subset_insert [THEN subsetD])
  next
    case (Failing off e)
    with k assms(1) show ?thesis by (auto simp: no_failure_def)
  qed (use assms True in \<open>auto simp: no_failure_def review_step_def dest!: set_update_subset_insert [THEN subsetD]\<close>)
qed (use assms in \<open>simp add: review_step_def\<close>)

lemma review_succeeds:
  assumes "\<forall>r\<in>set rs. answering E r" "ps \<noteq> []" "rs \<noteq> []"
    and "\<forall>ri<length rs. 2 * length ps + 1 \<le> count_list sched ri"
  shows "\<exists>results w'. review E ps rs sched w = Some (Inr results, w')"
proof -
  have "no_failure (fold (review_step E ps rs) sched st)" if "no_failure st" "review_inv ps rs st" for st
    using that
  proof (induction sched arbitrary: st)
    case (Cons ri sched)
    have len: "length (rs_workers st) = length rs" using Cons.prems(2) by (simp add: review_inv_def)
    show ?case
      using Cons.IH [OF no_failure_step [OF Cons.prems(1) assms(1) len]] review_inv_step [OF Cons.prems(2)]
      by simp
  qed simp
  moreover have "review_inv ps rs (review_start rs w)"
    using review_inv_run [of ps rs E "[]" w] by (simp add: review_run_def)
  moreover have "no_failure (review_start rs w)" by (simp add: no_failure_def review_start_def)
  ultimately have "rs_first (review_run E ps rs sched w) = None" by (simp add: review_run_def no_failure_def)
  with review_finishes [OF assms(4), of E w] assms(2,3) show ?thesis
    by (auto simp: review_def Let_def split: if_splits)
qed

section \<open>Review is anonymous\<close>

text \<open>Two councils that differ only in who wrote which proposal, and not in which of them are a
  reviewer's own.\<close>

definition same_to_reviewers :: "seat list \<Rightarrow> proposal generated list \<Rightarrow> proposal generated list \<Rightarrow> bool" where
  "same_to_reviewers rs ps qs \<longleftrightarrow> length ps = length qs \<and>
     (\<forall>i<length ps. gn_Value (ps ! i) = gn_Value (qs ! i) \<and>
        (\<forall>r\<in>set rs. foreign ps r i = foreign qs r i))"

lemma review_call_same:
  assumes "gn_Value (ps ! k) = gn_Value (qs ! k)" "foreign ps r k = foreign qs r k"
  shows "review_call E ps r off k w = review_call E qs r off k w"
proof -
  have "(se_ID (gn_Seat (ps ! k)) = se_ID r) = (se_ID (gn_Seat (qs ! k)) = se_ID r)"
    using assms(2) by (auto simp: foreign_def)
  then show ?thesis unfolding review_call_def assms(1) by (simp only:)
qed

lemma review_step_same:
  assumes "same_to_reviewers rs ps qs" "ps \<noteq> []" "length (rs_workers st) = length rs"
  shows "review_step E ps rs ri st = review_step E qs rs ri st"
proof (cases "ri < length rs")
  case True
  then have r: "rs ! ri \<in> set rs" by simp
  have pi: "(ri + off) mod length ps < length ps" for off using assms(2) by simp
  have "review_call E ps (rs ! ri) off ((ri + off) mod length ps) w =
      review_call E qs (rs ! ri) off ((ri + off) mod length ps) w" for off w
    using assms(1) r pi [of off] by (intro review_call_same) (auto simp: same_to_reviewers_def)
  with assms(1) show ?thesis
    by (auto simp: review_step_def same_to_reviewers_def split: worker.splits)
qed (use assms in \<open>simp add: review_step_def\<close>)

lemma review_run_same:
  assumes "same_to_reviewers rs ps qs" "ps \<noteq> []"
  shows "review_run E ps rs sched w = review_run E qs rs sched w"
proof -
  have "fold (review_step E ps rs) sched st = fold (review_step E qs rs) sched st"
    if "review_inv ps rs st" for st
    using that
  proof (induction sched arbitrary: st)
    case (Cons ri sched)
    then show ?case
      using review_step_same [OF assms, of st E ri] review_inv_step [OF Cons.prems, of E ri]
      by (simp add: review_inv_def)
  qed simp
  moreover have "review_inv ps rs (review_start rs w)"
    using review_inv_run [of ps rs E "[]" w] by (simp add: review_run_def)
  ultimately show ?thesis by (simp add: review_run_def)
qed

text \<open>
  C30. Peer review is anonymous. Seats, providers and models of the proposers reach neither a
  reviewer's prompt nor a review: two councils whose proposals have the same content in the
  same order, and in which the same ones are each reviewer's own, have identical review
  rounds, with the same calls of the models, the same reviews and the same errors.
\<close>

theorem review_is_anonymous:
  assumes "same_to_reviewers rs ps qs"
  shows "review E ps rs sched w = review E qs rs sched w"
proof (cases "ps = []")
  case True
  with assms show ?thesis by (simp add: same_to_reviewers_def review_def)
next
  case False
  moreover from this assms have "qs \<noteq> []" by (auto simp: same_to_reviewers_def)
  ultimately show ?thesis using review_run_same [OF assms False, of E sched w] by (simp add: review_def)
qed

section \<open>A sample council\<close>

definition sample_engine :: "'w engine" where
  "sample_engine = \<lparr>ce_registry = Some (new_registry [\<lparr>mp_Name = ''vendor'',
       mp_Generate = (\<lambda>q w. (Inr \<lparr>gr_Content = ''{}'', gr_Usage = zero_usage, gr_ProviderRequestID = []\<rparr>, w))\<rparr>]),
     ce_limits = \<lparr>lm_Quorum = 0, lm_MaxRounds = 1, lm_MaxInputTokens = 0, lm_MaxOutputTokens = 0,
       lm_MaxCostMicros = 0, lm_Timeout = 0\<rparr>,
     ce_dec_proposal = (\<lambda>_. Some zero_proposal), ce_dec_review = (\<lambda>_. Some zero_review),
     ce_dec_decision = (\<lambda>_ d. (d, True)), ce_dec_report = (\<lambda>_. Some zero_report)\<rparr>"

definition sample_seat :: "string \<Rightarrow> string \<Rightarrow> seat" where
  "sample_seat sid model = \<lparr>se_ID = sid, se_Provider = ''vendor'', se_Model = model, se_Role = [],
     se_ProposalAlias = []\<rparr>"

definition sample_proposals :: "string \<Rightarrow> proposal generated list" where
  "sample_proposals model = map (\<lambda>sid. \<lparr>gn_Seat = sample_seat sid model, gn_Value = zero_proposal,
     gn_Usage = zero_usage\<rparr>) [''a'', ''b'']"

definition sample_reviewers :: "seat list" where
  "sample_reviewers = [sample_seat ''a'' ''m'', sample_seat ''b'' ''m'']"

definition sample_schedule :: "nat list" where
  "sample_schedule = [0, 1, 1, 0, 0, 1, 0, 1, 1, 0]"

lemma sample_provider:
  "engine_provider sample_engine ''vendor'' = Inr \<lparr>mp_Name = ''vendor'',
     mp_Generate = (\<lambda>q w. (Inr \<lparr>gr_Content = ''{}'', gr_Usage = zero_usage, gr_ProviderRequestID = []\<rparr>, w))\<rparr>"
  by (simp add: engine_provider_def sample_engine_def registry_get_def new_registry_def)

lemma sample_review:
  "\<exists>results. review sample_engine (sample_proposals ''m'') sample_reviewers sample_schedule () =
     Some (Inr results, ())"
proof -
  have "\<forall>r\<in>set sample_reviewers. answering sample_engine r"
    by (simp add: sample_reviewers_def answering_def sample_seat_def sample_provider)
      (simp add: sample_engine_def)
  moreover have "\<forall>ri<length sample_reviewers. 2 * length (sample_proposals ''m'') + 1 \<le> count_list sample_schedule ri"
    by (simp add: sample_reviewers_def sample_proposals_def sample_schedule_def less_Suc_eq)
  ultimately have "\<exists>results w'. review sample_engine (sample_proposals ''m'') sample_reviewers sample_schedule () =
      Some (Inr results, w')"
    by (intro review_succeeds) (simp_all add: sample_reviewers_def sample_proposals_def)
  then show ?thesis by simp
qed

theorem peer_review_complete_witness:
  "\<exists>results w'. review sample_engine (sample_proposals ''m'') sample_reviewers sample_schedule () =
       Some (Inr results, w') \<and>
     mset (map review_tag results) =
       {# (sample_seat ''a'' ''m'', proposal_alias 1), (sample_seat ''b'' ''m'', proposal_alias 0) #}"
proof -
  obtain results where r: "review sample_engine (sample_proposals ''m'') sample_reviewers sample_schedule () =
      Some (Inr results, ())"
    using sample_review by blast
  from peer_review_complete [OF r] have "mset (map review_tag results) =
      {# (sample_seat ''a'' ''m'', proposal_alias 1), (sample_seat ''b'' ''m'', proposal_alias 0) #}"
    by (simp add: sample_reviewers_def sample_proposals_def foreign_def sample_seat_def)
  with r show ?thesis by blast
qed

theorem review_terminates_witness:
  "review sample_engine (sample_proposals ''m'') sample_reviewers sample_schedule () \<noteq> None"
  by (rule review_terminates)
    (simp add: sample_reviewers_def sample_proposals_def sample_schedule_def less_Suc_eq)

theorem review_is_anonymous_witness:
  "sample_proposals ''m'' \<noteq> sample_proposals ''other'' \<and>
   review sample_engine (sample_proposals ''m'') sample_reviewers sample_schedule () =
   review sample_engine (sample_proposals ''other'') sample_reviewers sample_schedule ()"
proof
  show "sample_proposals ''m'' \<noteq> sample_proposals ''other''"
    by (simp add: sample_proposals_def sample_seat_def)
  show "review sample_engine (sample_proposals ''m'') sample_reviewers sample_schedule () =
      review sample_engine (sample_proposals ''other'') sample_reviewers sample_schedule ()"
    by (rule review_is_anonymous)
      (simp add: same_to_reviewers_def sample_proposals_def foreign_def sample_seat_def nth_Cons split: nat.splits)
qed

section \<open>Budgets\<close>

text \<open>While no sum leaves 64 bits, \<open>Meter.Allows\<close> admits exactly the calls within the limits set.\<close>

lemma meter_respects_limits:
  assumes "0 \<le> mt_InputTokens m" "0 \<le> us_InputTokens u" "mt_InputTokens m + us_InputTokens u < 2 ^ 63"
    and "0 \<le> mt_OutputTokens m" "0 \<le> us_OutputTokens u" "mt_OutputTokens m + us_OutputTokens u < 2 ^ 63"
    and "0 \<le> mt_CostMicros m" "0 \<le> us_EstimatedCostMicros u" "mt_CostMicros m + us_EstimatedCostMicros u < 2 ^ 63"
  shows "meter_allows m u l \<longleftrightarrow>
    (0 < lm_MaxInputTokens l \<longrightarrow> mt_InputTokens m + us_InputTokens u \<le> lm_MaxInputTokens l) \<and>
    (0 < lm_MaxOutputTokens l \<longrightarrow> mt_OutputTokens m + us_OutputTokens u \<le> lm_MaxOutputTokens l) \<and>
    (0 < lm_MaxCostMicros l \<longrightarrow> mt_CostMicros m + us_EstimatedCostMicros u \<le> lm_MaxCostMicros l)"
  using assms by (auto simp: meter_allows_def)

end
