(* ===== verification/Council_Plan.thy ===== *)
theory Council_Plan
  imports Council_Engine Path_Guard
begin

text \<open>
  What the engine admits: the workspace files a prompt may hold
  (\<open>validateWorkspaceFiles\<close>) and the plans \<open>BuildExecutionPlan\<close> lets through, related to
  the guard the runner will resolve their paths with.
\<close>

section \<open>Trimming does not hide a climbing component\<close>

lemma space_bytes_plain: "CHR ''.'' \<notin> space_bytes" "slash \<notin> space_bytes"
  by (auto simp: space_bytes_def space_runes_def byte_def upt_rec
      dest!: arg_cong [where f = "of_char :: char \<Rightarrow> nat"])

lemma strip_front_split: "\<exists>u. s = u @ strip_front rs s \<and> set u \<subseteq> \<Union> (set ` set rs)"
proof (induction rs s rule: strip_front.induct)
  case (1 rs s)
  show ?case
  proof (cases "strip_one rs s = 0 \<or> s = []")
    case True
    then have "strip_front rs s = s" by (subst strip_front.simps) auto
    then show ?thesis by simp
  next
    case False
    with 1 obtain u where u: "drop (strip_one rs s) s = u @ strip_front rs (drop (strip_one rs s) s)"
      "set u \<subseteq> \<Union> (set ` set rs)" by auto
    have "strip_front rs s = strip_front rs (drop (strip_one rs s) s)"
      using False by (subst strip_front.simps) simp
    with u(1) have "s = (take (strip_one rs s) s @ u) @ strip_front rs s"
      by (metis append.assoc append_take_drop_id)
    moreover have "set (take (strip_one rs s) s @ u) \<subseteq> \<Union> (set ` set rs)"
      using u(2) strip_one_bytes [of rs s] by simp
    ultimately show ?thesis by blast
  qed
qed

lemma trim_space_split:
  obtains u v where "s = u @ trim_space s @ v" "set u \<subseteq> space_bytes" "set v \<subseteq> space_bytes"
proof -
  obtain u where u: "s = u @ strip_front space_runes s" "set u \<subseteq> space_bytes"
    using strip_front_split [of s space_runes] by (auto simp: space_bytes_def)
  let ?m = "strip_front space_runes s" and ?rr = "map rev space_runes"
  obtain v where v: "rev ?m = v @ strip_front ?rr (rev ?m)" "set v \<subseteq> space_bytes"
    using strip_front_split [of "rev ?m" ?rr] by (auto simp: space_bytes_def)
  then have "?m = trim_space s @ rev v" by (metis rev_append rev_rev_ident trim_space_def)
  with u v show thesis using that [of u "rev v"] by simp
qed

lemma split_on_front:
  assumes "c \<notin> set u"
  shows "split_on c (u @ t) = (u @ hd (split_on c t)) # tl (split_on c t)"
  using assms by (induction u) (auto split: list.splits)

lemma split_on_back:
  assumes "c \<notin> set v"
  shows "split_on c (t @ v) = butlast (split_on c t) @ [last (split_on c t) @ v]"
proof (induction t)
  case Nil
  then show ?case using assms by (simp add: split_on_id)
next
  case (Cons x t)
  then show ?case
    by (cases "split_on c t" rule: rev_cases; cases "butlast (split_on c t)") (auto split: list.splits)
qed

lemma trim_keeps_dotdot:
  assumes "''..'' \<in> set (split_on slash s)"
  shows "''..'' \<in> set (split_on slash (trim_space s))"
proof -
  obtain u v where s: "s = u @ trim_space s @ v" and u: "set u \<subseteq> space_bytes" and v: "set v \<subseteq> space_bytes"
    by (rule trim_space_split)
  let ?t = "trim_space s"
  have no: "slash \<notin> set u" "slash \<notin> set v" "CHR ''.'' \<notin> set u" "CHR ''.'' \<notin> set v"
    using u v space_bytes_plain by auto
  have "''..'' \<in> set (split_on slash (?t @ v))"
  proof -
    have "''..'' \<in> set ((u @ hd (split_on slash (?t @ v))) # tl (split_on slash (?t @ v)))"
      using assms split_on_front [OF no(1), of "?t @ v"] s by metis
    moreover have "u @ hd (split_on slash (?t @ v)) = ''..'' \<Longrightarrow> u = []"
      using no(3) by (cases u) auto
    ultimately show ?thesis by (metis append_Nil list.collapse set_ConsD split_on_not_Nil list.set_intros)
  qed
  then have "''..'' \<in> set (butlast (split_on slash ?t)) \<or> last (split_on slash ?t) @ v = ''..''"
    by (auto simp: split_on_back [OF no(2)])
  moreover have "last (split_on slash ?t) @ v = ''..'' \<Longrightarrow> v = []"
    using no(4) by (cases v rule: rev_cases) auto
  ultimately show ?thesis
    by (metis append_Nil2 in_set_butlastD last_in_set split_on_not_Nil)
qed

lemma safe_no_dotdot:
  assumes "is_safe_relative_path s"
  shows "''..'' \<notin> set (split_on slash s)"
proof
  assume "''..'' \<in> set (split_on slash s)"
  then have "''..'' \<in> set (split_on slash (trim_space s))" by (rule trim_keeps_dotdot)
  moreover have "split_on backslash ''..'' = [''..'']" by simp
  ultimately have "''..'' \<in> set (path_fields (trim_space s))"
    unfolding path_fields_def by (auto intro!: bexI [of _ "''..''"])
  with assms show False by (simp add: is_safe_relative_path_def has_traversal_component_def Let_def)
qed

lemma safe_work_dir_no_dotdot:
  assumes "is_safe_work_dir s"
  shows "''..'' \<notin> set (split_on slash s)"
proof
  assume "''..'' \<in> set (split_on slash s)"
  then have d: "''..'' \<in> set (split_on slash (trim_space s))" by (rule trim_keeps_dotdot)
  then have "trim_space s \<noteq> []" "trim_space s \<noteq> ''.''" by auto
  with assms have "is_safe_relative_path (trim_space s)" by (simp add: is_safe_work_dir_def Let_def)
  with d show False by (simp add: safe_no_dotdot)
qed

lemma no_dotdot_below:
  assumes "rooted_at g rs" "''..'' \<notin> set (split_on slash p)"
  shows "below rs (path_join [g_root g, p])"
proof -
  let ?cs = "filter (\<lambda>c. c \<noteq> [] \<and> c \<noteq> ''.'') (split_on slash p)"
  have rs: "list_all normal_comp rs" and root: "g_root g = abs_path rs"
    using assms(1) by (simp_all add: rooted_at_def)
  have "path_join [g_root g, p] = abs_path (rs @ ?cs)"
    by (simp add: root join_abs_path [OF rs] clean_go_no_dotdot [OF assms(2)])
  moreover have "list_all normal_comp ?cs"
    using assms(2) split_on_no_sep [of _ slash p] by (auto simp: list_all_iff normal_comp_def)
  ultimately show ?thesis by (auto simp: below_def)
qed

section \<open>The files of a prompt\<close>

lemma check_files_iff:
  assumes "0 \<le> sofar" "sofar \<le> 2097152"
  shows "check_files fs sofar = Inr () \<longleftrightarrow>
    (\<forall>f\<in>set fs. is_safe_relative_path (wf_Path f) \<and> utf8_valid (wf_Content f) \<and> length (wf_Content f) \<le> 65536) \<and>
    sofar + int (sum_list (map (\<lambda>f. length (wf_Content f)) fs)) \<le> 2097152"
  using assms
proof (induction fs arbitrary: sofar)
  case (Cons f fs)
  let ?n = "int (length (wf_Content f))"
  show ?case
  proof (cases "?n \<le> 65536 \<and> sofar + ?n \<le> 2097152")
    case True
    then have "int64 (sofar + ?n) = sofar + ?n" using Cons.prems by (intro int64_small) auto
    with True Cons.IH [of "sofar + ?n"] Cons.prems show ?thesis
      by (auto simp: Let_def algebra_simps)
  next
    case False
    have "int64 (sofar + ?n) = sofar + ?n" if "?n \<le> 65536" using Cons.prems that by (intro int64_small) auto
    with False Cons.prems show ?thesis by (auto simp: Let_def)
  qed
qed auto

lemma validate_workspace_files_iff:
  "validate_workspace_files files = Inr () \<longleftrightarrow>
    length (elems files) \<le> 200 \<and>
    list_all (\<lambda>f. is_safe_relative_path (wf_Path f) \<and> utf8_valid (wf_Content f) \<and>
      length (wf_Content f) \<le> 65536) (elems files) \<and>
    sum_list (map (\<lambda>f. length (wf_Content f)) (elems files)) \<le> 2097152"
  using check_files_iff [of 0 "elems files"]
  by (auto simp: validate_workspace_files_def list_all_iff split: if_splits)

text \<open>
  The early exits of the running check amount to one condition on the list as a whole:
  a prompt may hold at most 200 files, each with a safe relative path and valid UTF-8 of at
  most 64 KiB, and 2 MiB altogether; no sum in the check can wrap around.
\<close>

theorem workspace_files_within_limits:
  "validate_workspace_files files = Inr () \<longleftrightarrow>
    length (elems files) \<le> 200 \<and>
    list_all (\<lambda>f. is_safe_relative_path (wf_Path f) \<and> utf8_valid (wf_Content f) \<and>
      length (wf_Content f) \<le> 65536) (elems files) \<and>
    sum_list (map (\<lambda>f. length (wf_Content f)) (elems files)) \<le> 2097152"
  by (rule validate_workspace_files_iff)

section \<open>Admitted plans\<close>

lemma check_commands_iff:
  "check_commands cs = Inr () \<longleftrightarrow>
    (\<forall>c\<in>set cs. trim_space (cmd_Executable c) \<noteq> [] \<and> 0 < cmd_TimeoutSeconds c \<and> is_safe_work_dir (cmd_WorkDir c))"
  by (induction cs) auto


definition sample_decision :: council_decision where
  "sample_decision = zero_decision\<lparr>cd_Plan := zero_plan\<lparr>Version := 1,
     Patches := Some [\<lparr>pt_Path = ''a/b'', pt_UnifiedDiff = [], pt_BeforeHash = []\<rparr>],
     Commands := Some [\<lparr>cmd_Executable = ''go'', cmd_Args = None, cmd_WorkDir = ''.'',
       cmd_TimeoutSeconds = 60, cmd_Purpose = []\<rparr>]\<rparr>\<rparr>"

lemma sample_plan_admitted:
  "build_execution_plan sample_decision zero_report None = Inr (cd_Plan sample_decision)"
proof -
  have "trim_space ''a/b'' = ''a/b''" "trim_space ''go'' = ''go''" "trim_space ''.'' = ''.''"
    by (simp_all add: trim_space_id graphic_not_space)
  then show ?thesis
    by (simp add: build_execution_plan_def sample_decision_def zero_decision_def zero_plan_def zero_report_def
        is_safe_relative_path_def is_safe_work_dir_def has_traversal_component_def path_fields_def is_abs_def
        volume_name_def slice_of_def Let_def)
qed


end
