(* ===== verification/Council_Workflow.thy ===== *)
theory Council_Workflow
  imports Council_Engine
begin

text \<open>
  \<open>internal/council/workflow.go\<close>: the fixed sequence of stages around the engine, with the
  progress callback that reports each stage. The order of the proposers' calls and the
  interleaving of the reviewers are arguments; a deliberation whose review schedule stops
  before every reviewer is done has no result yet (\<open>None\<close>).
\<close>

section \<open>The workflow\<close>

record 'w workflow =
  wk_Engine :: "'w engine option"
  wk_Proposers :: "seat list"
  wk_Reviewers :: "seat list"
  wk_Judge :: seat
  wk_RedTeam :: seat

definition new_workflow ::
  "'w engine option \<Rightarrow> seat list \<Rightarrow> seat list \<Rightarrow> seat \<Rightarrow> seat \<Rightarrow> 'w workflow" where
  "new_workflow E proposers reviewers jd rt = \<lparr>wk_Engine = E, wk_Proposers = proposers,
     wk_Reviewers = reviewers, wk_Judge = jd, wk_RedTeam = rt\<rparr>"

type_synonym 'w progress = "string \<Rightarrow> 'w \<Rightarrow> go_error option \<times> 'w"

definition stages :: "string list" where
  "stages = [''ANALYZING'', ''PROPOSING'', ''REVIEWING'', ''JUDGING'', ''REDTEAM'']"

text \<open>\<open>Analyze\<close> on a possibly nil workflow; the engine it checks for.\<close>

definition analyze :: "'w workflow option \<Rightarrow> string \<Rightarrow> 'w engine result" where
  "analyze W requirement =
     (case W of
        None \<Rightarrow> Inl (Err ''council engine is required'')
      | Some k \<Rightarrow>
          (case wk_Engine k of
             None \<Rightarrow> Inl (Err ''council engine is required'')
           | Some E \<Rightarrow>
               if requirement = [] then Inl (Err ''requirement is required'')
               else if wk_Proposers k = [] \<or> wk_Reviewers k = [] \<or> se_ID (wk_Judge k) = [] \<or>
                 se_ID (wk_RedTeam k) = [] then Inl (Err ''council workflow seats are incomplete'')
               else Inr E))"

definition report :: "'w progress option \<Rightarrow> string \<Rightarrow> ('w, unit) prog" where
  "report progress stage w =
     (case progress of
        None \<Rightarrow> (Inr (), w)
      | Some f \<Rightarrow> (case f stage w of (Some e, w1) \<Rightarrow> (Inl e, w1) | (None, w1) \<Rightarrow> (Inr (), w1)))"

definition plan_of :: "council_decision \<Rightarrow> red_team_report \<Rightarrow> ('w, execution_plan) prog" where
  "plan_of d r w = (build_execution_plan d r None, w)"

text \<open>The stages up to the proposals, and those after the reviews.\<close>

definition open_stages ::
  "'w workflow \<Rightarrow> 'w engine \<Rightarrow> task_brief \<Rightarrow> 'w progress option \<Rightarrow> nat list \<Rightarrow>
   ('w, proposal generated list) prog" where
  "open_stages k E brief progress order =
     bindE (report progress ''ANALYZING'') (\<lambda>_.
     bindE (propose E brief (wk_Proposers k) order) (\<lambda>proposals.
     bindE (report progress ''PROPOSING'') (\<lambda>_. returnE proposals)))"

definition close_stages ::
  "'w workflow \<Rightarrow> 'w engine \<Rightarrow> 'w progress option \<Rightarrow> proposal generated list \<Rightarrow>
   peer_review generated list \<Rightarrow> ('w, execution_plan) prog" where
  "close_stages k E progress proposals reviews =
     bindE (report progress ''REVIEWING'') (\<lambda>_.
     bindE (judge E proposals reviews (wk_Judge k)) (\<lambda>decision.
     bindE (report progress ''JUDGING'') (\<lambda>_.
     bindE (red_team E (gn_Value decision) (wk_RedTeam k)) (\<lambda>rt.
     bindE (report progress ''REDTEAM'') (\<lambda>_. plan_of (gn_Value decision) (gn_Value rt))))))"

definition deliberate_progress ::
  "'w workflow option \<Rightarrow> task_brief \<Rightarrow> 'w progress option \<Rightarrow> nat list \<Rightarrow> nat list \<Rightarrow> 'w \<Rightarrow>
   (execution_plan result \<times> 'w) option" where
  "deliberate_progress W brief progress order schedule w =
     (case analyze W (tb_Requirement brief) of
        Inl e \<Rightarrow> Some (Inl e, w)
      | Inr E \<Rightarrow>
          (case open_stages (the W) E brief progress order w of
             (Inl e, w1) \<Rightarrow> Some (Inl e, w1)
           | (Inr proposals, w1) \<Rightarrow>
               (case review E proposals (wk_Reviewers (the W)) schedule w1 of
                  None \<Rightarrow> None
                | Some (Inl e, w2) \<Rightarrow> Some (Inl e, w2)
                | Some (Inr reviews, w2) \<Rightarrow> Some (close_stages (the W) E progress proposals reviews w2))))"

definition brief_of :: "string \<Rightarrow> workspace_file list \<Rightarrow> task_brief" where
  "brief_of requirement files = \<lparr>tb_Requirement = requirement, tb_Constraints = None, tb_Acceptance = None,
     tb_WorkspaceFacts = None, tb_WorkspaceFiles = slice_of files\<rparr>"

definition deliberate ::
  "'w workflow option \<Rightarrow> string \<Rightarrow> nat list \<Rightarrow> nat list \<Rightarrow> 'w \<Rightarrow> (execution_plan result \<times> 'w) option" where
  "deliberate W requirement = deliberate_progress W (brief_of requirement []) None"

definition deliberate_with_progress ::
  "'w workflow option \<Rightarrow> string \<Rightarrow> 'w progress \<Rightarrow> nat list \<Rightarrow> nat list \<Rightarrow> 'w \<Rightarrow>
   (execution_plan result \<times> 'w) option" where
  "deliberate_with_progress W requirement progress =
     deliberate_progress W (brief_of requirement []) (Some progress)"

definition deliberate_with_workspace ::
  "'w workflow option \<Rightarrow> string \<Rightarrow> workspace_file list \<Rightarrow> nat list \<Rightarrow> nat list \<Rightarrow> 'w \<Rightarrow>
   (execution_plan result \<times> 'w) option" where
  "deliberate_with_workspace W requirement files = deliberate_progress W (brief_of requirement files) None"

definition deliberate_with_workspace_progress ::
  "'w workflow option \<Rightarrow> string \<Rightarrow> workspace_file list \<Rightarrow> 'w progress option \<Rightarrow> nat list \<Rightarrow> nat list \<Rightarrow> 'w \<Rightarrow>
   (execution_plan result \<times> 'w) option" where
  "deliberate_with_workspace_progress W requirement files progress =
     deliberate_progress W (brief_of requirement files) progress"

definition review_execution :: "verification_report \<Rightarrow> unit result" where
  "review_execution r = (if vr_Passed r then Inr () else Inl (Err ''verification failed''))"

section \<open>Calls of the models leave the log alone\<close>

text \<open>A log of reported stages that the models do not write to.\<close>

definition models_keep :: "('w \<Rightarrow> 'l) \<Rightarrow> 'w engine \<Rightarrow> bool" where
  "models_keep log E \<longleftrightarrow>
     (\<forall>name p q w. engine_provider E name = Inr p \<longrightarrow> log (snd (mp_Generate p q w)) = log w)"

lemma models_keepD:
  "models_keep log E \<Longrightarrow> engine_provider E name = Inr p \<Longrightarrow> mp_Generate p q w = (r, w1) \<Longrightarrow> log w1 = log w"
  unfolding models_keep_def by (metis snd_conv)

lemma propose_seat_keeps:
  "models_keep log E \<Longrightarrow> propose_seat E brief s w = (r, w1) \<Longrightarrow> log w1 = log w"
  by (auto simp: propose_seat_def dest: models_keepD split: sum.splits prod.splits option.splits)

lemma propose_run_keeps:
  "models_keep log E \<Longrightarrow> propose_run E brief seats order (rs, es, w) = (rs', es', w1) \<Longrightarrow> log w1 = log w"
proof (induction order arbitrary: rs es w)
  case (Cons i order)
  obtain r w2 where s: "propose_seat E brief (seats ! i) w = (r, w2)" by fastforce
  from Cons.prems s have "log w1 = log w2" by (cases r) (auto intro: Cons.IH split: prod.splits)
  with propose_seat_keeps [OF Cons.prems(1) s] show ?case by simp
qed simp

lemma propose_keeps: "models_keep log E \<Longrightarrow> propose E brief seats order w = (r, w1) \<Longrightarrow> log w1 = log w"
  by (auto simp: propose_def Let_def dest: propose_run_keeps split: if_splits sum.splits prod.splits option.splits)

lemma review_call_keeps: "models_keep log E \<Longrightarrow> review_call E ps r off pi w = (k, w1) \<Longrightarrow> log w1 = log w"
  by (auto simp: review_call_def dest: models_keepD split: if_splits sum.splits prod.splits option.splits)

lemma review_step_keeps:
  assumes "models_keep log E"
  shows "log (rs_world (review_step E ps rs ri st)) = log (rs_world st)"
  using review_call_keeps [OF assms] by (auto simp: review_step_def split: worker.splits prod.splits)

lemma review_keeps:
  assumes "models_keep log E" "review E ps rs sched w = Some (r, w1)"
  shows "log w1 = log w"
proof -
  have "log (rs_world (fold (review_step E ps rs) sched st)) = log (rs_world st)" for st
    by (induction sched arbitrary: st) (simp_all add: review_step_keeps [OF assms(1)])
  then have "log (rs_world (review_run E ps rs sched w)) = log w"
    by (simp add: review_run_def review_start_def)
  with assms(2) show ?thesis by (auto simp: review_def Let_def split: if_splits option.splits)
qed

lemma judge_keeps: "models_keep log E \<Longrightarrow> judge E ps rvs s w = (r, w1) \<Longrightarrow> log w1 = log w"
  by (auto simp: judge_def split: if_splits sum.splits prod.splits bool.splits) (metis models_keepD)+

lemma red_team_keeps: "models_keep log E \<Longrightarrow> red_team E d s w = (r, w1) \<Longrightarrow> log w1 = log w"
  by (auto simp: red_team_def dest: models_keepD split: sum.splits prod.splits option.splits)

lemmas engine_keeps = propose_keeps review_keeps judge_keeps red_team_keeps

section \<open>Progress\<close>

definition logs_stage :: "('w \<Rightarrow> string list) \<Rightarrow> 'w progress \<Rightarrow> bool" where
  "logs_stage log f \<longleftrightarrow> (\<forall>s w. log (snd (f s w)) = log w @ [s])"

lemma report_logs:
  "logs_stage log f \<Longrightarrow> report (Some f) s w = (r, w1) \<Longrightarrow> log w1 = log w @ [s]"
  by (auto simp: logs_stage_def report_def split: prod.splits option.splits dest!: spec [of _ s] spec [of _ w])

text \<open>The stages reported between two worlds.\<close>

definition reported :: "('w \<Rightarrow> string list) \<Rightarrow> 'w \<Rightarrow> 'w \<Rightarrow> string list \<Rightarrow> bool" where
  "reported log w w1 ss \<longleftrightarrow> log w1 = log w @ ss"

lemma open_stages_log:
  assumes "models_keep log E" "logs_stage log f" "open_stages k E brief (Some f) order w = (r, w1)"
  shows "\<exists>j\<le>2. reported log w w1 (take j stages) \<and> (\<forall>ps. r = Inr ps \<longrightarrow> j = 2)"
proof -
  obtain r1 a where s1: "report (Some f) ''ANALYZING'' w = (r1, a)" by fastforce
  obtain r2 b where s2: "propose E brief (wk_Proposers k) order a = (r2, b)" by fastforce
  obtain r3 c where s3: "report (Some f) ''PROPOSING'' b = (r3, c)" by fastforce
  note l = report_logs [OF assms(2) s1] propose_keeps [OF assms(1) s2] report_logs [OF assms(2) s3]
  show ?thesis
  proof (cases "(\<exists>e. r1 = Inl e) \<or> (\<exists>e. r2 = Inl e)")
    case True
    with assms(3) s1 s2 l show ?thesis
      by (intro exI [of _ 1])
        (auto simp: open_stages_def bindE_def reported_def stages_def split: sum.splits)
  next
    case False
    then obtain x y where "r1 = Inr x" "r2 = Inr y" by (cases r1; cases r2) auto
    with assms(3) s1 s2 s3 l show ?thesis
      by (intro exI [of _ 2])
        (auto simp: open_stages_def bindE_def returnE_def reported_def stages_def numeral_eq_Suc split: sum.splits)
  qed
qed

lemma close_stages_log:
  assumes "models_keep log E" "logs_stage log f" "close_stages k E (Some f) ps rvs w = (r, w1)"
  shows "\<exists>j\<le>3. reported log w w1 (take j (drop 2 stages)) \<and>
    (\<forall>plan. r = Inr plan \<longrightarrow> j = 3 \<and> (\<exists>d rt. build_execution_plan d rt None = Inr plan))"
proof -
  obtain r1 a where s1: "report (Some f) ''REVIEWING'' w = (r1, a)" by fastforce
  obtain r2 b where s2: "judge E ps rvs (wk_Judge k) a = (r2, b)" by fastforce
  obtain r3 c where s3: "report (Some f) ''JUDGING'' b = (r3, c)" by fastforce
  note l = report_logs [OF assms(2) s1] judge_keeps [OF assms(1) s2] report_logs [OF assms(2) s3]
  show ?thesis
  proof (cases r1)
    case (Inl e)
    with assms(3) s1 l show ?thesis
      by (intro exI [of _ 1]) (auto simp: close_stages_def bindE_def reported_def stages_def numeral_eq_Suc)
  next
    case 1: (Inr x1)
    show ?thesis
    proof (cases r2)
      case (Inl e)
      with assms(3) s1 s2 l 1 show ?thesis
        by (intro exI [of _ 1]) (auto simp: close_stages_def bindE_def reported_def stages_def numeral_eq_Suc)
    next
      case 2: (Inr d)
      obtain r4 u where s4: "red_team E (gn_Value d) (wk_RedTeam k) c = (r4, u)" by fastforce
      obtain r5 v where s5: "report (Some f) ''REDTEAM'' u = (r5, v)" by fastforce
      note l2 = red_team_keeps [OF assms(1) s4] report_logs [OF assms(2) s5]
      show ?thesis
      proof (cases "(\<exists>e. r3 = Inl e) \<or> (\<exists>e. r4 = Inl e)")
        case True
        with assms(3) s1 s2 s3 s4 l l2 1 2 show ?thesis
          by (intro exI [of _ 2])
            (auto simp: close_stages_def bindE_def reported_def stages_def numeral_eq_Suc split: sum.splits)
      next
        case False
        then obtain x3 rt where "r3 = Inr x3" "r4 = Inr rt" by (cases r3; cases r4) auto
        with assms(3) s1 s2 s3 s4 s5 l l2 1 2 show ?thesis
          by (intro exI [of _ 3])
            (auto simp: close_stages_def bindE_def plan_of_def reported_def stages_def numeral_eq_Suc split: sum.splits)
      qed
    qed
  qed
qed

text \<open>
  Deliberation keeps its order: whatever the models and the callback do, the stages
  reported are a prefix of ANALYZING, PROPOSING, REVIEWING, JUDGING, REDTEAM, each at most
  once and none skipped; a plan comes out only after all five were reported, and only one
  that \<open>BuildExecutionPlan\<close> let through.
\<close>

theorem stages_in_order:
  assumes "analyze W (tb_Requirement brief) = Inr E" "models_keep log E" "logs_stage log f"
    and "deliberate_progress W brief (Some f) order schedule w = Some (r, w')"
  shows "\<exists>k\<le>5. log w' = log w @ take k stages \<and>
    (\<forall>plan. r = Inr plan \<longrightarrow> k = 5 \<and> (\<exists>d rt. build_execution_plan d rt None = Inr plan))"
proof -
  let ?k = "the W"
  obtain r1 a where s1: "open_stages ?k E brief (Some f) order w = (r1, a)" by fastforce
  obtain j where j: "j \<le> 2" "reported log w a (take j stages)" "\<forall>ps. r1 = Inr ps \<longrightarrow> j = 2"
    using open_stages_log [OF assms(2,3) s1] by blast
  show ?thesis
  proof (cases r1)
    case (Inl e)
    with assms(1,4) s1 j show ?thesis
      by (intro exI [of _ j]) (auto simp: deliberate_progress_def reported_def)
  next
    case (Inr ps)
    then have j2: "j = 2" using j by simp
    obtain q b where s2: "review E ps (wk_Reviewers ?k) schedule a = Some (q, b)"
      using assms(1,4) s1 Inr by (cases "review E ps (wk_Reviewers ?k) schedule a") (auto simp: deliberate_progress_def)
    have b: "log b = log a" by (rule review_keeps [OF assms(2) s2])
    show ?thesis
    proof (cases q)
      case (Inl e)
      with assms(1,4) s1 s2 j j2 b \<open>r1 = Inr ps\<close> show ?thesis
        by (intro exI [of _ 2]) (auto simp: deliberate_progress_def reported_def)
    next
      case (Inr rvs)
      have s3: "close_stages ?k E (Some f) ps rvs b = (r, w')"
        using assms(1,4) s1 s2 \<open>r1 = Inr ps\<close> Inr by (simp add: deliberate_progress_def)
      obtain i where i: "i \<le> 3" "reported log b w' (take i (drop 2 stages))"
        "\<forall>plan. r = Inr plan \<longrightarrow> i = 3 \<and> (\<exists>d rt. build_execution_plan d rt None = Inr plan)"
        using close_stages_log [OF assms(2,3) s3] by blast
      have "take (2 + i) stages = take 2 stages @ take i (drop 2 stages)" by (rule take_add)
      with i j j2 b show ?thesis by (intro exI [of _ "2 + i"]) (auto simp: reported_def)
    qed
  qed
qed

definition sample_workflow :: "string list workflow" where
  "sample_workflow = new_workflow (Some sample_engine) sample_reviewers sample_reviewers
     (sample_seat ''j'' ''m'') (sample_seat ''t'' ''m'')"

definition sample_progress :: "string list progress" where
  "sample_progress s w = (None, w @ [s])"

lemma sample_open:
  "\<exists>ps. open_stages sample_workflow sample_engine (brief_of ''x'' []) (Some sample_progress) [1, 0] [] =
     (Inr ps, [''ANALYZING'', ''PROPOSING'']) \<and> length ps = 2"
proof -
  have s: "propose_seat sample_engine b (sample_seat i ''m'') w = (Inr (zero_proposal, zero_usage), w)" for b i w
    by (simp add: propose_seat_def sample_provider sample_seat_def) (simp add: sample_engine_def)
  have r: "ce_registry sample_engine \<noteq> None" by (simp add: sample_engine_def)
  show ?thesis
    using r by (simp add: open_stages_def propose_def sample_workflow_def new_workflow_def sample_reviewers_def s
        brief_of_def slice_of_def validate_workspace_files_def report_def sample_progress_def bindE_def
        returnE_def Let_def)
qed

theorem stages_in_order_witness:
  "\<exists>r w'. deliberate_progress (Some sample_workflow) (brief_of ''x'' []) (Some sample_progress) [1, 0]
      sample_schedule [] = Some (r, w') \<and>
    (\<exists>k\<le>5. w' = take k [''ANALYZING'', ''PROPOSING'', ''REVIEWING'', ''JUDGING'', ''REDTEAM''])"
proof -
  let ?D = "deliberate_progress (Some sample_workflow) (brief_of ''x'' []) (Some sample_progress) [1, 0]
      sample_schedule []"
  have an: "analyze (Some sample_workflow) (tb_Requirement (brief_of ''x'' [])) = Inr sample_engine"
    by (simp add: analyze_def sample_workflow_def new_workflow_def brief_of_def sample_reviewers_def sample_seat_def)
  have keep: "models_keep (\<lambda>w. w) sample_engine"
    by (auto simp: models_keep_def engine_provider_def sample_engine_def registry_get_def new_registry_def
        split: if_splits)
  have logs: "logs_stage (\<lambda>w. w) sample_progress" by (simp add: logs_stage_def sample_progress_def)
  obtain ps where ps: "open_stages sample_workflow sample_engine (brief_of ''x'' []) (Some sample_progress) [1, 0] [] =
      (Inr ps, [''ANALYZING'', ''PROPOSING''])" "length ps = 2"
    using sample_open by blast
  have "review sample_engine ps (wk_Reviewers sample_workflow) sample_schedule [''ANALYZING'', ''PROPOSING''] \<noteq> None"
    by (rule review_finishes)
      (simp add: sample_workflow_def new_workflow_def sample_reviewers_def sample_schedule_def ps less_Suc_eq)
  then obtain r w' where D: "?D = Some (r, w')"
    using an ps(1) by (cases ?D) (auto simp: deliberate_progress_def split: option.splits sum.splits prod.splits)
  from stages_in_order [OF an keep logs D] D show ?thesis by (auto simp: stages_def)
qed

end
