(* ===== verification/Base64.thy ===== *)
theory Base64
  imports Go_Strings
begin

text \<open>
  \<open>encoding/base64\<close> without padding, for the two alphabets the repository uses:
  \<open>RawStdEncoding\<close> (password hashes) and \<open>RawURLEncoding\<close> (access tokens). The decoder is the
  library's lenient one: it skips line breaks and ignores left-over bits of the last group.
\<close>

section \<open>Encoding\<close>

abbreviation code :: "char \<Rightarrow> nat" where "code c \<equiv> of_char c"

definition alnum_chars :: string where
  "alnum_chars = ''ABCDEFGHIJKLMNOPQRSTUVWXYZabcdefghijklmnopqrstuvwxyz0123456789''"

definition std_alphabet :: string where "std_alphabet = alnum_chars @ ''+/''"

definition url_alphabet :: string where "url_alphabet = alnum_chars @ ''-_''"

fun b64_encode :: "string \<Rightarrow> string \<Rightarrow> string" where
  "b64_encode al [] = []"
| "b64_encode al [a] = [al ! (code a div 4), al ! (code a mod 4 * 16)]"
| "b64_encode al [a, b] =
     [al ! (code a div 4), al ! (code a mod 4 * 16 + code b div 16), al ! (code b mod 16 * 4)]"
| "b64_encode al (a # b # c # rest) =
     al ! (code a div 4) # al ! (code a mod 4 * 16 + code b div 16) #
     al ! (code b mod 16 * 4 + code c div 64) # al ! (code c mod 64) # b64_encode al rest"

definition encoded_len :: "nat \<Rightarrow> nat" where
  "encoded_len n = n div 3 * 4 + (n mod 3 * 8 + 5) div 6"

section \<open>Decoding\<close>

fun position :: "string \<Rightarrow> char \<Rightarrow> nat option" where
  "position [] c = None"
| "position (x # xs) c = (if x = c then Some 0 else map_option Suc (position xs c))"

fun b64_groups :: "nat option list \<Rightarrow> string option" where
  "b64_groups [] = Some []"
| "b64_groups [Some a, Some b] = Some [char_of (a * 4 + b div 16)]"
| "b64_groups [Some a, Some b, Some c] =
     Some [char_of (a * 4 + b div 16), char_of (b mod 16 * 16 + c div 4)]"
| "b64_groups (Some a # Some b # Some c # Some d # rest) =
     map_option (\<lambda>t. char_of (a * 4 + b div 16) # char_of (b mod 16 * 16 + c div 4) #
       char_of (c mod 4 * 64 + d) # t) (b64_groups rest)"
| "b64_groups _ = None"

definition b64_decode :: "string \<Rightarrow> string \<Rightarrow> string option" where
  "b64_decode al s = b64_groups (map (position al) (filter (\<lambda>c. c \<noteq> CHR 0x0A \<and> c \<noteq> CHR 0x0D) s))"

section \<open>Round trip\<close>

lemma position_nth: "distinct al \<Longrightarrow> n < length al \<Longrightarrow> position al (al ! n) = Some n"
proof (induction al arbitrary: n)
  case (Cons x xs)
  then show ?case by (cases n) (auto dest: nth_mem)
qed simp

lemma encoded_len_3: "encoded_len (Suc (Suc (Suc n))) = 4 + encoded_len n"
proof -
  have "Suc (Suc (Suc n)) div 3 = Suc (n div 3)" "Suc (Suc (Suc n)) mod 3 = n mod 3"
    by presburger+
  then show ?thesis by (simp only: encoded_len_def) simp
qed

lemma length_b64_encode: "length (b64_encode al s) = encoded_len (length s)"
  by (induction al s rule: b64_encode.induct) (simp_all add: encoded_len_3, simp_all add: encoded_len_def)

text \<open>The properties of an alphabet the round trip needs.\<close>

definition alphabet :: "string \<Rightarrow> bool" where
  "alphabet al \<longleftrightarrow> length al = 64 \<and> distinct al \<and> CHR 0x0A \<notin> set al \<and> CHR 0x0D \<notin> set al"

lemma std_alphabet: "alphabet std_alphabet"
  by (simp add: alphabet_def std_alphabet_def alnum_chars_def)

lemma url_alphabet: "alphabet url_alphabet"
  by (simp add: alphabet_def url_alphabet_def alnum_chars_def)

lemma bytes_high: "code c div 4 < 64" "code c div 16 < 16" "code c div 64 < 4"
  using nat_of_char_less_256 [of c] by (simp_all add: less_mult_imp_div_less del: nat_of_char_less_256)

lemma sextets:
  "k < 16 \<Longrightarrow> x mod 4 * 16 + k < (64 :: nat)" "k < 4 \<Longrightarrow> x mod 16 * 4 + k < (64 :: nat)"
  "x mod 4 * 16 < (64 :: nat)" "x mod 16 * 4 < (64 :: nat)"
proof -
  have "x mod 4 \<le> 3" "x mod 16 \<le> 15"
    using mod_less_divisor [of 4 x] mod_less_divisor [of 16 x] by linarith+
  then show "k < 16 \<Longrightarrow> x mod 4 * 16 + k < 64" "k < 4 \<Longrightarrow> x mod 16 * 4 + k < 64"
    "x mod 4 * 16 < (64 :: nat)" "x mod 16 * 4 < (64 :: nat)" by linarith+
qed

lemma octets:
  fixes x :: nat
  shows "k < 16 \<Longrightarrow> x div 4 * 4 + (x mod 4 * 16 + k) div 16 = x" "x div 4 * 4 + x mod 4 * 16 div 16 = x"
    "k < 4 \<Longrightarrow> x div 16 mod 16 * 16 + (x mod 16 * 4 + k) div 4 = x div 16 mod 16 * 16 + x mod 16"
    "x div 64 * 64 + x mod 64 = x"
  by simp_all

lemmas groups_simps = bytes_high sextets octets

lemma b64_groups_encode:
  assumes "alphabet al"
  shows "b64_groups (map (position al) (b64_encode al s)) = Some s"
  using assms
proof (induction al s rule: b64_encode.induct)
    case (2 al a)
    have pos: "position al (al ! n) = Some n" if "n < 64" for n
      using 2 that by (intro position_nth) (auto simp: alphabet_def)
    show ?case by (simp add: pos groups_simps)
  next
    case (3 al a b)
    have pos: "position al (al ! n) = Some n" if "n < 64" for n
      using 3 that by (intro position_nth) (auto simp: alphabet_def)
    show ?case by (simp add: pos groups_simps)
  next
    case (4 al a b c rest)
    have pos: "position al (al ! n) = Some n" if "n < 64" for n
      using 4 that by (intro position_nth) (auto simp: alphabet_def)
    from 4 show ?case by (simp add: pos groups_simps)
qed simp

lemma set_b64_encode:
  assumes "alphabet al"
  shows "set (b64_encode al s) \<subseteq> set al"
  using assms
proof (induction al s rule: b64_encode.induct)
  case (2 al a)
  then have el: "al ! n \<in> set al" if "n < 64" for n using that by (simp add: alphabet_def)
  show ?case by (simp add: el groups_simps)
next
  case (3 al a b)
  then have el: "al ! n \<in> set al" if "n < 64" for n using that by (simp add: alphabet_def)
  show ?case by (simp add: el groups_simps)
next
  case (4 al a b c rest)
  then have el: "al ! n \<in> set al" if "n < 64" for n using that by (simp add: alphabet_def)
  with 4 show ?case by (simp add: el groups_simps)
qed simp

lemma b64_round_trip:
  assumes "alphabet al"
  shows "b64_decode al (b64_encode al s) = Some s"
proof -
  have "filter (\<lambda>c. c \<noteq> CHR 0x0A \<and> c \<noteq> CHR 0x0D) (b64_encode al s) = b64_encode al s"
    using set_b64_encode [OF assms, of s] assms by (intro filter_True) (auto simp: alphabet_def)
  then show ?thesis by (simp add: b64_decode_def b64_groups_encode [OF assms])
qed

lemma b64_encode_inject: "alphabet al \<Longrightarrow> b64_encode al s = b64_encode al t \<longleftrightarrow> s = t"
  by (metis b64_round_trip option.inject)

end
