(* ===== verification/Password.thy ===== *)
theory Password
  imports Base64
begin

text \<open>
  \<open>internal/security/rbac/password.go\<close>: the PHC strings of password hashes. The Argon2id
  function of \<open>golang.org/x/crypto\<close> is the parameter \<open>kdf\<close>, applied to the password, the
  salt, the time, memory and thread counts and the key length; the salt is an argument.
\<close>

section \<open>Hashing\<close>

type_synonym kdf = "string \<Rightarrow> string \<Rightarrow> nat \<Rightarrow> nat \<Rightarrow> nat \<Rightarrow> nat \<Rightarrow> string"

definition argon_version :: nat where "argon_version = 19"

abbreviation dollar :: char where "dollar \<equiv> CHR ''$''"

definition params_field :: "nat \<Rightarrow> nat \<Rightarrow> nat \<Rightarrow> string" where
  "params_field m t p = ''m='' @ show_nat m @ '',t='' @ show_nat t @ '',p='' @ show_nat p"

text \<open>\<open>salt\<close> is what \<open>rand.Read\<close> filled in, or its error.\<close>

definition hash_password :: "kdf \<Rightarrow> string result \<Rightarrow> string \<Rightarrow> string result" where
  "hash_password kdf salt password =
     (case salt of
        Inl e \<Rightarrow> Inl (Wrap ''generate password salt: '' e)
      | Inr sl \<Rightarrow>
          Inr (''$argon2id$v='' @ show_nat argon_version @ [dollar] @ params_field 65536 1 4 @ [dollar] @
            b64_encode std_alphabet sl @ [dollar] @
            b64_encode std_alphabet (kdf password sl 1 65536 4 32)))"

section \<open>Verification\<close>

text \<open>A decimal field in canonical form: no sign, no leading zero, within \<open>bits\<close> bits.\<close>

definition parse_phc_uint :: "string \<Rightarrow> string \<Rightarrow> nat \<Rightarrow> nat option" where
  "parse_phc_uint field pre bits =
     (case cut_prefix field pre of
        None \<Rightarrow> None
      | Some raw \<Rightarrow>
          if raw = [] then None
          else case parse_digits 0 raw of
            None \<Rightarrow> None
          | Some n \<Rightarrow> if n \<ge> 2 ^ bits \<or> show_nat n \<noteq> raw then None else Some n)"

definition decode_phc_base64 :: "string \<Rightarrow> nat \<Rightarrow> string option" where
  "decode_phc_base64 field max_len =
     (if field = [] \<or> length field > encoded_len max_len then None
      else case b64_decode std_alphabet field of
        None \<Rightarrow> None
      | Some d \<Rightarrow> if d = [] \<or> length d > max_len \<or> b64_encode std_alphabet d \<noteq> field then None else Some d)"

record phc =
  ph_memory :: nat
  ph_iterations :: nat
  ph_threads :: nat
  ph_salt :: string
  ph_want :: string

text \<open>The checks of \<open>VerifyPassword\<close> up to the comparison; \<open>None\<close> is \<open>ErrInvalidPassword\<close>.\<close>

definition parse_params :: "string \<Rightarrow> (nat \<times> nat \<times> nat) option" where
  "parse_params field =
     (case split_on CHR '','' field of
        [a, b, c] \<Rightarrow>
          (case (parse_phc_uint a ''m='' 32, parse_phc_uint b ''t='' 32, parse_phc_uint c ''p='' 8) of
             (Some m, Some t, Some p) \<Rightarrow>
               if m = 0 \<or> m > 65536 \<or> t = 0 \<or> t > 10 \<or> p = 0 \<or> p > 16 then None else Some (m, t, p)
           | _ \<Rightarrow> None)
      | _ \<Rightarrow> None)"

definition parse_phc :: "string \<Rightarrow> phc option" where
  "parse_phc encoded =
     (case split_on dollar encoded of
        [_, alg, version, params, salt, want] \<Rightarrow>
          if alg \<noteq> ''argon2id'' \<or> parse_phc_uint version ''v='' 32 \<noteq> Some argon_version then None
          else (case (parse_params params, decode_phc_base64 salt 64, decode_phc_base64 want 64) of
             (Some (m, t, p), Some s, Some w) \<Rightarrow>
               Some \<lparr>ph_memory = m, ph_iterations = t, ph_threads = p, ph_salt = s, ph_want = w\<rparr>
           | _ \<Rightarrow> None)
      | _ \<Rightarrow> None)"

definition verify_password :: "kdf \<Rightarrow> string \<Rightarrow> string \<Rightarrow> unit result" where
  "verify_password kdf encoded password =
     (case parse_phc encoded of
        None \<Rightarrow> Inl (Sent ErrInvalidPassword)
      | Some h \<Rightarrow>
          if kdf password (ph_salt h) (ph_iterations h) (ph_memory h) (ph_threads h) (length (ph_want h)) = ph_want h
          then Inr () else Inl (Sent ErrInvalidPassword))"

section \<open>Bounds\<close>

lemma parse_params_bounds:
  "parse_params field = Some (m, t, p) \<Longrightarrow> 0 < m \<and> m \<le> 65536 \<and> 0 < t \<and> t \<le> 10 \<and> 0 < p \<and> p \<le> 16"
  by (auto simp: parse_params_def split: list.splits option.splits if_splits)

lemma decode_phc_bounds: "decode_phc_base64 field n = Some d \<Longrightarrow> d \<noteq> [] \<and> length d \<le> n"
  by (auto simp: decode_phc_base64_def split: option.splits if_splits)

lemma parse_phc_bounds:
  "parse_phc s = Some h \<Longrightarrow>
     0 < ph_memory h \<and> ph_memory h \<le> 65536 \<and> 0 < ph_iterations h \<and> ph_iterations h \<le> 10 \<and>
     0 < ph_threads h \<and> ph_threads h \<le> 16 \<and> ph_salt h \<noteq> [] \<and> length (ph_salt h) \<le> 64 \<and>
     ph_want h \<noteq> [] \<and> length (ph_want h) \<le> 64"
  by (auto simp: parse_phc_def split: list.splits option.splits if_splits prod.splits
      dest!: parse_params_bounds decode_phc_bounds)

section \<open>Round trip\<close>

lemma parse_phc_uint_show: "n < 2 ^ bits \<Longrightarrow> parse_phc_uint (pre @ show_nat n) pre bits = Some n"
  by (simp add: parse_phc_uint_def cut_prefix_def parse_show_nat)

lemma show_nat_plain: "CHR '','' \<notin> set (show_nat n)" "dollar \<notin> set (show_nat n)"
proof -
  have "c \<noteq> CHR '',''" "c \<noteq> dollar" if "c \<in> set (show_nat n)" for c
    using set_show_nat [OF that] digit_char_ASCII by (auto dest!: arg_cong [where f = "of_char :: char \<Rightarrow> nat"])
  then show "CHR '','' \<notin> set (show_nat n)" "dollar \<notin> set (show_nat n)" by blast+
qed

lemma parse_params_field:
  assumes "0 < m" "m \<le> 65536" "0 < t" "t \<le> 10" "0 < p" "p \<le> 16"
  shows "parse_params (params_field m t p) = Some (m, t, p)"
proof -
  have "split_on CHR '','' (params_field m t p) = [''m='' @ show_nat m, ''t='' @ show_nat t, ''p='' @ show_nat p]"
    using split_on_append [of "CHR '',''" "''m='' @ show_nat m" "''t='' @ show_nat t @ '','' @ ''p='' @ show_nat p"]
      split_on_append [of "CHR '',''" "''t='' @ show_nat t" "''p='' @ show_nat p"]
      split_on_id [of "CHR '',''" "''p='' @ show_nat p"]
    by (simp add: params_field_def show_nat_plain)
  moreover have "parse_phc_uint (''m='' @ show_nat m) ''m='' 32 = Some m"
    "parse_phc_uint (''t='' @ show_nat t) ''t='' 32 = Some t"
    "parse_phc_uint (''p='' @ show_nat p) ''p='' 8 = Some p"
    using assms by (intro parse_phc_uint_show; simp)+
  ultimately show ?thesis using assms by (simp add: parse_params_def)
qed

lemma decode_phc_encode:
  assumes "s \<noteq> []" "length s \<le> 64"
  shows "decode_phc_base64 (b64_encode std_alphabet s) 64 = Some s"
proof -
  have "encoded_len (length s) \<le> encoded_len 64"
  proof -
    have "length s mod 3 = 0 \<or> length s mod 3 = 1 \<or> length s mod 3 = 2" by linarith
    moreover have "length s = length s div 3 * 3 + length s mod 3" by simp
    ultimately show ?thesis using assms(2) unfolding encoded_len_def by (elim disjE) simp_all
  qed
  moreover have "b64_encode std_alphabet s \<noteq> []"
    using assms(1) length_b64_encode [of std_alphabet s]
    by (metis b64_encode.simps(1) b64_encode_inject std_alphabet)
  ultimately show ?thesis
    using assms by (simp add: decode_phc_base64_def b64_round_trip std_alphabet length_b64_encode)
qed

lemma b64_no_dollar: "dollar \<notin> set (b64_encode std_alphabet s)"
  using set_b64_encode [OF std_alphabet, of s] by (auto simp: std_alphabet_def alnum_chars_def)

lemma parse_phc_hash:
  assumes "hash_password kdf (Inr salt) pw = Inr enc" "salt \<noteq> []" "length salt \<le> 64"
    and "kdf pw salt 1 65536 4 32 \<noteq> []" "length (kdf pw salt 1 65536 4 32) \<le> 64"
  shows "parse_phc enc = Some \<lparr>ph_memory = 65536, ph_iterations = 1, ph_threads = 4, ph_salt = salt,
    ph_want = kdf pw salt 1 65536 4 32\<rparr>"
proof -
  let ?v = "''v='' @ show_nat argon_version" and ?p = "params_field 65536 1 4"
  let ?s = "b64_encode std_alphabet salt" and ?w = "b64_encode std_alphabet (kdf pw salt 1 65536 4 32)"
  have p: "dollar \<notin> set ?p" by (auto simp: params_field_def show_nat_plain)
  have v: "dollar \<notin> set ?v" by (auto simp: show_nat_plain)
  have enc: "enc = [] @ dollar # ''argon2id'' @ dollar # ?v @ dollar # ?p @ dollar # ?s @ dollar # ?w"
    using assms(1) by (simp add: hash_password_def)
  have "split_on dollar enc = [[], ''argon2id'', ?v, ?p, ?s, ?w]"
    unfolding enc using p v b64_no_dollar
    by (simp only: split_on_append [where c = dollar] split_on_id [where c = dollar] list.set(1) empty_iff
        not_False_eq_True) (simp add: split_on_append split_on_id)
  moreover have "parse_phc_uint ?v ''v='' 32 = Some argon_version"
    by (intro parse_phc_uint_show) (simp add: argon_version_def)
  moreover have "parse_params ?p = Some (65536, 1, 4)" by (rule parse_params_field) simp_all
  ultimately show ?thesis using decode_phc_encode assms(2-5) by (simp add: parse_phc_def)
qed

text \<open>
  Passwords round-trip: for any random salt of up to 64 bytes, the string
  \<open>HashPassword\<close> produces is well formed, and \<open>VerifyPassword\<close> accepts exactly the passwords
  whose Argon2id key under that salt is the stored one, the password itself among them.
\<close>

theorem password_round_trip:
  assumes "hash_password kdf (Inr salt) pw = Inr enc" "salt \<noteq> []" "length salt \<le> 64"
    and "\<forall>q s t m p n. length (kdf q s t m p n) = n"
  shows "verify_password kdf enc pw = Inr () \<and>
    (verify_password kdf enc other = Inr () \<longleftrightarrow> kdf other salt 1 65536 4 32 = kdf pw salt 1 65536 4 32)"
proof -
  have len: "length (kdf pw salt 1 65536 4 32) = 32" using assms(4) by simp
  then have "parse_phc enc = Some \<lparr>ph_memory = 65536, ph_iterations = 1, ph_threads = 4, ph_salt = salt,
      ph_want = kdf pw salt 1 65536 4 32\<rparr>"
    by (intro parse_phc_hash [OF assms(1-3)]) auto
  with len show ?thesis by (simp add: verify_password_def)
qed

theorem password_round_trip_witness:
  "\<exists>enc. hash_password (\<lambda>q s t m p n. take n (q @ replicate n CHR ''0'')) (Inr ''salt'') ''secret'' = Inr enc \<and>
     verify_password (\<lambda>q s t m p n. take n (q @ replicate n CHR ''0'')) enc ''secret'' = Inr () \<and>
     verify_password (\<lambda>q s t m p n. take n (q @ replicate n CHR ''0'')) enc ''guess'' \<noteq> Inr ()"
proof -
  let ?k = "\<lambda>q s t m p n. take n (q @ replicate n CHR ''0'')"
  obtain enc where e: "hash_password ?k (Inr ''salt'') ''secret'' = Inr enc"
    by (simp add: hash_password_def)
  have k: "\<forall>q s t m p n. length (?k q s t m p n) = n" by (auto simp: min_def)
  have "take 32 (''guess'' @ replicate 32 CHR ''0'') \<noteq> take 32 (''secret'' @ replicate 32 CHR ''0'')"
    by (auto dest!: arg_cong [where f = hd])
  with password_round_trip [OF e _ _ k, of "''guess''"] e show ?thesis by auto
qed

text \<open>The parameters a stored string can ask for are bounded before the key is derived.\<close>

lemma verify_password_bounded:
  assumes "verify_password kdf enc pw = Inr ()"
  shows "\<exists>h. parse_phc enc = Some h \<and> ph_memory h \<le> 65536 \<and> ph_iterations h \<le> 10 \<and>
    ph_threads h \<le> 16 \<and> length (ph_salt h) \<le> 64 \<and> length (ph_want h) \<le> 64"
  using assms parse_phc_bounds by (auto simp: verify_password_def split: option.splits if_splits)

end
