(* ===== verification/Rbac_Service.thy ===== *)
theory Rbac_Service
  imports Storage Password
begin

text \<open>
  \<open>internal/security/rbac\<close>: \<open>service.go\<close>, \<open>token.go\<close> and \<open>catalog.go\<close>. Users, roles,
  permissions and access tokens live in the database; every operation is a program over it.
  SHA-256 (with its hex encoding), Argon2id, the clock and the random bytes are arguments.
\<close>

section \<open>Public representations\<close>

record identity =
  id_UserID :: string
  id_Subject :: string
  id_Roles :: "string list"
  id_Permissions :: "string list"
  id_ExpiresAt :: "timestamp option"

record managed_user =
  mu_Subject :: string
  mu_Disabled :: bool
  mu_Roles :: "string list"

record managed_role =
  mr_Name :: string
  mr_Permissions :: "string list"

text \<open>What the operations take from outside: the hash functions, the time and the random bytes
  of this call (a salt, a token and a token id).\<close>

record rbac_env =
  rb_sha :: "string \<Rightarrow> string"
  rb_kdf :: kdf
  rb_now :: timestamp
  rb_salt :: "string result"
  rb_token :: "string result"
  rb_id :: "string result"

section \<open>Queries\<close>

definition lift :: "'a result \<Rightarrow> ('db, 'a) prog" where
  "lift r s = (r, s)"

definition not_found :: "go_error \<Rightarrow> bool" where
  "not_found e \<longleftrightarrow> errors_is e RecordNotFound"

text \<open>The common treatment of a failed \<open>First\<close>.\<close>

definition or_unauthorized :: "string \<Rightarrow> ('db, 'a) prog \<Rightarrow> ('db, 'a) prog" where
  "or_unauthorized msg = mapErr (\<lambda>e. if not_found e then Sent ErrUnauthorized else Wrap msg e)"

definition or_forbidden :: "('db, 'a) prog \<Rightarrow> ('db, 'a) prog" where
  "or_forbidden = mapErr (\<lambda>e. if not_found e then Sent ErrForbidden else e)"

definition user_where :: "'db gorm_db \<Rightarrow> (user_record \<Rightarrow> bool) \<Rightarrow> ('db, user_record) prog" where
  "user_where D cond = sql_first (gd_users D) cond us_ID"

definition role_named :: "'db gorm_db \<Rightarrow> string \<Rightarrow> ('db, role_record) prog" where
  "role_named D name = sql_first (gd_roles D) (\<lambda>r. ro_Name r = name) ro_ID"

definition token_hashed :: "'db gorm_db \<Rightarrow> string \<Rightarrow> ('db, access_token_record) prog" where
  "token_hashed D h = sql_first (gd_tokens D) (\<lambda>t. at_TokenHash t = h) at_ID"

text \<open>The joins: the distinct names, in order.\<close>

definition role_names_q :: "string \<Rightarrow> tables \<Rightarrow> string list" where
  "role_names_q uid t = sort (remdups (concat (map (\<lambda>l. map ro_Name
     (filter (\<lambda>r. ro_ID r = ur_RoleID l) (t_roles t)))
     (filter (\<lambda>l. ur_UserID l = uid) (t_user_roles t)))))"

definition role_permissions_q :: "string \<Rightarrow> tables \<Rightarrow> string list" where
  "role_permissions_q rid t = sort (remdups (concat (map (\<lambda>l. map pm_Name
     (filter (\<lambda>p. pm_ID p = rp_PermissionID l) (t_permissions t)))
     (filter (\<lambda>l. rp_RoleID l = rid) (t_role_permissions t)))))"

definition user_permissions_q :: "string \<Rightarrow> tables \<Rightarrow> string list" where
  "user_permissions_q uid t = sort (remdups (concat (map (\<lambda>l. role_permissions_q (ur_RoleID l) t)
     (filter (\<lambda>l. ur_UserID l = uid) (t_user_roles t)))))"

definition roles_for_user :: "'db gorm_db \<Rightarrow> string \<Rightarrow> ('db, string list) prog" where
  "roles_for_user D uid = gd_pluck D (role_names_q uid)"

definition permissions_for_role :: "'db gorm_db \<Rightarrow> string \<Rightarrow> ('db, string list) prog" where
  "permissions_for_role D rid = gd_pluck D (role_permissions_q rid)"

definition identity_for_user :: "'db gorm_db \<Rightarrow> string \<Rightarrow> ('db, identity) prog" where
  "identity_for_user D uid =
     bindE (or_unauthorized ''load identity user: '' (user_where D (\<lambda>u. us_ID u = uid))) (\<lambda>user.
       if us_Disabled user then raiseE (Sent ErrUnauthorized)
       else
     bindE (mapErr (Wrap ''load identity roles: '') (gd_pluck D (role_names_q (us_ID user)))) (\<lambda>roles.
     bindE (mapErr (Wrap ''load identity permissions: '') (gd_pluck D (user_permissions_q (us_ID user)))) (\<lambda>perms.
       returnE \<lparr>id_UserID = us_ID user, id_Subject = us_Subject user, id_Roles = roles,
         id_Permissions = perms, id_ExpiresAt = None\<rparr>)))"

definition user_by_subject :: "'db gorm_db \<Rightarrow> string \<Rightarrow> ('db, managed_user) prog" where
  "user_by_subject D subject =
     bindE (user_where D (\<lambda>u. us_Subject u = subject)) (\<lambda>u.
     bindE (roles_for_user D (us_ID u)) (\<lambda>roles.
       returnE \<lparr>mu_Subject = us_Subject u, mu_Disabled = us_Disabled u, mu_Roles = roles\<rparr>))"

definition list_users :: "'db gorm_db \<Rightarrow> ('db, managed_user list) prog" where
  "list_users D =
     bindE (sql_find (gd_users D) (\<lambda>_. True)) (\<lambda>rows.
     forE (sort_key us_Subject rows) (\<lambda>u.
       bindE (roles_for_user D (us_ID u)) (\<lambda>roles.
         returnE \<lparr>mu_Subject = us_Subject u, mu_Disabled = us_Disabled u, mu_Roles = roles\<rparr>)))"

definition list_roles :: "'db gorm_db \<Rightarrow> ('db, managed_role list) prog" where
  "list_roles D =
     bindE (sql_find (gd_roles D) (\<lambda>_. True)) (\<lambda>rows.
     forE (sort_key ro_Name rows) (\<lambda>r.
       bindE (permissions_for_role D (ro_ID r)) (\<lambda>perms.
         returnE \<lparr>mr_Name = ro_Name r, mr_Permissions = perms\<rparr>)))"

definition list_permissions :: "'db gorm_db \<Rightarrow> ('db, string list) prog" where
  "list_permissions D =
     bindE (sql_find (gd_permissions D) (\<lambda>_. True)) (\<lambda>rows. returnE (map pm_Name (sort_key pm_Name rows)))"

section \<open>Users and roles\<close>

definition new_user :: "string \<Rightarrow> user_record" where
  "new_user subject = \<lparr>us_ID = subject, us_Subject = subject, us_TokenHash = [], us_PasswordHash = None,
     us_Disabled = False, us_CreatedAt = 0\<rparr>"

definition create_user :: "'db gorm_db \<Rightarrow> rbac_env \<Rightarrow> string \<Rightarrow> string \<Rightarrow> ('db, unit) prog" where
  "create_user D E subject token =
     sql_create (gd_users D) ((new_user subject)\<lparr>us_TokenHash := rb_sha E token\<rparr>)"

definition new_hash :: "rbac_env \<Rightarrow> string \<Rightarrow> ('db, string) prog" where
  "new_hash E password = lift (hash_password (rb_kdf E) (rb_salt E) password)"

definition create_user_with_password :: "'db gorm_db \<Rightarrow> rbac_env \<Rightarrow> string \<Rightarrow> string \<Rightarrow> ('db, unit) prog" where
  "create_user_with_password D E subject password =
     bindE (new_hash E password) (\<lambda>h.
       sql_create (gd_users D) ((new_user subject)\<lparr>us_PasswordHash := Some h\<rparr>))"

definition set_password :: "'db gorm_db \<Rightarrow> rbac_env \<Rightarrow> string \<Rightarrow> string \<Rightarrow> ('db, unit) prog" where
  "set_password D E subject password =
     bindE (new_hash E password) (\<lambda>h.
     bindE (sql_update (gd_users D) (\<lambda>u. us_Subject u = subject) (\<lambda>u. u\<lparr>us_PasswordHash := Some h\<rparr>)) (\<lambda>n.
       if n = 0 then raiseE (Sent RecordNotFound) else returnE ()))"

definition create_role :: "'db gorm_db \<Rightarrow> string \<Rightarrow> ('db, unit) prog" where
  "create_role D name = sql_create (gd_roles D) \<lparr>ro_ID = name, ro_Name = name\<rparr>"

definition grant_permission :: "'db gorm_db \<Rightarrow> string \<Rightarrow> string \<Rightarrow> ('db, unit) prog" where
  "grant_permission D role permission =
     gd_tx D
       (bindE (or_forbidden (role_named D role)) (\<lambda>r.
        bindE (sql_first_or_create (gd_permissions D)
            (\<lambda>p. pm_Name p = permission \<and> pm_ID p = permission) pm_ID
            \<lparr>pm_ID = permission, pm_Name = permission\<rparr>) (\<lambda>p.
          sql_create (gd_role_permissions D) \<lparr>rp_RoleID = ro_ID r, rp_PermissionID = pm_ID p\<rparr>)))"

definition assign_role :: "'db gorm_db \<Rightarrow> string \<Rightarrow> string \<Rightarrow> ('db, unit) prog" where
  "assign_role D subject role =
     gd_tx D
       (bindE (user_where D (\<lambda>u. us_Subject u = subject)) (\<lambda>u.
        bindE (or_forbidden (role_named D role)) (\<lambda>r.
          sql_create (gd_user_roles D) \<lparr>ur_UserID = us_ID u, ur_RoleID = ro_ID r\<rparr>)))"

definition grant_role :: "'db gorm_db \<Rightarrow> string \<Rightarrow> string \<Rightarrow> ('db, unit) prog" where
  "grant_role D subject role =
     gd_tx D
       (bindE (user_where D (\<lambda>u. us_Subject u = subject)) (\<lambda>u.
        bindE (sql_first_or_create (gd_roles D) (\<lambda>r. ro_Name r = role \<and> ro_ID r = role) ro_ID
            \<lparr>ro_ID = role, ro_Name = role\<rparr>) (\<lambda>r.
        bindE (sql_first_or_create (gd_user_roles D)
            (\<lambda>l. ur_UserID l = us_ID u \<and> ur_RoleID l = ro_ID r) ur_UserID
            \<lparr>ur_UserID = us_ID u, ur_RoleID = ro_ID r\<rparr>) (\<lambda>_. returnE ()))))"

definition replace_user_roles :: "'db gorm_db \<Rightarrow> string \<Rightarrow> string list \<Rightarrow> ('db, unit) prog" where
  "replace_user_roles D uid names =
     bindE (forE names (role_named D)) (\<lambda>roles.
     bindE (sql_delete (gd_user_roles D) (\<lambda>l. ur_UserID l = uid)) (\<lambda>_.
     bindE (forE roles (\<lambda>r. sql_create (gd_user_roles D) \<lparr>ur_UserID = uid, ur_RoleID = ro_ID r\<rparr>)) (\<lambda>_.
       returnE ())))"

definition replace_role_permissions :: "'db gorm_db \<Rightarrow> string \<Rightarrow> string list \<Rightarrow> ('db, unit) prog" where
  "replace_role_permissions D role_name names =
     bindE (role_named D role_name) (\<lambda>role.
     bindE (forE names (\<lambda>n. sql_first_or_create (gd_permissions D) (\<lambda>p. pm_Name p = n) pm_ID
         \<lparr>pm_ID = n, pm_Name = n\<rparr>)) (\<lambda>perms.
     bindE (sql_delete (gd_role_permissions D) (\<lambda>l. rp_RoleID l = ro_ID role)) (\<lambda>_.
     bindE (forE perms (\<lambda>p. sql_create (gd_role_permissions D)
         \<lparr>rp_RoleID = ro_ID role, rp_PermissionID = pm_ID p\<rparr>)) (\<lambda>_. returnE ()))))"

definition update_user_row ::
  "'db gorm_db \<Rightarrow> user_record \<Rightarrow> (user_record \<Rightarrow> user_record) \<Rightarrow> ('db, unit) prog" where
  "update_user_row D user f =
     bindE (sql_update (gd_users D) (\<lambda>u. us_ID u = us_ID user) f) (\<lambda>_. returnE ())"

definition create_managed_user ::
  "'db gorm_db \<Rightarrow> rbac_env \<Rightarrow> string \<Rightarrow> string \<Rightarrow> string list \<Rightarrow> ('db, managed_user) prog" where
  "create_managed_user D E subject password roles =
     bindE (gd_tx D
       (bindE (new_hash E password) (\<lambda>h.
        bindE (sql_create (gd_users D) ((new_user subject)\<lparr>us_PasswordHash := Some h\<rparr>)) (\<lambda>_.
          replace_user_roles D subject roles)))) (\<lambda>_.
     user_by_subject D subject)"

text \<open>The transaction bodies of \<open>UpdateUser\<close> and \<open>PatchUser\<close>.\<close>

definition update_user_tx ::
  "'db gorm_db \<Rightarrow> rbac_env \<Rightarrow> string \<Rightarrow> string \<Rightarrow> string list \<Rightarrow> bool \<Rightarrow> ('db, unit) prog" where
  "update_user_tx D E subject password roles disabled =
     bindE (user_where D (\<lambda>u. us_Subject u = subject)) (\<lambda>user.
     bindE (if password = [] then returnE ()
            else bindE (new_hash E password) (\<lambda>h.
              update_user_row D user (\<lambda>u. u\<lparr>us_PasswordHash := Some h\<rparr>))) (\<lambda>_.
     bindE (update_user_row D user (\<lambda>u. u\<lparr>us_Disabled := disabled\<rparr>)) (\<lambda>_.
       replace_user_roles D (us_ID user) roles)))"

definition update_user ::
  "'db gorm_db \<Rightarrow> rbac_env \<Rightarrow> string \<Rightarrow> string \<Rightarrow> string list \<Rightarrow> bool \<Rightarrow> ('db, managed_user) prog" where
  "update_user D E subject password roles disabled =
     bindE (gd_tx D (update_user_tx D E subject password roles disabled)) (\<lambda>_. user_by_subject D subject)"

definition patch_user_tx ::
  "'db gorm_db \<Rightarrow> rbac_env \<Rightarrow> string \<Rightarrow> string option \<Rightarrow> string list option \<Rightarrow> bool option \<Rightarrow>
   ('db, unit) prog" where
  "patch_user_tx D E subject password roles disabled =
     bindE (user_where D (\<lambda>u. us_Subject u = subject)) (\<lambda>user.
     bindE (case password of
              None \<Rightarrow> returnE ()
            | Some pw \<Rightarrow>
                if pw = [] then raiseE (Sent ErrInvalidPassword)
                else bindE (new_hash E pw) (\<lambda>h.
                  update_user_row D user (\<lambda>u. u\<lparr>us_PasswordHash := Some h\<rparr>))) (\<lambda>_.
     bindE (case disabled of
              None \<Rightarrow> returnE ()
            | Some d \<Rightarrow> update_user_row D user (\<lambda>u. u\<lparr>us_Disabled := d\<rparr>)) (\<lambda>_.
       case roles of None \<Rightarrow> returnE () | Some rs \<Rightarrow> replace_user_roles D (us_ID user) rs)))"

definition patch_user ::
  "'db gorm_db \<Rightarrow> rbac_env \<Rightarrow> string \<Rightarrow> string option \<Rightarrow> string list option \<Rightarrow> bool option \<Rightarrow>
   ('db, managed_user) prog" where
  "patch_user D E subject password roles disabled =
     bindE (gd_tx D (patch_user_tx D E subject password roles disabled)) (\<lambda>_. user_by_subject D subject)"

definition role_in_list :: "string \<Rightarrow> managed_role list \<Rightarrow> ('db, managed_role) prog" where
  "role_in_list name roles =
     (case List.find (\<lambda>r. mr_Name r = name) roles of
        Some r \<Rightarrow> returnE r | None \<Rightarrow> raiseE (Sent RecordNotFound))"

definition create_managed_role ::
  "'db gorm_db \<Rightarrow> string \<Rightarrow> string list \<Rightarrow> ('db, managed_role) prog" where
  "create_managed_role D name permissions =
     bindE (gd_tx D
       (bindE (sql_create (gd_roles D) \<lparr>ro_ID = name, ro_Name = name\<rparr>) (\<lambda>_.
          replace_role_permissions D name permissions))) (\<lambda>_.
     bindE (list_roles D) (role_in_list name))"

definition replace_permissions ::
  "'db gorm_db \<Rightarrow> string \<Rightarrow> string list \<Rightarrow> ('db, managed_role) prog" where
  "replace_permissions D name permissions =
     bindE (gd_tx D (replace_role_permissions D name permissions)) (\<lambda>_.
     bindE (list_roles D) (role_in_list name))"

section \<open>Tokens\<close>

definition random_token :: "string result \<Rightarrow> ('db, string) prog" where
  "random_token raw = lift (case raw of Inl e \<Rightarrow> Inl e | Inr bytes \<Rightarrow> Inr (b64_encode url_alphabet bytes))"

definition issue_token_for_user ::
  "'db gorm_db \<Rightarrow> rbac_env \<Rightarrow> user_record \<Rightarrow> int \<Rightarrow> ('db, string \<times> access_token_record) prog" where
  "issue_token_for_user D E user ttl =
     (if us_Disabled user then raiseE (Sent ErrUnauthorized)
      else
     bindE (random_token (rb_token E)) (\<lambda>plain.
     bindE (random_token (rb_id E)) (\<lambda>tid.
       let record = \<lparr>at_ID = tid, at_UserID = us_ID user, at_TokenHash = rb_sha E plain,
             at_ExpiresAt = rb_now E + ttl, at_RevokedAt = None, at_CreatedAt = rb_now E\<rparr> in
     bindE (mapErr (Wrap ''store access token: '') (sql_create (gd_tokens D) record)) (\<lambda>_.
       returnE (plain, record)))))"

definition issue_token ::
  "'db gorm_db \<Rightarrow> rbac_env \<Rightarrow> string \<Rightarrow> int \<Rightarrow> ('db, string \<times> access_token_record) prog" where
  "issue_token D E uid ttl =
     bindE (or_unauthorized ''load token user: '' (user_where D (\<lambda>u. us_ID u = uid \<or> us_Subject u = uid)))
       (\<lambda>user. issue_token_for_user D E user ttl)"

definition revoke_row :: "'db gorm_db \<Rightarrow> access_token_record \<Rightarrow> timestamp \<Rightarrow> ('db, unit) prog" where
  "revoke_row D record now =
     bindE (sql_update (gd_tokens D) (\<lambda>t. at_ID t = at_ID record) (\<lambda>t. t\<lparr>at_RevokedAt := Some now\<rparr>))
       (\<lambda>_. returnE ())"

definition revoke_token :: "'db gorm_db \<Rightarrow> rbac_env \<Rightarrow> string \<Rightarrow> ('db, unit) prog" where
  "revoke_token D E token =
     bindE (mapErr (\<lambda>e. if not_found e then Sent ErrUnauthorized else e) (token_hashed D (rb_sha E token)))
       (\<lambda>record. if at_RevokedAt record \<noteq> None then returnE () else revoke_row D record (rb_now E))"

definition revoke_presented_token :: "'db gorm_db \<Rightarrow> rbac_env \<Rightarrow> string \<Rightarrow> ('db, bool) prog" where
  "revoke_presented_token D E token =
     bindE (tryE (token_hashed D (rb_sha E token))) (\<lambda>r.
       case r of
         Inl e \<Rightarrow> if not_found e then returnE False else raiseE e
       | Inr record \<Rightarrow>
           if at_RevokedAt record \<noteq> None \<or> at_ExpiresAt record \<le> rb_now E then returnE False
           else bindE (revoke_row D record (rb_now E)) (\<lambda>_. returnE True))"

section \<open>Authentication\<close>

definition login ::
  "'db gorm_db \<Rightarrow> rbac_env \<Rightarrow> string \<Rightarrow> string \<Rightarrow> int \<Rightarrow> ('db, string \<times> identity) prog" where
  "login D E subject password ttl =
     bindE (or_unauthorized ''load login user: '' (user_where D (\<lambda>u. us_Subject u = subject))) (\<lambda>user.
       if us_Disabled user \<or>
          (case us_PasswordHash user of None \<Rightarrow> True | Some h \<Rightarrow> verify_password (rb_kdf E) h password \<noteq> Inr ())
       then raiseE (Sent ErrUnauthorized)
       else
     bindE (issue_token_for_user D E user ttl) (\<lambda>(token, record).
     bindE (identity_for_user D (us_ID user)) (\<lambda>i.
       returnE (token, i\<lparr>id_ExpiresAt := Some (at_ExpiresAt record)\<rparr>))))"

definition authenticate :: "'db gorm_db \<Rightarrow> rbac_env \<Rightarrow> string \<Rightarrow> ('db, identity) prog" where
  "authenticate D E token =
     bindE (tryE (token_hashed D (rb_sha E token))) (\<lambda>r.
       case r of
         Inr record \<Rightarrow>
           if at_TokenHash record \<noteq> rb_sha E token \<or> at_RevokedAt record \<noteq> None \<or> at_ExpiresAt record \<le> rb_now E
           then raiseE (Sent ErrUnauthorized)
           else bindE (identity_for_user D (at_UserID record)) (\<lambda>i.
             returnE (i\<lparr>id_ExpiresAt := Some (at_ExpiresAt record)\<rparr>))
       | Inl e \<Rightarrow>
           if \<not> not_found e then raiseE (Wrap ''load access token: '' e)
           else
         bindE (or_unauthorized ''load legacy user: '' (user_where D (\<lambda>u. us_TokenHash u = rb_sha E token))) (\<lambda>user.
           if us_Disabled user \<or> us_TokenHash user \<noteq> rb_sha E token then raiseE (Sent ErrUnauthorized)
           else identity_for_user D (us_ID user)))"

text \<open>A granted permission covers a wanted one: literally, or as a wildcard \<open>prefix:*\<close>.\<close>

definition permission_covers :: "string \<Rightarrow> string \<Rightarrow> bool" where
  "permission_covers granted wanted \<longleftrightarrow>
     granted = wanted \<or> (has_suffix granted '':*'' \<and> has_prefix wanted (trim_suffix granted ''*''))"

definition authorize_permission :: "'db gorm_db \<Rightarrow> rbac_env \<Rightarrow> string \<Rightarrow> string \<Rightarrow> ('db, unit) prog" where
  "authorize_permission D E token permission =
     bindE (authenticate D E token) (\<lambda>i.
       if list_ex (\<lambda>g. permission_covers g permission) (id_Permissions i) then returnE ()
       else raiseE (Sent ErrForbidden))"

definition authorize :: "'db gorm_db \<Rightarrow> rbac_env \<Rightarrow> string \<Rightarrow> string \<Rightarrow> ('db, unit) prog" where
  "authorize D E token role =
     bindE (authenticate D E token) (\<lambda>i.
       if role \<in> set (id_Roles i) then returnE () else raiseE (Sent ErrForbidden))"

section \<open>Catalog and bootstrap (catalog.go)\<close>

definition standard_permissions :: "string list" where
  "standard_permissions = [''workspace:read'', ''workspace:write'', ''task:read'', ''task:write'',
     ''task:approve'', ''task:execute'', ''admin:users'', ''admin:roles'', ''admin:permissions'', ''admin:*'']"

definition seed_permissions_tx :: "'db gorm_db \<Rightarrow> ('db, permission_record list) prog" where
  "seed_permissions_tx D =
     mapErr (Wrap ''seed permission catalog: '')
       (forE standard_permissions (\<lambda>n. sql_first_or_create (gd_permissions D) (\<lambda>p. pm_Name p = n) pm_ID
          \<lparr>pm_ID = n, pm_Name = n\<rparr>))"

definition seed_permissions :: "'db gorm_db \<Rightarrow> ('db, unit) prog" where
  "seed_permissions D = gd_tx D (bindE (seed_permissions_tx D) (\<lambda>_. returnE ()))"

definition grant_bootstrap_permissions :: "'db gorm_db \<Rightarrow> string \<Rightarrow> string \<Rightarrow> ('db, unit) prog" where
  "grant_bootstrap_permissions D uid role_name =
     bindE (mapErr (Wrap ''create bootstrap role: '')
       (sql_first_or_create (gd_roles D) (\<lambda>r. ro_Name r = role_name) ro_ID
          \<lparr>ro_ID = role_name, ro_Name = role_name\<rparr>)) (\<lambda>role.
     bindE (seed_permissions_tx D) (\<lambda>perms.
     bindE (mapErr (Wrap ''assign bootstrap role: '')
       (sql_create_ignore (gd_user_roles D) \<lparr>ur_UserID = uid, ur_RoleID = ro_ID role\<rparr>)) (\<lambda>_.
     bindE (forE perms (\<lambda>p. mapErr (Wrap ''grant bootstrap permission: '')
       (sql_create_ignore (gd_role_permissions D) \<lparr>rp_RoleID = ro_ID role, rp_PermissionID = pm_ID p\<rparr>))) (\<lambda>_.
       returnE ()))))"

definition bootstrap_legacy_admin ::
  "'db gorm_db \<Rightarrow> rbac_env \<Rightarrow> string \<Rightarrow> string \<Rightarrow> string \<Rightarrow> ('db, unit) prog" where
  "bootstrap_legacy_admin D E subject token role =
     gd_tx D
       (bindE (mapErr (Wrap ''create legacy bootstrap user: '')
          (sql_create_ignore (gd_users D) ((new_user subject)\<lparr>us_TokenHash := rb_sha E token\<rparr>))) (\<lambda>_.
        bindE (mapErr (Wrap ''load legacy bootstrap user: '') (user_where D (\<lambda>u. us_Subject u = subject))) (\<lambda>user.
          grant_bootstrap_permissions D (us_ID user) role)))"

definition repair_bootstrap_user ::
  "'db gorm_db \<Rightarrow> rbac_env \<Rightarrow> string \<Rightarrow> user_record \<Rightarrow> ('db, unit) prog" where
  "repair_bootstrap_user D E password user =
     bindE (case us_PasswordHash user of
              Some _ \<Rightarrow> returnE None
            | None \<Rightarrow> bindE (new_hash E password) (\<lambda>h. returnE (Some h))) (\<lambda>new_pw.
       if new_pw = None \<and> \<not> us_Disabled user then returnE ()
       else mapErr (Wrap ''repair bootstrap user: '') (update_user_row D user (\<lambda>u.
         u\<lparr>us_PasswordHash := (if new_pw = None then us_PasswordHash u else new_pw),
           us_Disabled := (if us_Disabled user then False else us_Disabled u)\<rparr>)))"

definition bootstrap_admin ::
  "'db gorm_db \<Rightarrow> rbac_env \<Rightarrow> string \<Rightarrow> string \<Rightarrow> int \<Rightarrow> ('db, string) prog" where
  "bootstrap_admin D E subject password ttl =
     gd_tx_string D
       (bindE (mapErr (Wrap ''create bootstrap user: '') (sql_create_ignore (gd_users D) (new_user subject))) (\<lambda>n.
        bindE (mapErr (Wrap ''load bootstrap user: '') (user_where D (\<lambda>u. us_Subject u = subject))) (\<lambda>user.
        bindE (repair_bootstrap_user D E password user) (\<lambda>_.
        bindE (grant_bootstrap_permissions D (us_ID user) ''admin'') (\<lambda>_.
          if n \<noteq> 1 then returnE []
          else bindE (issue_token D E (us_ID user) ttl) (\<lambda>(plain, _). returnE plain))))))"

end
