(* ===== verification/Rbac_Facts.thy ===== *)
theory Rbac_Facts
  imports Rbac_Service
begin

text \<open>
  The correctness of the access-control service: whom \<open>Authenticate\<close> lets in, that a revoked
  token stays dead through every history of calls, and that a role update sets exactly the
  roles named. The lemmas are proved over the database interface \<open>gorm_store\<close>.
\<close>

section \<open>Reading the database\<close>

text \<open>What entitles a token to speak for the user \<open>uid\<close> until \<open>expires\<close>.\<close>

definition credential :: "rbac_env \<Rightarrow> string \<Rightarrow> tables \<Rightarrow> string \<Rightarrow> timestamp option \<Rightarrow> bool" where
  "credential E token t uid expires \<longleftrightarrow>
     (\<exists>k\<in>set (t_tokens t). at_TokenHash k = rb_sha E token \<and> at_UserID k = uid \<and>
        at_RevokedAt k = None \<and> rb_now E < at_ExpiresAt k \<and> expires = Some (at_ExpiresAt k)) \<or>
     ((\<forall>k\<in>set (t_tokens t). at_TokenHash k \<noteq> rb_sha E token) \<and> expires = None \<and>
      (\<exists>l\<in>set (t_users t). us_ID l = uid \<and> us_TokenHash l = rb_sha E token))"

context gorm_store begin

text \<open>A reading program leaves every table alone.\<close>

lemma reads_first: "sql_implements view S T \<Longrightarrow> keeps (\<lambda>s. P (view s)) (sql_first T cond key)"
  by (rule keepsI) (metis prod.collapse sql_firstE)

lemma reads_find: "sql_implements view S T \<Longrightarrow> keeps (\<lambda>s. P (view s)) (sql_find T cond)"
  by (rule keepsI) (metis prod.collapse sql_findE)

lemma reads_pluck: "keeps (\<lambda>s. P (view s)) (gd_pluck D q)"
  by (rule keepsI) (metis pluckE pluck_ok prod.collapse)

lemma reads_lift: "keeps P (lift r)"
  by (rule keepsI) (simp add: lift_def)

lemmas read_rules = reads_first [OF users_ok] reads_first [OF roles_ok] reads_first [OF tokens_ok]
  reads_first [OF permissions_ok] reads_first [OF user_roles_ok]
  reads_find [OF users_ok] reads_find [OF roles_ok] reads_find [OF permissions_ok] reads_pluck reads_lift

lemmas read_defs = user_where_def role_named_def token_hashed_def roles_for_user_def permissions_for_role_def
  or_unauthorized_def or_forbidden_def new_hash_def random_token_def

lemma reads_role_named: "keeps (\<lambda>s. P (view s)) (role_named D name)"
  unfolding role_named_def by (intro read_rules)

lemma reads_identity: "keeps (\<lambda>s. P (view s)) (identity_for_user D uid)"
  unfolding identity_for_user_def read_defs by (intro keeps_rules read_rules)

lemma reads_user_by_subject: "keeps (\<lambda>s. P (view s)) (user_by_subject D subject)"
  unfolding user_by_subject_def read_defs by (intro keeps_rules read_rules)

lemma reads_list_roles: "keeps (\<lambda>s. P (view s)) (list_roles D)"
  unfolding list_roles_def read_defs by (intro keeps_rules read_rules)

lemma reads_role_in_list: "keeps (\<lambda>s. P (view s)) (role_in_list name roles)"
  unfolding role_in_list_def by (intro keeps_rules)

lemma reads_authenticate: "keeps (\<lambda>s. P (view s)) (authenticate D E token)"
  unfolding authenticate_def read_defs by (intro keeps_rules read_rules reads_identity)

lemma identity_for_user_ok:
  assumes "identity_for_user D uid s = (Inr i, s')"
  shows "\<exists>u\<in>set (t_users (view s)). us_ID u = uid \<and> \<not> us_Disabled u \<and>
    i = \<lparr>id_UserID = uid, id_Subject = us_Subject u, id_Roles = role_names_q uid (view s),
         id_Permissions = user_permissions_q uid (view s), id_ExpiresAt = None\<rparr>"
proof -
  obtain r1 a where s1: "user_where D (\<lambda>u. us_ID u = uid) s = (r1, a)" by fastforce
  then obtain u where r1: "r1 = Inr u" and en: "\<not> us_Disabled u"
    using assms by (auto simp: identity_for_user_def or_unauthorized_def prog_simps split: sum.splits if_splits)
  from sql_firstE [OF users_ok s1 [unfolded user_where_def]] r1
  have u: "u \<in> set (t_users (view s))" "us_ID u = uid" and va: "view a = view s"
    by (auto simp: users_spec_def)
  obtain r2 b where s2: "gd_pluck D (role_names_q (us_ID u)) a = (r2, b)" by fastforce
  obtain r3 c where s3: "gd_pluck D (user_permissions_q (us_ID u)) b = (r3, c)" by fastforce
  have "r2 = Inr (role_names_q uid (view s)) \<and> view b = view s"
    using assms s1 r1 en s2 pluckE [OF pluck_ok s2] va u
    by (auto simp: identity_for_user_def or_unauthorized_def prog_simps split: sum.splits)
  moreover from this have "r3 = Inr (user_permissions_q uid (view s))"
    using assms s1 r1 en s2 s3 pluckE [OF pluck_ok s3] u
    by (auto simp: identity_for_user_def or_unauthorized_def prog_simps split: sum.splits)
  ultimately show ?thesis
    using assms s1 r1 en s2 s3 u
    by (auto simp: identity_for_user_def or_unauthorized_def prog_simps)
qed

lemma authenticate_ok:
  assumes "authenticate D E token s = (Inr i, s')"
  shows "view s' = view s \<and>
    (\<exists>u\<in>set (t_users (view s)). \<not> us_Disabled u \<and> id_UserID i = us_ID u \<and> id_Subject i = us_Subject u \<and>
       id_Roles i = role_names_q (us_ID u) (view s) \<and> id_Permissions i = user_permissions_q (us_ID u) (view s) \<and>
       credential E token (view s) (us_ID u) (id_ExpiresAt i))"
proof
  show "view s' = view s"
    using keepsD [OF reads_authenticate [of "\<lambda>t. t = view s"], of s E token] assms by simp
  obtain r1 a where s1: "token_hashed D (rb_sha E token) s = (r1, a)" by fastforce
  have va: "view a = view s" using keepsD [OF reads_first [OF tokens_ok, of "\<lambda>t. t = view s"]] s1
    unfolding token_hashed_def by (metis snd_conv)
  show "\<exists>u\<in>set (t_users (view s)). \<not> us_Disabled u \<and> id_UserID i = us_ID u \<and> id_Subject i = us_Subject u \<and>
       id_Roles i = role_names_q (us_ID u) (view s) \<and> id_Permissions i = user_permissions_q (us_ID u) (view s) \<and>
       credential E token (view s) (us_ID u) (id_ExpiresAt i)"
  proof (cases r1)
    case (Inr t)
    from sql_firstE [OF tokens_ok s1 [unfolded token_hashed_def]] Inr
    have t: "t \<in> set (t_tokens (view s))" "at_TokenHash t = rb_sha E token" by (auto simp: tokens_spec_def)
    obtain j b where id: "identity_for_user D (at_UserID t) a = (Inr j, b)"
      and live: "at_RevokedAt t = None" "rb_now E < at_ExpiresAt t"
      and i: "i = j\<lparr>id_ExpiresAt := Some (at_ExpiresAt t)\<rparr>"
      using assms s1 Inr by (auto simp: authenticate_def prog_simps split: if_splits prod.splits sum.splits)
    from identity_for_user_ok [OF id] va obtain u where u: "u \<in> set (t_users (view s))" "us_ID u = at_UserID t"
      "\<not> us_Disabled u" "j = \<lparr>id_UserID = at_UserID t, id_Subject = us_Subject u,
         id_Roles = role_names_q (at_UserID t) (view s), id_Permissions = user_permissions_q (at_UserID t) (view s),
         id_ExpiresAt = None\<rparr>" by auto
    moreover have "credential E token (view s) (us_ID u) (Some (at_ExpiresAt t))"
      using t live u(2) by (auto simp: credential_def)
    ultimately show ?thesis using i by (intro bexI [of _ u]) auto
  next
    case (Inl e)
    then have nf: "not_found e"
      using assms s1 by (auto simp: authenticate_def prog_simps split: if_splits)
    have none: "\<forall>t\<in>set (t_tokens (view s)). at_TokenHash t \<noteq> rb_sha E token"
      using tokens_ok s1 [unfolded token_hashed_def]
      by (rule sql_firstE) (use Inl nf in \<open>auto simp: tokens_spec_def not_found_def db_error_is\<close>)
    obtain r2 b where s2: "user_where D (\<lambda>u. us_TokenHash u = rb_sha E token) a = (r2, b)" by fastforce
    then obtain l where r2: "r2 = Inr l"
      using assms s1 Inl nf
      by (auto simp: authenticate_def or_unauthorized_def prog_simps split: if_splits sum.splits)
    from sql_firstE [OF users_ok s2 [unfolded user_where_def]] r2 va
    have l: "l \<in> set (t_users (view s))" "us_TokenHash l = rb_sha E token" "view b = view s"
      by (auto simp: users_spec_def)
    have "identity_for_user D (us_ID l) b = (Inr i, s')"
      using assms s1 s2 Inl nf r2
      by (auto simp: authenticate_def or_unauthorized_def prog_simps split: if_splits sum.splits)
    from identity_for_user_ok [OF this] l(3) obtain u where u: "u \<in> set (t_users (view s))" "us_ID u = us_ID l"
      "\<not> us_Disabled u" "i = \<lparr>id_UserID = us_ID l, id_Subject = us_Subject u,
         id_Roles = role_names_q (us_ID l) (view s), id_Permissions = user_permissions_q (us_ID l) (view s),
         id_ExpiresAt = None\<rparr>" by auto
    moreover have "credential E token (view s) (us_ID u) None"
      using l none u(2) by (auto simp: credential_def)
    ultimately show ?thesis by (intro bexI [of _ u]) auto
  qed
qed

end

text \<open>
  C25. Whom the service lets in: \<open>Authenticate\<close> succeeds only for an enabled user, and only
  with a token that is on record for that user, not revoked and not expired, or, where no
  such record exists, with the legacy token stored on the user; the identity carries exactly
  the roles and the permissions the user's role links give, and nothing is written.
\<close>

theorem authenticate_sound:
  assumes "gorm_ok view D" "authenticate D E token s = (Inr i, s')"
  shows "view s' = view s \<and>
    (\<exists>u\<in>set (t_users (view s)). \<not> us_Disabled u \<and> id_UserID i = us_ID u \<and> id_Subject i = us_Subject u \<and>
       id_Roles i = role_names_q (us_ID u) (view s) \<and> id_Permissions i = user_permissions_q (us_ID u) (view s) \<and>
       credential E token (view s) (us_ID u) (id_ExpiresAt i))"
  by (rule gorm_store.authenticate_ok [OF gorm_store.intro [OF assms(1)] assms(2)])

section \<open>Writing the token table\<close>

text \<open>A token is dead when it is on record and every record of it is revoked.\<close>

definition token_dead :: "string \<Rightarrow> access_token_record list \<Rightarrow> bool" where
  "token_dead h rows \<longleftrightarrow> h \<in> at_TokenHash ` set rows \<and>
     (\<forall>r\<in>set rows. at_TokenHash r = h \<longrightarrow> at_RevokedAt r \<noteq> None)"

lemma image_map_same: "(\<And>r. k (f r) = k r) \<Longrightarrow> k ` set (map f rows) = k ` set rows"
  by (simp add: image_image)

lemma token_dead_map:
  assumes "token_dead h rows" "\<And>r. at_TokenHash (f r) = at_TokenHash r"
    and "\<And>r. at_RevokedAt r \<noteq> None \<Longrightarrow> at_RevokedAt (f r) \<noteq> None"
  shows "token_dead h (map f rows)"
proof -
  have "at_TokenHash ` set (map f rows) = at_TokenHash ` set rows" using assms(2) by (rule image_map_same)
  with assms show ?thesis by (simp add: token_dead_def)
qed

context gorm_store begin

text \<open>Programs that keep a token dead. Tables other than the tokens do not matter.\<close>

abbreviation dead :: "string \<Rightarrow> 'db \<Rightarrow> bool" where
  "dead h s \<equiv> token_dead h (t_tokens (view s))"

lemma dead_create:
  assumes "sql_implements view S T" "\<And>f t. t_tokens (ts_upd S f t) = t_tokens t"
  shows "keeps (dead h) (sql_create T r)"
proof (rule keepsI)
  fix s assume d: "dead h s"
  obtain q s' where q: "sql_create T r s = (q, s')" by fastforce
  from assms(1) q show "dead h (snd (sql_create T r s))"
    by (rule sql_createE) (use d q assms(2) in auto)
qed

lemma dead_update:
  assumes "sql_implements view S T" "\<And>f t. t_tokens (ts_upd S f t) = t_tokens t"
  shows "keeps (dead h) (sql_update T cond f)"
proof (rule keepsI)
  fix s assume d: "dead h s"
  obtain q s' where q: "sql_update T cond f s = (q, s')" by fastforce
  from assms(1) q show "dead h (snd (sql_update T cond f s))"
    by (rule sql_updateE) (use d q assms(2) in auto)
qed

lemma dead_delete:
  assumes "sql_implements view S T" "\<And>f t. t_tokens (ts_upd S f t) = t_tokens t"
  shows "keeps (dead h) (sql_delete T cond)"
proof (rule keepsI)
  fix s assume d: "dead h s"
  obtain q s' where q: "sql_delete T cond s = (q, s')" by fastforce
  from assms(1) q show "dead h (snd (sql_delete T cond s))"
    by (rule sql_deleteE) (use d q assms(2) in auto)
qed

lemma dead_first_or_create:
  assumes "sql_implements view S T" "\<And>f t. t_tokens (ts_upd S f t) = t_tokens t"
  shows "keeps (dead h) (sql_first_or_create T cond key new)"
  unfolding sql_first_or_create_def
  by (intro keeps_rules dead_create [OF assms] reads_first [OF assms(1)])

lemma dead_create_ignore:
  assumes "sql_implements view S T" "\<And>f t. t_tokens (ts_upd S f t) = t_tokens t"
  shows "keeps (dead h) (sql_create_ignore T r)"
  unfolding sql_create_ignore_def by (intro keeps_rules dead_create [OF assms])

lemma dead_tx: "tx_laws view tx \<Longrightarrow> keeps (dead h) m \<Longrightarrow> keeps (dead h) (tx m)"
proof (rule keepsI)
  fix s assume tx: "tx_laws view tx" and m: "keeps (dead h) m" and d: "dead h s"
  obtain q s' where q: "tx m s = (q, s')" by fastforce
  from tx q show "dead h (snd (tx m s))"
  proof (rule txE)
    fix a s1 s2
    assume "view s1 = view s" "m s1 = (Inr a, s2)" "view s' = view s2"
    then show ?thesis using keepsD [OF m, of s1] d q by simp
  qed (use d q in simp)
qed

text \<open>A new token cannot reuse a hash on record, and a token is only ever revoked.\<close>

lemma dead_token_create: "keeps (dead h) (sql_create (gd_tokens D) r)"
proof (rule keepsI)
  fix s assume d: "dead h s"
  obtain q s' where q: "sql_create (gd_tokens D) r s = (q, s')" by fastforce
  from tokens_ok q show "dead h (snd (sql_create (gd_tokens D) r s))"
  proof (rule sql_createE)
    fix r'
    assume "ts_uniq tokens_spec (ts_get tokens_spec (view s) @ [r'])"
      "view s' = ts_upd tokens_spec (\<lambda>rows. rows @ [r']) (view s)"
    then show ?thesis using d q by (auto simp: tokens_spec_def token_dead_def)
  qed (use d q in auto)
qed

lemma token_norm: "ts_norm tokens_spec a = ts_norm tokens_spec b \<Longrightarrow>
   at_TokenHash a = at_TokenHash b \<and> at_RevokedAt a = at_RevokedAt b \<and> at_ID a = at_ID b"
  by (cases a; cases b) (auto simp: tokens_spec_def)

lemma dead_revoke: "keeps (dead h) (revoke_row D record now)"
  unfolding revoke_row_def
proof (intro keeps_bind keeps_return keepsI)
  fix s assume d: "dead h s"
  let ?m = "sql_update (gd_tokens D) (\<lambda>t. at_ID t = at_ID record) (\<lambda>t. t\<lparr>at_RevokedAt := Some now\<rparr>)"
  obtain q s' where q: "?m s = (q, s')" by fastforce
  from tokens_ok q show "dead h (snd (?m s))"
  proof (rule sql_updateE)
    fix g
    assume g: "\<And>r. ts_norm tokens_spec (g r) = ts_norm tokens_spec (r\<lparr>at_RevokedAt := Some now\<rparr>)"
      and v: "view s' = ts_upd tokens_spec (map (\<lambda>r. if at_ID r = at_ID record then g r else r)) (view s)"
    have "at_TokenHash (g r) = at_TokenHash r \<and> at_RevokedAt (g r) = Some now" for r
      using token_norm [OF g [of r]] by simp
    then show ?thesis using d q v token_dead_map [OF d] by (simp add: tokens_spec_def)
  qed (use d q in auto)
qed

lemma users_frame: "t_tokens (ts_upd users_spec f t) = t_tokens t"
  and roles_frame: "t_tokens (ts_upd roles_spec f' t) = t_tokens t"
  and user_roles_frame: "t_tokens (ts_upd user_roles_spec f1 t) = t_tokens t"
  and permissions_frame: "t_tokens (ts_upd permissions_spec f2 t) = t_tokens t"
  and role_permissions_frame: "t_tokens (ts_upd role_permissions_spec f3 t) = t_tokens t"
  by (simp_all add: users_spec_def roles_spec_def user_roles_spec_def permissions_spec_def role_permissions_spec_def)

lemmas frames = users_frame roles_frame user_roles_frame permissions_frame role_permissions_frame
lemmas others_ok = users_ok roles_ok user_roles_ok permissions_ok role_permissions_ok

lemmas dead_rules = keeps_rules read_rules dead_token_create dead_revoke
  dead_create [OF users_ok users_frame] dead_create [OF roles_ok roles_frame]
  dead_create [OF user_roles_ok user_roles_frame] dead_create [OF role_permissions_ok role_permissions_frame]
  dead_update [OF users_ok users_frame]
  dead_delete [OF user_roles_ok user_roles_frame] dead_delete [OF role_permissions_ok role_permissions_frame]
  dead_first_or_create [OF permissions_ok permissions_frame] dead_first_or_create [OF roles_ok roles_frame]
  dead_first_or_create [OF user_roles_ok user_roles_frame]
  dead_create_ignore [OF users_ok users_frame] dead_create_ignore [OF user_roles_ok user_roles_frame]
  dead_create_ignore [OF role_permissions_ok role_permissions_frame]
  dead_tx [OF tx_ok] dead_tx [OF tx_string_ok]
  reads_role_named reads_identity reads_user_by_subject reads_list_roles reads_role_in_list reads_authenticate

end

section \<open>Histories of calls\<close>

datatype rbac_op =
    CreateUser string string
  | CreateUserWithPassword string string
  | SetPassword string string
  | CreateRole string
  | GrantPermission string string
  | AssignRole string string
  | GrantRole string string
  | CreateManagedUser string string "string list"
  | UpdateUser string string "string list" bool
  | PatchUser string "string option" "string list option" "bool option"
  | CreateManagedRole string "string list"
  | ReplaceRolePermissions string "string list"
  | IssueToken string int
  | Login string string int
  | RevokeToken string
  | RevokePresentedToken string
  | Authenticate string
  | SeedPermissions
  | BootstrapAdmin string string int
  | BootstrapLegacyAdmin string string string

definition void :: "('db, 'a) prog \<Rightarrow> ('db, unit) prog" where
  "void m = bindE m (\<lambda>_. returnE ())"

fun rbac_call :: "'db gorm_db \<Rightarrow> rbac_env \<Rightarrow> rbac_op \<Rightarrow> ('db, unit) prog" where
  "rbac_call D E (CreateUser subject token) = create_user D E subject token"
| "rbac_call D E (CreateUserWithPassword subject pw) = create_user_with_password D E subject pw"
| "rbac_call D E (SetPassword subject pw) = set_password D E subject pw"
| "rbac_call D E (CreateRole name) = create_role D name"
| "rbac_call D E (GrantPermission r p) = grant_permission D r p"
| "rbac_call D E (AssignRole subject r) = assign_role D subject r"
| "rbac_call D E (GrantRole subject r) = grant_role D subject r"
| "rbac_call D E (CreateManagedUser subject pw rs) = void (create_managed_user D E subject pw rs)"
| "rbac_call D E (UpdateUser subject pw rs dis) = void (update_user D E subject pw rs dis)"
| "rbac_call D E (PatchUser subject pw rs dis) = void (patch_user D E subject pw rs dis)"
| "rbac_call D E (CreateManagedRole name ps) = void (create_managed_role D name ps)"
| "rbac_call D E (ReplaceRolePermissions name ps) = void (replace_permissions D name ps)"
| "rbac_call D E (IssueToken uid ttl) = void (issue_token D E uid ttl)"
| "rbac_call D E (Login subject pw ttl) = void (login D E subject pw ttl)"
| "rbac_call D E (RevokeToken token) = revoke_token D E token"
| "rbac_call D E (RevokePresentedToken token) = void (revoke_presented_token D E token)"
| "rbac_call D E (Authenticate token) = void (authenticate D E token)"
| "rbac_call D E SeedPermissions = seed_permissions D"
| "rbac_call D E (BootstrapAdmin subject pw ttl) = void (bootstrap_admin D E subject pw ttl)"
| "rbac_call D E (BootstrapLegacyAdmin subject token r) = bootstrap_legacy_admin D E subject token r"

text \<open>Each call has its own time and random bytes.\<close>

fun rbac_history :: "'db gorm_db \<Rightarrow> (rbac_env \<times> rbac_op) list \<Rightarrow> 'db \<Rightarrow> 'db" where
  "rbac_history D [] s = s"
| "rbac_history D ((E, op) # h) s = rbac_history D h (snd (rbac_call D E op s))"

context gorm_store begin

lemmas op_defs = create_user_def create_user_with_password_def set_password_def create_role_def
  grant_permission_def assign_role_def grant_role_def create_managed_user_def update_user_def update_user_tx_def
  patch_user_def patch_user_tx_def create_managed_role_def replace_permissions_def replace_user_roles_def
  replace_role_permissions_def update_user_row_def issue_token_def issue_token_for_user_def login_def
  revoke_token_def revoke_presented_token_def seed_permissions_def seed_permissions_tx_def
  bootstrap_admin_def bootstrap_legacy_admin_def repair_bootstrap_user_def grant_bootstrap_permissions_def
  void_def Let_def

lemma rbac_call_keeps_dead: "keeps (dead h) (rbac_call D E op)"
  by (cases op; simp only: rbac_call.simps op_defs read_defs; intro dead_rules)

lemma rbac_history_keeps_dead: "dead h s \<Longrightarrow> dead h (rbac_history D calls s)"
proof (induction calls arbitrary: s)
  case (Cons c calls)
  obtain E op where "c = (E, op)" by fastforce
  with Cons keepsD [OF rbac_call_keeps_dead Cons.prems] show ?case by simp
qed simp

lemma revoke_kills:
  assumes "ts_uniq tokens_spec (t_tokens (view s))" "revoke_presented_token D E token s = (Inr True, s1)"
  shows "dead (rb_sha E token) s1"
proof -
  obtain r1 a where s1: "token_hashed D (rb_sha E token) s = (r1, a)" by fastforce
  then obtain krow where r1: "r1 = Inr krow"
    using assms(2) by (auto simp: revoke_presented_token_def prog_simps split: sum.splits if_splits)
  have rec: "krow \<in> set (t_tokens (view s))" "at_TokenHash krow = rb_sha E token" "view a = view s"
    using sql_firstE [OF tokens_ok s1 [unfolded token_hashed_def]] r1 by (auto simp: tokens_spec_def)
  let ?m = "sql_update (gd_tokens D) (\<lambda>t. at_ID t = at_ID krow) (\<lambda>t. t\<lparr>at_RevokedAt := Some (rb_now E)\<rparr>)"
  obtain q b where q: "?m a = (q, b)" by fastforce
  have b: "q \<noteq> Inl e" "b = s1" for e
    using assms(2) s1 r1 q
    by (auto simp: revoke_presented_token_def revoke_row_def prog_simps split: sum.splits if_splits)
  from tokens_ok q show ?thesis
  proof (rule sql_updateE)
    fix g
    assume g: "\<And>r. ts_norm tokens_spec (g r) = ts_norm tokens_spec (r\<lparr>at_RevokedAt := Some (rb_now E)\<rparr>)"
      and v: "view b = ts_upd tokens_spec (map (\<lambda>r. if at_ID r = at_ID krow then g r else r)) (view a)"
    have gr: "at_TokenHash (g r) = at_TokenHash r \<and> at_RevokedAt (g r) = Some (rb_now E)" for r
      using token_norm [OF g [of r]] by simp
    have inj: "inj_on at_TokenHash (set (t_tokens (view s)))"
      using assms(1) by (simp add: tokens_spec_def distinct_map)
    let ?f = "\<lambda>r. if at_ID r = at_ID krow then g r else r"
    have rows: "t_tokens (view s1) = map ?f (t_tokens (view s))"
      using v b(2) rec(3) by (simp add: tokens_spec_def)
    have h: "at_TokenHash (?f r) = at_TokenHash r" for r using gr by simp
    then have "at_TokenHash ` set (t_tokens (view s1)) = at_TokenHash ` set (t_tokens (view s))"
      unfolding rows by (rule image_map_same)
    with rec have "rb_sha E token \<in> at_TokenHash ` set (t_tokens (view s1))" by (metis image_eqI)
    moreover have "at_RevokedAt x \<noteq> None"
      if "x \<in> set (t_tokens (view s1))" "at_TokenHash x = rb_sha E token" for x
    proof -
      from that(1) obtain r where r: "r \<in> set (t_tokens (view s))" "x = ?f r" unfolding rows by auto
      with that(2) h rec have "at_TokenHash r = at_TokenHash krow" by metis
      with inj r(1) rec(1) have "r = krow" by (auto dest: inj_onD)
      with r(2) gr show ?thesis by simp
    qed
    ultimately show ?thesis by (simp add: token_dead_def)
  qed (use b in auto)
qed

lemma dead_not_authenticated:
  assumes "dead (rb_sha E token) s"
  shows "\<exists>e. fst (authenticate D E token s) = Inl e"
proof (cases "fst (authenticate D E token s)")
  case (Inr i)
  then have "authenticate D E token s = (Inr i, snd (authenticate D E token s))" by (metis prod.collapse)
  from authenticate_ok [OF this] assms show ?thesis by (auto simp: credential_def token_dead_def)
qed simp

end

text \<open>
  C26. A revoked token stays dead. Once \<open>RevokePresentedToken\<close> has reported true for a token,
  no history of calls of the service, by whomever and with whatever arguments, times, random
  bytes and database failures, makes \<open>Authenticate\<close> accept that token again.
\<close>

theorem revoked_token_stays_dead:
  assumes "gorm_ok view D" "ts_uniq tokens_spec (t_tokens (view s))"
    and "revoke_presented_token D E token s = (Inr True, s1)" "rb_sha E' = rb_sha E"
  shows "\<exists>e. fst (authenticate D E' token (rbac_history D calls s1)) = Inl e"
proof -
  have g: "gorm_store view D" by (rule gorm_store.intro [OF assms(1)])
  show ?thesis
    by (rule gorm_store.dead_not_authenticated [OF g])
      (simp only: assms(4) gorm_store.rbac_history_keeps_dead [OF g gorm_store.revoke_kills [OF g assms(2,3)]])
qed

section \<open>Role links\<close>

definition role_ids :: "tables \<Rightarrow> string \<Rightarrow> string set" where
  "role_ids t uid = {rid. \<lparr>ur_UserID = uid, ur_RoleID = rid\<rparr> \<in> set (t_user_roles t)}"

definition ids_named :: "tables \<Rightarrow> string list \<Rightarrow> string set" where
  "ids_named t names = {ro_ID r | r. r \<in> set (t_roles t) \<and> ro_Name r \<in> set names}"

context gorm_store begin

lemma roles_looked_up:
  assumes "forE names (role_named D) s = (Inr rs, s')"
  shows "view s' = view s \<and> map ro_Name rs = names \<and> set rs \<subseteq> set (t_roles (view s))"
  using assms
proof (induction names arbitrary: s rs)
  case Nil
  then show ?case by (simp add: returnE_def)
next
  case (Cons n names)
  obtain q a where q: "role_named D n s = (q, a)" by fastforce
  then obtain r where r: "q = Inr r" using Cons.prems by (cases q) (auto simp: prog_simps)
  have row: "r \<in> set (t_roles (view s))" "ro_Name r = n" "view a = view s"
    using sql_firstE [OF roles_ok q [unfolded role_named_def]] r by (auto simp: roles_spec_def)
  obtain rs' where rs': "forE names (role_named D) a = (Inr rs', s')" "rs = r # rs'"
    using Cons.prems q r by (auto simp: prog_simps split: prod.splits sum.splits)
  from Cons.IH [OF rs'(1)] rs'(2) row show ?case by auto
qed

lemma links_created:
  assumes "forE rs (\<lambda>r. sql_create (gd_user_roles D) \<lparr>ur_UserID = uid, ur_RoleID = ro_ID r\<rparr>) s = (Inr us, s')"
  shows "view s' = t_user_roles_update
    (\<lambda>rows. rows @ map (\<lambda>r. \<lparr>ur_UserID = uid, ur_RoleID = ro_ID r\<rparr>) rs) (view s)"
  using assms
proof (induction rs arbitrary: s us)
  case Nil
  then show ?case by (simp add: returnE_def)
next
  case (Cons r rs)
  let ?l = "\<lparr>ur_UserID = uid, ur_RoleID = ro_ID r\<rparr>"
  obtain q a where q: "sql_create (gd_user_roles D) ?l s = (q, a)" by fastforce
  then have "q \<noteq> Inl e" for e using Cons.prems by (auto simp: prog_simps)
  with sql_createE [OF user_roles_ok q] have a: "view a = t_user_roles_update (\<lambda>rows. rows @ [?l]) (view s)"
    by (auto simp: user_roles_spec_def)
  obtain us' where "forE rs (\<lambda>r. sql_create (gd_user_roles D) \<lparr>ur_UserID = uid, ur_RoleID = ro_ID r\<rparr>) a = (Inr us', s')"
    using Cons.prems q \<open>\<And>e. q \<noteq> Inl e\<close> by (cases q) (auto simp: prog_simps split: prod.splits sum.splits)
  from Cons.IH [OF this] a show ?case by (simp add: comp_def)
qed

lemma replace_user_roles_exact:
  assumes "replace_user_roles D uid names s = (Inr x, s')" "ts_uniq roles_spec (t_roles (view s))"
  shows "role_ids (view s') uid = ids_named (view s) names \<and>
    (\<forall>v. v \<noteq> uid \<longrightarrow> role_ids (view s') v = role_ids (view s) v) \<and>
    t_users (view s') = t_users (view s)"
proof -
  obtain rs a where rs: "forE names (role_named D) s = (Inr rs, a)"
    using assms(1) by (auto simp: replace_user_roles_def prog_simps split: prod.splits sum.splits)
  have looked: "view a = view s" "map ro_Name rs = names" "set rs \<subseteq> set (t_roles (view s))"
    using roles_looked_up [OF rs] by auto
  obtain q b where q: "sql_delete (gd_user_roles D) (\<lambda>l. ur_UserID l = uid) a = (q, b)" by fastforce
  have "q \<noteq> Inl e" for e using assms(1) rs q by (auto simp: replace_user_roles_def prog_simps)
  with sql_deleteE [OF user_roles_ok q]
  have b: "view b = t_user_roles_update (filter (\<lambda>l. ur_UserID l \<noteq> uid)) (view a)"
    by (auto simp: user_roles_spec_def)
  obtain us where us: "forE rs (\<lambda>r. sql_create (gd_user_roles D) \<lparr>ur_UserID = uid, ur_RoleID = ro_ID r\<rparr>) b = (Inr us, s')"
    using assms(1) rs q \<open>\<And>e. q \<noteq> Inl e\<close>
    by (cases q) (auto simp: replace_user_roles_def prog_simps split: prod.splits sum.splits)
  have final: "view s' = t_user_roles_update (\<lambda>rows. filter (\<lambda>l. ur_UserID l \<noteq> uid) rows @
      map (\<lambda>r. \<lparr>ur_UserID = uid, ur_RoleID = ro_ID r\<rparr>) rs) (view s)"
    using links_created [OF us] b looked(1) by (simp add: comp_def)
  have "ro_ID ` set rs = ids_named (view s) names"
  proof
    show "ro_ID ` set rs \<subseteq> ids_named (view s) names"
      using looked(2,3) by (auto simp: ids_named_def)
    show "ids_named (view s) names \<subseteq> ro_ID ` set rs"
    proof
      fix i assume "i \<in> ids_named (view s) names"
      then obtain r where r: "r \<in> set (t_roles (view s))" "ro_Name r \<in> set names" "i = ro_ID r"
        by (auto simp: ids_named_def)
      then obtain r' where r': "r' \<in> set rs" "ro_Name r' = ro_Name r" using looked(2) by auto
      have "inj_on ro_Name (set (t_roles (view s)))" using assms(2) by (simp add: roles_spec_def distinct_map)
      with r r' looked(3) have "r' = r" by (auto dest: inj_onD)
      with r r' show "i \<in> ro_ID ` set rs" by auto
    qed
  qed
  then show ?thesis unfolding final by (auto simp: role_ids_def)
qed

text \<open>Changing a user's row touches no role and no link.\<close>

lemma links_kept: "keeps (\<lambda>s. P (t_roles (view s)) (t_user_roles (view s))) (update_user_row D u f)"
  unfolding update_user_row_def
proof (intro keeps_bind keeps_return keepsI)
  fix s assume P: "P (t_roles (view s)) (t_user_roles (view s))"
  let ?m = "sql_update (gd_users D) (\<lambda>x. us_ID x = us_ID u) f"
  obtain q s' where q: "?m s = (q, s')" by fastforce
  from users_ok q show "P (t_roles (view (snd (?m s)))) (t_user_roles (view (snd (?m s))))"
    by (rule sql_updateE) (use P q in \<open>auto simp: users_spec_def\<close>)
qed

lemma patch_user_tx_roles:
  assumes "patch_user_tx D E subject pw (Some names) dis s = (Inr x, s')" "ts_uniq roles_spec (t_roles (view s))"
  shows "\<exists>u\<in>set (t_users (view s)). us_Subject u = subject \<and>
    role_ids (view s') (us_ID u) = ids_named (view s) names \<and>
    (\<forall>v. v \<noteq> us_ID u \<longrightarrow> role_ids (view s') v = role_ids (view s) v)"
proof -
  let ?P = "\<lambda>r l. r = t_roles (view s) \<and> l = t_user_roles (view s)"
  let ?K = "\<lambda>st. ?P (t_roles (view st)) (t_user_roles (view st))"
  obtain q a where q: "user_where D (\<lambda>u. us_Subject u = subject) s = (q, a)" by fastforce
  then obtain u where u: "q = Inr u" using assms(1) by (cases q) (auto simp: patch_user_tx_def prog_simps)
  have row: "u \<in> set (t_users (view s))" "us_Subject u = subject" "view a = view s"
    using sql_firstE [OF users_ok q [unfolded user_where_def]] u by (auto simp: users_spec_def)
  let ?pw = "case pw of None \<Rightarrow> returnE () | Some p \<Rightarrow> if p = [] then raiseE (Sent ErrInvalidPassword)
    else bindE (new_hash E p) (\<lambda>h. update_user_row D u (\<lambda>u. u\<lparr>us_PasswordHash := Some h\<rparr>))"
  let ?dis = "case dis of None \<Rightarrow> returnE () | Some d \<Rightarrow> update_user_row D u (\<lambda>u. u\<lparr>us_Disabled := d\<rparr>)"
  have run: "bindE ?pw (\<lambda>_. bindE ?dis (\<lambda>_. replace_user_roles D (us_ID u) names)) a = (Inr x, s')"
    using assms(1) q u by (simp add: patch_user_tx_def bindE_def)
  have kept: "keeps ?K ?pw" "keeps ?K ?dis"
    unfolding new_hash_def by (intro keeps_rules links_kept [of ?P] reads_lift)+
  from run obtain y b where b: "?pw a = (Inr y, b)"
    and run2: "bindE ?dis (\<lambda>_. replace_user_roles D (us_ID u) names) b = (Inr x, s')"
    by (rule bindE_InrE)
  from run2 obtain z c where c: "?dis b = (Inr z, c)" and rep: "replace_user_roles D (us_ID u) names c = (Inr x, s')"
    by (rule bindE_InrE)
  have "?K b" using keepsD [OF kept(1), of a] b row(3) by simp
  then have Kc: "?K c" using keepsD [OF kept(2), of b] c by simp
  then have "ts_uniq roles_spec (t_roles (view c))" using assms(2) by simp
  from replace_user_roles_exact [OF rep this] Kc row show ?thesis
    by (intro bexI [of _ u]) (auto simp: role_ids_def ids_named_def)
qed

lemma patch_user_roles:
  assumes "patch_user D E subject pw (Some names) dis s = (Inr mu, s')" "ts_uniq roles_spec (t_roles (view s))"
  shows "\<exists>u\<in>set (t_users (view s)). us_Subject u = subject \<and>
    role_ids (view s') (us_ID u) = ids_named (view s) names \<and>
    (\<forall>v. v \<noteq> us_ID u \<longrightarrow> role_ids (view s') v = role_ids (view s) v)"
proof -
  obtain y a where tx: "gd_tx D (patch_user_tx D E subject pw (Some names) dis) s = (Inr y, a)"
    and rd: "user_by_subject D subject a = (Inr mu, s')"
    using assms(1) unfolding patch_user_def by (rule bindE_InrE)
  have va: "view s' = view a" using keepsD [OF reads_user_by_subject [of "\<lambda>t. t = view a"], of a subject] rd by simp
  from tx_ok tx show ?thesis
  proof (rule txE)
    fix z s1 s2
    assume "view s1 = view s" "patch_user_tx D E subject pw (Some names) dis s1 = (Inr z, s2)" "view a = view s2"
    with patch_user_tx_roles [of E subject pw names dis s1 z s2] assms(2) va show ?thesis by simp
  qed simp
qed

end

text \<open>
  Setting a user's roles is exact: when \<open>PatchUser\<close> with a list of role names succeeds,
  the user with that subject has links to the roles of those names, all of them and no
  others, whatever it had before, and no other user's links have changed.
\<close>

theorem patch_user_sets_roles:
  assumes "gorm_ok view D" "ts_uniq roles_spec (t_roles (view s))"
    and "patch_user D E subject pw (Some names) dis s = (Inr mu, s')"
  shows "\<exists>u\<in>set (t_users (view s)). us_Subject u = subject \<and>
    role_ids (view s') (us_ID u) = ids_named (view s) names \<and>
    (\<forall>v. v \<noteq> us_ID u \<longrightarrow> role_ids (view s') v = role_ids (view s) v)"
  by (rule gorm_store.patch_user_roles [OF gorm_store.intro [OF assms(1)] assms(3,2)])

section \<open>A sample database\<close>

definition sample_rbac_env :: rbac_env where
  "sample_rbac_env = \<lparr>rb_sha = (\<lambda>x. x), rb_kdf = (\<lambda>q s t m p n. take n (q @ replicate n CHR ''0'')),
     rb_now = 100, rb_salt = Inr ''salt'', rb_token = Inr ''raw'', rb_id = Inr ''id''\<rparr>"

definition sample_rbac :: tables where
  "sample_rbac = empty_tables\<lparr>t_users := [new_user ''ann'', new_user ''bob''],
     t_roles := [\<lparr>ro_ID = ''r1'', ro_Name = ''viewer''\<rparr>, \<lparr>ro_ID = ''r2'', ro_Name = ''editor''\<rparr>],
     t_user_roles := [\<lparr>ur_UserID = ''ann'', ur_RoleID = ''r1''\<rparr>, \<lparr>ur_UserID = ''bob'', ur_RoleID = ''r1''\<rparr>],
     t_tokens := [\<lparr>at_ID = ''k'', at_UserID = ''ann'', at_TokenHash = ''tok'', at_ExpiresAt = 200,
       at_RevokedAt = None, at_CreatedAt = 0\<rparr>]\<rparr>"

lemmas mem_eval = mem_db_def mem_table_def sql_first_def spec_defs prog_simps

lemma sample_authenticates:
  "authenticate mem_db sample_rbac_env ''tok'' sample_rbac =
     (Inr \<lparr>id_UserID = ''ann'', id_Subject = ''ann'', id_Roles = [''viewer''], id_Permissions = [],
        id_ExpiresAt = Some 200\<rparr>, sample_rbac)"
  by (simp add: authenticate_def token_hashed_def mem_eval sample_rbac_def sample_rbac_env_def empty_tables_def
      identity_for_user_def or_unauthorized_def user_where_def new_user_def role_names_q_def user_permissions_q_def
      role_permissions_q_def)

theorem authenticate_sound_witness:
  "\<exists>u\<in>set (t_users sample_rbac). \<not> us_Disabled u \<and> us_ID u = ''ann'' \<and>
     credential sample_rbac_env ''tok'' sample_rbac ''ann'' (Some 200)"
proof -
  from authenticate_sound [OF mem_db_ok sample_authenticates] obtain u where
    "u \<in> set (t_users sample_rbac)" "\<not> us_Disabled u" "us_ID u = ''ann''"
    "credential sample_rbac_env ''tok'' sample_rbac ''ann'' (Some 200)" by auto
  then show ?thesis by blast
qed

theorem revoked_token_stays_dead_witness:
  "\<exists>s1. revoke_presented_token mem_db sample_rbac_env ''tok'' sample_rbac = (Inr True, s1) \<and>
     (\<exists>e. fst (authenticate mem_db sample_rbac_env ''tok''
        (rbac_history mem_db [(sample_rbac_env, Login ''ann'' ''pw'' 10), (sample_rbac_env, IssueToken ''ann'' 50)] s1)) = Inl e)"
proof -
  have u: "ts_uniq tokens_spec (t_tokens sample_rbac)"
    by (simp add: tokens_spec_def sample_rbac_def)
  obtain s1 where r: "revoke_presented_token mem_db sample_rbac_env ''tok'' sample_rbac = (Inr True, s1)"
    by (simp add: revoke_presented_token_def token_hashed_def mem_eval sample_rbac_def sample_rbac_env_def
        empty_tables_def revoke_row_def)
  from revoked_token_stays_dead [OF mem_db_ok u r refl] r show ?thesis by blast
qed

theorem patch_user_sets_roles_witness:
  "\<exists>mu t. patch_user mem_db sample_rbac_env ''ann'' None (Some [''editor'']) None sample_rbac = (Inr mu, t) \<and>
     role_ids t ''ann'' = ids_named sample_rbac [''editor''] \<and> role_ids t ''bob'' = role_ids sample_rbac ''bob''"
proof -
  have u: "ts_uniq roles_spec (t_roles sample_rbac)"
    by (simp add: roles_spec_def sample_rbac_def)
  obtain mu t where p: "patch_user mem_db sample_rbac_env ''ann'' None (Some [''editor'']) None sample_rbac = (Inr mu, t)"
    by (simp add: patch_user_def patch_user_tx_def user_where_def mem_eval sample_rbac_def sample_rbac_env_def
        empty_tables_def new_user_def mem_tx_def replace_user_roles_def role_named_def user_by_subject_def
        roles_for_user_def returnE_def bindE_def)
  from patch_user_sets_roles [OF mem_db_ok u p] obtain w where
    w: "w \<in> set (t_users sample_rbac)" "us_Subject w = ''ann''"
    "role_ids t (us_ID w) = ids_named sample_rbac [''editor'']"
    "\<forall>v. v \<noteq> us_ID w \<longrightarrow> role_ids t v = role_ids sample_rbac v" by auto
  then have "us_ID w = ''ann''" by (auto simp: sample_rbac_def new_user_def)
  with w p show ?thesis by auto
qed

end
