(* ===== verification/Api_Auth.thy ===== *)
theory Api_Auth
  imports Rbac_Facts Go_Path
begin

text \<open>
  The front door of the council server (\<open>internal/transport/council/auth.go\<close>): the static
  bearer token, and the middleware that authenticates a request against the RBAC service and
  checks the permission its route needs.

  \<^item> A handler takes a request and the state of the server and gives a reply and the new
    state. The identity the middleware puts into the request's context is the field
    \<open>rq_Identity\<close>.
  \<^item> A reply is \<open>Data status value\<close> or \<open>Error status code message\<close>, the two shapes
    \<open>writeData\<close>, \<open>writeErr\<close> and \<open>writeRBACError\<close> give a body.
  \<^item> The cookies are those \<open>net/http\<close> parsed, in order. The two environments of the RBAC
    service are those at the two moments it may be asked.
\<close>

section \<open>Requests and replies\<close>

record api_request =
  rq_Method :: string
  rq_Path :: string
  rq_Authorization :: string
  rq_Cookies :: "(string \<times> string) list"
  rq_RemoteAddr :: string
  rq_Body :: string
  rq_Identity :: "identity option"

datatype 'v reply = Data nat 'v | Error nat string string

type_synonym ('s, 'v) handler = "api_request \<Rightarrow> 's \<Rightarrow> 'v reply \<times> 's"

section \<open>Session options\<close>

record session_options =
  so_CookieName :: string
  so_CookieSecure :: bool
  so_TTL :: int

definition default_session_options :: session_options where
  "default_session_options = \<lparr>so_CookieName = ''aicouncil_session'', so_CookieSecure = True,
     so_TTL = 28800000000000\<rparr>"

definition normalize_session_options :: "session_options \<Rightarrow> session_options" where
  "normalize_session_options options =
     (if options = \<lparr>so_CookieName = [], so_CookieSecure = False, so_TTL = 0\<rparr> then default_session_options
      else
        let options = (if trim_space (so_CookieName options) = []
              then options\<lparr>so_CookieName := so_CookieName default_session_options\<rparr> else options)
        in if so_TTL options \<le> 0 then options\<lparr>so_TTL := so_TTL default_session_options\<rparr> else options)"

section \<open>The static token\<close>

text \<open>\<open>len(raw) >= 7 && strings.EqualFold(raw[:7], "bearer ")\<close>, and what follows.\<close>

definition bearer_token :: "string \<Rightarrow> string option" where
  "bearer_token raw =
     (if 7 \<le> length raw \<and> equal_fold (take 7 raw) ''bearer '' then Some (trim_space (drop 7 raw)) else None)"

definition bearer_auth :: "string \<Rightarrow> ('s, 'v) handler \<Rightarrow> ('s, 'v) handler" where
  "bearer_auth expected next' r s =
     (if rq_Path r = ''/healthz'' then next' r s
      else if expected = [] then next' r s
      else if bearer_token (trim_space (rq_Authorization r)) \<noteq> Some expected
        then (Error 401 ''unauthorized'' ''valid bearer token required'', s)
      else next' r s)"

section \<open>Routes and permissions\<close>

definition is_public_rbac_path :: "string \<Rightarrow> string \<Rightarrow> bool" where
  "is_public_rbac_path method' path \<longleftrightarrow> path = ''/healthz'' \<or> path = ''/metrics'' \<or>
     (method' = ''POST'' \<and> (path = ''/api/v1/auth/login'' \<or> path = ''/api/v1/auth/logout''))"

definition single_segment :: "string \<Rightarrow> string \<Rightarrow> bool" where
  "single_segment path base =
     (case cut_prefix path (base @ ''/'') of
        None \<Rightarrow> False
      | Some segment \<Rightarrow> segment \<noteq> [] \<and> \<not> contains_char segment (CHR ''/''))"

definition task_route_permission :: "string \<Rightarrow> string \<Rightarrow> string option" where
  "task_route_permission method' path =
     (case cut_prefix path ''/api/v1/tasks/'' of
        None \<Rightarrow> None
      | Some rest \<Rightarrow>
          let parts = split_on (CHR ''/'') rest in
          if [] \<in> set parts then None
          else if length parts = 1 \<and> method' = ''GET'' then Some ''task:read''
          else if length parts = 2 \<and> method' = ''GET'' \<and> parts ! 1 = ''events'' then Some ''task:read''
          else if length parts = 2 \<and> method' = ''POST'' \<and> parts ! 1 \<in> {''start'', ''reject'', ''cancel''}
            then Some ''task:write''
          else if length parts = 2 \<and> method' = ''POST'' \<and> parts ! 1 = ''approve'' then Some ''task:approve''
          else if length parts = 2 \<and> method' = ''POST'' \<and> parts ! 1 = ''execute'' then Some ''task:execute''
          else if length parts = 3 \<and> method' = ''GET'' \<and> parts ! 1 = ''artifacts'' then Some ''task:read''
          else None)"

definition rbac_route_permission :: "string \<Rightarrow> string \<Rightarrow> string option" where
  "rbac_route_permission method' path =
     (if method' = ''GET'' \<and> path = ''/api/v1/auth/me'' then Some []
      else if method' = ''GET'' \<and> path = ''/api/v1/workspaces'' then Some ''workspace:read''
      else if method' = ''POST'' \<and> path = ''/api/v1/workspaces'' then Some ''workspace:write''
      else if method' = ''POST'' \<and> path = ''/api/v1/providers/test'' then Some ''workspace:write''
      else if method' = ''POST'' \<and> path = ''/api/v1/tasks'' then Some ''task:write''
      else if method' = ''GET'' \<and> path = ''/api/v1/admin/permissions'' then Some ''admin:permissions''
      else case task_route_permission method' path of
        Some p \<Rightarrow> Some p
      | None \<Rightarrow>
          if path = ''/api/v1/admin/users'' \<and> (method' = ''GET'' \<or> method' = ''POST'') \<or>
             single_segment path ''/api/v1/admin/users'' \<and> method' = ''PATCH'' then Some ''admin:users''
          else if path = ''/api/v1/admin/roles'' \<and> (method' = ''GET'' \<or> method' = ''POST'') \<or>
             single_segment path ''/api/v1/admin/roles'' \<and> method' = ''PATCH'' then Some ''admin:roles''
          else None)"

section \<open>The middleware\<close>

definition identity_has_permission :: "identity \<Rightarrow> string \<Rightarrow> bool" where
  "identity_has_permission i permission \<longleftrightarrow> list_ex (\<lambda>granted. permission_covers granted permission) (id_Permissions i)"

definition authenticate_cookie ::
  "'db gorm_db \<Rightarrow> rbac_env \<Rightarrow> session_options \<Rightarrow> api_request \<Rightarrow> string \<Rightarrow> 'db \<Rightarrow>
   (bool \<times> identity result) \<times> 'db" where
  "authenticate_cookie D E options r raw s =
     (case map_of (rq_Cookies r) (so_CookieName options) of
        None \<Rightarrow> ((raw \<noteq> [], Inl (Sent ErrUnauthorized)), s)
      | Some v \<Rightarrow>
          if trim_space v = [] then ((raw \<noteq> [], Inl (Sent ErrUnauthorized)), s)
          else (case authenticate D E v s of (res, s1) \<Rightarrow> ((raw \<noteq> [], res), s1)))"

definition authenticate_rbac_request ::
  "'db gorm_db \<Rightarrow> rbac_env \<Rightarrow> rbac_env \<Rightarrow> session_options \<Rightarrow> api_request \<Rightarrow> 'db \<Rightarrow>
   (bool \<times> identity result) \<times> 'db" where
  "authenticate_rbac_request D E E' options r s =
     (let raw = trim_space (rq_Authorization r) in
      case bearer_token raw of
        None \<Rightarrow> authenticate_cookie D E' options r raw s
      | Some token \<Rightarrow>
          (case authenticate D E token s of
             (Inr i, s1) \<Rightarrow> ((True, Inr i), s1)
           | (Inl e, s1) \<Rightarrow>
               if e = Sent ErrForbidden then ((True, Inl e), s1)
               else authenticate_cookie D E' options r raw s1))"

definition forbidden :: "'v reply" where
  "forbidden = Error 403 ''forbidden'' ''permission denied''"

definition rbac_auth ::
  "'db gorm_db option \<Rightarrow> rbac_env \<Rightarrow> rbac_env \<Rightarrow> session_options \<Rightarrow> ('db, 'v) handler \<Rightarrow> ('db, 'v) handler" where
  "rbac_auth service E E' options next' r s =
     (if is_public_rbac_path (rq_Method r) (rq_Path r) then next' r s
      else case service of
        None \<Rightarrow> (Error 401 ''unauthorized'' ''rbac service unavailable'', s)
      | Some D \<Rightarrow>
          (case authenticate_rbac_request D E E' (normalize_session_options options) r s of
             ((presented, Inl e), s1) \<Rightarrow>
               (if e = Sent ErrForbidden then forbidden
                else Error 401 ''unauthorized''
                  (if presented then ''invalid bearer token'' else ''valid bearer token or session required''), s1)
           | ((presented, Inr i), s1) \<Rightarrow>
               (case rbac_route_permission (rq_Method r) (rq_Path r) of
                  None \<Rightarrow> (forbidden, s1)
                | Some p \<Rightarrow>
                    if p \<noteq> [] \<and> \<not> identity_has_permission i p then (forbidden, s1)
                    else next' (r\<lparr>rq_Identity := Some i\<rparr>) s1)))"

section \<open>The registered routes\<close>

text \<open>The routes of \<open>API.Routes\<close> and \<open>RBACAPI.Routes\<close>; a segment that starts with a colon
  is a variable, which the router binds to one non-empty segment of the path.\<close>

definition council_routes :: "(string \<times> string) list" where
  "council_routes =
     [(''POST'', ''/api/v1/providers/test''), (''POST'', ''/api/v1/workspaces''),
      (''GET'', ''/api/v1/workspaces''), (''POST'', ''/api/v1/tasks''), (''GET'', ''/api/v1/tasks/:id''),
      (''POST'', ''/api/v1/tasks/:id/start''), (''POST'', ''/api/v1/tasks/:id/approve''),
      (''POST'', ''/api/v1/tasks/:id/reject''), (''POST'', ''/api/v1/tasks/:id/execute''),
      (''POST'', ''/api/v1/tasks/:id/cancel''), (''GET'', ''/api/v1/tasks/:id/artifacts/:artifactId''),
      (''GET'', ''/api/v1/tasks/:id/events'')]"

definition rbac_routes :: "(string \<times> string) list" where
  "rbac_routes =
     [(''POST'', ''/api/v1/auth/login''), (''GET'', ''/api/v1/auth/me''), (''POST'', ''/api/v1/auth/logout''),
      (''GET'', ''/api/v1/admin/users''), (''POST'', ''/api/v1/admin/users''),
      (''PATCH'', ''/api/v1/admin/users/:subject''), (''GET'', ''/api/v1/admin/roles''),
      (''POST'', ''/api/v1/admin/roles''), (''PATCH'', ''/api/v1/admin/roles/:name''),
      (''GET'', ''/api/v1/admin/permissions'')]"

definition segment_matches :: "string \<Rightarrow> string \<Rightarrow> bool" where
  "segment_matches pat seg \<longleftrightarrow> (if take 1 pat = '':'' then seg \<noteq> [] else pat = seg)"

definition route_matches :: "string \<Rightarrow> string \<Rightarrow> bool" where
  "route_matches pattern path =
     list_all2 segment_matches (split_on (CHR ''/'') pattern) (split_on (CHR ''/'') path)"

section \<open>The permission table against the routes\<close>

text \<open>Paths as lists of segments.\<close>

lemma cut_prefix_segments:
  "cut_prefix path (base @ ''/'') =
     (let n = length (split_on (CHR ''/'') base); segs = split_on (CHR ''/'') path in
      if n < length segs \<and> take n segs = split_on (CHR ''/'') base
      then Some (join_with ''/'' (drop n segs)) else None)"
proof (cases "prefix (base @ ''/'') path")
  case True
  then obtain rest where "path = base @ CHR ''/'' # rest" by (auto elim: prefixE)
  then show ?thesis
    by (simp add: cut_prefix_def split_on_append_sep Let_def)
next
  case False
  let ?n = "length (split_on (CHR ''/'') base)" and ?segs = "split_on (CHR ''/'') path"
  have "\<not> (?n < length ?segs \<and> take ?n ?segs = split_on (CHR ''/'') base)"
  proof
    assume a: "?n < length ?segs \<and> take ?n ?segs = split_on (CHR ''/'') base"
    then have ne: "drop ?n ?segs \<noteq> []" by simp
    have "?segs = split_on (CHR ''/'') base @ drop ?n ?segs" using a by (metis append_take_drop_id)
    also have "drop ?n ?segs = split_on (CHR ''/'') (join_with ''/'' (drop ?n ?segs))"
      by (rule split_join [symmetric]) (use ne in \<open>auto dest: in_set_dropD split_on_no_sep\<close>)
    finally have "path = base @ CHR ''/'' # join_with ''/'' (drop ?n ?segs)"
      by (simp only: split_on_append_sep [symmetric] split_on_inject)
    with False show False by (simp add: prefix_def)
  qed
  with False show ?thesis by (simp only: cut_prefix_def Let_def if_False)
qed

lemma split_join_drop:
  "drop n (split_on (CHR ''/'') path) \<noteq> [] \<Longrightarrow>
     split_on (CHR ''/'') (join_with ''/'' (drop n (split_on (CHR ''/'') path))) = drop n (split_on (CHR ''/'') path)"
  by (rule split_join) (auto dest: in_set_dropD split_on_no_sep)

abbreviation segments :: "string \<Rightarrow> string list" where
  "segments path \<equiv> split_on (CHR ''/'') path"

definition task_segments :: "string \<Rightarrow> string list \<Rightarrow> string option" where
  "task_segments m segs =
     (if 4 < length segs \<and> take 4 segs = ['''', ''api'', ''v1'', ''tasks''] then
        (let parts = drop 4 segs in
         if [] \<in> set parts then None
         else if length parts = 1 \<and> m = ''GET'' then Some ''task:read''
         else if length parts = 2 \<and> m = ''GET'' \<and> parts ! 1 = ''events'' then Some ''task:read''
         else if length parts = 2 \<and> m = ''POST'' \<and> parts ! 1 \<in> {''start'', ''reject'', ''cancel''}
           then Some ''task:write''
         else if length parts = 2 \<and> m = ''POST'' \<and> parts ! 1 = ''approve'' then Some ''task:approve''
         else if length parts = 2 \<and> m = ''POST'' \<and> parts ! 1 = ''execute'' then Some ''task:execute''
         else if length parts = 3 \<and> m = ''GET'' \<and> parts ! 1 = ''artifacts'' then Some ''task:read''
         else None)
      else None)"

lemma task_permission_segments: "task_route_permission m path = task_segments m (segments path)"
proof -
  let ?segs = "segments path"
  have cut: "cut_prefix path ''/api/v1/tasks/'' =
      (if 4 < length ?segs \<and> take 4 ?segs = ['''', ''api'', ''v1'', ''tasks'']
       then Some (join_with ''/'' (drop 4 ?segs)) else None)"
    using cut_prefix_segments [of path "''/api/v1/tasks''"] by (simp add: Let_def eval_nat_numeral)
  show ?thesis
  proof (cases "4 < length ?segs \<and> take 4 ?segs = ['''', ''api'', ''v1'', ''tasks'']")
    case True
    then have "segments (join_with ''/'' (drop 4 ?segs)) = drop 4 ?segs"
      using split_join_drop [of 4 path] by simp
    moreover have "cut_prefix path ''/api/v1/tasks/'' = Some (join_with ''/'' (drop 4 ?segs))"
      unfolding cut if_P [OF True] ..
    ultimately show ?thesis
      unfolding task_route_permission_def task_segments_def if_P [OF True] by (simp only: option.case Let_def)
  next
    case False
    with cut have "cut_prefix path ''/api/v1/tasks/'' = None" by simp
    with False show ?thesis
      by (simp only: task_route_permission_def task_segments_def option.case if_False)
  qed
qed

lemma single_segment_gen:
  "single_segment path base \<longleftrightarrow> (\<exists>x. x \<noteq> [] \<and> segments path = segments base @ [x])"
proof
  assume "single_segment path base"
  then obtain rest where r: "cut_prefix path (base @ ''/'') = Some rest" "rest \<noteq> []" "CHR ''/'' \<notin> set rest"
    by (auto simp: single_segment_def contains_char_def split: option.splits)
  then have "path = base @ CHR ''/'' # rest"
    by (auto simp: cut_prefix_def elim!: prefixE split: if_splits)
  with r show "\<exists>x. x \<noteq> [] \<and> segments path = segments base @ [x]"
    by (auto simp: split_on_append_sep split_on_id)
next
  assume "\<exists>x. x \<noteq> [] \<and> segments path = segments base @ [x]"
  then obtain x where x: "x \<noteq> []" "segments path = segments base @ [x]" by blast
  then have n: "CHR ''/'' \<notin> set x" using split_on_no_sep [of x "CHR ''/''" path] by simp
  then have "segments (base @ CHR ''/'' # x) = segments path"
    using x by (simp add: split_on_append_sep split_on_id)
  then have "path = base @ CHR ''/'' # x" by (simp add: split_on_inject)
  with x(1) n show "single_segment path base"
    by (simp add: single_segment_def cut_prefix_def contains_char_def)
qed

definition admin_segments :: "string \<Rightarrow> string \<Rightarrow> string list \<Rightarrow> bool" where
  "admin_segments m kind segs \<longleftrightarrow>
     segs = ['''', ''api'', ''v1'', ''admin'', kind] \<and> (m = ''GET'' \<or> m = ''POST'') \<or>
     length segs = 6 \<and> take 5 segs = ['''', ''api'', ''v1'', ''admin'', kind] \<and> segs ! 5 \<noteq> [] \<and> m = ''PATCH''"

lemma six_segments:
  "(\<exists>x. x \<noteq> [] \<and> segs = [a, b, c, d, e] @ [x]) \<longleftrightarrow>
     length segs = 6 \<and> take 5 segs = [a, b, c, d, e] \<and> segs ! 5 \<noteq> []"
proof
  assume r: "length segs = 6 \<and> take 5 segs = [a, b, c, d, e] \<and> segs ! 5 \<noteq> []"
  then have "length (drop 5 segs) = Suc 0" by simp
  then obtain x where "drop 5 segs = [x]" by (auto simp only: length_Suc_conv length_0_conv)
  with r have s: "segs = [a, b, c, d, e] @ [x]" using append_take_drop_id [of 5 segs] by simp
  then have "segs ! 5 = x" by simp
  with r have "x \<noteq> []" by simp
  with s show "\<exists>x. x \<noteq> [] \<and> segs = [a, b, c, d, e] @ [x]" by blast
qed auto

definition permission_for :: "string \<Rightarrow> string list \<Rightarrow> string option" where
  "permission_for m segs =
     (if m = ''GET'' \<and> segs = ['''', ''api'', ''v1'', ''auth'', ''me''] then Some []
      else if m = ''GET'' \<and> segs = ['''', ''api'', ''v1'', ''workspaces''] then Some ''workspace:read''
      else if m = ''POST'' \<and> segs = ['''', ''api'', ''v1'', ''workspaces''] then Some ''workspace:write''
      else if m = ''POST'' \<and> segs = ['''', ''api'', ''v1'', ''providers'', ''test''] then Some ''workspace:write''
      else if m = ''POST'' \<and> segs = ['''', ''api'', ''v1'', ''tasks''] then Some ''task:write''
      else if m = ''GET'' \<and> segs = ['''', ''api'', ''v1'', ''admin'', ''permissions''] then Some ''admin:permissions''
      else case task_segments m segs of
        Some p \<Rightarrow> Some p
      | None \<Rightarrow>
          if admin_segments m ''users'' segs then Some ''admin:users''
          else if admin_segments m ''roles'' segs then Some ''admin:roles'' else None)"

lemma path_segments: "path = lit \<longleftrightarrow> segments path = segments lit"
  by (simp add: split_on_inject)

lemma permission_segments: "rbac_route_permission m path = permission_for m (segments path)"
proof -
  have "segments ''/api/v1/admin/users'' = ['''', ''api'', ''v1'', ''admin'', ''users'']"
    "segments ''/api/v1/admin/roles'' = ['''', ''api'', ''v1'', ''admin'', ''roles'']" by simp_all
  then have "path = ''/api/v1/admin/users'' \<and> (m = ''GET'' \<or> m = ''POST'') \<or>
      single_segment path ''/api/v1/admin/users'' \<and> m = ''PATCH'' \<longleftrightarrow> admin_segments m ''users'' (segments path)"
    "path = ''/api/v1/admin/roles'' \<and> (m = ''GET'' \<or> m = ''POST'') \<or>
      single_segment path ''/api/v1/admin/roles'' \<and> m = ''PATCH'' \<longleftrightarrow> admin_segments m ''roles'' (segments path)"
    by (simp_all only: single_segment_gen six_segments admin_segments_def conj_assoc
        path_segments [of path "''/api/v1/admin/users''"]
        path_segments [of path "''/api/v1/admin/roles''"])
  moreover have "path = ''/api/v1/auth/me'' \<longleftrightarrow> segments path = ['''', ''api'', ''v1'', ''auth'', ''me'']"
    "path = ''/api/v1/workspaces'' \<longleftrightarrow> segments path = ['''', ''api'', ''v1'', ''workspaces'']"
    "path = ''/api/v1/providers/test'' \<longleftrightarrow> segments path = ['''', ''api'', ''v1'', ''providers'', ''test'']"
    "path = ''/api/v1/tasks'' \<longleftrightarrow> segments path = ['''', ''api'', ''v1'', ''tasks'']"
    "path = ''/api/v1/admin/permissions'' \<longleftrightarrow> segments path = ['''', ''api'', ''v1'', ''admin'', ''permissions'']"
    by (simp_all add: path_segments)
  ultimately show ?thesis
    unfolding rbac_route_permission_def permission_for_def task_permission_segments by (simp only:)
qed

definition some_route :: "string \<Rightarrow> string \<Rightarrow> bool" where
  "some_route m path \<longleftrightarrow> list_ex (\<lambda>(m', pattern). m = m' \<and> route_matches pattern path) (council_routes @ rbac_routes)"

definition route_patterns :: "(string \<times> string list) list" where
  "route_patterns =
     [(''POST'', ['''', ''api'', ''v1'', ''providers'', ''test'']),
      (''POST'', ['''', ''api'', ''v1'', ''workspaces'']),
      (''GET'', ['''', ''api'', ''v1'', ''workspaces'']),
      (''POST'', ['''', ''api'', ''v1'', ''tasks'']),
      (''GET'', ['''', ''api'', ''v1'', ''tasks'', '':id'']),
      (''POST'', ['''', ''api'', ''v1'', ''tasks'', '':id'', ''start'']),
      (''POST'', ['''', ''api'', ''v1'', ''tasks'', '':id'', ''approve'']),
      (''POST'', ['''', ''api'', ''v1'', ''tasks'', '':id'', ''reject'']),
      (''POST'', ['''', ''api'', ''v1'', ''tasks'', '':id'', ''execute'']),
      (''POST'', ['''', ''api'', ''v1'', ''tasks'', '':id'', ''cancel'']),
      (''GET'', ['''', ''api'', ''v1'', ''tasks'', '':id'', ''artifacts'', '':artifactId'']),
      (''GET'', ['''', ''api'', ''v1'', ''tasks'', '':id'', ''events'']),
      (''POST'', ['''', ''api'', ''v1'', ''auth'', ''login'']),
      (''GET'', ['''', ''api'', ''v1'', ''auth'', ''me'']),
      (''POST'', ['''', ''api'', ''v1'', ''auth'', ''logout'']),
      (''GET'', ['''', ''api'', ''v1'', ''admin'', ''users'']),
      (''POST'', ['''', ''api'', ''v1'', ''admin'', ''users'']),
      (''PATCH'', ['''', ''api'', ''v1'', ''admin'', ''users'', '':subject'']),
      (''GET'', ['''', ''api'', ''v1'', ''admin'', ''roles'']),
      (''POST'', ['''', ''api'', ''v1'', ''admin'', ''roles'']),
      (''PATCH'', ['''', ''api'', ''v1'', ''admin'', ''roles'', '':name'']),
      (''GET'', ['''', ''api'', ''v1'', ''admin'', ''permissions''])]"

lemma route_patterns: "map (\<lambda>(m, pattern). (m, segments pattern)) (council_routes @ rbac_routes) = route_patterns"
  by code_simp

lemma some_route_patterns:
  "some_route m path \<longleftrightarrow>
     list_ex (\<lambda>(m', pat). m = m' \<and> list_all2 segment_matches pat (segments path)) route_patterns"
  unfolding some_route_def route_matches_def route_patterns [symmetric]
  by (simp add: list_ex_iff) (force simp: list_ex_iff)

lemma route_has_permission:
  assumes "some_route m path"
  shows "permission_for m (segments path) \<noteq> None \<or>
    m = ''POST'' \<and> (segments path = segments ''/api/v1/auth/login'' \<or> segments path = segments ''/api/v1/auth/logout'')"
  using assms
  apply (simp add: some_route_patterns route_patterns_def list_all2_Cons1 segment_matches_def)
  apply (elim disjE conjE exE)
  apply (simp_all add: permission_for_def task_segments_def admin_segments_def)
  done

lemma seven_cases:
  "(if c0 then None else if c1 then Some p1 else if c2 then Some p2 else if c3 then Some p3 else if c4 then Some p4
    else if c5 then Some p5 else if c6 then Some p6 else None) = Some p \<Longrightarrow>
   \<not> c0 \<and> (c1 \<and> p = p1 \<or> c2 \<and> p = p2 \<or> c3 \<and> p = p3 \<or> c4 \<and> p = p4 \<or> c5 \<and> p = p5 \<or> c6 \<and> p = p6)"
  by (auto split: if_splits)

lemma short_lists:
  "length ys = 1 \<Longrightarrow> \<exists>x. ys = [x]"
  "length ys = 2 \<Longrightarrow> \<exists>x. ys = [x, ys ! 1]"
  "length ys = 3 \<Longrightarrow> \<exists>x z. ys = [x, ys ! 1, z]"
  by (auto simp: length_Suc_conv eval_nat_numeral)

lemma task_segments_routed:
  assumes "task_segments m segs = Some p" "segments path = segs"
  shows "some_route m path \<and> p \<in> set standard_permissions"
proof -
  note eval = some_route_patterns route_patterns_def list_all2_Cons1 segment_matches_def standard_permissions_def
  let ?ys = "drop 4 segs"
  have "4 < length segs \<and> take 4 segs = ['''', ''api'', ''v1'', ''tasks'']"
    using assms(1) by (simp only: task_segments_def option.distinct split: if_splits)
  then have segs: "segments path = ['''', ''api'', ''v1'', ''tasks''] @ ?ys"
    and t: "task_segments m segs = task_segments m segs \<and> 4 < length segs \<and> take 4 segs = ['''', ''api'', ''v1'', ''tasks'']"
    using assms(2) by (metis append_take_drop_id)+
  have "[] \<notin> set ?ys" and shape:
    "length ?ys = 1 \<and> m = ''GET'' \<and> p = ''task:read'' \<or>
     length ?ys = 2 \<and> (m = ''GET'' \<and> ?ys ! 1 = ''events'' \<and> p = ''task:read'' \<or>
       m = ''POST'' \<and> ?ys ! 1 \<in> {''start'', ''reject'', ''cancel''} \<and> p = ''task:write'' \<or>
       m = ''POST'' \<and> ?ys ! 1 = ''approve'' \<and> p = ''task:approve'' \<or>
       m = ''POST'' \<and> ?ys ! 1 = ''execute'' \<and> p = ''task:execute'') \<or>
     length ?ys = 3 \<and> m = ''GET'' \<and> ?ys ! 1 = ''artifacts'' \<and> p = ''task:read''"
    using seven_cases [OF assms(1) [unfolded task_segments_def Let_def if_P [OF conjunct2 [OF t]]]] by argo+
  then have ne: "list_all (\<lambda>x. x \<noteq> []) ?ys" by (metis (mono_tags, lifting) list_all_iff)
  from shape consider (one) "length ?ys = 1" "m = ''GET''" "p = ''task:read''"
    | (two) "length ?ys = 2" "m = ''GET'' \<and> ?ys ! 1 = ''events'' \<and> p = ''task:read'' \<or>
       m = ''POST'' \<and> ?ys ! 1 \<in> {''start'', ''reject'', ''cancel''} \<and> p = ''task:write'' \<or>
       m = ''POST'' \<and> ?ys ! 1 = ''approve'' \<and> p = ''task:approve'' \<or>
       m = ''POST'' \<and> ?ys ! 1 = ''execute'' \<and> p = ''task:execute''"
    | (three) "length ?ys = 3" "m = ''GET''" "?ys ! 1 = ''artifacts''" "p = ''task:read''"
    by argo
  then show ?thesis
  proof cases
    case one
    with short_lists(1) [OF one(1)] ne segs show ?thesis by (elim exE) (simp add: eval)
  next
    case two
    obtain y where y: "?ys ! 1 = y" by simp
    with short_lists(2) [OF two(1)] obtain x where "?ys = [x, y]" by metis
    with segs ne two(2) [unfolded y] show ?thesis by (elim disjE conjE; simp add: eval; elim disjE; simp)
  next
    case three
    with short_lists(3) [OF three(1)] obtain x z where "?ys = [x, ''artifacts'', z]" by metis
    with segs ne three show ?thesis by (simp add: eval)
  qed
qed

lemma admin_segments_routed:
  assumes "admin_segments m kind segs" "segments path = segs" "kind = ''users'' \<or> kind = ''roles''"
  shows "some_route m path"
proof -
  note eval = assms(2) some_route_patterns route_patterns_def list_all2_Cons1 segment_matches_def
  show ?thesis
  proof (cases "segs = ['''', ''api'', ''v1'', ''admin'', kind] \<and> (m = ''GET'' \<or> m = ''POST'')")
    case True
    then show ?thesis using assms(3) by (elim conjE disjE) (simp_all add: eval)
  next
    case False
    with assms(1) obtain x where "segs = ['''', ''api'', ''v1'', ''admin'', kind, x]" "x \<noteq> []" "m = ''PATCH''"
      using six_segments [of segs "[]" "''api''" "''v1''" "''admin''" kind] by (simp only: admin_segments_def) auto
    then show ?thesis using assms(3) by (elim disjE) (simp_all add: eval)
  qed
qed

lemma first_match:
  "(if c1 then Some p1 else if c2 then Some p2 else if c3 then Some p3 else if c4 then Some p4
    else if c5 then Some p5 else if c6 then Some p6
    else case t of Some q \<Rightarrow> Some q | None \<Rightarrow> if c7 then Some p7 else if c8 then Some p8 else None) = Some p \<Longrightarrow>
   (c1 \<and> p = p1 \<or> c2 \<and> p = p2 \<or> c3 \<and> p = p3 \<or> c4 \<and> p = p4 \<or> c5 \<and> p = p5 \<or> c6 \<and> p = p6) \<or>
   t = Some p \<or> c7 \<and> p = p7 \<or> c8 \<and> p = p8"
  by (auto split: if_splits option.splits)

lemma permission_for_routed:
  assumes "permission_for m segs = Some p" "segments path = segs"
  shows "some_route m path \<and> (p = [] \<and> segs = segments ''/api/v1/auth/me'' \<or> p \<in> set standard_permissions)"
proof -
  note eval = assms(2) some_route_patterns route_patterns_def list_all2_Cons1 segment_matches_def standard_permissions_def
  note cases = first_match [OF assms(1) [unfolded permission_for_def]]
  show ?thesis
  proof (rule disjE [OF cases])
    assume "task_segments m segs = Some p \<or> admin_segments m ''users'' segs \<and> p = ''admin:users'' \<or>
      admin_segments m ''roles'' segs \<and> p = ''admin:roles''"
    then show ?thesis
      using task_segments_routed [OF _ assms(2)] admin_segments_routed [OF _ assms(2)]
      by (elim disjE conjE) (simp_all add: standard_permissions_def)
  qed (elim disjE conjE; simp add: eval)
qed


section \<open>What reaches a handler\<close>

text \<open>The tokens a request presents: one in the header, one in the session cookie.\<close>

definition presents :: "session_options \<Rightarrow> api_request \<Rightarrow> string \<Rightarrow> bool" where
  "presents options r token \<longleftrightarrow> bearer_token (trim_space (rq_Authorization r)) = Some token \<or>
     map_of (rq_Cookies r) (so_CookieName options) = Some token"

text \<open>An identity the service vouches for: an enabled user with its roles and permissions.\<close>

definition vouched :: "rbac_env \<Rightarrow> string \<Rightarrow> tables \<Rightarrow> identity \<Rightarrow> bool" where
  "vouched E token t i \<longleftrightarrow>
     (\<exists>u\<in>set (t_users t). \<not> us_Disabled u \<and> id_UserID i = us_ID u \<and> id_Subject i = us_Subject u \<and>
       id_Roles i = role_names_q (us_ID u) t \<and> id_Permissions i = user_permissions_q (us_ID u) t \<and>
       credential E token t (us_ID u) (id_ExpiresAt i))"

context gorm_store begin

lemma authenticate_view: "view (snd (authenticate D E token s)) = view s"
  using keepsD [OF reads_authenticate [where P = "\<lambda>t. t = view s"]] by simp

lemma authenticate_vouched:
  "authenticate D E token s = (Inr i, s') \<Longrightarrow> vouched E token (view s) i"
  unfolding vouched_def using authenticate_ok by blast

lemma authenticate_cookie_ok:
  assumes "authenticate_cookie D E options r raw s = ((b, q), s')"
  shows "view s' = view s \<and> (\<forall>i. q = Inr i \<longrightarrow> (\<exists>token. presents options r token \<and> vouched E token (view s) i))"
proof (cases "map_of (rq_Cookies r) (so_CookieName options)")
  case None
  with assms show ?thesis by (auto simp: authenticate_cookie_def)
next
  case (Some v)
  obtain q1 s1 where a: "authenticate D E v s = (q1, s1)" by fastforce
  with authenticate_view [of E v s] have "view s1 = view s" by simp
  with assms Some a authenticate_vouched [of E v s] show ?thesis
    by (auto simp: authenticate_cookie_def presents_def split: if_splits)
qed

lemma authenticate_request_ok:
  assumes "authenticate_rbac_request D E E' options r s = ((b, q), s')"
  shows "view s' = view s \<and>
    (\<forall>i. q = Inr i \<longrightarrow> (\<exists>token. presents options r token \<and>
       (vouched E token (view s) i \<or> vouched E' token (view s) i)))"
proof (cases "bearer_token (trim_space (rq_Authorization r))")
  case None
  with assms authenticate_cookie_ok show ?thesis by (fastforce simp: authenticate_rbac_request_def)
next
  case (Some token)
  obtain q1 s1 where a: "authenticate D E token s = (q1, s1)" by fastforce
  have v: "view s1 = view s" using authenticate_view [of E token s] a by simp
  show ?thesis
  proof (cases "\<exists>e. q1 = Inl e \<and> e \<noteq> Sent ErrForbidden")
    case True
    with assms Some a have "authenticate_cookie D E' options r (trim_space (rq_Authorization r)) s1 = ((b, q), s')"
      by (auto simp: authenticate_rbac_request_def)
    from authenticate_cookie_ok [OF this] v show ?thesis by auto
  next
    case False
    with assms Some a v authenticate_vouched [of E token s] show ?thesis
      by (cases q1) (auto simp: authenticate_rbac_request_def presents_def)
  qed
qed

lemma rbac_auth_ok:
  assumes "\<not> is_public_rbac_path (rq_Method r) (rq_Path r)"
    and "rbac_auth (Some D) E E' options next' r s = (reply, s')"
  shows "(\<exists>status code msg. reply = Error status code msg \<and> status \<in> {401, 403} \<and> view s' = view s) \<or>
    (\<exists>i token p s1. presents (normalize_session_options options) r token \<and>
       (vouched E token (view s) i \<or> vouched E' token (view s) i) \<and>
       rbac_route_permission (rq_Method r) (rq_Path r) = Some p \<and>
       (p = [] \<or> list_ex (\<lambda>granted. permission_covers granted p) (id_Permissions i)) \<and>
       view s1 = view s \<and> next' (r\<lparr>rq_Identity := Some i\<rparr>) s1 = (reply, s'))"
proof -
  obtain b q s1 where a: "authenticate_rbac_request D E E' (normalize_session_options options) r s = ((b, q), s1)"
    by (metis prod.collapse)
  note ok = authenticate_request_ok [OF a]
  show ?thesis
  proof (cases q)
    case (Inl e)
    with assms a ok show ?thesis by (auto simp: rbac_auth_def forbidden_def)
  next
    case (Inr i)
    with ok obtain token where t: "presents (normalize_session_options options) r token"
      "vouched E token (view s) i \<or> vouched E' token (view s) i" by blast
    show ?thesis
    proof (cases "rbac_route_permission (rq_Method r) (rq_Path r)")
      case None
      with assms a ok Inr show ?thesis by (auto simp: rbac_auth_def forbidden_def)
    next
      case (Some p)
      then have r: "rbac_auth (Some D) E E' options next' r s =
          (if p \<noteq> [] \<and> \<not> identity_has_permission i p then (forbidden, s1)
           else next' (r\<lparr>rq_Identity := Some i\<rparr>) s1)"
        using assms(1) a Inr by (simp add: rbac_auth_def)
      show ?thesis
      proof (cases "p \<noteq> [] \<and> \<not> identity_has_permission i p")
        case True
        with r assms(2) ok show ?thesis by (auto simp: forbidden_def)
      next
        case False
        with r assms(2) have "next' (r\<lparr>rq_Identity := Some i\<rparr>) s1 = (reply, s')" by simp
        with False Some t ok show ?thesis
          by (intro disjI2 exI [of _ i] exI [of _ token] exI [of _ p] exI [of _ s1])
            (auto simp: identity_has_permission_def)
      qed
    qed
  qed
qed

end

text \<open>
  No handler without its permission. A request for anything but the public paths either
  ends in a 401 or 403 with no table changed, or reaches its handler carrying the identity of
  an enabled user for whom the request presented a live credential, in the header or the
  session cookie, and whose permissions cover what the route needs.
\<close>

theorem handlers_need_permission:
  assumes "gorm_ok view D" "\<not> is_public_rbac_path (rq_Method r) (rq_Path r)"
    and "rbac_auth (Some D) E E' options next' r s = (reply, s')"
  shows "(\<exists>status code msg. reply = Error status code msg \<and> status \<in> {401, 403} \<and> view s' = view s) \<or>
    (\<exists>i token p s1. presents (normalize_session_options options) r token \<and>
       (vouched E token (view s) i \<or> vouched E' token (view s) i) \<and>
       rbac_route_permission (rq_Method r) (rq_Path r) = Some p \<and>
       (p = [] \<or> list_ex (\<lambda>granted. permission_covers granted p) (id_Permissions i)) \<and>
       view s1 = view s \<and> next' (r\<lparr>rq_Identity := Some i\<rparr>) s1 = (reply, s'))"
  by (rule gorm_store.rbac_auth_ok [OF gorm_store.intro [OF assms(1)] assms(2,3)])

section \<open>A sample request\<close>

definition sample_api :: tables where
  "sample_api = sample_rbac\<lparr>t_permissions := [\<lparr>pm_ID = ''p1'', pm_Name = ''task:*''\<rparr>],
     t_role_permissions := [\<lparr>rp_RoleID = ''r1'', rp_PermissionID = ''p1''\<rparr>]\<rparr>"

definition sample_request :: api_request where
  "sample_request = \<lparr>rq_Method = ''POST'', rq_Path = ''/api/v1/tasks/task-1/approve'',
     rq_Authorization = ''Bearer tok'', rq_Cookies = [], rq_RemoteAddr = ''127.0.0.1:1'', rq_Body = [],
     rq_Identity = None\<rparr>"

definition whoami :: "('s, string) handler" where
  "whoami r s = ((case rq_Identity r of Some i \<Rightarrow> Data 200 (id_UserID i) | None \<Rightarrow> Error 500 [] []), s)"

lemma sample_request_passes:
  "rbac_auth (Some mem_db) sample_rbac_env sample_rbac_env default_session_options whoami sample_request sample_api =
     (Data 200 ''ann'', sample_api)"
proof -
  have a: "authenticate mem_db sample_rbac_env ''tok'' sample_api =
     (Inr \<lparr>id_UserID = ''ann'', id_Subject = ''ann'', id_Roles = [''viewer''], id_Permissions = [''task:*''],
        id_ExpiresAt = Some 200\<rparr>, sample_api)"
    by (simp add: sample_api_def authenticate_def token_hashed_def mem_eval sample_rbac_def sample_rbac_env_def empty_tables_def
      identity_for_user_def or_unauthorized_def user_where_def new_user_def role_names_q_def user_permissions_q_def
      role_permissions_q_def)
  have p: "rbac_route_permission ''POST'' ''/api/v1/tasks/task-1/approve'' = Some ''task:approve''"
    by code_simp
  have fold: "equal_fold ''Bearer '' ''bearer ''" by code_simp
  have "trim_space ''Bearer tok'' = ''Bearer tok''" "trim_space ''tok'' = ''tok''"
    by (simp_all add: trim_space_id graphic_not_space)
  then have b: "bearer_token (trim_space ''Bearer tok'') = Some ''tok''"
    using fold by (simp add: bearer_token_def)
  have c: "permission_covers ''task:*'' ''task:approve''" by code_simp
  have n: "\<not> is_public_rbac_path ''POST'' ''/api/v1/tasks/task-1/approve''"
    by (simp add: is_public_rbac_path_def)
  show ?thesis
    by (simp add: rbac_auth_def n authenticate_rbac_request_def sample_request_def a p b c identity_has_permission_def whoami_def)
qed

theorem handlers_need_permission_witness:
  "\<exists>i token. presents default_session_options sample_request token \<and> vouched sample_rbac_env token sample_api i \<and>
     list_ex (\<lambda>granted. permission_covers granted ''task:approve'') (id_Permissions i)"
proof -
  have n: "\<not> is_public_rbac_path (rq_Method sample_request) (rq_Path sample_request)"
    by (simp add: is_public_rbac_path_def sample_request_def)
  have p: "rbac_route_permission (rq_Method sample_request) (rq_Path sample_request) = Some ''task:approve''"
    by code_simp
  have "trim_space ''aicouncil_session'' = ''aicouncil_session''"
    by (simp add: trim_space_id graphic_not_space)
  then have o: "normalize_session_options default_session_options = default_session_options"
    by (simp add: normalize_session_options_def default_session_options_def Let_def)
  from handlers_need_permission [OF mem_db_ok n sample_request_passes] p o show ?thesis by auto
qed

text \<open>The server also registers \<open>POST /shutdown\<close>, which the permission table does not know:
  under RBAC no user reaches it.\<close>

lemma shutdown_not_reachable:
  "\<not> is_public_rbac_path ''POST'' ''/shutdown'' \<and> rbac_route_permission ''POST'' ''/shutdown'' = None"
  by code_simp

end
