(* ===== verification/Contracts.thy ===== *)
theory Contracts
  imports Go_Prelude
begin

text \<open>
  Two contracts several components are held to, as interfaces: a component whose calls are answered
  as those of a specification (\<open>simulation\<close>: the login limiter, the secret store, the pairing codes),
  and a system of interleaved steps that keeps an invariant (\<open>kept_invariant\<close>: the desktop runtime,
  the certificate reloader).
\<close>

section \<open>Sequences of calls\<close>

text \<open>The answers of a component to a sequence of calls, each run on the state the last one left.\<close>

primrec answers :: "('c \<Rightarrow> 's \<Rightarrow> 'r \<times> 's) \<Rightarrow> 'c list \<Rightarrow> 's \<Rightarrow> 'r list" where
  "answers call [] s = []"
| "answers call (c # cs) s = (case call c s of (r, s1) \<Rightarrow> r # answers call cs s1)"

text \<open>
  The relation between the two states also sees the calls to come, so that it can hold what the
  specification demands of them (an order of their times, a length of their arguments).
\<close>

locale simulation =
  fixes conc :: "'c \<Rightarrow> 's \<Rightarrow> 'r \<times> 's" and spec :: "'c \<Rightarrow> 'a \<Rightarrow> 'r \<times> 'a"
    and rel :: "'c list \<Rightarrow> 's \<Rightarrow> 'a \<Rightarrow> bool"
  assumes simulates: "rel (c # cs) s a \<Longrightarrow> conc c s = (r, s1) \<Longrightarrow> \<exists>a1. spec c a = (r, a1) \<and> rel cs s1 a1"
begin

lemma answers_refine: "rel cs s a \<Longrightarrow> answers conc cs s = answers spec cs a"
proof (induction cs arbitrary: s a)
  case (Cons c cs)
  obtain r s1 where c: "conc c s = (r, s1)" by fastforce
  from simulates [OF Cons.prems c] obtain a1 where "spec c a = (r, a1)" "rel cs s1 a1" by blast
  with c Cons.IH show ?case by simp
qed simp

end

section \<open>Interleaved steps\<close>

inductive attains :: "('s \<Rightarrow> bool) \<Rightarrow> ('s \<Rightarrow> 's \<Rightarrow> bool) \<Rightarrow> 's \<Rightarrow> bool" for init move where
  attains_init: "init s \<Longrightarrow> attains init move s"
| attains_step: "attains init move s \<Longrightarrow> move s t \<Longrightarrow> attains init move t"

text \<open>An invariant may rest on another one that is already known of the reachable states.\<close>

locale kept_invariant =
  fixes init :: "'s \<Rightarrow> bool" and move :: "'s \<Rightarrow> 's \<Rightarrow> bool" and inv :: "'s \<Rightarrow> bool"
  assumes inv_init: "init s \<Longrightarrow> inv s"
    and inv_step: "attains init move s \<Longrightarrow> inv s \<Longrightarrow> move s t \<Longrightarrow> inv t"
begin

lemma attains_inv: "attains init move s \<Longrightarrow> inv s"
  by (induction rule: attains.induct) (auto intro: inv_init inv_step)

end

end
