(* ===== verification/Login_Limiter.thy ===== *)
theory Login_Limiter
  imports Contracts "HOL-Library.AList"
begin

text \<open>
  The limiter of password attempts (\<open>internal/transport/council/rbac_routes.go\<close>): for each
  client address the times of its recent failures and the number of attempts under way,
  and its refinement of a sliding-window specification that keeps everything.

  \<^item> The two Go maps are association lists with distinct keys; ranging over a map in any
    order has the same effect, since each client's entry is pruned on its own.
  \<^item> The clock is read once for each section under the mutex; times are nanoseconds.
\<close>

section \<open>The limiter\<close>

record limiter =
  li_failures :: "(string \<times> int list) list"
  li_pending :: "(string \<times> nat) list"

definition limiter_client_limit :: nat where
  "limiter_client_limit = 1024"

definition minute :: int where
  "minute = 60000000000"

definition failures_of :: "limiter \<Rightarrow> string \<Rightarrow> int list" where
  "failures_of L ip = (case map_of (li_failures L) ip of None \<Rightarrow> [] | Some ts \<Rightarrow> ts)"

definition pending_of :: "limiter \<Rightarrow> string \<Rightarrow> nat" where
  "pending_of L ip = (case map_of (li_pending L) ip of None \<Rightarrow> 0 | Some n \<Rightarrow> n)"

definition new_limiter :: limiter where
  "new_limiter = \<lparr>li_failures = [], li_pending = []\<rparr>"

definition prune_failures :: "int \<Rightarrow> string \<Rightarrow> limiter \<Rightarrow> limiter" where
  "prune_failures now ip L =
     (let cutoff = now - minute; keep = filter (\<lambda>attempt. cutoff < attempt) (failures_of L ip) in
      if keep = [] then L\<lparr>li_failures := AList.delete ip (li_failures L)\<rparr>
      else L\<lparr>li_failures := AList.update ip keep (li_failures L)\<rparr>)"

definition prune_all_failures :: "int \<Rightarrow> limiter \<Rightarrow> limiter" where
  "prune_all_failures now L = fold (prune_failures now) (map fst (li_failures L)) L"

definition limiter_clients :: "limiter \<Rightarrow> nat" where
  "limiter_clients L = length (li_failures L) +
     length (filter (\<lambda>(ip, n). ip \<notin> fst ` set (li_failures L)) (li_pending L))"

definition admit_login_attempt :: "string \<Rightarrow> int \<Rightarrow> limiter \<Rightarrow> bool \<times> limiter" where
  "admit_login_attempt ip now L0 =
     (let L = prune_all_failures now L0 in
      if map_of (li_failures L) ip = None \<and> pending_of L ip = 0 \<and> limiter_clients L \<ge> limiter_client_limit
        then (False, L)
      else if length (failures_of L ip) + pending_of L ip \<ge> 5 then (False, L)
      else (True, L\<lparr>li_pending := AList.update ip (pending_of L ip + 1) (li_pending L)\<rparr>))"

definition complete_login_attempt :: "string \<Rightarrow> bool \<Rightarrow> int \<Rightarrow> limiter \<Rightarrow> limiter" where
  "complete_login_attempt ip failed now L0 =
     (let L = prune_all_failures now L0;
          L1 = (if pending_of L ip > 1 then L\<lparr>li_pending := AList.update ip (pending_of L ip - 1) (li_pending L)\<rparr>
                else L\<lparr>li_pending := AList.delete ip (li_pending L)\<rparr>)
      in if failed then L1\<lparr>li_failures := AList.update ip (failures_of L1 ip @ [now]) (li_failures L1)\<rparr>
         else L1\<lparr>li_failures := AList.delete ip (li_failures L1)\<rparr>)"

text \<open>The calls of the login handler, in the order in which they take the mutex.\<close>

datatype limiter_call = Admit string int | Complete string bool int

primrec call_time :: "limiter_call \<Rightarrow> int" where
  "call_time (Admit ip now) = now"
| "call_time (Complete ip failed now) = now"

primrec limiter_step :: "limiter_call \<Rightarrow> limiter \<Rightarrow> bool \<times> limiter" where
  "limiter_step (Admit ip now) L = admit_login_attempt ip now L"
| "limiter_step (Complete ip failed now) L = (True, complete_login_attempt ip failed now L)"

definition limiter_run :: "limiter_call list \<Rightarrow> limiter \<Rightarrow> bool list" where
  "limiter_run cs L = answers limiter_step cs L"

section \<open>The sliding window\<close>

text \<open>
  The specification keeps, for each client, every failure since its last success and the
  number of attempts under way. An attempt is admitted if the client has fewer than five
  failures within the last minute and attempts under way together, and is not a new client
  beyond the limit.
\<close>

type_synonym window = "(string \<Rightarrow> int list) \<times> (string \<Rightarrow> nat)"

definition recent :: "int \<Rightarrow> int list \<Rightarrow> int list" where
  "recent now ts = filter (\<lambda>t. now - minute < t) ts"

definition active :: "int \<Rightarrow> window \<Rightarrow> string set" where
  "active now w = {ip. recent now (fst w ip) \<noteq> [] \<or> snd w ip \<noteq> 0}"

primrec window_step :: "limiter_call \<Rightarrow> window \<Rightarrow> bool \<times> window" where
  "window_step (Admit ip now) w =
     (if length (recent now (fst w ip)) + snd w ip < 5 \<and> (ip \<in> active now w \<or> card (active now w) < 1024)
      then (True, (fst w, (snd w)(ip := snd w ip + 1))) else (False, w))"
| "window_step (Complete ip failed now) w =
     (True, ((fst w)(ip := (if failed then fst w ip @ [now] else [])), (snd w)(ip := snd w ip - 1)))"

definition window_run :: "limiter_call list \<Rightarrow> window \<Rightarrow> bool list" where
  "window_run cs w = answers window_step cs w"

section \<open>Pruning\<close>

definition tidy :: "limiter \<Rightarrow> bool" where
  "tidy L \<longleftrightarrow> distinct (map fst (li_failures L)) \<and> distinct (map fst (li_pending L)) \<and>
     (\<forall>ip. map_of (li_failures L) ip \<noteq> Some []) \<and> (\<forall>ip. map_of (li_pending L) ip \<noteq> Some 0)"

lemma failures_update [simp]:
  "failures_of (L\<lparr>li_failures := AList.update ip ts (li_failures L)\<rparr>) = (failures_of L)(ip := ts)"
  "failures_of (L\<lparr>li_failures := AList.delete ip (li_failures L)\<rparr>) = (failures_of L)(ip := [])"
  "failures_of (L\<lparr>li_pending := q\<rparr>) = failures_of L"
  by (auto simp: failures_of_def fun_eq_iff update_conv' delete_conv')

lemma pending_update [simp]:
  "pending_of (L\<lparr>li_pending := AList.update ip n (li_pending L)\<rparr>) = (pending_of L)(ip := n)"
  "pending_of (L\<lparr>li_pending := AList.delete ip (li_pending L)\<rparr>) = (pending_of L)(ip := 0)"
  "pending_of (L\<lparr>li_failures := q\<rparr>) = pending_of L"
  by (auto simp: pending_of_def fun_eq_iff update_conv' delete_conv')

lemma tidy_update:
  "tidy L \<Longrightarrow> ts \<noteq> [] \<Longrightarrow> tidy (L\<lparr>li_failures := AList.update ip ts (li_failures L)\<rparr>)"
  "tidy L \<Longrightarrow> tidy (L\<lparr>li_failures := AList.delete ip (li_failures L)\<rparr>)"
  "tidy L \<Longrightarrow> n \<noteq> 0 \<Longrightarrow> tidy (L\<lparr>li_pending := AList.update ip n (li_pending L)\<rparr>)"
  "tidy L \<Longrightarrow> tidy (L\<lparr>li_pending := AList.delete ip (li_pending L)\<rparr>)"
  by (auto simp: tidy_def update_conv' delete_conv' distinct_update distinct_delete)

lemma tidy_known:
  assumes "tidy L"
  shows "map_of (li_failures L) ip = None \<longleftrightarrow> failures_of L ip = []"
    and "ip \<in> fst ` set (li_failures L) \<longleftrightarrow> failures_of L ip \<noteq> []"
    and "ip \<in> fst ` set (li_pending L) \<longleftrightarrow> pending_of L ip \<noteq> 0"
proof -
  have n: "map_of (li_failures L) ip \<noteq> Some []" "map_of (li_pending L) ip \<noteq> Some 0"
    using assms by (simp_all add: tidy_def)
  from n(1) show "map_of (li_failures L) ip = None \<longleftrightarrow> failures_of L ip = []"
    by (auto simp: failures_of_def split: option.splits)
  then show "ip \<in> fst ` set (li_failures L) \<longleftrightarrow> failures_of L ip \<noteq> []"
    by (metis map_of_eq_None_iff)
  from n(2) have "map_of (li_pending L) ip = None \<longleftrightarrow> pending_of L ip = 0"
    by (auto simp: pending_of_def split: option.splits)
  then show "ip \<in> fst ` set (li_pending L) \<longleftrightarrow> pending_of L ip \<noteq> 0"
    by (metis map_of_eq_None_iff)
qed

lemma clients_card:
  assumes "tidy L"
  shows "limiter_clients L = card {ip. failures_of L ip \<noteq> [] \<or> pending_of L ip \<noteq> 0}"
proof -
  let ?F = "fst ` set (li_failures L)" and ?P = "filter (\<lambda>(ip, n). ip \<notin> fst ` set (li_failures L)) (li_pending L)"
  have d: "distinct (map fst (li_failures L))" "distinct (map fst (li_pending L))"
    using assms by (simp_all add: tidy_def)
  have "card ?F = length (li_failures L)" using distinct_card [OF d(1)] by simp
  moreover have "distinct (map fst ?P)" using d(2) by (rule distinct_map_filter)
  then have "card (fst ` set ?P) = length ?P" using distinct_card [of "map fst ?P"] by simp
  ultimately have "limiter_clients L = card ?F + card (fst ` set ?P)" by (simp add: limiter_clients_def)
  also have "\<dots> = card (?F \<union> fst ` set ?P)" by (rule card_Un_disjoint [symmetric]) force+
  also have "?F \<union> fst ` set ?P = ?F \<union> fst ` set (li_pending L)" by force
  also have "\<dots> = {ip. failures_of L ip \<noteq> [] \<or> pending_of L ip \<noteq> 0}"
    using tidy_known(2,3) [OF assms] by blast
  finally show ?thesis .
qed

lemma prune_one:
  assumes "tidy L"
  shows "tidy (prune_failures now ip L)"
    and "failures_of (prune_failures now ip L) = (failures_of L)(ip := recent now (failures_of L ip))"
    and "pending_of (prune_failures now ip L) = pending_of L"
  using tidy_update [OF assms] by (simp_all add: prune_failures_def recent_def Let_def)

lemma prune_fold:
  assumes "tidy L"
  shows "tidy (fold (prune_failures now) ips L) \<and> pending_of (fold (prune_failures now) ips L) = pending_of L \<and>
    failures_of (fold (prune_failures now) ips L) =
      (\<lambda>ip. if ip \<in> set ips then recent now (failures_of L ip) else failures_of L ip)"
  using assms
proof (induction ips arbitrary: L)
  case (Cons ip ips)
  from Cons.IH [OF prune_one(1) [OF Cons.prems]] show ?case
    by (auto simp: prune_one [OF Cons.prems] recent_def fun_eq_iff)
qed simp

lemma prune_all:
  assumes "tidy L"
  shows "tidy (prune_all_failures now L)"
    and "failures_of (prune_all_failures now L) ip = recent now (failures_of L ip)"
    and "pending_of (prune_all_failures now L) = pending_of L"
proof -
  have "failures_of L ip = []" if "ip \<notin> set (map fst (li_failures L))"
    using tidy_known(2) [OF assms] that by auto
  then show "failures_of (prune_all_failures now L) ip = recent now (failures_of L ip)"
    using prune_fold [OF assms] by (auto simp: prune_all_failures_def recent_def)
qed (use prune_fold [OF assms] in \<open>simp_all add: prune_all_failures_def\<close>)

section \<open>The refinement\<close>

definition tracks :: "int \<Rightarrow> limiter \<Rightarrow> window \<Rightarrow> bool" where
  "tracks t L w \<longleftrightarrow> tidy L \<and> (\<forall>ip. failures_of L ip = recent t (fst w ip)) \<and> pending_of L = snd w"

lemma recent_recent: "t \<le> now \<Longrightarrow> recent now (recent t ts) = recent now ts"
  by (induction ts) (auto simp: recent_def)

lemma tracks_prune: "tracks t L w \<Longrightarrow> t \<le> now \<Longrightarrow> tracks now (prune_all_failures now L) w"
  by (simp add: tracks_def prune_all recent_recent)

lemma step_tracks:
  assumes "tracks t L w" "t \<le> call_time c"
  shows "fst (limiter_step c L) = fst (window_step c w) \<and>
    tracks (call_time c) (snd (limiter_step c L)) (snd (window_step c w))"
proof (cases c)
  case (Admit ip now)
  with assms have tr: "tracks now (prune_all_failures now L) w" by (simp add: tracks_prune)
  then have tidy: "tidy (prune_all_failures now L)"
    and f: "\<And>ip. failures_of (prune_all_failures now L) ip = recent now (fst w ip)"
    and p: "pending_of (prune_all_failures now L) = snd w" by (auto simp: tracks_def)
  have "limiter_clients (prune_all_failures now L) = card (active now w)"
    by (simp add: clients_card [OF tidy] f p active_def)
  with tr Admit show ?thesis
    by (auto simp: admit_login_attempt_def Let_def tidy_known(1) [OF tidy] f p active_def
        limiter_client_limit_def tracks_def tidy_update)
next
  case (Complete ip failed now)
  with assms have tr: "tracks now (prune_all_failures now L) w" by (simp add: tracks_prune)
  then have tidy: "tidy (prune_all_failures now L)"
    and f: "\<And>ip. failures_of (prune_all_failures now L) ip = recent now (fst w ip)"
    and p: "pending_of (prune_all_failures now L) = snd w" by (auto simp: tracks_def)
  have m: "recent now (ts @ [now]) = recent now ts @ [now]" "recent now [] = []" for ts
    by (simp_all add: recent_def minute_def)
  show ?thesis
    using Complete tidy
    by (auto simp: complete_login_attempt_def Let_def tracks_def f p m tidy_update fun_eq_iff)
qed

definition window_tracked :: "limiter_call list \<Rightarrow> limiter \<Rightarrow> window \<Rightarrow> bool" where
  "window_tracked cs L w \<longleftrightarrow> (\<exists>t. tracks t L w \<and> sorted (t # map call_time cs))"

interpretation sliding: simulation limiter_step window_step window_tracked
proof unfold_locales
  fix c cs L w b L1
  assume tracked: "window_tracked (c # cs) L w" and b: "limiter_step c L = (b, L1)"
  from tracked obtain t where t: "tracks t L w" "sorted (t # map call_time (c # cs))"
    unfolding window_tracked_def by blast
  then have later: "t \<le> call_time c" "sorted (call_time c # map call_time cs)" by simp_all
  note step = step_tracks [OF t(1) later(1), unfolded b fst_conv snd_conv]
  show "\<exists>w1. window_step c w = (b, w1) \<and> window_tracked cs L1 w1"
  proof (intro exI conjI)
    show "window_step c w = (b, snd (window_step c w))" using step by simp
    show "window_tracked cs L1 (snd (window_step c w))"
      unfolding window_tracked_def using step later(2) by (intro exI [of _ "call_time c"]) simp
  qed
qed


text \<open>Five failures within a minute, a sixth attempt, and another one a minute later.\<close>

definition sample_attacks :: "limiter_call list" where
  "sample_attacks = concat (map (\<lambda>k. [Admit ''ip'' (int k), Complete ''ip'' True (int k)]) [0..<5]) @
     [Admit ''ip'' 10, Admit ''ip'' 60000000004]"


end
