(* ===== verification/Rbac_Api.thy ===== *)
theory Rbac_Api
  imports Api_Auth Login_Limiter
begin

text \<open>
  The session and administration endpoints (\<open>internal/transport/council/rbac_routes.go\<close>) over
  the RBAC service and the login limiter.

  \<^item> The state is the database and the limiter. A handler returns its reply, the cookie it
    set, if any, and the state.
  \<^item> \<open>json.Decode\<close> of a body is a parameter; so is the host part \<open>net.SplitHostPort\<close> finds.
    The variables the router binds are arguments.
  \<^item> \<open>service\<close> is \<open>None\<close> where the code allows for a nil service.
\<close>

section \<open>State, cookies and bodies\<close>

record 'db rbac_state =
  ra_db :: 'db
  ra_limiter :: limiter

record session_cookie =
  ck_Name :: string
  ck_Value :: string
  ck_HttpOnly :: bool
  ck_Secure :: bool
  ck_SameSiteStrict :: bool
  ck_MaxAge :: int
  ck_Expires :: timestamp

record identity_response =
  ir_Subject :: string
  ir_Roles :: "string list"
  ir_Permissions :: "string list"
  ir_ExpiresAt :: "timestamp option"

record login_request =
  lr_Subject :: string
  lr_Password :: string

record managed_user_request =
  mq_Subject :: string
  mq_Password :: string
  mq_Roles :: "string list"

record managed_user_patch =
  up_Password :: "string option"
  up_Roles :: "string list option"
  up_Disabled :: "bool option"

record managed_role_request =
  rr_Name :: string
  rr_Permissions :: "string slice"

definition write_internal :: "'v reply" where
  "write_internal = Error 500 ''internal_error'' ''request could not be completed''"

text \<open>\<open>errors.Is(err, gorm.ErrRecordNotFound) || errors.Is(err, rbac.ErrForbidden)\<close>\<close>

definition write_managed_error :: "go_error \<Rightarrow> string \<Rightarrow> 'v reply" where
  "write_managed_error e entity =
     (if errors_is e RecordNotFound \<or> errors_is e ErrForbidden
      then Error 400 ''unknown_role'' ''one or more roles are unknown''
      else Error 400 (''invalid_'' @ entity) (''invalid '' @ entity))"

definition public_identity :: "identity \<Rightarrow> identity_response" where
  "public_identity i = \<lparr>ir_Subject = id_Subject i, ir_Roles = id_Roles i, ir_Permissions = id_Permissions i,
     ir_ExpiresAt = id_ExpiresAt i\<rparr>"

definition client_ip :: "(string \<Rightarrow> string option) \<Rightarrow> api_request \<Rightarrow> string" where
  "client_ip host_of r =
     (case host_of (rq_RemoteAddr r) of
        Some host \<Rightarrow>
          if host \<noteq> [] then host else if trim_space (rq_RemoteAddr r) \<noteq> [] then rq_RemoteAddr r else ''unknown''
      | None \<Rightarrow> if trim_space (rq_RemoteAddr r) \<noteq> [] then rq_RemoteAddr r else ''unknown'')"

section \<open>Sessions\<close>

definition session_cookie_for :: "session_options \<Rightarrow> string \<Rightarrow> timestamp \<Rightarrow> session_cookie" where
  "session_cookie_for options token now = \<lparr>ck_Name = so_CookieName options, ck_Value = token, ck_HttpOnly = True,
     ck_Secure = so_CookieSecure options, ck_SameSiteStrict = True,
     ck_MaxAge = so_TTL options div 1000000000, ck_Expires = now + so_TTL options\<rparr>"

definition end_attempt :: "string \<Rightarrow> bool \<Rightarrow> int \<Rightarrow> 'db rbac_state \<Rightarrow> 'db rbac_state" where
  "end_attempt ip failed now s = s\<lparr>ra_limiter := complete_login_attempt ip failed now (ra_limiter s)\<rparr>"

text \<open>\<open>t0\<close> and \<open>t1\<close> are the clock at the two sections under the mutex, \<open>E\<close> the environment of
  the service in between.\<close>

definition login_handler ::
  "'db gorm_db option \<Rightarrow> rbac_env \<Rightarrow> session_options \<Rightarrow> (string \<Rightarrow> login_request option) \<Rightarrow>
   (string \<Rightarrow> string option) \<Rightarrow> int \<Rightarrow> int \<Rightarrow> api_request \<Rightarrow> 'db rbac_state \<Rightarrow>
   (identity_response reply \<times> session_cookie option) \<times> 'db rbac_state" where
  "login_handler service E options decode host_of t0 t1 r s =
     (case decode (rq_Body r) of
        None \<Rightarrow> ((Error 400 ''invalid_login'' ''subject and password are required'', None), s)
      | Some in' \<Rightarrow>
          if trim_space (lr_Subject in') = [] \<or> lr_Password in' = []
          then ((Error 400 ''invalid_login'' ''subject and password are required'', None), s)
          else
            let ip = client_ip host_of r in
            (case admit_login_attempt ip t0 (ra_limiter s) of
               (False, L) \<Rightarrow>
                 ((Error 429 ''login_rate_limited'' ''too many failed login attempts'', None), s\<lparr>ra_limiter := L\<rparr>)
             | (True, L) \<Rightarrow>
                 (case service of
                    None \<Rightarrow> ((Error 401 ''unauthorized'' ''invalid credentials'', None),
                        end_attempt ip True t1 (s\<lparr>ra_limiter := L\<rparr>))
                  | Some D \<Rightarrow>
                      (case login D E (trim_space (lr_Subject in')) (lr_Password in') (so_TTL options) (ra_db s) of
                         (Inl e, db) \<Rightarrow> ((Error 401 ''unauthorized'' ''invalid credentials'', None),
                           end_attempt ip True t1 (s\<lparr>ra_limiter := L, ra_db := db\<rparr>))
                       | (Inr (token, i), db) \<Rightarrow>
                           ((Data 200 (public_identity i), Some (session_cookie_for options token t1)),
                            end_attempt ip False t1 (s\<lparr>ra_limiter := L, ra_db := db\<rparr>))))))"

definition me_handler :: "api_request \<Rightarrow> 's \<Rightarrow> identity_response reply \<times> 's" where
  "me_handler r s =
     (case rq_Identity r of
        None \<Rightarrow> (Error 401 ''unauthorized'' ''identity required'', s)
      | Some i \<Rightarrow> (Data 200 (public_identity i), s))"

definition revoke_cookie ::
  "'db gorm_db \<Rightarrow> rbac_env \<Rightarrow> session_options \<Rightarrow> api_request \<Rightarrow> ('db, unit) prog" where
  "revoke_cookie D E options r =
     (case map_of (rq_Cookies r) (so_CookieName options) of
        None \<Rightarrow> returnE ()
      | Some v \<Rightarrow> if trim_space v = [] then returnE ()
          else bindE (revoke_presented_token D E v) (\<lambda>_. returnE ()))"

definition revoke_logout_token ::
  "'db gorm_db option \<Rightarrow> rbac_env \<Rightarrow> rbac_env \<Rightarrow> session_options \<Rightarrow> api_request \<Rightarrow> ('db, unit) prog" where
  "revoke_logout_token service E E' options r =
     (case service of
        None \<Rightarrow> raiseE (Err ''rbac service unavailable'')
      | Some D \<Rightarrow>
          (case bearer_token (trim_space (rq_Authorization r)) of
             Some token \<Rightarrow>
               if token \<noteq> [] then
                 bindE (revoke_presented_token D E token) (\<lambda>revoked.
                   if revoked then returnE () else revoke_cookie D E' options r)
               else revoke_cookie D E' options r
           | None \<Rightarrow> revoke_cookie D E' options r))"

definition logout_handler ::
  "'db gorm_db option \<Rightarrow> rbac_env \<Rightarrow> rbac_env \<Rightarrow> session_options \<Rightarrow> api_request \<Rightarrow> 'db \<Rightarrow>
   (unit reply \<times> session_cookie option) \<times> 'db" where
  "logout_handler service E E' options r s =
     (case revoke_logout_token service E E' options r s of
        (Inl e, s') \<Rightarrow> ((write_internal, None), s')
      | (Inr _, s') \<Rightarrow> ((Data 204 (), Some \<lparr>ck_Name = so_CookieName options, ck_Value = [], ck_HttpOnly = True,
           ck_Secure = so_CookieSecure options, ck_SameSiteStrict = True, ck_MaxAge = -1,
           ck_Expires = 1000000000\<rparr>), s'))"

section \<open>Administration\<close>

definition or_internal :: "('db, 'a) prog \<Rightarrow> 'db \<Rightarrow> 'a reply \<times> 'db" where
  "or_internal m s = (case m s of (Inl e, s') \<Rightarrow> (write_internal, s') | (Inr v, s') \<Rightarrow> (Data 200 v, s'))"

definition or_managed :: "nat \<Rightarrow> string \<Rightarrow> ('db, 'a) prog \<Rightarrow> 'db \<Rightarrow> 'a reply \<times> 'db" where
  "or_managed status entity m s =
     (case m s of (Inl e, s') \<Rightarrow> (write_managed_error e entity, s') | (Inr v, s') \<Rightarrow> (Data status v, s'))"

definition list_users_handler :: "'db gorm_db \<Rightarrow> 'db \<Rightarrow> managed_user list reply \<times> 'db" where
  "list_users_handler D = or_internal (list_users D)"

definition list_roles_handler :: "'db gorm_db \<Rightarrow> 'db \<Rightarrow> managed_role list reply \<times> 'db" where
  "list_roles_handler D = or_internal (list_roles D)"

definition list_permissions_handler :: "'db gorm_db \<Rightarrow> 'db \<Rightarrow> string list reply \<times> 'db" where
  "list_permissions_handler D = or_internal (list_permissions D)"

definition create_user_handler ::
  "'db gorm_db \<Rightarrow> rbac_env \<Rightarrow> (string \<Rightarrow> managed_user_request option) \<Rightarrow> api_request \<Rightarrow> 'db \<Rightarrow>
   managed_user reply \<times> 'db" where
  "create_user_handler D E decode r s =
     (case decode (rq_Body r) of
        None \<Rightarrow> (Error 400 ''invalid_user'' ''subject and password are required'', s)
      | Some in' \<Rightarrow>
          if trim_space (mq_Subject in') = [] \<or> mq_Password in' = []
          then (Error 400 ''invalid_user'' ''subject and password are required'', s)
          else or_managed 201 ''user''
            (create_managed_user D E (trim_space (mq_Subject in')) (mq_Password in') (mq_Roles in')) s)"

definition update_user_handler ::
  "'db gorm_db \<Rightarrow> rbac_env \<Rightarrow> (string \<Rightarrow> managed_user_patch option) \<Rightarrow> string \<Rightarrow> api_request \<Rightarrow> 'db \<Rightarrow>
   managed_user reply \<times> 'db" where
  "update_user_handler D E decode var r s =
     (let subject = trim_space var; bad = (Error 400 ''invalid_user'' ''subject and at least one update are required'', s) in
      if subject = [] then bad
      else case decode (rq_Body r) of
        None \<Rightarrow> bad
      | Some in' \<Rightarrow>
          if up_Password in' = None \<and> up_Roles in' = None \<and> up_Disabled in' = None then bad
          else or_managed 200 ''user'' (patch_user D E subject (up_Password in') (up_Roles in') (up_Disabled in')) s)"

definition create_role_handler ::
  "'db gorm_db \<Rightarrow> (string \<Rightarrow> managed_role_request option) \<Rightarrow> api_request \<Rightarrow> 'db \<Rightarrow> managed_role reply \<times> 'db" where
  "create_role_handler D decode r s =
     (case decode (rq_Body r) of
        None \<Rightarrow> (Error 400 ''invalid_role'' ''name is required'', s)
      | Some in' \<Rightarrow>
          if trim_space (rr_Name in') = [] then (Error 400 ''invalid_role'' ''name is required'', s)
          else or_managed 201 ''role''
            (create_managed_role D (trim_space (rr_Name in')) (elems (rr_Permissions in'))) s)"

definition update_role_handler ::
  "'db gorm_db \<Rightarrow> (string \<Rightarrow> managed_role_request option) \<Rightarrow> string \<Rightarrow> api_request \<Rightarrow> 'db \<Rightarrow>
   managed_role reply \<times> 'db" where
  "update_role_handler D decode var r s =
     (let name = trim_space var; bad = (Error 400 ''invalid_role'' ''name and permissions are required'', s) in
      if name = [] then bad
      else case decode (rq_Body r) of
        None \<Rightarrow> bad
      | Some in' \<Rightarrow>
          (case rr_Permissions in' of
             None \<Rightarrow> bad
           | Some perms \<Rightarrow> or_managed 200 ''role'' (replace_permissions D name perms) s))"

section \<open>What a log-in opens\<close>

context gorm_store begin

lemma issue_token_ok:
  assumes "issue_token_for_user D E u ttl s = (Inr (token, k), s')"
  shows "at_ExpiresAt k = rb_now E + ttl \<and>
    (\<exists>k'. at_TokenHash k' = rb_sha E token \<and> at_UserID k' = us_ID u \<and> at_RevokedAt k' = None \<and>
       at_ExpiresAt k' = rb_now E + ttl \<and> view s' = (view s)\<lparr>t_tokens := t_tokens (view s) @ [k']\<rparr>)"
proof -
  have en: "\<not> us_Disabled u" using assms by (auto simp: issue_token_for_user_def prog_simps)
  obtain tk tid where t: "rb_token E = Inr tk" "rb_id E = Inr tid"
    using assms en
    by (auto simp: issue_token_for_user_def random_token_def lift_def prog_simps split: sum.splits)
  let ?k = "\<lparr>at_ID = b64_encode url_alphabet tid, at_UserID = us_ID u,
    at_TokenHash = rb_sha E (b64_encode url_alphabet tk), at_ExpiresAt = rb_now E + ttl, at_RevokedAt = None,
    at_CreatedAt = rb_now E\<rparr>"
  obtain q s1 where c: "sql_create (gd_tokens D) ?k s = (q, s1)" by fastforce
  have r: "q = Inr ()" "token = b64_encode url_alphabet tk" "k = ?k" "s1 = s'"
    using assms en t c
    by (auto simp: issue_token_for_user_def random_token_def lift_def prog_simps Let_def split: sum.splits)
  from tokens_ok c show ?thesis
  proof (rule sql_createE)
    fix k' assume k': "ts_norm tokens_spec k' = ts_norm tokens_spec ?k"
      and v: "view s1 = ts_upd tokens_spec (\<lambda>rows. rows @ [k']) (view s)"
    from k' have "at_UserID k' = us_ID u \<and> at_TokenHash k' = rb_sha E token \<and> at_ExpiresAt k' = rb_now E + ttl \<and>
        at_RevokedAt k' = None"
      using r(2) by (cases k') (simp add: tokens_spec_def)
    with v r show ?thesis by (auto simp: tokens_spec_def intro!: exI [of _ k'])
  qed (use r in simp)
qed

lemma login_ok:
  assumes "login D E subject pw ttl s = (Inr (token, i), s')"
    and "rb_sha E' = rb_sha E" "rb_now E' < rb_now E + ttl"
  shows "\<exists>u h. u \<in> set (t_users (view s)) \<and> us_Subject u = subject \<and> \<not> us_Disabled u \<and>
    us_PasswordHash u = Some h \<and> verify_password (rb_kdf E) h pw = Inr () \<and> id_UserID i = us_ID u \<and>
    vouched E' token (view s') i \<and>
    (\<exists>k. view s' = (view s)\<lparr>t_tokens := t_tokens (view s) @ [k]\<rparr>)"
proof -
  obtain r1 a where s1: "user_where D (\<lambda>u. us_Subject u = subject) s = (r1, a)" by fastforce
  obtain u where r1: "r1 = Inr u"
    using assms(1) s1 by (auto simp: login_def or_unauthorized_def prog_simps split: sum.splits)
  from sql_firstE [OF users_ok s1 [unfolded user_where_def]] r1
  have u: "u \<in> set (t_users (view s))" "us_Subject u = subject" "view a = view s"
    by (auto simp: users_spec_def)
  have ok: "\<not> (us_Disabled u \<or>
      (case us_PasswordHash u of None \<Rightarrow> True | Some h \<Rightarrow> verify_password (rb_kdf E) h pw \<noteq> Inr ()))"
    using assms(1) s1 r1 by (auto simp: login_def or_unauthorized_def prog_simps)
  obtain q2 b where s2: "issue_token_for_user D E u ttl a = (q2, b)" by fastforce
  obtain token' k where q2: "q2 = Inr (token', k)"
    using assms(1) s1 r1 ok s2 by (cases q2) (auto simp: login_def or_unauthorized_def prog_simps)
  obtain q3 c where s3: "identity_for_user D (us_ID u) b = (q3, c)" by fastforce
  have "\<exists>j. q3 = Inr j \<and> token' = token \<and> i = j\<lparr>id_ExpiresAt := Some (at_ExpiresAt k)\<rparr> \<and> c = s'"
    using assms(1) s1 r1 ok s2 q2 s3 by (cases q3) (auto simp: login_def or_unauthorized_def prog_simps)
  then obtain j where j: "q3 = Inr j" "token' = token" "i = j\<lparr>id_ExpiresAt := Some (at_ExpiresAt k)\<rparr>" "c = s'" by blast
  obtain k' where k: "at_ExpiresAt k = rb_now E + ttl" "at_TokenHash k' = rb_sha E token" "at_UserID k' = us_ID u"
    "at_RevokedAt k' = None" "at_ExpiresAt k' = rb_now E + ttl"
    "view b = (view s)\<lparr>t_tokens := t_tokens (view s) @ [k']\<rparr>"
    using issue_token_ok [OF s2 [unfolded q2]] u(3) j(2) by auto
  have vc: "view s' = view b"
    using keepsD [OF reads_identity [of "\<lambda>t. t = view b"], of b "us_ID u"] s3 j(4) by simp
  from identity_for_user_ok [OF s3 [unfolded j(1)]] obtain u' where u': "u' \<in> set (t_users (view b))"
    "us_ID u' = us_ID u" "\<not> us_Disabled u'" "j = \<lparr>id_UserID = us_ID u, id_Subject = us_Subject u',
      id_Roles = role_names_q (us_ID u) (view b), id_Permissions = user_permissions_q (us_ID u) (view b),
      id_ExpiresAt = None\<rparr>" by blast
  have "credential E' token (view b) (us_ID u) (Some (rb_now E + ttl))"
    using k assms(2,3) by (simp add: credential_def)
  with u' j(3) k(1) vc have "vouched E' token (view s') i"
    unfolding vouched_def by (intro bexI [of _ u']) simp_all
  moreover have "id_UserID i = us_ID u" using j(3) u'(4) by simp
  moreover obtain h where "us_PasswordHash u = Some h" "verify_password (rb_kdf E) h pw = Inr ()"
    using ok by (cases "us_PasswordHash u") auto
  ultimately show ?thesis using u ok vc k(6) by (intro exI [of _ u] exI [of _ h]) auto
qed

end

text \<open>
  C24. What a log-in opens. When the endpoint answers 200, the attempt was admitted by the
  limiter, the body named an enabled user and that user's password; the session cookie it
  sets is not readable by scripts and carries a token that, until the session's time is over,
  is a live credential of exactly that user, whose roles are in the answer; nothing but the
  table of tokens has changed, by one row.
\<close>

theorem login_opens_session:
  assumes "gorm_ok view D" "rb_sha E' = rb_sha E" "rb_now E' < rb_now E + so_TTL options"
    and "login_handler (Some D) E options decode host_of t0 t1 r s = ((Data 200 v, cookie), s')"
  shows "\<exists>in' u h c i. decode (rq_Body r) = Some in' \<and> cookie = Some c \<and> v = public_identity i \<and>
    fst (admit_login_attempt (client_ip host_of r) t0 (ra_limiter s)) \<and> ck_HttpOnly c \<and>
    u \<in> set (t_users (view (ra_db s))) \<and> us_Subject u = trim_space (lr_Subject in') \<and> \<not> us_Disabled u \<and>
    us_PasswordHash u = Some h \<and> verify_password (rb_kdf E) h (lr_Password in') = Inr () \<and>
    id_UserID i = us_ID u \<and> vouched E' (ck_Value c) (view (ra_db s')) i \<and>
    (\<exists>k. view (ra_db s') = (view (ra_db s))\<lparr>t_tokens := t_tokens (view (ra_db s)) @ [k]\<rparr>)"
proof -
  obtain in' where d: "decode (rq_Body r) = Some in'"
    using assms(4) by (auto simp: login_handler_def split: option.splits)
  obtain b L where a: "admit_login_attempt (client_ip host_of r) t0 (ra_limiter s) = (b, L)" by fastforce
  obtain q db where l: "login D E (trim_space (lr_Subject in')) (lr_Password in') (so_TTL options) (ra_db s) = (q, db)"
    by fastforce
  obtain token i where q: "q = Inr (token, i)" "b"
    using assms(4) d a l by (cases q) (auto simp: login_handler_def Let_def split: if_splits bool.splits)
  with assms(4) d a l have "v = public_identity i \<and> cookie = Some (session_cookie_for options token t1) \<and> ra_db s' = db"
    by (auto simp: login_handler_def Let_def end_attempt_def split: if_splits)
  with gorm_store.login_ok [OF gorm_store.intro [OF assms(1)] l [unfolded q(1)] assms(2,3)] d a q(2)
  show ?thesis by (auto simp: session_cookie_for_def)
qed

section \<open>A sample log-in\<close>

definition sample_hash :: string where
  "sample_hash = (case hash_password (rb_kdf sample_rbac_env) (Inr ''salt'') ''pw'' of Inr h \<Rightarrow> h | Inl _ \<Rightarrow> [])"

definition sample_state :: "tables rbac_state" where
  "sample_state = \<lparr>ra_db = empty_tables\<lparr>t_users := [(new_user ''ann'')\<lparr>us_PasswordHash := Some sample_hash\<rparr>]\<rparr>,
     ra_limiter = new_limiter\<rparr>"

lemma sample_hash_ok: "verify_password (rb_kdf sample_rbac_env) sample_hash ''pw'' = Inr ()"
proof -
  let ?k = "rb_kdf sample_rbac_env"
  have len: "length (?k ''pw'' ''salt'' 1 65536 4 32) = 32" by (simp add: sample_rbac_env_def)
  obtain h where h: "hash_password ?k (Inr ''salt'') ''pw'' = Inr h" by (simp add: hash_password_def)
  then have "parse_phc h = Some \<lparr>ph_memory = 65536, ph_iterations = 1, ph_threads = 4, ph_salt = ''salt'',
      ph_want = ?k ''pw'' ''salt'' 1 65536 4 32\<rparr>"
    by (rule parse_phc_hash) (use len in auto)
  with h len show ?thesis by (simp add: verify_password_def sample_hash_def)
qed

theorem login_opens_session_witness:
  "\<exists>v c s'. login_handler (Some mem_db) sample_rbac_env default_session_options (\<lambda>_. Some \<lparr>lr_Subject = ''ann'', lr_Password = ''pw''\<rparr>)
      (\<lambda>_. Some ''::1'') 0 1 sample_request sample_state = ((Data 200 v, Some c), s') \<and>
    ck_HttpOnly c \<and> (\<exists>i. id_UserID i = ''ann'' \<and> vouched sample_rbac_env (ck_Value c) (ra_db s') i)"
proof -
  let ?run = "login_handler (Some mem_db) sample_rbac_env default_session_options
    (\<lambda>_. Some \<lparr>lr_Subject = ''ann'', lr_Password = ''pw''\<rparr>) (\<lambda>_. Some ''::1'') 0 1 sample_request sample_state"
  have trim: "trim_space ''ann'' = ''ann''" by (simp add: trim_space_id graphic_not_space)
  have "fst (admit_login_attempt ''::1'' 0 new_limiter)" by code_simp
  then obtain L where L: "admit_login_attempt ''::1'' 0 new_limiter = (True, L)" by (metis (full_types) prod.collapse)
  obtain token i db where "login mem_db sample_rbac_env ''ann'' ''pw'' (so_TTL default_session_options)
      (ra_db sample_state) = (Inr (token, i), db)"
    using sample_hash_ok
    by (simp add: login_def or_unauthorized_def user_where_def mem_eval sample_state_def empty_tables_def new_user_def
        issue_token_for_user_def random_token_def lift_def sample_rbac_env_def identity_for_user_def Let_def
        role_names_q_def user_permissions_q_def role_permissions_q_def)
  with trim L obtain v c s' where run: "?run = ((Data 200 v, Some c), s')"
    by (simp add: login_handler_def client_ip_def Let_def sample_state_def)
  have now: "rb_now sample_rbac_env < rb_now sample_rbac_env + so_TTL default_session_options"
    by (simp add: default_session_options_def)
  have "us_ID (new_user ''ann'') = ''ann''" by (simp add: new_user_def)
  with login_opens_session [OF mem_db_ok refl now run] run show ?thesis by (fastforce simp: sample_state_def)
qed

end
