(* ===== verification/Council_Api.thy ===== *)
theory Council_Api
  imports Api_Auth Event_Repository Approval_Repository Council_Workflow Go_Path "HOL-Library.AList"
begin

text \<open>
  The task endpoints of the council server (\<open>internal/transport/council/routes.go\<close> and
  \<open>sse.go\<close>): workspaces, tasks, the start of a deliberation, approval, execution and
  cancellation, over the in-memory maps, the database, the council and the runner.

  \<^item> The state holds the two maps, the id counter, the metrics, the database and a world in
    which the council and the runner live. A task is reached through its id: the code's
    pointers stay in the map for ever, so that both name the same struct.
  \<^item> What the API is built with is the environment: the database handle, the transaction
    and clock of this request, SHA-256, the texts of errors, the JSON of event data and of a
    stored response, and the clients of the runner and the council, each of which may be missing.
  \<^item> A handler that holds the mutex throughout is one function. \<open>startTask\<close> lets go of it
    while it waits for the council, so it is a function per section under the mutex, and
    \<open>start_task\<close> runs them with \<open>others\<close>, whatever other requests do, in between.
  \<^item> Bodies are given decoded, \<open>None\<close> where \<open>json.Decode\<close> fails.
\<close>

section \<open>Data\<close>

record workspace =
  ws_ID :: string
  ws_Root :: string
  ws_IsGit :: bool
  ws_Dirty :: bool

text \<open>The three kinds of data the API gives its events: the task itself (by its id), the
  body of an approval, and the new state.\<close>

record approval_request =
  aq_PlanVersion :: int
  aq_ApprovalHash :: string

datatype event_data = TaskData string | ApprovalData approval_request | StateData string

record api_event =
  ae_ID :: int
  ae_Type :: string
  ae_Data :: event_data
  ae_CreatedAt :: timestamp

record api_task =
  tk_ID :: string
  tk_State :: string
  tk_WorkspaceID :: string
  tk_Requirement :: string
  tk_Acceptance :: "string slice"
  tk_PlanVersion :: int
  tk_ApprovalHash :: string
  tk_Approved :: bool
  tk_Plan :: execution_plan
  tk_Verification :: "exec_response option"
  tk_Events :: "api_event list"

record create_task_request =
  cq_WorkspaceID :: string
  cq_Requirement :: string
  cq_Acceptance :: "string slice"

record metrics =
  mt_TasksCreated :: nat
  mt_Executions :: nat
  mt_ExecutionFailures :: nat
  mt_CouncilRuns :: nat
  mt_CouncilFailures :: nat

text \<open>What a handler writes on success.\<close>

datatype api_value =
    TaskValue api_task
  | WorkspaceValue workspace
  | WorkspacesValue "workspace list"
  | ProfileValue string string string

record ('db, 'w) api_state =
  as_tasks :: "string \<Rightarrow> api_task option"
  as_nextID :: int
  as_workspaces :: "(string \<times> workspace) list"
  as_metrics :: metrics
  as_db :: 'db
  as_world :: 'w

text \<open>The council's ports. A deliberation that reports its progress is a tree: it reports a
  state and goes on with the callback's answer, or gives its result.\<close>

datatype 'w deliberation =
    Answered "execution_plan result" 'w
  | Report string 'w "unit result \<Rightarrow> 'w \<Rightarrow> 'w deliberation"

record 'w council_port =
  cp_Analyze :: "string \<Rightarrow> 'w \<Rightarrow> unit result \<times> 'w"
  cp_Deliberate :: "string \<Rightarrow> 'w \<Rightarrow> execution_plan result \<times> 'w"
  cp_WithWorkspace :: "(string \<Rightarrow> workspace_file list \<Rightarrow> 'w \<Rightarrow> execution_plan result \<times> 'w) option"
  cp_WithProgress :: "(string \<Rightarrow> workspace_file list \<Rightarrow> 'w \<Rightarrow> 'w deliberation) option"

record ('db, 'w) api_env =
  en_db :: "'db gorm_db option"
  en_tx :: "('db, event) prog \<Rightarrow> ('db, event) prog"
  en_now :: timestamp
  en_sha :: "string \<Rightarrow> string"
  en_text :: "go_error \<Rightarrow> string"
  en_json_event :: "event_data \<Rightarrow> ('db, 'w) api_state \<Rightarrow> string result"
  en_json_response :: "exec_response option \<Rightarrow> string"
  en_runner :: "(exec_request \<Rightarrow> 'w \<Rightarrow> exec_response option result \<times> 'w) option"
  en_describe :: "(string \<Rightarrow> 'w \<Rightarrow> (string \<times> bool \<times> bool) result \<times> 'w) option"
  en_context :: "(string \<Rightarrow> 'w \<Rightarrow> workspace_file option list result \<times> 'w) option"
  en_council :: "'w council_port option"

definition new_api :: "'db \<Rightarrow> 'w \<Rightarrow> ('db, 'w) api_state" where
  "new_api db w = \<lparr>as_tasks = (\<lambda>_. None), as_nextID = 0, as_workspaces = [],
     as_metrics = \<lparr>mt_TasksCreated = 0, mt_Executions = 0, mt_ExecutionFailures = 0, mt_CouncilRuns = 0,
       mt_CouncilFailures = 0\<rparr>, as_db = db, as_world = w\<rparr>"

section \<open>Tasks, events and persistence\<close>

definition in_db :: "('db, 'a) prog \<Rightarrow> (('db, 'w) api_state, 'a) prog" where
  "in_db m s = (case m (as_db s) of (r, db) \<Rightarrow> (r, s\<lparr>as_db := db\<rparr>))"

definition in_world :: "('w \<Rightarrow> 'a \<times> 'w) \<Rightarrow> ('db, 'w) api_state \<Rightarrow> 'a \<times> ('db, 'w) api_state" where
  "in_world m s = (case m (as_world s) of (r, w) \<Rightarrow> (r, s\<lparr>as_world := w\<rparr>))"

definition update_task :: "string \<Rightarrow> (api_task \<Rightarrow> api_task) \<Rightarrow> ('db, 'w) api_state \<Rightarrow> ('db, 'w) api_state" where
  "update_task tid f s = s\<lparr>as_tasks := (as_tasks s)(tid := map_option f (as_tasks s tid))\<rparr>"

definition set_state :: "string \<Rightarrow> string \<Rightarrow> ('db, 'w) api_state \<Rightarrow> ('db, 'w) api_state" where
  "set_state tid st = update_task tid (\<lambda>t. t\<lparr>tk_State := st\<rparr>)"

definition count_metric :: "(metrics \<Rightarrow> metrics) \<Rightarrow> ('db, 'w) api_state \<Rightarrow> ('db, 'w) api_state" where
  "count_metric f s = s\<lparr>as_metrics := f (as_metrics s)\<rparr>"

definition add_event :: "string \<Rightarrow> api_event \<Rightarrow> ('db, 'w) api_state \<Rightarrow> ('db, 'w) api_state" where
  "add_event tid e = update_task tid (\<lambda>t. t\<lparr>tk_Events := tk_Events t @ [e]\<rparr>)"

text \<open>Every caller has found the task in the map before; the operations read it again, since
  the pointer sees every change.\<close>

definition with_task ::
  "string \<Rightarrow> (api_task \<Rightarrow> (('db, 'w) api_state, unit) prog) \<Rightarrow> (('db, 'w) api_state, unit) prog" where
  "with_task tid m s = (case as_tasks s tid of None \<Rightarrow> (Inl (Sent GoPanic), s) | Some t \<Rightarrow> m t s)"

definition api_append ::
  "('db, 'w) api_env \<Rightarrow> string \<Rightarrow> string \<Rightarrow> event_data \<Rightarrow> (('db, 'w) api_state, unit) prog" where
  "api_append E tid kind data = with_task tid (\<lambda>t s.
     case en_db E of
       None \<Rightarrow> (Inr (), add_event tid \<lparr>ae_ID = int (length (tk_Events t)) + 1, ae_Type = kind,
           ae_Data = data, ae_CreatedAt = en_now E\<rparr> s)
     | Some D \<Rightarrow>
         (case in_db (event_append D (en_tx E) (en_now E) tid kind (en_json_event E data s)) s of
            (Inl e, s1) \<Rightarrow> (Inl e, s1)
          | (Inr saved, s1) \<Rightarrow> (Inr (), add_event tid \<lparr>ae_ID = evt_Sequence saved, ae_Type = kind,
              ae_Data = data, ae_CreatedAt = evt_CreatedAt saved\<rparr> s1)))"

definition task_row :: "('db, 'w) api_env \<Rightarrow> api_task \<Rightarrow> task_record \<Rightarrow> task_record" where
  "task_row E t r = r\<lparr>tr_State := tk_State t, tr_PlanVersion := tk_PlanVersion t,
     tr_ApprovalHash := tk_ApprovalHash t, tr_ApprovalGranted := tk_Approved t,
     tr_AcceptanceJSON := json_strings (tk_Acceptance t), tr_PlanJSON := json_plan (tk_Plan t),
     tr_VerificationJSON := en_json_response E (tk_Verification t)\<rparr>"

definition persist_task :: "('db, 'w) api_env \<Rightarrow> string \<Rightarrow> (('db, 'w) api_state, unit) prog" where
  "persist_task E tid = with_task tid (\<lambda>t.
     case en_db E of
       None \<Rightarrow> returnE ()
     | Some D \<Rightarrow> in_db (bindE (sql_update (gd_tasks D) (\<lambda>r. tr_ID r = tk_ID t) (task_row E t)) (\<lambda>_. returnE ())))"

text \<open>\<open>append(t, "state.changed", {"state": t.State})\<close>\<close>

definition append_state :: "('db, 'w) api_env \<Rightarrow> string \<Rightarrow> (('db, 'w) api_state, unit) prog" where
  "append_state E tid = with_task tid (\<lambda>t. api_append E tid ''state.changed'' (StateData (tk_State t)))"

definition transition_task :: "('db, 'w) api_env \<Rightarrow> string \<Rightarrow> string \<Rightarrow> (('db, 'w) api_state, unit) prog" where
  "transition_task E tid st s =
     bindE (persist_task E tid) (\<lambda>_. append_state E tid) (set_state tid st s)"

text \<open>Each ignored error, \<open>_ = f()\<close>, keeps the state.\<close>

definition ignoring :: "('s, 'a) prog \<Rightarrow> 's \<Rightarrow> 's" where
  "ignoring m s = snd (m s)"

section \<open>Workspaces and new tasks\<close>

definition test_provider :: "timestamp \<Rightarrow> (string \<times> string) option \<Rightarrow> api_value reply" where
  "test_provider now in' =
     (case in' of
        None \<Rightarrow> Error 400 ''invalid_provider'' ''provider and model are required''
      | Some (provider, model) \<Rightarrow>
          if provider = [] \<or> model = [] then Error 400 ''invalid_provider'' ''provider and model are required''
          else Data 200 (ProfileValue (''profile-'' @ itoa now) provider model))"

definition create_workspace ::
  "('db, 'w) api_env \<Rightarrow> string option \<Rightarrow> ('db, 'w) api_state \<Rightarrow> api_value reply \<times> ('db, 'w) api_state" where
  "create_workspace E in' s =
     (case in' of
        None \<Rightarrow> (Error 400 ''invalid_workspace'' ''root is required'', s)
      | Some given \<Rightarrow>
          if trim_space given = [] then (Error 400 ''invalid_workspace'' ''root is required'', s)
          else let root = clean (trim_space given) in
            (case List.find (\<lambda>(_, w). ws_Root w = root) (as_workspaces s) of
               Some (_, existing) \<Rightarrow> (Data 200 (WorkspaceValue existing), s)
             | None \<Rightarrow>
                 let n = int64 (as_nextID s + 1); wid = ''workspace-'' @ itoa n;
                     plain = \<lparr>ws_ID = wid, ws_Root = root, ws_IsGit = False, ws_Dirty = False\<rparr>;
                     (w, s1) =
                       (case en_describe E of
                          None \<Rightarrow> (plain, s)
                        | Some describe \<Rightarrow>
                            (case in_world (describe wid) s of
                               (Inl _, s1) \<Rightarrow> (plain, s1)
                             | (Inr (r, git, dirty), s1) \<Rightarrow>
                                 (plain\<lparr>ws_Root := r, ws_IsGit := git, ws_Dirty := dirty\<rparr>, s1)));
                     s2 = s1\<lparr>as_nextID := n, as_workspaces := as_workspaces s1 @ [(wid, w)]\<rparr>;
                     s3 = (case en_db E of
                        None \<Rightarrow> s2
                      | Some D \<Rightarrow> ignoring (in_db (sql_save (gd_workspaces D) \<lparr>wr_ID = wid,
                          wr_CanonicalRoot = ws_Root w, wr_RunnerID = [], wr_IsGit = ws_IsGit w,
                          wr_Dirty = ws_Dirty w, wr_PolicyJSON = []\<rparr>)) s2)
                 in (Data 201 (WorkspaceValue w), s3)))"

definition list_workspaces :: "('db, 'w) api_state \<Rightarrow> api_value reply" where
  "list_workspaces s = Data 200 (WorkspacesValue (map snd (as_workspaces s)))"

definition new_task :: "string \<Rightarrow> create_task_request \<Rightarrow> api_task" where
  "new_task tid in' = \<lparr>tk_ID = tid, tk_State = ''DRAFT'', tk_WorkspaceID = cq_WorkspaceID in',
     tk_Requirement = cq_Requirement in', tk_Acceptance = cq_Acceptance in', tk_PlanVersion = 1,
     tk_ApprovalHash = [], tk_Approved = False, tk_Plan = zero_plan\<lparr>Version := 1\<rparr>,
     tk_Verification = None, tk_Events = []\<rparr>"

definition not_found_task :: "api_value reply" where
  "not_found_task = Error 404 ''not_found'' ''task not found''"

definition task_value :: "nat \<Rightarrow> string \<Rightarrow> ('db, 'w) api_state \<Rightarrow> api_value reply" where
  "task_value status tid s = (case as_tasks s tid of None \<Rightarrow> not_found_task | Some t \<Rightarrow> Data status (TaskValue t))"

definition get_task :: "string \<Rightarrow> ('db, 'w) api_state \<Rightarrow> api_value reply" where
  "get_task tid s = task_value 200 tid s"

definition create_task ::
  "('db, 'w) api_env \<Rightarrow> create_task_request option \<Rightarrow> ('db, 'w) api_state \<Rightarrow>
   api_value reply \<times> ('db, 'w) api_state" where
  "create_task E in' s =
     (case in' of
        None \<Rightarrow> (Error 400 ''invalid_task'' ''requirement and acceptance are required'', s)
      | Some i \<Rightarrow>
          if trim_space (cq_Requirement i) = [] \<or> elems (cq_Acceptance i) = []
          then (Error 400 ''invalid_task'' ''requirement and acceptance are required'', s)
          else if map_of (as_workspaces s) (cq_WorkspaceID i) = None
          then (Error 400 ''unknown_workspace'' ''workspace must be registered before creating a task'', s)
          else
            let n = int64 (as_nextID s + 1); tid = ''task-'' @ itoa n; t = new_task tid i;
                s1 = count_metric (\<lambda>m. m\<lparr>mt_TasksCreated := mt_TasksCreated m + 1\<rparr>)
                  (s\<lparr>as_nextID := n, as_tasks := (as_tasks s)(tid := Some t)\<rparr>);
                s2 = (case en_db E of
                   None \<Rightarrow> s1
                 | Some D \<Rightarrow> ignoring (in_db (sql_save (gd_tasks D) \<lparr>tr_ID = tid, tr_WorkspaceID = cq_WorkspaceID i,
                     tr_Requirement = cq_Requirement i, tr_ConstraintsJSON = [],
                     tr_AcceptanceJSON = json_strings (cq_Acceptance i), tr_State = tk_State t,
                     tr_PlanVersion = tk_PlanVersion t, tr_ApprovalHash = [], tr_ApprovalGranted = False,
                     tr_PlanJSON = [], tr_VerificationJSON = [], tr_CreatedAt = 0, tr_UpdatedAt = 0\<rparr>)) s1);
                s3 = ignoring (api_append E tid ''task.created'' (TaskData tid)) s2
            in (task_value 201 tid s3, s3))"

section \<open>Starting a task\<close>

text \<open>The first section under the mutex: the task must be a draft; what the council needs is
  copied out.\<close>

definition start_check :: "string \<Rightarrow> ('db, 'w) api_state \<Rightarrow> api_value reply + string \<times> string" where
  "start_check tid s =
     (case as_tasks s tid of
        None \<Rightarrow> Inl not_found_task
      | Some t \<Rightarrow>
          if tk_State t \<noteq> ''DRAFT'' then Inl (Error 409 ''invalid_state'' ''task already started'')
          else Inr (tk_Requirement t, tk_WorkspaceID t))"

definition start_files ::
  "('db, 'w) api_env \<Rightarrow> string \<Rightarrow> ('db, 'w) api_state \<Rightarrow>
   (api_value reply + workspace_file list) \<times> ('db, 'w) api_state" where
  "start_files E wid s =
     (case en_council E of
        None \<Rightarrow> (Inr [], s)
      | Some C \<Rightarrow>
          if cp_WithWorkspace C = None then (Inr [], s)
          else (case en_context E of
             None \<Rightarrow> (Inl (Error 503 ''runner_unavailable'' ''runner workspace context is required''), s)
           | Some read \<Rightarrow>
               (case in_world (read wid) s of
                  (Inl e, s1) \<Rightarrow> (Inl (Error 502 ''runner_unavailable'' (en_text E e)), s1)
                | (Inr files, s1) \<Rightarrow> (Inr (List.map_filter id files), s1))))"

text \<open>\<open>council.Analyze\<close>, without the mutex, and the section that marks the task as being
  analyzed.\<close>

definition start_analyze ::
  "'w council_port \<Rightarrow> string \<Rightarrow> ('db, 'w) api_state \<Rightarrow> unit result \<times> ('db, 'w) api_state" where
  "start_analyze C requirement s =
     in_world (cp_Analyze C requirement) (count_metric (\<lambda>m. m\<lparr>mt_CouncilRuns := mt_CouncilRuns m + 1\<rparr>) s)"

definition council_failure :: "('db, 'w) api_state \<Rightarrow> ('db, 'w) api_state" where
  "council_failure = count_metric (\<lambda>m. m\<lparr>mt_CouncilFailures := mt_CouncilFailures m + 1\<rparr>)"

definition start_mark ::
  "('db, 'w) api_env \<Rightarrow> string \<Rightarrow> ('db, 'w) api_state \<Rightarrow> (api_value reply + unit) \<times> ('db, 'w) api_state" where
  "start_mark E tid s =
     (case as_tasks s tid of
        None \<Rightarrow> (Inl not_found_task, s)
      | Some t \<Rightarrow>
          if tk_State t \<noteq> ''DRAFT'' then (Inl (Error 409 ''invalid_state'' ''task already started''), s)
          else (case transition_task E tid ''ANALYZING'' s of
             (Inl e, s1) \<Rightarrow> (Inl (Error 500 ''task_persistence_failed'' (en_text E e)), s1)
           | (Inr _, s1) \<Rightarrow> (Inr (), s1)))"

text \<open>The callback given to a council that reports progress, and the deliberation.\<close>

definition progress_callback ::
  "('db, 'w) api_env \<Rightarrow> string \<Rightarrow> string \<Rightarrow> (('db, 'w) api_state, unit) prog" where
  "progress_callback E tid st = (if st = ''ANALYZING'' then returnE () else transition_task E tid st)"

primrec run_deliberation ::
  "'w deliberation \<Rightarrow> ('db, 'w) api_env \<Rightarrow> string \<Rightarrow> (('db, 'w) api_state \<Rightarrow> ('db, 'w) api_state) \<Rightarrow>
   ('db, 'w) api_state \<Rightarrow> execution_plan result \<times> ('db, 'w) api_state" where
  "run_deliberation (Answered r w) E tid others s = (r, s\<lparr>as_world := w\<rparr>)"
| "run_deliberation (Report st w k) E tid others s =
     (case progress_callback E tid st (others (s\<lparr>as_world := w\<rparr>)) of
        (r, s1) \<Rightarrow> run_deliberation (k r (as_world s1)) E tid others s1)"

definition start_deliberate ::
  "('db, 'w) api_env \<Rightarrow> 'w council_port \<Rightarrow> string \<Rightarrow> string \<Rightarrow> workspace_file list \<Rightarrow>
   (('db, 'w) api_state \<Rightarrow> ('db, 'w) api_state) \<Rightarrow> ('db, 'w) api_state \<Rightarrow>
   execution_plan result \<times> ('db, 'w) api_state" where
  "start_deliberate E C tid requirement files others s =
     (case cp_WithProgress C of
        Some d \<Rightarrow> run_deliberation (d requirement files (as_world s)) E tid others s
      | None \<Rightarrow>
          (case cp_WithWorkspace C of
             Some d \<Rightarrow> in_world (d requirement files) s
           | None \<Rightarrow> in_world (cp_Deliberate C requirement) s))"

definition start_fail ::
  "('db, 'w) api_env \<Rightarrow> string \<Rightarrow> go_error \<Rightarrow> ('db, 'w) api_state \<Rightarrow> api_value reply \<times> ('db, 'w) api_state" where
  "start_fail E tid e s0 =
     (let s = council_failure s0 in
      (Error 502 ''council_failed'' (en_text E e),
       case as_tasks s tid of
         None \<Rightarrow> s
       | Some t \<Rightarrow> if tk_State t \<noteq> ''FAILED'' then ignoring (transition_task E tid ''FAILED'') s else s))"

text \<open>The plan a deliberation ends with, as the task takes it over.\<close>

definition adopt_plan :: "execution_plan option \<Rightarrow> api_task \<Rightarrow> api_task" where
  "adopt_plan found t =
     (case found of
        None \<Rightarrow> t
      | Some plan \<Rightarrow>
          let t1 = (if Version plan = 0 then t\<lparr>tk_Plan := plan\<lparr>Version := tk_PlanVersion t\<rparr>\<rparr>
                else t\<lparr>tk_Plan := plan, tk_PlanVersion := Version plan\<rparr>)
          in if elems (Acceptance plan) = []
             then t1\<lparr>tk_Plan := (tk_Plan t1)\<lparr>Acceptance := slice_of (elems (tk_Acceptance t))\<rparr>\<rparr> else t1)"

text \<open>The last section: hash the plan and ask for approval.\<close>

definition start_finish ::
  "('db, 'w) api_env \<Rightarrow> string \<Rightarrow> execution_plan option \<Rightarrow> ('db, 'w) api_state \<Rightarrow>
   api_value reply \<times> ('db, 'w) api_state" where
  "start_finish E tid found s =
     (case as_tasks s tid of
        None \<Rightarrow> (not_found_task, s)
      | Some t0 \<Rightarrow>
          if tk_State t0 \<noteq> ''DRAFT'' \<and> tk_State t0 \<noteq> ''ANALYZING''
          then (Error 409 ''invalid_state'' ''task already started'', s)
          else
            let t = adopt_plan found t0; s1 = update_task tid (\<lambda>_. t) s in
            (case approval_hash (en_sha E) (tk_ID t) (tk_WorkspaceID t) (tk_Plan t) of
               Inl e \<Rightarrow> (Error 500 ''plan_hash_failed'' (en_text E e), s1)
             | Inr hash \<Rightarrow>
                 (case transition_task E tid ''AWAITING_APPROVAL'' (update_task tid (\<lambda>_. t\<lparr>tk_ApprovalHash := hash\<rparr>) s1) of
                    (Inl e, s2) \<Rightarrow> (Error 500 ''task_persistence_failed'' (en_text E e), s2)
                  | (Inr _, s2) \<Rightarrow> (task_value 200 tid s2, s2))))"

definition start_task ::
  "('db, 'w) api_env \<Rightarrow> string \<Rightarrow> (('db, 'w) api_state \<Rightarrow> ('db, 'w) api_state) \<Rightarrow> ('db, 'w) api_state \<Rightarrow>
   api_value reply \<times> ('db, 'w) api_state" where
  "start_task E tid others s0 =
     (case start_check tid s0 of
        Inl rep \<Rightarrow> (rep, s0)
      | Inr (requirement, wid) \<Rightarrow>
          (case start_files E wid (others s0) of
             (Inl rep, s1) \<Rightarrow> (rep, s1)
           | (Inr files, s1) \<Rightarrow>
               (case en_council E of
                  None \<Rightarrow> start_finish E tid None (others s1)
                | Some C \<Rightarrow>
                    (case start_analyze C requirement s1 of
                       (Inl e, s2) \<Rightarrow> (Error 502 ''council_unavailable'' (en_text E e), council_failure s2)
                     | (Inr _, s2) \<Rightarrow>
                         (case start_mark E tid (others s2) of
                            (Inl rep, s3) \<Rightarrow> (rep, s3)
                          | (Inr _, s3) \<Rightarrow>
                              (case start_deliberate E C tid requirement files others (others s3) of
                                 (Inl e, s4) \<Rightarrow> start_fail E tid e (others s4)
                               | (Inr plan, s4) \<Rightarrow> start_finish E tid (Some plan) (others s4)))))))"

section \<open>Approval, rejection and cancellation\<close>

definition new_approval :: "timestamp \<Rightarrow> string \<Rightarrow> approval_request \<Rightarrow> approval_record" where
  "new_approval now tid in' = \<lparr>al_ID = itoa now, al_RunID = tid, al_PlanVersion = aq_PlanVersion in',
     al_SnapshotHash = aq_ApprovalHash in', al_Decision = ''approved'', al_Actor = ''user'', al_CreatedAt = now,
     al_InvalidatedAt = None, al_ConsumedAt = None\<rparr>"

definition store_approval ::
  "('db, 'w) api_env \<Rightarrow> string \<Rightarrow> approval_request \<Rightarrow> (('db, 'w) api_state, unit) prog" where
  "store_approval E tid in' =
     (case en_db E of
        None \<Rightarrow> returnE ()
      | Some D \<Rightarrow> in_db (bindE (approval_invalidate D (en_now E) tid) (\<lambda>_.
          approval_save D (new_approval (en_now E) tid in'))))"

definition approve_task ::
  "('db, 'w) api_env \<Rightarrow> string \<Rightarrow> approval_request option \<Rightarrow> ('db, 'w) api_state \<Rightarrow>
   api_value reply \<times> ('db, 'w) api_state" where
  "approve_task E tid in' s =
     (case in' of
        None \<Rightarrow> (Error 400 ''invalid_approval'' ''approval_hash is required'', s)
      | Some i \<Rightarrow>
          if aq_ApprovalHash i = [] then (Error 400 ''invalid_approval'' ''approval_hash is required'', s)
          else (case as_tasks s tid of
             None \<Rightarrow> (not_found_task, s)
           | Some t \<Rightarrow>
               if tk_State t \<noteq> ''AWAITING_APPROVAL'' \<or> aq_PlanVersion i \<noteq> tk_PlanVersion t
               then (Error 409 ''invalid_state'' ''task is not awaiting matching approval'', s)
               else if aq_ApprovalHash i \<noteq> tk_ApprovalHash t
               then (Error 409 ''approval_mismatch'' ''approval hash does not match immutable plan'', s)
               else (case store_approval E tid i s of
                  (Inl e, s1) \<Rightarrow> (Error 500 ''approval_persistence_failed'' (en_text E e), s1)
                | (Inr _, s1) \<Rightarrow>
                    (case persist_task E tid (update_task tid (\<lambda>t. t\<lparr>tk_Approved := True\<rparr>) s1) of
                       (Inl e, s2) \<Rightarrow> (Error 500 ''task_persistence_failed'' (en_text E e), s2)
                     | (Inr _, s2) \<Rightarrow>
                         (case api_append E tid ''approval.created'' (ApprovalData i) s2 of
                            (Inl e, s3) \<Rightarrow> (Error 500 ''event_persistence_failed'' (en_text E e), s3)
                          | (Inr _, s3) \<Rightarrow> (task_value 200 tid s3, s3))))))"

text \<open>Both are accepted in every state; errors of the database are ignored.\<close>

definition withdraw ::
  "('db, 'w) api_env \<Rightarrow> string \<Rightarrow> string \<Rightarrow> ('db, 'w) api_state \<Rightarrow> api_value reply \<times> ('db, 'w) api_state" where
  "withdraw E kind tid s =
     (case as_tasks s tid of
        None \<Rightarrow> (not_found_task, s)
      | Some t \<Rightarrow>
          let s1 = update_task tid (\<lambda>t. t\<lparr>tk_State := ''CANCELLED'', tk_Approved := False\<rparr>) s;
              s2 = ignoring (persist_task E tid) s1;
              s3 = ignoring (api_append E tid kind (StateData ''CANCELLED'')) s2
          in (task_value 200 tid s3, s3))"

definition reject_task ::
  "('db, 'w) api_env \<Rightarrow> string \<Rightarrow> ('db, 'w) api_state \<Rightarrow> api_value reply \<times> ('db, 'w) api_state" where
  "reject_task E tid = withdraw E ''approval.rejected'' tid"

definition cancel_task ::
  "('db, 'w) api_env \<Rightarrow> string \<Rightarrow> ('db, 'w) api_state \<Rightarrow> api_value reply \<times> ('db, 'w) api_state" where
  "cancel_task E tid = withdraw E ''state.changed'' tid"

section \<open>Execution\<close>

definition request_command :: "plan_command \<Rightarrow> approved_command" where
  "request_command c = \<lparr>ac_Executable = cmd_Executable c, ac_Args = cmd_Args c, ac_WorkDir = cmd_WorkDir c,
     ac_TimeoutSeconds = to_int32 (cmd_TimeoutSeconds c), ac_Purpose = cmd_Purpose c\<rparr>"

definition request_patch :: "plan_patch \<Rightarrow> approved_patch" where
  "request_patch p = \<lparr>ap_Path = pt_Path p, ap_UnifiedDiff = pt_UnifiedDiff p, ap_BeforeHash = pt_BeforeHash p\<rparr>"

definition request_of :: "api_task \<Rightarrow> exec_request" where
  "request_of t = \<lparr>rq_RequestId = tk_ID t @ '':'' @ itoa (tk_PlanVersion t), rq_RunId = tk_ID t,
     rq_WorkspaceId = tk_WorkspaceID t, rq_PlanVersion = to_int32 (tk_PlanVersion t),
     rq_Patches = slice_of (map request_patch (elems (Patches (tk_Plan t)))),
     rq_Commands = slice_of (map request_command (elems (Commands (tk_Plan t)))),
     rq_Acceptance = slice_of (elems (Acceptance (tk_Plan t))), rq_ApprovalHash = tk_ApprovalHash t,
     rq_VerificationCommands = slice_of (map request_command (elems (VerificationCommands (tk_Plan t))))\<rparr>"

text \<open>Up to the call of the runner: the guards, the approval spent in the database, the task
  marked as executing.\<close>

definition spend_approval ::
  "('db, 'w) api_env \<Rightarrow> api_task \<Rightarrow> bool \<Rightarrow> ('db, 'w) api_state \<Rightarrow>
   api_value reply option \<times> ('db, 'w) api_state" where
  "spend_approval E t resuming s =
     (case en_db E of
        None \<Rightarrow> (None, s)
      | Some D \<Rightarrow>
          if resuming then (None, s)
          else (case in_db (consume_and_mark_executing D (en_now E) (tk_ID t) (tk_PlanVersion t) (tk_ApprovalHash t)) s of
             (Inl e, s1) \<Rightarrow> (Some (Error 500 ''approval_persistence_failed'' (en_text E e)), s1)
           | (Inr consumed, s1) \<Rightarrow>
               ((if consumed then None else Some (Error 409 ''approval_consumed'' ''matching approval is no longer active'')),
                s1)))"

definition execute_prepare ::
  "('db, 'w) api_env \<Rightarrow> string \<Rightarrow> ('db, 'w) api_state \<Rightarrow> (api_value reply + exec_request) \<times> ('db, 'w) api_state" where
  "execute_prepare E tid s =
     (case as_tasks s tid of
        None \<Rightarrow> (Inl not_found_task, s)
      | Some t \<Rightarrow>
          let resuming = (tk_State t = ''EXECUTING'') in
          if tk_State t \<noteq> ''AWAITING_APPROVAL'' \<and> \<not> resuming then
            (Inl (if \<not> tk_Approved t then Error 403 ''approval_required'' ''manual approval required''
                  else Error 409 ''invalid_state'' ''task is not awaiting approval''), s)
          else if \<not> tk_Approved t \<and> \<not> resuming then
            (Inl (Error 403 ''approval_required'' ''manual approval required''), s)
          else if en_runner E = None then
            (Inl (Error 503 ''runner_unavailable'' ''runner client is not configured''), s)
          else (case spend_approval E t resuming s of
             (Some rep, s1) \<Rightarrow> (Inl rep, s1)
           | (None, s1) \<Rightarrow>
               (case (if resuming then (Inr (), s1) else append_state E tid (set_state tid ''EXECUTING'' s1)) of
                  (Inl e, s2) \<Rightarrow> (Inl (Error 500 ''event_persistence_failed'' (en_text E e)), s2)
                | (Inr _, s2) \<Rightarrow>
                    (Inr (request_of t), count_metric (\<lambda>m. m\<lparr>mt_Executions := mt_Executions m + 1\<rparr>) s2))))"

text \<open>A change of state after the run: persisted, then appended to the events.\<close>

definition record_state ::
  "('db, 'w) api_env \<Rightarrow> string \<Rightarrow> string \<Rightarrow> ('db, 'w) api_state \<Rightarrow> api_value reply option \<times> ('db, 'w) api_state" where
  "record_state E tid st s =
     (case persist_task E tid (set_state tid st s) of
        (Inl e, s1) \<Rightarrow> (Some (Error 500 ''task_persistence_failed'' (en_text E e)), s1)
      | (Inr _, s1) \<Rightarrow>
          (case append_state E tid s1 of
             (Inl e, s2) \<Rightarrow> (Some (Error 500 ''event_persistence_failed'' (en_text E e)), s2)
           | (Inr _, s2) \<Rightarrow> (None, s2)))"

definition execution_failure :: "('db, 'w) api_state \<Rightarrow> ('db, 'w) api_state" where
  "execution_failure = count_metric (\<lambda>m. m\<lparr>mt_ExecutionFailures := mt_ExecutionFailures m + 1\<rparr>)"

definition execute_finish ::
  "('db, 'w) api_env \<Rightarrow> string \<Rightarrow> exec_response option result \<Rightarrow> ('db, 'w) api_state \<Rightarrow>
   api_value reply \<times> ('db, 'w) api_state" where
  "execute_finish E tid res s =
     (case res of
        Inl e \<Rightarrow> (Error 502 ''runner_unavailable'' (en_text E e), execution_failure s)
      | Inr resp \<Rightarrow>
          (case resp of
             None \<Rightarrow>
               (case record_state E tid ''FAILED'' (execution_failure s) of
                  (Some rep, s1) \<Rightarrow> (rep, s1)
                | (None, s1) \<Rightarrow> (Error 409 ''execution_failed'' ''runner returned no result'', s1))
           | Some r \<Rightarrow>
               if rs_Status r \<noteq> ''SUCCEEDED'' then
                 (case record_state E tid ''FAILED'' (execution_failure s) of
                    (Some rep, s1) \<Rightarrow> (rep, s1)
                  | (None, s1) \<Rightarrow> (Error 409 ''execution_failed'' (rs_ErrorCode r), s1))
               else
                 (case record_state E tid ''VERIFYING'' (update_task tid (\<lambda>t. t\<lparr>tk_Verification := Some r\<rparr>) s) of
                    (Some rep, s1) \<Rightarrow> (rep, s1)
                  | (None, s1) \<Rightarrow>
                      (case record_state E tid ''SUCCEEDED'' s1 of
                         (Some rep, s2) \<Rightarrow> (rep, s2)
                       | (None, s2) \<Rightarrow> (task_value 200 tid s2, s2)))))"

definition execute_task ::
  "('db, 'w) api_env \<Rightarrow> string \<Rightarrow> ('db, 'w) api_state \<Rightarrow> api_value reply \<times> ('db, 'w) api_state" where
  "execute_task E tid s =
     (case execute_prepare E tid s of
        (Inl rep, s1) \<Rightarrow> (rep, s1)
      | (Inr req, s1) \<Rightarrow>
          (case en_runner E of
             None \<Rightarrow> (Error 503 ''runner_unavailable'' ''runner client is not configured'', s1)
           | Some call \<Rightarrow> (case in_world (call req) s1 of (res, s2) \<Rightarrow> execute_finish E tid res s2)))"

section \<open>The event stream\<close>

text \<open>\<open>n, _ := strconv.ParseInt(s, 10, 64)\<close>: 0 for malformed text, and the nearest bound for a
  number out of range.\<close>

definition parse_or_bound :: "string \<Rightarrow> int" where
  "parse_or_bound s =
     (case parse_int s of
        Some n \<Rightarrow> n
      | None \<Rightarrow>
          let neg = (s \<noteq> [] \<and> hd s = CHR ''-'');
              ds = (if s \<noteq> [] \<and> (hd s = CHR ''-'' \<or> hd s = CHR ''+'') then tl s else s)
          in if ds \<noteq> [] \<and> parse_digits 0 ds \<noteq> None then (if neg then - (2 ^ 63) else 2 ^ 63 - 1) else 0)"

definition stream_cursor :: "string \<Rightarrow> string \<Rightarrow> int" where
  "stream_cursor last_event_id after' = (if after' \<noteq> [] then parse_or_bound after' else parse_or_bound last_event_id)"

text \<open>An event on the stream: its number, its type and its encoded data.\<close>

definition frame :: "int \<times> string \<times> string \<Rightarrow> string" where
  "frame e = (case e of (n, kind, data) \<Rightarrow>
     ''id: '' @ itoa n @ [CHR 0x0A] @ ''event: '' @ kind @ [CHR 0x0A] @ ''data: '' @ data @ [CHR 0x0A, CHR 0x0A])"

definition event_data_json :: "('db, 'w) api_env \<Rightarrow> event_data \<Rightarrow> ('db, 'w) api_state \<Rightarrow> string" where
  "event_data_json E d s = (case en_json_event E d s of Inl _ \<Rightarrow> [] | Inr raw \<Rightarrow> raw)"

definition stored_events :: "('db, 'w) api_env \<Rightarrow> api_task \<Rightarrow> int \<Rightarrow> ('db, 'w) api_state \<Rightarrow>
    (int \<times> string \<times> string) list \<times> ('db, 'w) api_state" where
  "stored_events E t after' s =
     (let mine = map (\<lambda>e. (ae_ID e, ae_Type e, event_data_json E (ae_Data e) s)) (tk_Events t) in
      case en_db E of
        None \<Rightarrow> (mine, s)
      | Some D \<Rightarrow>
          (case in_db (events_after D (tk_ID t) after' 200) s of
             (Inl _, s1) \<Rightarrow> (mine, s1)
           | (Inr persisted, s1) \<Rightarrow> (map (\<lambda>e. (evt_Sequence e, evt_Type e, evt_Data e)) persisted, s1)))"

definition events_stream ::
  "('db, 'w) api_env \<Rightarrow> string \<Rightarrow> string \<Rightarrow> string \<Rightarrow> ('db, 'w) api_state \<Rightarrow>
   (api_value reply + string list) \<times> ('db, 'w) api_state" where
  "events_stream E last_event_id after' tid s =
     (case as_tasks s tid of
        None \<Rightarrow> (Inl not_found_task, s)
      | Some t \<Rightarrow>
          let cursor = stream_cursor last_event_id after' in
          (case stored_events E t cursor s of
             (es, s1) \<Rightarrow> (Inr (map frame (filter (\<lambda>(n, _). cursor < n) es) @ ['': heartbeat'' @ [CHR 0x0A, CHR 0x0A]]), s1)))"

section \<open>Starting on an existing database\<close>

text \<open>\<open>json.Unmarshal\<close> into the fields of a row: each decoder leaves the zero value where the
  text is malformed.\<close>

record row_decoders =
  rd_acceptance :: "string \<Rightarrow> string slice"
  rd_plan :: "string \<Rightarrow> execution_plan"
  rd_response :: "string \<Rightarrow> exec_response"

definition restored_task :: "row_decoders \<Rightarrow> task_record \<Rightarrow> api_task" where
  "restored_task R r =
     (let v = rd_response R (tr_VerificationJSON r) in
      \<lparr>tk_ID = tr_ID r, tk_State = (if tr_State r = [] then ''DRAFT'' else tr_State r),
       tk_WorkspaceID = tr_WorkspaceID r, tk_Requirement = tr_Requirement r,
       tk_Acceptance = rd_acceptance R (tr_AcceptanceJSON r), tk_PlanVersion = tr_PlanVersion r,
       tk_ApprovalHash = tr_ApprovalHash r, tk_Approved = tr_ApprovalGranted r,
       tk_Plan = rd_plan R (tr_PlanJSON r),
       tk_Verification = (if rs_RequestId v \<noteq> [] then Some v else None), tk_Events = []\<rparr>)"

text \<open>\<open>db.Find(&rows)\<close> with its error ignored.\<close>

definition rows_or_none :: "('db, 'row) sql_table \<Rightarrow> 'db \<Rightarrow> 'row list \<times> 'db" where
  "rows_or_none T db = (case sql_find T (\<lambda>_. True) db of (Inl _, db1) \<Rightarrow> ([], db1) | (Inr rows, db1) \<Rightarrow> (rows, db1))"

definition id_number :: "string \<Rightarrow> string \<Rightarrow> int \<Rightarrow> int" where
  "id_number pre s n = (case parse_int (trim_prefix s pre) of Some k \<Rightarrow> if k > n then k else n | None \<Rightarrow> n)"

definition new_persistent_api :: "'db gorm_db \<Rightarrow> row_decoders \<Rightarrow> 'db \<Rightarrow> 'w \<Rightarrow> ('db, 'w) api_state" where
  "new_persistent_api D R db w =
     (case rows_or_none (gd_tasks D) db of (rows, db1) \<Rightarrow>
       (case rows_or_none (gd_workspaces D) db1 of (wrows, db2) \<Rightarrow>
          let s = new_api db2 w;
              workspaces = fold (\<lambda>r. AList.update (wr_ID r) \<lparr>ws_ID = wr_ID r, ws_Root = wr_CanonicalRoot r,
                ws_IsGit = wr_IsGit r, ws_Dirty = wr_Dirty r\<rparr>) wrows [];
              tasks = fold (\<lambda>r m. m(tr_ID r \<mapsto> restored_task R r)) rows (\<lambda>_. None);
              n1 = fold (id_number ''task-'') (map tr_ID rows) 0;
              n2 = fold (id_number ''workspace-'') (map fst workspaces) n1
          in s\<lparr>as_tasks := tasks, as_workspaces := workspaces, as_nextID := n2\<rparr>))"

section \<open>Requests in the order in which they take the mutex\<close>

text \<open>
  A section under the mutex, of whichever request: the requests that hold it throughout, and
  the sections of the starts of tasks. The world may change between any two of them.
\<close>

datatype 'w api_action =
    CreateWorkspace "string option"
  | CreateTask "create_task_request option"
  | StartMark string
  | StartProgress string string
  | StartFail string go_error
  | StartFinish string "execution_plan option"
  | Approve string "approval_request option"
  | Reject string
  | Execute string
  | Cancel string
  | Elsewhere "('w \<Rightarrow> 'w) \<times> (metrics \<Rightarrow> metrics)"

primrec api_step :: "('db, 'w) api_env \<Rightarrow> 'w api_action \<Rightarrow> ('db, 'w) api_state \<Rightarrow> ('db, 'w) api_state" where
  "api_step E (CreateWorkspace i) s = snd (create_workspace E i s)"
| "api_step E (CreateTask i) s = snd (create_task E i s)"
| "api_step E (StartMark tid) s = snd (start_mark E tid s)"
| "api_step E (StartProgress tid st) s = snd (progress_callback E tid st s)"
| "api_step E (StartFail tid e) s = snd (start_fail E tid e s)"
| "api_step E (StartFinish tid found) s = snd (start_finish E tid found s)"
| "api_step E (Approve tid i) s = snd (approve_task E tid i s)"
| "api_step E (Reject tid) s = snd (reject_task E tid s)"
| "api_step E (Execute tid) s = snd (execute_task E tid s)"
| "api_step E (Cancel tid) s = snd (cancel_task E tid s)"
| "api_step E (Elsewhere f) s = s\<lparr>as_world := fst f (as_world s), as_metrics := snd f (as_metrics s)\<rparr>"

primrec api_history ::
  "(('db, 'w) api_env \<times> 'w api_action) list \<Rightarrow> ('db, 'w) api_state \<Rightarrow> ('db, 'w) api_state" where
  "api_history [] s = s"
| "api_history (c # cs) s = api_history cs (api_step (fst c) (snd c) s)"

end
