(* ===== verification/Council_Facts.thy ===== *)
theory Council_Facts
  imports Council_Api Runner_Service
begin

text \<open>
  What the task endpoints guarantee, over every order in which requests take the mutex: the
  runner is only ever sent a plan whose hash a user approved, and what it is sent passes the
  check it makes itself.
\<close>

section \<open>The core of a task\<close>

text \<open>Everything but the events and the stored response.\<close>

definition task_core :: "api_task \<Rightarrow> api_task" where
  "task_core t = t\<lparr>tk_Events := [], tk_Verification := None\<rparr>"

definition core :: "('db, 'w) api_state \<Rightarrow> string \<Rightarrow> api_task option" where
  "core s tid = map_option task_core (as_tasks s tid)"

lemma core_sels [simp]:
  "tk_ID (task_core t) = tk_ID t" "tk_State (task_core t) = tk_State t"
  "tk_WorkspaceID (task_core t) = tk_WorkspaceID t" "tk_PlanVersion (task_core t) = tk_PlanVersion t"
  "tk_ApprovalHash (task_core t) = tk_ApprovalHash t" "tk_Approved (task_core t) = tk_Approved t"
  "tk_Plan (task_core t) = tk_Plan t"
  by (simp_all add: task_core_def)

lemma core_upds [simp]:
  "task_core (t\<lparr>tk_State := x\<rparr>) = (task_core t)\<lparr>tk_State := x\<rparr>"
  "task_core (t\<lparr>tk_ApprovalHash := h\<rparr>) = (task_core t)\<lparr>tk_ApprovalHash := h\<rparr>"
  "task_core (t\<lparr>tk_Approved := b\<rparr>) = (task_core t)\<lparr>tk_Approved := b\<rparr>"
  "task_core (t\<lparr>tk_Plan := q\<rparr>) = (task_core t)\<lparr>tk_Plan := q\<rparr>"
  "task_core (t\<lparr>tk_PlanVersion := n\<rparr>) = (task_core t)\<lparr>tk_PlanVersion := n\<rparr>"
  "task_core (t\<lparr>tk_Verification := v\<rparr>) = task_core t"
  "task_core (t\<lparr>tk_Events := es\<rparr>) = task_core t"
  by (cases t; simp add: task_core_def)+

lemma core_update:
  assumes "\<And>t. task_core (f t) = g (task_core t)"
  shows "core (update_task tid f s) = (core s)(tid := map_option g (core s tid))"
  using assms by (cases "as_tasks s tid") (auto simp: core_def update_task_def fun_eq_iff)

lemma core_update_same:
  assumes "\<And>t. task_core (f t) = task_core t"
  shows "core (update_task tid f s) = core s"
  using core_update [of f "\<lambda>t. t", OF assms] by (simp add: option.map_id0 map_option.identity option.map_ident)

lemma core_idle [simp]:
  "core (s\<lparr>as_db := d\<rparr>) = core s" "core (s\<lparr>as_world := w\<rparr>) = core s"
  "core (s\<lparr>as_metrics := m\<rparr>) = core s" "core (s\<lparr>as_workspaces := ws\<rparr>) = core s"
  "core (s\<lparr>as_nextID := n\<rparr>) = core s" "core (count_metric f s) = core s"
  "core (add_event tid e s) = core s" "core (council_failure s) = core s" "core (execution_failure s) = core s"
  "core (update_task tid (\<lambda>t. t\<lparr>tk_Verification := v\<rparr>) s) = core s"
  by (auto simp: add_event_def core_update_same count_metric_def council_failure_def execution_failure_def)
    (auto simp: core_def)

lemma core_in_db [simp]: "core (snd (in_db m s)) = core s"
  by (simp add: in_db_def split: prod.splits)

lemma core_in_world [simp]: "core (snd (in_world m s)) = core s"
  by (simp add: in_world_def split: prod.splits)

lemma core_set_state:
  "core (set_state tid st s) = (core s)(tid := map_option (\<lambda>t. t\<lparr>tk_State := st\<rparr>) (core s tid))"
  by (simp add: set_state_def core_update)

lemma core_append [simp]: "core (snd (api_append E tid kind data s)) = core s"
proof (cases "as_tasks s tid")
  case (Some t)
  show ?thesis
  proof (cases "en_db E")
    case (Some D)
    let ?m = "in_db (event_append D (en_tx E) (en_now E) tid kind (en_json_event E data s)) s"
    obtain q s1 where m: "?m = (q, s1)" by fastforce
    then have "core s1 = core s" by (metis core_in_db snd_conv)
    with \<open>as_tasks s tid = Some t\<close> Some m show ?thesis
      by (simp add: api_append_def with_task_def split: sum.splits)
  qed (use Some in \<open>simp add: api_append_def with_task_def\<close>)
qed (simp add: api_append_def with_task_def)

lemma core_persist [simp]: "core (snd (persist_task E tid s)) = core s"
  by (simp add: persist_task_def with_task_def returnE_def split: option.splits)

lemma core_append_state [simp]: "core (snd (append_state E tid s)) = core s"
  by (simp add: append_state_def with_task_def split: option.splits)

lemma core_persist_append [simp]:
  "core (snd (bindE (persist_task E tid) (\<lambda>_. append_state E tid) s)) = core s"
proof -
  obtain q s1 where "persist_task E tid s = (q, s1)" by fastforce
  moreover from this have "core s1 = core s" by (metis core_persist snd_conv)
  ultimately show ?thesis by (cases q) (simp_all add: bindE_def)
qed

lemma core_transition [simp]: "core (snd (transition_task E tid st s)) = core (set_state tid st s)"
  by (simp add: transition_task_def)

lemma core_record_state [simp]: "core (snd (record_state E tid st s)) = core (set_state tid st s)"
proof -
  obtain q s1 where p: "persist_task E tid (set_state tid st s) = (q, s1)" by fastforce
  then have c: "core s1 = core (set_state tid st s)" by (metis core_persist snd_conv)
  obtain q2 s2 where a: "append_state E tid s1 = (q2, s2)" by fastforce
  then have "core s2 = core s1" by (metis core_append_state snd_conv)
  with p a c show ?thesis by (cases q; cases q2) (simp_all add: record_state_def)
qed

lemma core_ignoring [simp]:
  "core (ignoring (in_db m) s) = core s" "core (ignoring (api_append E tid k d) s) = core s"
  "core (ignoring (persist_task E tid) s) = core s"
  "core (ignoring (transition_task E tid st) s) = core (set_state tid st s)"
  by (simp_all add: ignoring_def)

section \<open>What each section does to the cores\<close>

lemma create_workspace_core [simp]: "core (snd (create_workspace E i s)) = core s"
proof -
  have d: "core (snd (case en_describe E of None \<Rightarrow> (plain, s) | Some describe \<Rightarrow>
          (case in_world (describe wid) s of (Inl _, s1) \<Rightarrow> (plain, s1)
           | (Inr (r, git, dirty), s1) \<Rightarrow> (f r git dirty, s1)))) = core s" for plain wid f
    by (auto simp: in_world_def split: option.splits prod.splits sum.splits)
  show ?thesis
    using d by (auto simp: create_workspace_def Let_def case_prod_beta split: option.splits)
qed

lemma create_task_core:
  "core (snd (create_task E i s)) = core s \<or>
   (\<exists>tid r. core (snd (create_task E i s)) = (core s)(tid := Some (new_task tid r)))"
proof -
  have "core (count_metric f (s\<lparr>as_nextID := n, as_tasks := (as_tasks s)(tid := Some (new_task tid r))\<rparr>)) =
      (core s)(tid := Some (new_task tid r))" for f n tid r
    by (auto simp: core_def fun_eq_iff count_metric_def new_task_def task_core_def)
  then show ?thesis
    by (auto simp: create_task_def Let_def split: option.splits)
qed

lemma start_mark_core:
  "core (snd (start_mark E tid s)) = core s \<or>
   (\<exists>t. core s tid = Some t \<and> tk_State t = ''DRAFT'' \<and>
      core (snd (start_mark E tid s)) = (core s)(tid := Some (t\<lparr>tk_State := ''ANALYZING''\<rparr>)))"
proof (cases "as_tasks s tid")
  case (Some t)
  obtain q s1 where q: "transition_task E tid ''ANALYZING'' s = (q, s1)" by fastforce
  then have "core s1 = core (set_state tid ''ANALYZING'' s)" by (metis core_transition snd_conv)
  with Some q show ?thesis
    by (cases q) (auto simp: start_mark_def core_set_state core_def)
qed (simp add: start_mark_def)

lemma progress_core:
  "core (snd (progress_callback E tid st s)) = core s \<or>
   st \<noteq> ''ANALYZING'' \<and> core (snd (progress_callback E tid st s)) = core (set_state tid st s)"
  by (simp add: progress_callback_def returnE_def)

lemma start_fail_core:
  "core (snd (start_fail E tid e s)) = core s \<or>
   core (snd (start_fail E tid e s)) = core (set_state tid ''FAILED'' s)"
  by (auto simp: start_fail_def Let_def core_set_state split: option.splits)

lemma adopt_plan_core: "task_core (adopt_plan found t) = adopt_plan found (task_core t)"
  by (auto simp: adopt_plan_def Let_def split: option.splits) (simp_all add: task_core_def)

lemma start_finish_core:
  "core (snd (start_finish E tid found s)) = core s \<or>
   (\<exists>t h. core s tid = Some t \<and> (tk_State t = ''DRAFT'' \<or> tk_State t = ''ANALYZING'') \<and>
      approval_hash (en_sha E) (tk_ID t) (tk_WorkspaceID t) (tk_Plan (adopt_plan found t)) = Inr h \<and>
      core (snd (start_finish E tid found s)) =
        (core s)(tid := Some ((adopt_plan found t)\<lparr>tk_ApprovalHash := h, tk_State := ''AWAITING_APPROVAL''\<rparr>)))"
proof (cases "as_tasks s tid")
  case (Some t0)
  show ?thesis
  proof (cases "tk_State t0 \<noteq> ''DRAFT'' \<and> tk_State t0 \<noteq> ''ANALYZING''")
    case True
    with Some show ?thesis by (simp add: start_finish_def)
  next
    case False
    let ?t = "adopt_plan found t0"
    have same: "tk_ID ?t = tk_ID t0 \<and> tk_WorkspaceID ?t = tk_WorkspaceID t0"
      by (simp add: adopt_plan_def Let_def split: option.splits)
    obtain h where h: "approval_hash (en_sha E) (tk_ID ?t) (tk_WorkspaceID ?t) (tk_Plan ?t) = Inr h"
      by (simp add: approval_hash_def)
    let ?s = "update_task tid (\<lambda>_. ?t\<lparr>tk_ApprovalHash := h\<rparr>) (update_task tid (\<lambda>_. ?t) s)"
    obtain q s2 where q: "transition_task E tid ''AWAITING_APPROVAL'' ?s = (q, s2)" by fastforce
    then have "core s2 = core (set_state tid ''AWAITING_APPROVAL'' ?s)" by (metis core_transition snd_conv)
    also have "\<dots> = (core s)(tid := Some ((adopt_plan found (task_core t0))\<lparr>tk_ApprovalHash := h,
        tk_State := ''AWAITING_APPROVAL''\<rparr>))"
      using Some by (auto simp: core_set_state core_def update_task_def fun_eq_iff adopt_plan_core [symmetric])
    finally have c: "core s2 = (core s)(tid := Some ((adopt_plan found (task_core t0))\<lparr>tk_ApprovalHash := h,
        tk_State := ''AWAITING_APPROVAL''\<rparr>))" .
    have "tk_Plan (adopt_plan found (task_core t0)) = tk_Plan ?t"
      by (simp add: adopt_plan_core [symmetric])
    with Some False h q c same show ?thesis
      by (cases q) (auto simp: start_finish_def Let_def core_def)
  qed
qed (simp add: start_finish_def)

lemma store_approval_core [simp]: "core (snd (store_approval E tid i s)) = core s"
  by (simp add: store_approval_def returnE_def split: option.splits)

lemma approve_core:
  "core (snd (approve_task E tid in' s)) = core s \<or>
   (\<exists>t i. core s tid = Some t \<and> in' = Some i \<and> tk_State t = ''AWAITING_APPROVAL'' \<and>
      aq_PlanVersion i = tk_PlanVersion t \<and> aq_ApprovalHash i = tk_ApprovalHash t \<and>
      core (snd (approve_task E tid in' s)) = (core s)(tid := Some (t\<lparr>tk_Approved := True\<rparr>)))"
proof (cases "\<exists>i t. in' = Some i \<and> aq_ApprovalHash i \<noteq> [] \<and> as_tasks s tid = Some t \<and>
    tk_State t = ''AWAITING_APPROVAL'' \<and> aq_PlanVersion i = tk_PlanVersion t \<and> aq_ApprovalHash i = tk_ApprovalHash t")
  case True
  then obtain i t where g: "in' = Some i" "aq_ApprovalHash i \<noteq> []" "as_tasks s tid = Some t"
    "tk_State t = ''AWAITING_APPROVAL''" "aq_PlanVersion i = tk_PlanVersion t" "aq_ApprovalHash i = tk_ApprovalHash t" by blast
  obtain q1 s1 where q1: "store_approval E tid i s = (q1, s1)" by fastforce
  then have c1: "core s1 = core s" by (metis store_approval_core snd_conv)
  let ?s = "update_task tid (\<lambda>t. t\<lparr>tk_Approved := True\<rparr>) s1"
  have c: "core ?s = (core s)(tid := Some ((task_core t)\<lparr>tk_Approved := True\<rparr>))"
    using g(3) by (simp add: core_update c1) (simp add: core_def)
  obtain q2 s2 where q2: "persist_task E tid ?s = (q2, s2)" by fastforce
  then have c2: "core s2 = core ?s" by (metis core_persist snd_conv)
  obtain q3 s3 where q3: "api_append E tid ''approval.created'' (ApprovalData i) s2 = (q3, s3)" by fastforce
  then have c3: "core s3 = core s2" by (metis core_append snd_conv)
  show ?thesis
    using g q1 q2 q3 c c1 c2 c3
    by (cases q1; cases q2; cases q3) (auto simp: approve_task_def core_def)
next
  case False
  then show ?thesis by (auto simp: approve_task_def split: option.splits)
qed

lemma withdraw_core:
  "core (snd (withdraw E kind tid s)) =
     (core s)(tid := map_option (\<lambda>t. t\<lparr>tk_State := ''CANCELLED'', tk_Approved := False\<rparr>) (core s tid))"
proof (cases "as_tasks s tid")
  case None
  then show ?thesis by (auto simp: withdraw_def core_def)
next
  case (Some t)
  then have "core (snd (withdraw E kind tid s)) =
      core (update_task tid (\<lambda>t. t\<lparr>tk_State := ''CANCELLED'', tk_Approved := False\<rparr>) s)"
    by (simp add: withdraw_def Let_def)
  then show ?thesis by (simp add: core_update)
qed

text \<open>A task that may be executed: approved and awaiting, or already executing.\<close>

definition executable_now :: "api_task \<Rightarrow> bool" where
  "executable_now t \<longleftrightarrow> tk_State t = ''AWAITING_APPROVAL'' \<and> tk_Approved t \<or> tk_State t = ''EXECUTING''"

lemma spend_approval_core [simp]: "core (snd (spend_approval E t b s)) = core s"
proof (cases "en_db E")
  case (Some D)
  let ?m = "in_db (consume_and_mark_executing D (en_now E) (tk_ID t) (tk_PlanVersion t) (tk_ApprovalHash t)) s"
  obtain q s1 where m: "?m = (q, s1)" by fastforce
  then have "core s1 = core s" by (metis core_in_db snd_conv)
  with Some m show ?thesis by (cases q) (simp_all add: spend_approval_def)
qed (simp add: spend_approval_def)

lemma prepare_core:
  assumes "execute_prepare E tid s = (q, s')"
  shows "core s' = core s \<and> (\<forall>req. q \<noteq> Inr req) \<or>
    (\<exists>t. as_tasks s tid = Some t \<and> executable_now t \<and> (\<forall>req. q = Inr req \<longrightarrow> req = request_of t) \<and>
       core s' = (core s)(tid := Some ((task_core t)\<lparr>tk_State := ''EXECUTING''\<rparr>)))"
proof (cases "\<exists>t. as_tasks s tid = Some t \<and> executable_now t \<and> en_runner E \<noteq> None")
  case False
  with assms show ?thesis
    by (auto simp: execute_prepare_def Let_def executable_now_def split: option.splits if_splits)
next
  case True
  then obtain t where t: "as_tasks s tid = Some t" "executable_now t" "en_runner E \<noteq> None" by blast
  let ?res = "tk_State t = ''EXECUTING''"
  obtain q1 s1 where q1: "spend_approval E t ?res s = (q1, s1)" by fastforce
  then have c1: "core s1 = core s" by (metis spend_approval_core snd_conv)
  obtain q2 s2 where q2: "append_state E tid (set_state tid ''EXECUTING'' s1) = (q2, s2)" by fastforce
  then have "core s2 = core (set_state tid ''EXECUTING'' s1)" by (metis core_append_state snd_conv)
  with c1 t(1) have c2: "core s2 = (core s)(tid := Some ((task_core t)\<lparr>tk_State := ''EXECUTING''\<rparr>))"
    by (simp add: core_set_state) (simp add: core_def)
  have step: "execute_prepare E tid s =
      (case q1 of Some rep \<Rightarrow> (Inl rep, s1)
       | None \<Rightarrow> (case (if ?res then (Inr (), s1) else (q2, s2)) of
           (Inl e, s2) \<Rightarrow> (Inl (Error 500 ''event_persistence_failed'' (en_text E e)), s2)
         | (Inr _, s2) \<Rightarrow> (Inr (request_of t), count_metric (\<lambda>m. m\<lparr>mt_Executions := mt_Executions m + 1\<rparr>) s2)))"
    using t q1 q2 by (auto simp: execute_prepare_def Let_def executable_now_def split: option.splits)
  show ?thesis
  proof (cases q1)
    case (Some rep)
    with step assms c1 show ?thesis by auto
  next
    case None
    show ?thesis
    proof (cases ?res)
      case True
      then have "(task_core t)\<lparr>tk_State := ''EXECUTING''\<rparr> = task_core t" by (cases t) (simp add: task_core_def)
      moreover have "core s' = core s \<and> q = Inr (request_of t)" using step assms None True c1 by auto
      moreover have "core s tid = Some (task_core t)" using t(1) by (simp add: core_def)
      ultimately show ?thesis using t by (auto simp: fun_upd_idem)
    next
      case False
      with step assms None c2 t show ?thesis by (cases q2) auto
    qed
  qed
qed

lemma finish_core:
  "\<exists>st. (st = None \<or> st \<in> Some ` {''FAILED'', ''VERIFYING'', ''SUCCEEDED''}) \<and>
     core (snd (execute_finish E tid res s)) =
       (case st of None \<Rightarrow> core s | Some st \<Rightarrow> core (set_state tid st s))"
proof (cases "\<exists>r. res = Inr (Some r) \<and> rs_Status r = ''SUCCEEDED''")
  case False
  obtain q s1 where q: "record_state E tid ''FAILED'' (execution_failure s) = (q, s1)" by fastforce
  then have "core s1 = core (set_state tid ''FAILED'' (execution_failure s))" by (metis core_record_state snd_conv)
  then have c: "core s1 = core (set_state tid ''FAILED'' s)" by (simp add: core_set_state)
  show ?thesis
  proof (cases res)
    case (Inl e)
    then show ?thesis by (intro exI [of _ None]) (simp add: execute_finish_def)
  next
    case (Inr resp)
    with False q c show ?thesis
      by (intro exI [of _ "Some ''FAILED''"]) (cases resp; cases q; auto simp: execute_finish_def)
  qed
next
  case True
  then obtain r where r: "res = Inr (Some r)" "rs_Status r = ''SUCCEEDED''" by blast
  let ?s = "update_task tid (\<lambda>t. t\<lparr>tk_Verification := Some r\<rparr>) s"
  obtain q1 s1 where q1: "record_state E tid ''VERIFYING'' ?s = (q1, s1)" by fastforce
  then have "core s1 = core (set_state tid ''VERIFYING'' ?s)" by (metis core_record_state snd_conv)
  then have c1: "core s1 = core (set_state tid ''VERIFYING'' s)" by (simp add: core_set_state)
  obtain q2 s2 where q2: "record_state E tid ''SUCCEEDED'' s1 = (q2, s2)" by fastforce
  then have "core s2 = core (set_state tid ''SUCCEEDED'' s1)" by (metis core_record_state snd_conv)
  then have c2: "core s2 = core (set_state tid ''SUCCEEDED'' s)"
    by (auto simp: core_set_state c1 fun_eq_iff option.map_comp comp_def)
  show ?thesis
  proof (cases q1)
    case (Some rep)
    with r q1 c1 show ?thesis by (intro exI [of _ "Some ''VERIFYING''"]) (auto simp: execute_finish_def)
  next
    case None
    with r q1 q2 c2 show ?thesis
      by (intro exI [of _ "Some ''SUCCEEDED''"]) (cases q2; auto simp: execute_finish_def)
  qed
qed

lemma execute_core:
  "core (snd (execute_task E tid s)) = core s \<or>
   (\<exists>t st. core s tid = Some t \<and> executable_now t \<and>
      st \<in> {''EXECUTING'', ''FAILED'', ''VERIFYING'', ''SUCCEEDED''} \<and>
      core (snd (execute_task E tid s)) = (core s)(tid := Some (t\<lparr>tk_State := st\<rparr>)))"
proof -
  obtain q s1 where p: "execute_prepare E tid s = (q, s1)" by fastforce
  have x: "executable_now (task_core t) = executable_now t" for t by (simp add: executable_now_def)
  show ?thesis
  proof (cases q)
    case (Inl rep)
    with prepare_core [OF p] p show ?thesis by (auto simp: execute_task_def core_def x)
  next
    case (Inr req)
    with prepare_core [OF p] obtain t where t: "as_tasks s tid = Some t" "executable_now t"
      "core s1 = (core s)(tid := Some ((task_core t)\<lparr>tk_State := ''EXECUTING''\<rparr>))" by auto
    then have ct: "core s tid = Some (task_core t)" by (simp add: core_def)
    show ?thesis
    proof (cases "en_runner E")
      case None
      with p Inr t ct x show ?thesis by (fastforce simp: execute_task_def)
    next
      case (Some call)
      obtain res s2 where c: "in_world (call req) s1 = (res, s2)" by fastforce
      then have c2: "core s2 = core s1" by (metis core_in_world snd_conv)
      from finish_core [of E tid res s2] obtain st where
        st: "st = None \<or> st \<in> Some ` {''FAILED'', ''VERIFYING'', ''SUCCEEDED''}"
          "core (snd (execute_finish E tid res s2)) =
            (case st of None \<Rightarrow> core s2 | Some st \<Rightarrow> core (set_state tid st s2))"
        by (elim exE conjE)
      have e: "core (snd (execute_task E tid s)) = core (snd (execute_finish E tid res s2))"
        using p Inr Some c by (simp add: execute_task_def)
      have "core (snd (execute_task E tid s)) =
          (core s)(tid := Some ((task_core t)\<lparr>tk_State := (case st of None \<Rightarrow> ''EXECUTING'' | Some st \<Rightarrow> st)\<rparr>))"
        using e st(2) by (cases st) (simp_all add: core_set_state c2 t(3))
      with st(1) t ct x show ?thesis by (cases st) auto
    qed
  qed
qed

section \<open>Histories\<close>

lemma api_history_append: "api_history (xs @ ys) s = api_history ys (api_history xs s)"
  by (induction xs arbitrary: s) auto

text \<open>The user approved this version and hash of the task, and has not taken it back since.\<close>

definition withdraws :: "string \<Rightarrow> 'w api_action \<Rightarrow> bool" where
  "withdraws tid a \<longleftrightarrow> a = Reject tid \<or> a = Cancel tid"

definition approved_in ::
  "(('db, 'w) api_env \<times> 'w api_action) list \<Rightarrow> string \<Rightarrow> int \<Rightarrow> string \<Rightarrow> bool" where
  "approved_in hist tid version hash \<longleftrightarrow>
     (\<exists>p1 p2 E i. hist = p1 @ (E, Approve tid (Some i)) # p2 \<and> aq_PlanVersion i = version \<and>
        aq_ApprovalHash i = hash \<and> (\<forall>c\<in>set p2. \<not> withdraws tid (snd c)))"

lemma approved_in_snoc:
  assumes "approved_in hist tid v h" "\<not> withdraws tid (snd c)"
  shows "approved_in (hist @ [c]) tid v h"
proof -
  obtain p1 p2 E i where "hist = p1 @ (E, Approve tid (Some i)) # p2" "aq_PlanVersion i = v"
    "aq_ApprovalHash i = h" "\<forall>c\<in>set p2. \<not> withdraws tid (snd c)"
    using assms(1) by (auto simp: approved_in_def)
  with assms(2) show ?thesis
    unfolding approved_in_def by (intro exI [of _ p1] exI [of _ "p2 @ [c]"] exI [of _ E] exI [of _ i]) auto
qed

lemma approved_in_now:
  "aq_PlanVersion i = v \<Longrightarrow> aq_ApprovalHash i = h \<Longrightarrow> approved_in (hist @ [(E, Approve tid (Some i))]) tid v h"
  unfolding approved_in_def by (intro exI [of _ hist] exI [of _ "[]"]) auto

text \<open>The states a council may report while it deliberates: none that other sections read.\<close>

primrec reports_progress :: "'w api_action \<Rightarrow> bool" where
  "reports_progress (StartProgress tid st) = (st \<notin> {''DRAFT'', ''AWAITING_APPROVAL'', ''EXECUTING''})"
| "reports_progress (CreateWorkspace i) = True"
| "reports_progress (CreateTask i) = True"
| "reports_progress (StartMark tid) = True"
| "reports_progress (StartFail tid e) = True"
| "reports_progress (StartFinish tid found) = True"
| "reports_progress (Approve tid i) = True"
| "reports_progress (Reject tid) = True"
| "reports_progress (Execute tid) = True"
| "reports_progress (Cancel tid) = True"
| "reports_progress (Elsewhere f) = True"

text \<open>
  What every task keeps: before it asks for approval it is not approved and its plan carries
  the task's version; while it awaits approval or is executing, its hash is that of its plan;
  and if it may be executed, a user approved exactly that version and hash.
\<close>

definition task_ok ::
  "(string \<Rightarrow> string) \<Rightarrow> (('db, 'w) api_env \<times> 'w api_action) list \<Rightarrow> string \<Rightarrow> api_task \<Rightarrow> bool" where
  "task_ok sha hist tid t \<longleftrightarrow> tk_ID t = tid \<and>
     (tk_State t \<in> {''DRAFT'', ''ANALYZING''} \<longrightarrow> \<not> tk_Approved t \<and> Version (tk_Plan t) = tk_PlanVersion t) \<and>
     (tk_State t \<in> {''AWAITING_APPROVAL'', ''EXECUTING''} \<longrightarrow> Version (tk_Plan t) = tk_PlanVersion t \<and>
        approval_hash sha tid (tk_WorkspaceID t) (tk_Plan t) = Inr (tk_ApprovalHash t)) \<and>
     (executable_now t \<longrightarrow> approved_in hist tid (tk_PlanVersion t) (tk_ApprovalHash t))"

definition all_ok ::
  "(string \<Rightarrow> string) \<Rightarrow> (('db, 'w) api_env \<times> 'w api_action) list \<Rightarrow> ('db, 'w) api_state \<Rightarrow> bool" where
  "all_ok sha hist s \<longleftrightarrow> (\<forall>tid t. core s tid = Some t \<longrightarrow> task_ok sha hist tid t)"

lemma task_ok_snoc:
  "task_ok sha hist tid t \<Longrightarrow> \<not> withdraws tid (snd c) \<Longrightarrow> task_ok sha (hist @ [c]) tid t"
  by (auto simp: task_ok_def intro: approved_in_snoc)

text \<open>A section that leaves the tasks alone, or changes one of them, keeps the invariant if
  the changed task does.\<close>

lemma all_ok_same:
  "all_ok sha hist s \<Longrightarrow> core s' = core s \<Longrightarrow> (\<And>tid. \<not> withdraws tid (snd c)) \<Longrightarrow> all_ok sha (hist @ [c]) s'"
  by (auto simp: all_ok_def intro: task_ok_snoc)

lemma all_ok_change:
  assumes "all_ok sha hist s" "core s' = (core s)(tid := Some t)"
    and "\<And>u. u \<noteq> tid \<Longrightarrow> \<not> withdraws u (snd c)" "task_ok sha (hist @ [c]) tid t"
  shows "all_ok sha (hist @ [c]) s'"
  using assms by (auto simp: all_ok_def intro: task_ok_snoc)

lemma all_ok_set_state:
  assumes "all_ok sha hist s" "core s' = core (set_state tid st s)"
    and "\<And>u. \<not> withdraws u (snd c)" "st \<notin> {''DRAFT'', ''ANALYZING'', ''AWAITING_APPROVAL'', ''EXECUTING''}"
  shows "all_ok sha (hist @ [c]) s'"
proof (cases "core s tid")
  case None
  then have "core s' = core s" using assms(2) by (simp add: core_set_state fun_upd_idem)
  with assms(1,3) show ?thesis by (blast intro: all_ok_same)
next
  case (Some t)
  then have "core s' = (core s)(tid := Some (t\<lparr>tk_State := st\<rparr>))"
    using assms(2) by (simp add: core_set_state)
  moreover have "task_ok sha (hist @ [c]) tid (t\<lparr>tk_State := st\<rparr>)"
    using assms(1,4) Some by (auto simp: all_ok_def task_ok_def executable_now_def)
  ultimately show ?thesis using assms(1,3) by (blast intro: all_ok_change)
qed

lemma adopt_plan_ok:
  assumes "Version (tk_Plan t) = tk_PlanVersion t"
  shows "Version (tk_Plan (adopt_plan found t)) = tk_PlanVersion (adopt_plan found t) \<and>
    tk_ID (adopt_plan found t) = tk_ID t \<and> tk_WorkspaceID (adopt_plan found t) = tk_WorkspaceID t \<and>
    tk_Approved (adopt_plan found t) = tk_Approved t"
  using assms by (simp add: adopt_plan_def Let_def split: option.splits)

lemma start_finish_ok:
  assumes "all_ok sha hist s" "en_sha E = sha"
  shows "all_ok sha (hist @ [(E, StartFinish tid found)]) (snd (start_finish E tid found s))"
proof -
  have w: "\<not> withdraws u (snd (E, StartFinish tid found))" for u by (simp add: withdraws_def)
  show ?thesis
  proof (cases "core (snd (start_finish E tid found s)) = core s")
    case True
    with assms(1) w show ?thesis by (blast intro: all_ok_same)
  next
    case False
    with start_finish_core [of E tid found s] obtain t h where t: "core s tid = Some t"
      and h: "approval_hash (en_sha E) (tk_ID t) (tk_WorkspaceID t) (tk_Plan (adopt_plan found t)) = Inr h"
      and c: "core (snd (start_finish E tid found s)) =
        (core s)(tid := Some ((adopt_plan found t)\<lparr>tk_ApprovalHash := h, tk_State := ''AWAITING_APPROVAL''\<rparr>))"
      and st: "tk_State t = ''DRAFT'' \<or> tk_State t = ''ANALYZING''" by (elim disjE exE conjE) simp_all
    from assms(1) t have ok: "task_ok sha hist tid t" by (simp add: all_ok_def)
    with st have v: "Version (tk_Plan t) = tk_PlanVersion t" "\<not> tk_Approved t" "tk_ID t = tid"
      by (auto simp: task_ok_def)
    with adopt_plan_ok [OF v(1), of found] h assms(2)
    have "task_ok sha (hist @ [(E, StartFinish tid found)]) tid
        ((adopt_plan found t)\<lparr>tk_ApprovalHash := h, tk_State := ''AWAITING_APPROVAL''\<rparr>)"
      by (simp add: task_ok_def executable_now_def)
    with assms(1) c w show ?thesis by (blast intro: all_ok_change)
  qed
qed

lemma withdraw_ok:
  assumes "all_ok sha hist s" "c = (E, Reject tid) \<or> c = (E, Cancel tid)"
  shows "all_ok sha (hist @ [c]) (snd (withdraw E kind tid s))"
proof -
  have w: "\<not> withdraws u (snd c)" if "u \<noteq> tid" for u using assms(2) that by (auto simp: withdraws_def)
  show ?thesis
    using assms(1) withdraw_core [of E kind tid s] w
    by (auto simp: all_ok_def task_ok_snoc task_ok_def [of sha "hist @ [c]" tid] executable_now_def split: if_splits)
      (auto simp: task_ok_def)
qed

lemma step_ok:
  assumes "all_ok sha hist s" "en_sha E = sha" "reports_progress a"
  shows "all_ok sha (hist @ [(E, a)]) (api_step E a s)"
proof -
  have same: "all_ok sha (hist @ [(E, a)]) s'" if "core s' = core s" "\<And>u. \<not> withdraws u a" for s'
    using all_ok_same [OF assms(1) that(1), of "(E, a)"] that(2) by simp
  have change: "all_ok sha (hist @ [(E, a)]) s'"
    if "core s' = (core s)(tid := Some t)" "\<And>u. \<not> withdraws u a" "task_ok sha (hist @ [(E, a)]) tid t" for s' tid t
    using all_ok_change [OF assms(1) that(1), of "(E, a)"] that(2,3) by simp
  show ?thesis
  proof (cases a)
    case (CreateWorkspace i)
    then show ?thesis by (intro same) (simp_all add: withdraws_def)
  next
    case (CreateTask i)
    have new: "task_ok sha h tid (new_task tid r)" for h tid r
      by (simp add: task_ok_def new_task_def executable_now_def)
    have w: "\<not> withdraws u a" for u using CreateTask by (simp add: withdraws_def)
    have "core (api_step E a s) = core s \<or> (\<exists>tid r. core (api_step E a s) = (core s)(tid := Some (new_task tid r)))"
      using create_task_core [of E i s] CreateTask by (simp only: api_step.simps)
    then show ?thesis
    proof (elim disjE exE)
      assume "core (api_step E a s) = core s"
      then show ?thesis using w by (rule same)
    next
      fix tid r
      assume "core (api_step E a s) = (core s)(tid := Some (new_task tid r))"
      then show ?thesis using w new by (rule change)
    qed
  next
    case (StartMark tid)
    show ?thesis
    proof (cases "core (api_step E a s) = core s")
      case False
      with start_mark_core [of E tid s] StartMark obtain t where t: "core s tid = Some t" "tk_State t = ''DRAFT''"
        "core (api_step E a s) = (core s)(tid := Some (t\<lparr>tk_State := ''ANALYZING''\<rparr>))" by auto
      moreover from assms(1) t(1,2) have "task_ok sha (hist @ [(E, a)]) tid (t\<lparr>tk_State := ''ANALYZING''\<rparr>)"
        by (auto simp: all_ok_def task_ok_def executable_now_def)
      ultimately show ?thesis using StartMark by (intro change) (auto simp: withdraws_def)
    qed (use StartMark same in \<open>simp add: withdraws_def\<close>)
  next
    case (StartProgress tid st)
    show ?thesis
    proof (cases "core (api_step E a s) = core s")
      case False
      with progress_core [of E tid st s] StartProgress
      have "core (api_step E a s) = core (set_state tid st s)" "st \<noteq> ''ANALYZING''" by auto
      with all_ok_set_state [OF assms(1), of "api_step E a s" tid st "(E, a)"] assms(3) StartProgress
      show ?thesis by (simp add: withdraws_def)
    qed (use StartProgress same in \<open>simp add: withdraws_def\<close>)
  next
    case (StartFail tid e)
    show ?thesis
    proof (cases "core (api_step E a s) = core s")
      case False
      with start_fail_core [of E tid e s] StartFail have "core (api_step E a s) = core (set_state tid ''FAILED'' s)" by auto
      with all_ok_set_state [OF assms(1), of "api_step E a s" tid "''FAILED''" "(E, a)"] StartFail
      show ?thesis by (simp add: withdraws_def)
    qed (use StartFail same in \<open>simp add: withdraws_def\<close>)
  next
    case (StartFinish tid found)
    with start_finish_ok [OF assms(1,2)] show ?thesis by simp
  next
    case (Approve tid i)
    show ?thesis
    proof (cases "core (api_step E a s) = core s")
      case False
      with approve_core [of E tid i s] Approve obtain t j where t: "core s tid = Some t" "i = Some j"
        "tk_State t = ''AWAITING_APPROVAL''" "aq_PlanVersion j = tk_PlanVersion t" "aq_ApprovalHash j = tk_ApprovalHash t"
        "core (api_step E a s) = (core s)(tid := Some (t\<lparr>tk_Approved := True\<rparr>))" by auto
      have "approved_in (hist @ [(E, a)]) tid (tk_PlanVersion t) (tk_ApprovalHash t)"
        using approved_in_now [OF t(4,5), of hist E tid] Approve t(2) by simp
      with assms(1) t have "task_ok sha (hist @ [(E, a)]) tid (t\<lparr>tk_Approved := True\<rparr>)"
        by (auto simp: all_ok_def task_ok_def executable_now_def)
      with t(6) Approve show ?thesis by (intro change) (auto simp: withdraws_def)
    qed (use Approve same in \<open>simp add: withdraws_def\<close>)
  next
    case (Reject tid)
    with withdraw_ok [OF assms(1)] show ?thesis by (auto simp: reject_task_def)
  next
    case (Cancel tid)
    with withdraw_ok [OF assms(1)] show ?thesis by (auto simp: cancel_task_def)
  next
    case (Execute tid)
    show ?thesis
    proof (cases "core (api_step E a s) = core s")
      case False
      with execute_core [of E tid s] Execute obtain t st where t: "core s tid = Some t" "executable_now t"
        "st \<in> {''EXECUTING'', ''FAILED'', ''VERIFYING'', ''SUCCEEDED''}"
        "core (api_step E a s) = (core s)(tid := Some (t\<lparr>tk_State := st\<rparr>))" by auto
      have w: "\<not> withdraws tid (snd (E, a))" using Execute by (simp add: withdraws_def)
      from assms(1) t(1) have "task_ok sha (hist @ [(E, a)]) tid t"
        using task_ok_snoc [OF _ w] by (auto simp: all_ok_def)
      with t(2,3) have "task_ok sha (hist @ [(E, a)]) tid (t\<lparr>tk_State := st\<rparr>)"
        by (auto simp: task_ok_def executable_now_def)
      with t(4) Execute show ?thesis by (intro change) (auto simp: withdraws_def)
    qed (use Execute same in \<open>simp add: withdraws_def\<close>)
  next
    case (Elsewhere f)
    then show ?thesis by (intro same) (simp_all add: withdraws_def)
  qed
qed

lemma history_ok:
  assumes "\<forall>c\<in>set hist. en_sha (fst c) = sha \<and> reports_progress (snd c)"
  shows "all_ok sha hist (api_history hist (new_api db w))"
  using assms
proof (induction hist rule: rev_induct)
  case Nil
  show ?case by (simp add: all_ok_def core_def new_api_def)
next
  case (snoc c hist)
  then have "all_ok sha hist (api_history hist (new_api db w))" by simp
  with step_ok [of sha hist _ "fst c" "snd c"] snoc.prems show ?case
    by (simp add: api_history_append)
qed

section \<open>What the runner is sent\<close>

text \<open>
  C3. No run without approval, end to end on the server's side: whatever requests of whatever
  users come in, in whatever order their sections take the mutex, and whatever the council,
  the runner and the database do, a request the server hands to the runner is for a task
  whose plan has the hash the request carries, and a user approved exactly that hash and plan
  version of that task, with no rejection or cancellation of it since.
\<close>

theorem runner_called_only_as_approved:
  assumes "\<forall>c\<in>set hist. en_sha (fst c) = sha \<and> reports_progress (snd c)"
    and "execute_prepare E tid (api_history hist (new_api db w)) = (Inr req, s')"
  shows "\<exists>t. as_tasks (api_history hist (new_api db w)) tid = Some t \<and> req = request_of t \<and>
    approval_hash sha tid (tk_WorkspaceID t) (tk_Plan t) = Inr (rq_ApprovalHash req) \<and>
    Version (tk_Plan t) = tk_PlanVersion t \<and>
    approved_in hist tid (tk_PlanVersion t) (rq_ApprovalHash req)"
proof -
  let ?s = "api_history hist (new_api db w)"
  from prepare_core [OF assms(2)] obtain t where t: "as_tasks ?s tid = Some t" "executable_now t" "req = request_of t"
    by auto
  then have "core ?s tid = Some (task_core t)" by (simp add: core_def)
  with history_ok [OF assms(1), of db w] have "task_ok sha hist tid (task_core t)" by (simp add: all_ok_def)
  moreover have "rq_ApprovalHash req = tk_ApprovalHash t" using t(3) by (simp add: request_of_def)
  ultimately show ?thesis using t by (auto simp: task_ok_def executable_now_def)
qed

text \<open>
  C5. Every task is well-formed. In every history of requests on a new server, each task stands
  under its own id; while it is a draft or is being analyzed it is not approved and its plan has
  the task's version; and while it awaits approval or is executing, its plan has the task's
  version and its hash is the one of exactly that plan for that task and workspace.
\<close>

theorem tasks_well_formed:
  assumes "\<forall>c\<in>set hist. en_sha (fst c) = sha \<and> reports_progress (snd c)"
    and "as_tasks (api_history hist (new_api db w)) tid = Some t"
  shows "tk_ID t = tid \<and>
    (tk_State t \<in> {''DRAFT'', ''ANALYZING''} \<longrightarrow> \<not> tk_Approved t \<and> Version (tk_Plan t) = tk_PlanVersion t) \<and>
    (tk_State t \<in> {''AWAITING_APPROVAL'', ''EXECUTING''} \<longrightarrow> Version (tk_Plan t) = tk_PlanVersion t \<and>
       approval_hash sha tid (tk_WorkspaceID t) (tk_Plan t) = Inr (tk_ApprovalHash t))"
proof -
  have "core (api_history hist (new_api db w)) tid = Some (task_core t)" using assms(2) by (simp add: core_def)
  with history_ok [OF assms(1), of db w] have "task_ok sha hist tid (task_core t)" by (simp add: all_ok_def)
  then show ?thesis by (auto simp: task_ok_def)
qed

text \<open>A history that ends in a run: an in-memory server without a council.\<close>

definition sample_env :: "(unit, unit) api_env" where
  "sample_env = \<lparr>en_db = None, en_tx = (\<lambda>m. m), en_now = 5, en_sha = (\<lambda>_. ''h''), en_text = (\<lambda>_. []),
     en_json_event = (\<lambda>_ _. Inr []), en_json_response = (\<lambda>_. []),
     en_runner = Some (\<lambda>req w. (Inr None, w)), en_describe = None, en_context = None, en_council = None\<rparr>"

definition sample_task_request :: create_task_request where
  "sample_task_request = \<lparr>cq_WorkspaceID = ''workspace-1'', cq_Requirement = ''x'', cq_Acceptance = Some [''y'']\<rparr>"

definition sample_history :: "((unit, unit) api_env \<times> unit api_action) list" where
  "sample_history = map (Pair sample_env)
     [CreateWorkspace (Some ''/w''), CreateTask (Some sample_task_request), StartFinish ''task-2'' None,
      Approve ''task-2'' (Some \<lparr>aq_PlanVersion = 1, aq_ApprovalHash = ''h''\<rparr>)]"

definition sample_registered :: "(unit, unit) api_state" where
  "sample_registered = (new_api () ())\<lparr>as_nextID := 1,
     as_workspaces := [(''workspace-1'', \<lparr>ws_ID = ''workspace-1'', ws_Root = ''/w'', ws_IsGit = False, ws_Dirty = False\<rparr>)]\<rparr>"

definition sample_draft :: api_task where
  "sample_draft = (new_task ''task-2'' sample_task_request)\<lparr>tk_Events :=
     [\<lparr>ae_ID = 1, ae_Type = ''task.created'', ae_Data = TaskData ''task-2'', ae_CreatedAt = 5\<rparr>]\<rparr>"

lemma sample_env_sels [simp]:
  "en_db sample_env = None" "en_now sample_env = 5" "en_sha sample_env = (\<lambda>_. ''h'')"
  "en_describe sample_env = None" "en_runner sample_env = Some (\<lambda>req w. (Inr None, w))"
  by (simp_all add: sample_env_def)

lemma sample_trim: "trim_space ''/w'' = ''/w''" "trim_space ''x'' = ''x''"
  by (rule trim_space_id graphic_not_space; simp)+

lemma sample_numbers: "clean ''/w'' = ''/w''" "itoa 1 = ''1''" "itoa 2 = ''2''" "int64 1 = 1" "int64 2 = 2"
  by code_simp+

lemmas sample_ops = approve_task_def store_approval_def start_finish_def adopt_plan_def transition_task_def
  persist_task_def append_state_def Let_def bindE_def returnE_def set_state_def api_append_def with_task_def
  add_event_def update_task_def execute_prepare_def spend_approval_def ignoring_def count_metric_def new_task_def

lemma sample_step1: "api_step sample_env (CreateWorkspace (Some ''/w'')) (new_api () ()) = sample_registered"
  by (simp add: create_workspace_def sample_trim sample_numbers Let_def sample_registered_def new_api_def)

lemma sample_step2:
  "as_tasks (api_step sample_env (CreateTask (Some sample_task_request)) sample_registered) ''task-2'' = Some sample_draft"
  by (simp add: create_task_def sample_trim sample_numbers sample_registered_def new_api_def
      sample_task_request_def sample_draft_def sample_ops)

lemma sample_step3:
  "as_tasks s ''task-2'' = Some sample_draft \<Longrightarrow>
   \<exists>t. as_tasks (api_step sample_env (StartFinish ''task-2'' None) s) ''task-2'' = Some t \<and>
     tk_State t = ''AWAITING_APPROVAL'' \<and> tk_PlanVersion t = 1 \<and> tk_ApprovalHash t = ''h'' \<and>
     tk_Plan t = zero_plan\<lparr>Version := 1\<rparr>"
  by (simp add: sample_draft_def sample_ops)

lemma sample_step4:
  assumes "as_tasks s ''task-2'' = Some t" "tk_State t = ''AWAITING_APPROVAL''" "tk_PlanVersion t = 1"
    "tk_ApprovalHash t = ''h''"
  defines "s' \<equiv> api_step sample_env (Approve ''task-2'' (Some \<lparr>aq_PlanVersion = 1, aq_ApprovalHash = ''h''\<rparr>)) s"
  shows "\<not> isl (fst (execute_prepare sample_env ''task-2'' s'))"
    and "\<exists>t'. as_tasks s' ''task-2'' = Some t' \<and> tk_Plan t' = tk_Plan t"
  using assms by (simp_all add: sample_ops)

lemma sample_runs:
  fixes s defines "s \<equiv> api_history sample_history (new_api () ())"
  shows "\<exists>req. execute_prepare sample_env ''task-2'' s = (Inr req, snd (execute_prepare sample_env ''task-2'' s))"
    and "\<exists>t. as_tasks s ''task-2'' = Some t \<and> tk_Plan t = zero_plan\<lparr>Version := 1\<rparr>"
proof -
  have s: "s = api_step sample_env (Approve ''task-2'' (Some \<lparr>aq_PlanVersion = 1, aq_ApprovalHash = ''h''\<rparr>))
      (api_step sample_env (StartFinish ''task-2'' None)
        (api_step sample_env (CreateTask (Some sample_task_request)) sample_registered))"
    by (simp only: s_def sample_history_def list.map api_history.simps sample_step1 fst_conv snd_conv)
  obtain t where t: "as_tasks (api_step sample_env (StartFinish ''task-2'' None)
        (api_step sample_env (CreateTask (Some sample_task_request)) sample_registered)) ''task-2'' = Some t"
    "tk_State t = ''AWAITING_APPROVAL''" "tk_PlanVersion t = 1" "tk_ApprovalHash t = ''h''"
    "tk_Plan t = zero_plan\<lparr>Version := 1\<rparr>"
    using sample_step3 [OF sample_step2] by blast
  from sample_step4(1) [OF t(1-4)] show "\<exists>req. execute_prepare sample_env ''task-2'' s =
      (Inr req, snd (execute_prepare sample_env ''task-2'' s))"
    unfolding s by (metis isl_def sum.exhaust prod.collapse)
  from sample_step4(2) [OF t(1-4)] t(5) show "\<exists>t. as_tasks s ''task-2'' = Some t \<and> tk_Plan t = zero_plan\<lparr>Version := 1\<rparr>"
    unfolding s by metis
qed

lemma sample_history_clean:
  "\<forall>c\<in>set sample_history. en_sha (fst c) = (\<lambda>_. ''h'') \<and> reports_progress (snd c)"
  by (simp add: sample_history_def)

theorem tasks_well_formed_witness:
  "\<exists>t. as_tasks (api_history sample_history (new_api () ())) ''task-2'' = Some t \<and> tk_ID t = ''task-2''"
proof -
  obtain t where t: "as_tasks (api_history sample_history (new_api () ())) ''task-2'' = Some t"
    using sample_runs(2) by blast
  from t conjunct1 [OF tasks_well_formed [OF sample_history_clean t]] show ?thesis by blast
qed

lemma runner_called_only_as_approved_witness:
  "\<exists>req s' t. execute_prepare sample_env ''task-2'' (api_history sample_history (new_api () ())) = (Inr req, s') \<and>
    as_tasks (api_history sample_history (new_api () ())) ''task-2'' = Some t \<and> req = request_of t \<and>
    approved_in sample_history ''task-2'' (tk_PlanVersion t) (rq_ApprovalHash req)"
proof -
  let ?s = "api_history sample_history (new_api () ())"
  obtain req where r: "execute_prepare sample_env ''task-2'' ?s = (Inr req, snd (execute_prepare sample_env ''task-2'' ?s))"
    using sample_runs(1) by blast
  from r runner_called_only_as_approved [OF sample_history_clean r] show ?thesis by metis
qed

section \<open>What the runner makes of it\<close>

text \<open>
  The plans that survive the trip to the runner: their numbers fit \<open>int32\<close>, and no command
  has an argument list that is empty but not nil (which proto3 does not tell from nil, while
  the approval hash does).
\<close>

definition wire_command :: "plan_command \<Rightarrow> bool" where
  "wire_command c \<longleftrightarrow> fits_int32 (cmd_TimeoutSeconds c) \<and> cmd_Args c \<noteq> Some []"

definition wire_plan :: "execution_plan \<Rightarrow> bool" where
  "wire_plan p \<longleftrightarrow> fits_int32 (Version p) \<and> list_all wire_command (elems (Commands p)) \<and>
     list_all wire_command (elems (VerificationCommands p))"

lemma rebuild_request_command:
  "rebuild_command (proto_command (request_command c)) = c \<longleftrightarrow> wire_command c"
proof -
  have "slice_of (elems a) = a \<longleftrightarrow> a \<noteq> Some []" for a :: "string slice"
    by (cases a) (auto simp: slice_of_def)
  then show ?thesis
    by (cases c) (auto simp: rebuild_command_def proto_command_def request_command_def proto_slice_def
        wire_command_def to_int32_eq_iff)
qed

lemma rebuild_request_patch [simp]: "rebuild_patch (request_patch p) = p"
  by (simp add: rebuild_patch_def request_patch_def)

text \<open>Exactly these plans arrive as they were approved.\<close>

lemma rebuilt_projection:
  assumes "Version (tk_Plan t) = tk_PlanVersion t"
  shows "executable_projection (rebuild_plan (proto_request (request_of t))) = executable_projection (tk_Plan t) \<longleftrightarrow>
    wire_plan (tk_Plan t)"
  using assms
  by (auto simp: projection_eq_iff rebuild_plan_def proto_request_def request_of_def wire_plan_def comp_def
      to_int32_eq_iff rebuild_request_command map_idI list_all_iff map_eq_conv [of _ _ "\<lambda>x. x", simplified])

text \<open>
  C4. Hence the runner accepts what a user approved, and runs that and nothing else: over
  proto3, a request the server sends passes the runner's own check of the approval hash, and
  the plan the runner rebuilds from it has the version, patches, commands, verification
  commands and acceptance criteria of the approved plan, if its numbers fit \<open>int32\<close> and its
  argument lists are nil or non-empty.
\<close>

theorem approved_plan_passes_runner:
  assumes "\<forall>c\<in>set hist. en_sha (fst c) = sha \<and> reports_progress (snd c)" "proto3_wire wire"
    and "execute_prepare E tid (api_history hist (new_api db w)) = (Inr req, s')"
    and "as_tasks (api_history hist (new_api db w)) tid = Some t" "wire_plan (tk_Plan t)"
  shows "approval_verify sha (rq_ApprovalHash (wire req)) (rq_RunId (wire req)) (rq_WorkspaceId (wire req))
      (rebuild_plan (wire req)) = Inr () \<and>
    executable_projection (rebuild_plan (wire req)) = executable_projection (tk_Plan t)"
proof -
  from prepare_core [OF assms(3)] assms(4) have t: "executable_now t" "req = request_of t" by auto
  from assms(4) have "core (api_history hist (new_api db w)) tid = Some (task_core t)" by (simp add: core_def)
  with history_ok [OF assms(1), of db w] have ok: "task_ok sha hist tid (task_core t)" by (simp add: all_ok_def)
  with t(1) have h: "approval_hash sha (tk_ID t) (tk_WorkspaceID t) (tk_Plan t) = Inr (tk_ApprovalHash t)"
    and v: "Version (tk_Plan t) = tk_PlanVersion t" by (auto simp: task_ok_def executable_now_def)
  have w: "wire req = proto_request (request_of t)" using assms(2) t(2) by (simp add: proto3_wire_def)
  have p: "executable_projection (rebuild_plan (wire req)) = executable_projection (tk_Plan t)"
    unfolding w using rebuilt_projection [OF v] assms(5) by (rule iffD2)
  have "rq_ApprovalHash (wire req) = tk_ApprovalHash t" "rq_RunId (wire req) = tk_ID t"
    "rq_WorkspaceId (wire req) = tk_WorkspaceID t"
    unfolding w by (simp_all add: proto_request_def request_of_def)
  with h p show ?thesis by (simp only: approval_verify_ok_iff hash_projection_cong [OF p])
qed

lemma approved_plan_passes_runner_witness:
  "\<exists>req t. fst (execute_prepare sample_env ''task-2'' (api_history sample_history (new_api () ()))) = Inr req \<and>
    as_tasks (api_history sample_history (new_api () ())) ''task-2'' = Some t \<and>
    executable_projection (rebuild_plan (proto_request req)) = executable_projection (tk_Plan t)"
proof -
  let ?s = "api_history sample_history (new_api () ())"
  obtain req where r: "execute_prepare sample_env ''task-2'' ?s = (Inr req, snd (execute_prepare sample_env ''task-2'' ?s))"
    using sample_runs(1) by blast
  obtain t where t: "as_tasks ?s ''task-2'' = Some t" "tk_Plan t = zero_plan\<lparr>Version := 1\<rparr>"
    using sample_runs(2) by blast
  have "wire_plan (tk_Plan t)" by (simp add: t(2) wire_plan_def fits_int32_def zero_plan_def)
  from approved_plan_passes_runner [OF sample_history_clean _ r t(1) this, of proto_request] r t(1)
  show ?thesis by (auto simp: proto3_wire_def) (metis fst_conv)
qed

section \<open>Two surprises\<close>

text \<open>A task can be cancelled in any state, a succeeded one included.\<close>

lemma cancel_from_any_state:
  "core s tid = Some t \<Longrightarrow> core (snd (cancel_task E tid s)) tid = Some (t\<lparr>tk_State := ''CANCELLED'', tk_Approved := False\<rparr>)"
  by (simp add: cancel_task_def withdraw_core)

text \<open>A council that reports its progress stops its own task: once a state like \<open>PROPOSING\<close>
  is stored, the last section finds the task no longer in analysis.\<close>

lemma progress_stops_start:
  assumes "core s tid = Some t" "tk_State t \<noteq> ''DRAFT''" "tk_State t \<noteq> ''ANALYZING''"
  shows "start_finish E tid found s = (Error 409 ''invalid_state'' ''task already started'', s)"
  using assms by (auto simp: start_finish_def core_def)

end
