(* ===== verification/Workspace_Collector.thy ===== *)
theory Workspace_Collector
  imports Runner_Service Council_Plan
begin

text \<open>
  \<open>internal/runner/context/collector.go\<close> and the two handlers of
  \<open>internal/runner/grpc/service.go\<close> that describe a workspace: the bounded snapshot of the
  workspace's text files that the council is shown. The directory tree is a value, read by
  \<open>filepath.WalkDir\<close>; a file has the size its directory entry reports and, independently, what
  opening and reading it yields, so that a file may change, or become a link, in between.
\<close>

section \<open>Limits\<close>

record collect_limits =
  cl_MaxFiles :: int
  cl_MaxFileBytes :: int
  cl_MaxTotalBytes :: int

definition new_collector :: "collect_limits \<Rightarrow> collect_limits" where
  "new_collector l = \<lparr>cl_MaxFiles = (if cl_MaxFiles l \<le> 0 then 200 else cl_MaxFiles l),
     cl_MaxFileBytes = (if cl_MaxFileBytes l \<le> 0 then 65536 else cl_MaxFileBytes l),
     cl_MaxTotalBytes = (if cl_MaxTotalBytes l \<le> 0 then 2097152 else cl_MaxTotalBytes l)\<rparr>"

section \<open>Names that are never read\<close>

definition refused_name :: "string \<Rightarrow> bool" where
  "refused_name name =
     (let lower = to_lower name in
      has_prefix lower ''.env'' \<or>
      lower \<in> {''.netrc'', ''_netrc'', ''.npmrc'', ''id_rsa'', ''id_dsa'', ''id_ecdsa'', ''id_ed25519''} \<or>
      path_ext lower \<in> {''.key'', ''.pem'', ''.p12'', ''.pfx'', ''.crt'', ''.cer'', ''.der'', ''.csr'', ''.jks'',
        ''.keystore''})"

section \<open>The tree and the walk\<close>

text \<open>
  A directory entry: a regular file with the result of \<open>Info\<close> and of opening and reading it
  whole; a directory with the error and the entries \<open>os.ReadDir\<close> returns; a link (which on
  some systems also says it is a directory); anything else.
\<close>

datatype dir_entry =
    RegularFile "int result" "string result"
  | Folder "go_error option" "(string \<times> dir_entry) list"
  | SymbolicLink bool
  | OtherEntry

primrec entry_is_dir :: "dir_entry \<Rightarrow> bool" where
  "entry_is_dir (RegularFile i c) = False"
| "entry_is_dir (Folder e xs) = True"
| "entry_is_dir (SymbolicLink d) = d"
| "entry_is_dir OtherEntry = False"

record context_file =
  cf_Path :: string
  cf_Content :: string

text \<open>\<open>readAtMost\<close>: \<open>None\<close> for a file that is longer. The limit of the reader is computed in
  \<open>int64\<close>, and a reader with a limit below 1 is at its end.\<close>

definition read_at_most :: "string result \<Rightarrow> int \<Rightarrow> string option result" where
  "read_at_most opened max_bytes =
     (case opened of
        Inl e \<Rightarrow> Inl e
      | Inr data \<Rightarrow>
          let content = take (nat (int64 (max_bytes + 1))) data in
          Inr (if int (length content) > max_bytes then None else Some content))"

text \<open>What the callback tells the walk, and what it gathers.\<close>

datatype walk_result = WalkOn | SkipDir | WalkError go_error

type_synonym gathered = "context_file list \<times> int"

definition collect_file ::
  "collect_limits \<Rightarrow> string \<Rightarrow> string \<Rightarrow> int result \<Rightarrow> string result \<Rightarrow> gathered \<Rightarrow> walk_result \<times> gathered" where
  "collect_file l root path info opened st =
     (case st of (files, used) \<Rightarrow>
      case info of
        Inl e \<Rightarrow> (WalkError e, st)
      | Inr sz \<Rightarrow>
          if sz > cl_MaxFileBytes l \<or> int (length files) \<ge> cl_MaxFiles l \<or>
             int64 (used + sz) > cl_MaxTotalBytes l then (WalkOn, st)
          else
            let remaining = int64 (cl_MaxTotalBytes l - used);
                max_bytes = (if remaining < cl_MaxFileBytes l then remaining else cl_MaxFileBytes l) in
            (case read_at_most opened max_bytes of
               Inl e \<Rightarrow> (if errors_is e ErrUnsafePath then WalkOn else WalkError e, st)
             | Inr None \<Rightarrow> (WalkOn, st)
             | Inr (Some content) \<Rightarrow>
                 if CHR 0x00 \<in> set content \<or> \<not> utf8_valid content then (WalkOn, st)
                 else (case path_rel root path of
                    None \<Rightarrow> (WalkError (Err ''Rel: can't make path relative''), st)
                  | Some rel \<Rightarrow> (WalkOn,
                      (files @ [\<lparr>cf_Path = rel, cf_Content = content\<rparr>], int64 (used + int (length content)))))))"

text \<open>The callback of \<open>WalkDir\<close>; \<open>ctx\<close> is the context's error when the walk reaches a path.\<close>

definition visit ::
  "collect_limits \<Rightarrow> (string \<Rightarrow> go_error option) \<Rightarrow> string \<Rightarrow> string \<Rightarrow> string \<Rightarrow> dir_entry \<Rightarrow> gathered \<Rightarrow>
   walk_result \<times> gathered" where
  "visit l ctx root path name entry st =
     (case ctx path of
        Some e \<Rightarrow> (WalkError e, st)
      | None \<Rightarrow>
          if path = root then (WalkOn, st)
          else (case entry of
             SymbolicLink d \<Rightarrow> (if d then SkipDir else WalkOn, st)
           | _ \<Rightarrow>
               if name = ''.git'' then (if entry_is_dir entry then SkipDir else WalkOn, st)
               else (case entry of
                  RegularFile info opened \<Rightarrow>
                    if refused_name name then (WalkOn, st) else collect_file l root path info opened st
                | _ \<Rightarrow> (WalkOn, st))))"

text \<open>
  \<open>filepath.WalkDir\<close> below one entry: the callback first; then, for a directory, its entries
  in the order of \<open>os.ReadDir\<close>, after a second call of the callback if reading it failed
  (which here returns that error). \<open>SkipDir\<close> for a directory skips it, for a file the rest of
  its directory.
\<close>

fun walk_dir ::
  "collect_limits \<Rightarrow> (string \<Rightarrow> go_error option) \<Rightarrow> string \<Rightarrow> string \<Rightarrow> string \<Rightarrow> dir_entry \<Rightarrow> gathered \<Rightarrow>
   walk_result \<times> gathered"
and walk_entries ::
  "collect_limits \<Rightarrow> (string \<Rightarrow> go_error option) \<Rightarrow> string \<Rightarrow> string \<Rightarrow> (string \<times> dir_entry) list \<Rightarrow> gathered \<Rightarrow>
   walk_result \<times> gathered" where
  "walk_dir l ctx root path name (Folder e entries) st =
     (case visit l ctx root path name (Folder e entries) st of
        (WalkError err, st1) \<Rightarrow> (WalkError err, st1)
      | (SkipDir, st1) \<Rightarrow> (WalkOn, st1)
      | (WalkOn, st1) \<Rightarrow>
          (case e of Some err \<Rightarrow> (WalkError err, st1) | None \<Rightarrow> walk_entries l ctx root path entries st1))"
| "walk_dir l ctx root path name entry st =
     (case visit l ctx root path name entry st of
        (SkipDir, st1) \<Rightarrow> (if entry_is_dir entry then WalkOn else SkipDir, st1)
      | other \<Rightarrow> other)"
| "walk_entries l ctx root path [] st = (WalkOn, st)"
| "walk_entries l ctx root path ((name, entry) # rest) st =
     (case walk_dir l ctx root (path_join [path, name]) name entry st of
        (WalkError err, st1) \<Rightarrow> (WalkError err, st1)
      | (SkipDir, st1) \<Rightarrow> (WalkOn, st1)
      | (WalkOn, st1) \<Rightarrow> walk_entries l ctx root path rest st1)"

text \<open>\<open>Collect\<close>: \<open>tree\<close> is the result of \<open>os.Lstat\<close> on the absolute root, with what is below it.\<close>

definition collect ::
  "collect_limits \<Rightarrow> (string \<Rightarrow> go_error option) \<Rightarrow> string result \<Rightarrow> (string \<Rightarrow> dir_entry result) \<Rightarrow> string \<Rightarrow>
   context_file list result" where
  "collect l ctx cwd tree given =
     (case path_abs cwd given of
        Inl e \<Rightarrow> Inl e
      | Inr root \<Rightarrow>
          (case tree root of
             Inl e \<Rightarrow> Inl e
           | Inr entry \<Rightarrow>
               (case walk_dir l ctx root root (path_base root) entry ([], 0) of
                  (WalkError e, _) \<Rightarrow> Inl e
                | (_, (files, used)) \<Rightarrow> Inr (sort_key cf_Path files))))"

section \<open>What a snapshot holds\<close>

text \<open>An entry found below another by descending through directories only, never a link.\<close>

primrec reaches :: "dir_entry \<Rightarrow> string list \<Rightarrow> dir_entry \<Rightarrow> bool" where
  "reaches x [] y \<longleftrightarrow> x = y"
| "reaches x (c # cs) y \<longleftrightarrow> (\<exists>xs z. x = Folder None xs \<and> (c, z) \<in> set xs \<and> reaches z cs y)"

text \<open>\<open>os.ReadDir\<close> returns names that are single components.\<close>

definition proper_tree :: "dir_entry \<Rightarrow> bool" where
  "proper_tree tree \<longleftrightarrow> (\<forall>cs y. reaches tree cs y \<longrightarrow> list_all normal_comp cs)"

definition usable_limits :: "collect_limits \<Rightarrow> bool" where
  "usable_limits l \<longleftrightarrow> cl_MaxFiles l > 0 \<and> cl_MaxFileBytes l > 0 \<and> cl_MaxFileBytes l < 2 ^ 63 - 1 \<and>
     cl_MaxTotalBytes l > 0 \<and> cl_MaxTotalBytes l < 2 ^ 63"

definition good_file :: "collect_limits \<Rightarrow> dir_entry \<Rightarrow> context_file \<Rightarrow> bool" where
  "good_file l tree f \<longleftrightarrow>
     (\<exists>cs info. reaches tree cs (RegularFile info (Inr (cf_Content f))) \<and> cs \<noteq> [] \<and>
        cf_Path f = join_with ''/'' cs \<and> ''.git'' \<notin> set cs \<and> \<not> refused_name (last cs)) \<and>
     int (length (cf_Content f)) \<le> cl_MaxFileBytes l \<and> utf8_valid (cf_Content f) \<and> CHR 0x00 \<notin> set (cf_Content f)"

definition within_limits :: "collect_limits \<Rightarrow> context_file list \<Rightarrow> bool" where
  "within_limits l files \<longleftrightarrow> int (length files) \<le> cl_MaxFiles l \<and>
     sum_list (map (\<lambda>f. int (length (cf_Content f))) files) \<le> cl_MaxTotalBytes l"

definition gathered_ok :: "collect_limits \<Rightarrow> dir_entry \<Rightarrow> gathered \<Rightarrow> bool" where
  "gathered_ok l tree st \<longleftrightarrow> list_all (good_file l tree) (fst st) \<and> within_limits l (fst st) \<and>
     snd st = sum_list (map (\<lambda>f. int (length (cf_Content f))) (fst st))"

lemma reaches_append:
  "reaches x (as @ bs) y \<longleftrightarrow> (\<exists>z. reaches x as z \<and> reaches z bs y)"
  by (induction as arbitrary: x) auto

lemma reaches_child:
  "reaches tree cs (Folder None es) \<Longrightarrow> (n, y) \<in> set es \<Longrightarrow> reaches tree (cs @ [n]) y"
  by (auto simp: reaches_append)

lemma read_at_most_whole:
  assumes "read_at_most opened m = Inr (Some content)" "0 \<le> m" "m < 2 ^ 63 - 1"
  shows "opened = Inr content \<and> int (length content) \<le> m"
proof -
  obtain data where d: "opened = Inr data" "content = take (nat (int64 (m + 1))) data" "int (length content) \<le> m"
    using assms(1) by (auto simp: read_at_most_def Let_def split: sum.splits if_splits)
  have "int64 (m + 1) = m + 1" using assms(2,3) by (simp add: int64_def)
  with d(2,3) have "content = data" by (simp add: min_def split: if_splits)
  with d show ?thesis by simp
qed

lemma join_child:
  assumes "list_all normal_comp cs" "normal_comp n"
  shows "path_join [abs_path cs, n] = abs_path (cs @ [n])"
proof -
  have "split_on slash n = [n]" using split_join [of "[n]"] assms(2) by (simp add: normal_comp_def)
  with assms show ?thesis using clean_go_normal [of "[n]" True "rev cs"]
    by (simp add: join_abs_path del: clean_go.simps)
qed

lemma rel_child:
  assumes "list_all normal_comp (rs @ cs)" "cs \<noteq> []"
  shows "path_rel (abs_path rs) (abs_path (rs @ cs)) = Some (join_with ''/'' cs)"
  using assms path_rel_abs [of rs "rs @ cs" "[]" cs] by (simp add: strip_common_prefix)

lemma collect_file_ok:
  assumes "usable_limits l" "gathered_ok l tree st" "list_all normal_comp (rs @ cs)" "cs \<noteq> []"
    and "reaches tree cs (RegularFile info opened)" "''.git'' \<notin> set cs" "\<not> refused_name (last cs)"
  shows "gathered_ok l tree (snd (collect_file l (abs_path rs) (abs_path (rs @ cs)) info opened st))"
proof (cases "snd (collect_file l (abs_path rs) (abs_path (rs @ cs)) info opened st) = st")
  case False
  obtain files used where st: "st = (files, used)" by fastforce
  let ?m = "if cl_MaxTotalBytes l - used < cl_MaxFileBytes l then cl_MaxTotalBytes l - used else cl_MaxFileBytes l"
  have u: "used = sum_list (map (\<lambda>f. int (length (cf_Content f))) files)" "used \<le> cl_MaxTotalBytes l"
    using assms(2) st by (auto simp: gathered_ok_def within_limits_def)
  then have "0 \<le> used" by (auto intro!: sum_list_nonneg)
  with u(2) assms(1) have i: "int64 (cl_MaxTotalBytes l - used) = cl_MaxTotalBytes l - used"
    by (intro int64_small) (auto simp: usable_limits_def)
  from False obtain content where c: "read_at_most opened ?m = Inr (Some content)"
      "CHR 0x00 \<notin> set content" "utf8_valid content" "int (length files) < cl_MaxFiles l"
      "snd (collect_file l (abs_path rs) (abs_path (rs @ cs)) info opened st) =
        (files @ [\<lparr>cf_Path = join_with ''/'' cs, cf_Content = content\<rparr>], int64 (used + int (length content)))"
    using rel_child [OF assms(3,4)]
    by (auto simp: collect_file_def st i Let_def split: sum.splits option.splits if_splits)
  have m: "0 \<le> ?m" "?m < 2 ^ 63 - 1" using u(2) assms(1) by (auto simp: usable_limits_def)
  from read_at_most_whole [OF c(1) m] have o: "opened = Inr content" "int (length content) \<le> ?m" by auto
  have "int64 (used + int (length content)) = used + int (length content)"
    using o(2) \<open>0 \<le> used\<close> assms(1) by (intro int64_small) (auto simp: usable_limits_def split: if_splits)
  moreover have "good_file l tree \<lparr>cf_Path = join_with ''/'' cs, cf_Content = content\<rparr>"
    using assms(4-7) c(2,3) o by (auto simp: good_file_def split: if_splits)
  ultimately show ?thesis
    using assms(2) c(4,5) o(2) u st by (auto simp: gathered_ok_def within_limits_def split: if_splits)
qed (use assms(2) in simp)

lemma visit_ok:
  assumes "usable_limits l" "gathered_ok l tree st" "list_all normal_comp (rs @ cs)"
    and "reaches tree cs entry" "''.git'' \<notin> set (butlast cs)" "cs \<noteq> [] \<Longrightarrow> last cs = name"
  shows "gathered_ok l tree (snd (visit l ctx (abs_path rs) (abs_path (rs @ cs)) name entry st))"
    and "\<lbrakk>fst (visit l ctx (abs_path rs) (abs_path (rs @ cs)) name entry st) = WalkOn; entry = Folder e es\<rbrakk> \<Longrightarrow> ''.git'' \<notin> set cs"
proof -
  have root: "abs_path (rs @ cs) = abs_path rs \<longleftrightarrow> cs = []"
    using abs_path_inject [of "rs @ cs" rs] assms(3) by auto
  have git: "''.git'' \<notin> set cs \<longleftrightarrow> name \<noteq> ''.git''" if "cs \<noteq> []"
    using that assms(5,6) by (cases cs rule: rev_cases) auto
  show "gathered_ok l tree (snd (visit l ctx (abs_path rs) (abs_path (rs @ cs)) name entry st))"
    using collect_file_ok [OF assms(1-3)] assms(2,4,6) root git
    by (cases entry; cases "cs = []") (auto simp: visit_def split: option.splits)
  show "''.git'' \<notin> set cs"
    if "fst (visit l ctx (abs_path rs) (abs_path (rs @ cs)) name entry st) = WalkOn" "entry = Folder e es"
    using that root git by (cases "cs = []") (auto simp: visit_def split: option.splits if_splits)
qed

lemma walk_ok:
  "\<lbrakk>usable_limits l; proper_tree tree; list_all normal_comp rs; root = abs_path rs; path = abs_path (rs @ cs);
    reaches tree cs entry; ''.git'' \<notin> set (butlast cs); cs \<noteq> [] \<longrightarrow> last cs = name; gathered_ok l tree st\<rbrakk>
   \<Longrightarrow> gathered_ok l tree (snd (walk_dir l ctx root path name entry st))"
  "\<lbrakk>usable_limits l; proper_tree tree; list_all normal_comp rs; root = abs_path rs; path = abs_path (rs @ cs);
    reaches tree cs (Folder None all); set es \<subseteq> set all; ''.git'' \<notin> set cs; gathered_ok l tree st\<rbrakk>
   \<Longrightarrow> gathered_ok l tree (snd (walk_entries l ctx root path es st))"
proof (induction l ctx root path name entry st and l ctx root path es st arbitrary: cs and cs all
    rule: walk_dir_walk_entries.induct [case_names Folder File Link Dead Empty Entries])
  case (Folder l ctx root path name e entries st)
  have n: "list_all normal_comp (rs @ cs)" using "Folder.prems"(2,3,6) by (auto simp: proper_tree_def)
  have last: "cs \<noteq> [] \<Longrightarrow> last cs = name" using "Folder.prems"(8) by simp
  obtain r st1 where v: "visit l ctx root path name (Folder e entries) st = (r, st1)" by (rule prod.exhaust)
  have ok: "gathered_ok l tree st1"
    using visit_ok(1) [OF "Folder.prems"(1,9) n "Folder.prems"(6,7) last, of ctx] v "Folder.prems"(4,5) by simp
  show ?case
  proof (cases "r = WalkOn \<and> e = None")
    case True
    with visit_ok(2) [OF "Folder.prems"(1,9) n "Folder.prems"(6,7) last, of ctx e entries] v "Folder.prems"(4,5)
    have "''.git'' \<notin> set cs" by simp
    with Folder v True ok show ?thesis by simp
  next
    case False
    with v ok show ?thesis by (cases r) (auto split: option.splits)
  qed
next
  case (File l ctx root path name i c st)
  have n: "list_all normal_comp (rs @ cs)" using "File.prems"(2,3,6) by (auto simp: proper_tree_def)
  have last: "cs \<noteq> [] \<Longrightarrow> last cs = name" using "File.prems"(8) by simp
  from visit_ok(1) [OF "File.prems"(1,9) n "File.prems"(6,7) last, of ctx] "File.prems"(4,5)
  show ?case by (auto split: prod.splits walk_result.splits)
next
  case (Link l ctx root path name d st)
  have n: "list_all normal_comp (rs @ cs)" using "Link.prems"(2,3,6) by (auto simp: proper_tree_def)
  have last: "cs \<noteq> [] \<Longrightarrow> last cs = name" using "Link.prems"(8) by simp
  from visit_ok(1) [OF "Link.prems"(1,9) n "Link.prems"(6,7) last, of ctx] "Link.prems"(4,5)
  show ?case by (auto split: prod.splits walk_result.splits)
next
  case (Dead l ctx root path name st)
  have n: "list_all normal_comp (rs @ cs)" using "Dead.prems"(2,3,6) by (auto simp: proper_tree_def)
  have last: "cs \<noteq> [] \<Longrightarrow> last cs = name" using "Dead.prems"(8) by simp
  from visit_ok(1) [OF "Dead.prems"(1,9) n "Dead.prems"(6,7) last, of ctx] "Dead.prems"(4,5)
  show ?case by (auto split: prod.splits walk_result.splits)
next
  case (Empty l ctx root path st)
  then show ?case by simp
next
  case (Entries l ctx root path name entry rest st)
  from "Entries.prems"(6,7) have r: "reaches tree (cs @ [name]) entry" by (auto intro: reaches_child)
  then have "list_all normal_comp (cs @ [name])" using "Entries.prems"(2) by (auto simp: proper_tree_def)
  then have p: "path_join [path, name] = abs_path (rs @ (cs @ [name]))"
    using join_child [of "rs @ cs" name] "Entries.prems"(3,5) by simp
  obtain q st1 where w: "walk_dir l ctx root (path_join [path, name]) name entry st = (q, st1)" by (rule prod.exhaust)
  have ok: "gathered_ok l tree st1"
    using "Entries.IH"(1) [OF "Entries.prems"(1-4) p r] "Entries.prems"(8,9) w by simp
  show ?case
  proof (cases q)
    case WalkOn
    have "set rest \<subseteq> set all" using "Entries.prems"(7) by simp
    with "Entries.IH"(2) [OF w [symmetric] _ "Entries.prems"(1-6) this "Entries.prems"(8)] ok w WalkOn show ?thesis by simp
  qed (use w ok in simp_all)
qed
lemma collect_ok:
  assumes "usable_limits l" "\<And>wd. cwd = Inr wd \<Longrightarrow> is_abs wd" "collect l ctx cwd tree given = Inr files"
  obtains root entry where "path_abs cwd given = Inr root" "tree root = Inr entry"
    "proper_tree entry \<Longrightarrow> list_all (good_file l entry) files \<and> within_limits l files"
    "sorted (map cf_Path files)"
proof -
  from assms(3) obtain root where r: "path_abs cwd given = Inr root" by (auto simp: collect_def split: sum.splits)
  obtain rs where rs: "list_all normal_comp rs" "root = abs_path rs" using path_abs_clean [OF r assms(2)] .
  from assms(3) r obtain entry where e: "tree root = Inr entry" by (auto simp: collect_def split: sum.splits)
  obtain q fs used where w: "walk_dir l ctx root root (path_base root) entry ([], 0) = (q, fs, used)"
    by (metis prod.exhaust)
  with assms(3) r e have f: "files = sort_key cf_Path fs" by (auto simp: collect_def split: walk_result.splits)
  have "list_all (good_file l entry) fs \<and> within_limits l fs" if "proper_tree entry"
  proof -
    have "gathered_ok l entry ([], 0)" using assms(1) by (simp add: gathered_ok_def within_limits_def usable_limits_def)
    from walk_ok(1) [OF assms(1) that rs(1) rs(2) _ _ _ _ this, of root "[]" entry "path_base root" ctx] w rs(2)
    show ?thesis by (simp add: gathered_ok_def)
  qed
  moreover have "within_limits l files \<longleftrightarrow> within_limits l fs"
  proof -
    have "mset (map (\<lambda>f. int (length (cf_Content f))) files) = mset (map (\<lambda>f. int (length (cf_Content f))) fs)"
      by (simp add: f)
    then have "sum_list (map (\<lambda>f. int (length (cf_Content f))) files) = sum_list (map (\<lambda>f. int (length (cf_Content f))) fs)"
      by (metis sum_mset_sum_list)
    then show ?thesis by (simp add: within_limits_def f)
  qed
  moreover have "list_all (good_file l entry) files \<longleftrightarrow> list_all (good_file l entry) fs" by (simp add: f list_all_iff)
  moreover have "sorted (map cf_Path files)" by (simp add: f)
  ultimately show thesis using that r e by blast
qed

text \<open>
  C16. What the runner shows of a workspace. A snapshot holds regular files only, found by
  descending through real directories, never through a link and never below \<open>.git\<close>; none has
  the name of a key or credential file; each is given whole, as valid text without NUL bytes,
  under its path relative to the root; the files are sorted by path; and the number of files,
  the size of each and their sum are within the collector's limits.
\<close>

theorem snapshot_is_safe:
  assumes "usable_limits l" "\<forall>wd. cwd = Inr wd \<longrightarrow> is_abs wd" "\<forall>root entry. tree root = Inr entry \<longrightarrow> proper_tree entry"
    and "collect l ctx cwd tree given = Inr files"
  shows "sorted (map cf_Path files) \<and> int (length files) \<le> cl_MaxFiles l \<and>
    sum_list (map (\<lambda>f. int (length (cf_Content f))) files) \<le> cl_MaxTotalBytes l \<and>
    (\<exists>root entry. path_abs cwd given = Inr root \<and> tree root = Inr entry \<and>
      (\<forall>f\<in>set files. int (length (cf_Content f)) \<le> cl_MaxFileBytes l \<and> utf8_valid (cf_Content f) \<and>
        CHR 0x00 \<notin> set (cf_Content f) \<and>
        (\<exists>cs info. reaches entry cs (RegularFile info (Inr (cf_Content f))) \<and> cf_Path f = join_with ''/'' cs \<and>
           ''.git'' \<notin> set cs \<and> \<not> refused_name (last cs))))"
proof -
  obtain root entry where e: "path_abs cwd given = Inr root" "tree root = Inr entry" "sorted (map cf_Path files)"
    "proper_tree entry \<Longrightarrow> list_all (good_file l entry) files \<and> within_limits l files"
    using collect_ok [OF assms(1) _ assms(4)] assms(2) by metis
  with assms(3) have ok: "list_all (good_file l entry) files" "within_limits l files" by blast+
  from ok(1) have "\<forall>f\<in>set files. int (length (cf_Content f)) \<le> cl_MaxFileBytes l \<and> utf8_valid (cf_Content f) \<and>
      CHR 0x00 \<notin> set (cf_Content f) \<and>
      (\<exists>cs info. reaches entry cs (RegularFile info (Inr (cf_Content f))) \<and> cf_Path f = join_with ''/'' cs \<and>
         ''.git'' \<notin> set cs \<and> \<not> refused_name (last cs))"
    unfolding list_all_iff good_file_def by blast
  with e ok(2) show ?thesis by (auto simp only: within_limits_def)
qed

section \<open>The runner's answers about a workspace\<close>

text \<open>
  \<open>exists\<close> says whether \<open>os.Stat\<close> of a path below the root succeeds, \<open>git\<close> is the output of
  \<open>git status --porcelain\<close>.
\<close>

definition workspace_state :: "guard \<Rightarrow> (string \<Rightarrow> bool) \<Rightarrow> string result \<Rightarrow> string \<times> bool \<times> bool" where
  "workspace_state g exists' git =
     (if exists' (g_root g @ ''/.git'')
      then (g_root g, True, case git of Inl _ \<Rightarrow> False | Inr out \<Rightarrow> trim_space out \<noteq> [])
      else (g_root g, False, False))"

record describe_response =
  dr_Root :: string
  dr_IsGit :: bool
  dr_Dirty :: bool
  dr_DetectedStacks :: "string slice"

definition describe_workspace :: "guard \<Rightarrow> (string \<Rightarrow> bool) \<Rightarrow> string result \<Rightarrow> describe_response result" where
  "describe_workspace g exists' git =
     (case workspace_state g exists' git of (root, is_git, dirty) \<Rightarrow>
      Inr \<lparr>dr_Root = root, dr_IsGit = is_git, dr_Dirty = dirty,
        dr_DetectedStacks = slice_of ((if exists' (g_root g @ ''/go.mod'') then [''go''] else []) @
          (if exists' (g_root g @ ''/package.json'') then [''node''] else []))\<rparr>)"

record context_response =
  cr_Root :: string
  cr_IsGit :: bool
  cr_Dirty :: bool
  cr_Files :: "workspace_file slice"

definition service_collector :: collect_limits where
  "service_collector = new_collector \<lparr>cl_MaxFiles = 0, cl_MaxFileBytes = 0, cl_MaxTotalBytes = 0\<rparr>"

definition read_workspace_context ::
  "(go_error \<Rightarrow> string) \<Rightarrow> (string \<Rightarrow> go_error option) \<Rightarrow> string result \<Rightarrow> (string \<Rightarrow> dir_entry result) \<Rightarrow>
   guard \<Rightarrow> (string \<Rightarrow> bool) \<Rightarrow> string result \<Rightarrow> context_response result" where
  "read_workspace_context err_text ctx cwd tree g exists' git =
     (case collect service_collector ctx cwd tree (g_root g) of
        Inl e \<Rightarrow>
          if errors_is e ContextCanceled then Inl (status_error ''Canceled'' (err_text e))
          else if errors_is e DeadlineExceeded then Inl (status_error ''DeadlineExceeded'' (err_text e))
          else Inl (status_error ''Internal'' (''collect workspace context: '' @ err_text e))
      | Inr files \<Rightarrow>
          (case workspace_state g exists' git of (root, is_git, dirty) \<Rightarrow>
           Inr \<lparr>cr_Root = root, cr_IsGit = is_git, cr_Dirty = dirty,
             cr_Files = slice_of (map (\<lambda>f. \<lparr>wf_Path = cf_Path f, wf_Content = cf_Content f\<rparr>) files)\<rparr>))"

text \<open>A path the council can take for what it is: no backslash, no white space at its ends.\<close>

definition plain_path :: "string \<Rightarrow> bool" where
  "plain_path p \<longleftrightarrow> backslash \<notin> set p \<and> hd p \<notin> space_bytes \<and> last p \<notin> space_bytes"

lemma set_join_with: "c \<in> set cs \<Longrightarrow> set c \<subseteq> set (join_with sep cs)"
  by (induction cs rule: induct_list012) auto

lemma plain_path_safe:
  assumes "cs \<noteq> []" "list_all normal_comp cs" "plain_path (join_with ''/'' cs)"
  shows "is_safe_relative_path (join_with ''/'' cs)"
proof -
  let ?p = "join_with ''/'' cs"
  obtain c ds where "cs = c # ds" using assms(1) by (cases cs) auto
  with assms(2) have p: "?p \<noteq> []" by (cases ds) (auto simp: normal_comp_def)
  then have t: "trim_space ?p = ?p" using assms(3) by (intro trim_space_id) (auto simp: plain_path_def)
  have s: "split_on slash ?p = cs" by (rule split_join_normal [OF assms(1,2)])
  have b: "backslash \<notin> set c" if "c \<in> set cs" for c
    using assms(3) set_join_with [OF that, of "''/''"] by (auto simp: plain_path_def)
  have "split_on backslash c = [c]" if "c \<in> set cs" for c
    using b [OF that] by (rule split_on_id)
  then have "path_fields ?p = filter (\<lambda>c. c \<noteq> []) (concat (map (\<lambda>c. [c]) cs))"
    unfolding path_fields_def s by (simp cong: map_cong)
  then have "''..'' \<notin> set (path_fields ?p)" using assms(2) by (auto simp: list_all_iff normal_comp_def)
  with p t clean_join_normal(2) [OF assms(1,2)] show ?thesis
    by (simp add: is_safe_relative_path_def has_traversal_component_def volume_name_def)
qed

lemma int_sum_list: "(\<Sum>x\<leftarrow>xs. int (f x)) = int (sum_list (map f xs))"
  by (induction xs) simp_all


section \<open>A sample workspace\<close>

definition sample_tree :: "string \<Rightarrow> dir_entry result" where
  "sample_tree root = Inr (Folder None
     [(''.git'', Folder None [(''config'', RegularFile (Inr 1) (Inr ''c''))]),
      (''a.txt'', RegularFile (Inr 2) (Inr ''hi'')), (''id_rsa'', RegularFile (Inr 1) (Inr ''k'')),
      (''out'', SymbolicLink False)])"

lemma sample_tree_proper: "proper_tree (Folder None
     [(''.git'', Folder None [(''config'', RegularFile (Inr 1) (Inr ''c''))]),
      (''a.txt'', RegularFile (Inr 2) (Inr ''hi'')), (''id_rsa'', RegularFile (Inr 1) (Inr ''k'')),
      (''out'', SymbolicLink False)])"
  unfolding proper_tree_def
proof (intro allI impI)
  fix cs y
  assume r: "reaches (Folder None
     [(''.git'', Folder None [(''config'', RegularFile (Inr 1) (Inr ''c''))]),
      (''a.txt'', RegularFile (Inr 2) (Inr ''hi'')), (''id_rsa'', RegularFile (Inr 1) (Inr ''k'')),
      (''out'', SymbolicLink False)]) cs y"
  show "list_all normal_comp cs"
  proof (cases cs)
    case (Cons c ds)
    with r show ?thesis by (cases ds; cases "tl ds") (auto simp: normal_comp_def)
  qed simp
qed

lemma sample_names:
  "path_abs (Inr ''/'') ''/w'' = Inr ''/w''" "path_join [''/w'', ''a.txt''] = ''/w/a.txt''"
  "path_join [''/w'', ''.git''] = ''/w/.git''" "path_join [''/w'', ''id_rsa''] = ''/w/id_rsa''"
  "path_join [''/w'', ''out''] = ''/w/out''" "path_rel ''/w'' ''/w/a.txt'' = Some ''a.txt''"
  "\<not> refused_name ''a.txt''" "refused_name ''id_rsa''"
  by code_simp+

lemma sample_collected:
  "collect service_collector (\<lambda>_. None) (Inr ''/'') sample_tree ''/w'' =
     Inr [\<lparr>cf_Path = ''a.txt'', cf_Content = ''hi''\<rparr>]"
  by (simp add: collect_def sample_tree_def sample_names visit_def collect_file_def read_at_most_def
      service_collector_def new_collector_def int64_def utf8_valid_ASCII_Cons)

theorem snapshot_is_safe_witness:
  "\<exists>files root entry. collect service_collector (\<lambda>_. None) (Inr ''/'') sample_tree ''/w'' = Inr files \<and>
    sample_tree root = Inr entry \<and> files \<noteq> [] \<and>
    (\<forall>f\<in>set files. utf8_valid (cf_Content f) \<and> (\<exists>cs info. reaches entry cs (RegularFile info (Inr (cf_Content f)))))"
proof -
  have u: "usable_limits service_collector"
    by (simp add: usable_limits_def service_collector_def new_collector_def)
  have w: "\<forall>wd. Inr ''/'' = (Inr wd :: string result) \<longrightarrow> is_abs wd" by (simp add: is_abs_def)
  have p: "\<forall>root entry. sample_tree root = Inr entry \<longrightarrow> proper_tree entry"
    using sample_tree_proper by (simp add: sample_tree_def)
  from snapshot_is_safe [OF u w p sample_collected] sample_collected show ?thesis
    by (elim conjE exE) (intro exI conjI; assumption?; fastforce)
qed


text \<open>White space matters: a file in a directory whose name is a blank ends every deliberation.\<close>

lemma blank_directory_refused: "\<not> is_safe_relative_path '' /x''"
  by code_simp

end
