(* ===== verification/Task_Service.thy ===== *)
theory Task_Service
  imports Run_Repository Approval_Repository Approval_Snapshot
begin

text \<open>
  \<open>internal/app/task/service.go\<close>: the application service that drives a task through the run
  repository, the approvals, a council and a runner. The map of tasks holds pointers; a call
  reads and writes its task after it has left the mutex, so the model runs one call at a
  time. The council, the runner and the event port are parameters that act on a state
  \<open>'w\<close> of their own.
\<close>

section \<open>State and ports\<close>


record service_task =
  ta_ID :: string
  ta_RunID :: string
  ta_WorkspaceID :: string
  ta_Requirement :: string
  ta_Acceptance :: "string slice"
  ta_State :: run_state
  ta_PlanVersion :: int
  ta_Plan :: execution_plan

record approved_execution =
  ax_RequestID :: string
  ax_RunID :: string
  ax_WorkspaceID :: string
  ax_ApprovalHash :: string
  ax_Plan :: execution_plan

datatype service_event = TaskEvent service_task | ApprovalEvent int string

text \<open>The runner returns a report and, with it, possibly an error.\<close>

record 'w service_ports =
  po_council :: "((string \<Rightarrow> 'w \<Rightarrow> unit result \<times> 'w) \<times> (string \<Rightarrow> 'w \<Rightarrow> execution_plan result \<times> 'w)) option"
  po_runner :: "approved_execution \<Rightarrow> 'w \<Rightarrow> (verification_report \<times> go_error option) \<times> 'w"
  po_events :: "(string \<Rightarrow> string \<Rightarrow> service_event \<Rightarrow> 'w \<Rightarrow> 'w) option"

record ('db, 'w) task_service =
  sv_tasks :: "string \<Rightarrow> service_task option"
  sv_db :: 'db
  sv_world :: 'w

definition new_service :: "'db \<Rightarrow> 'w \<Rightarrow> ('db, 'w) task_service" where
  "new_service db w = \<lparr>sv_tasks = (\<lambda>_. None), sv_db = db, sv_world = w\<rparr>"

definition on_service_db :: "('db, 'a) prog \<Rightarrow> (('db, 'w) task_service, 'a) prog" where
  "on_service_db m s = (case m (sv_db s) of (r, db) \<Rightarrow> (r, s\<lparr>sv_db := db\<rparr>))"

definition on_world :: "('w \<Rightarrow> 'a \<times> 'w) \<Rightarrow> ('db, 'w) task_service \<Rightarrow> 'a \<times> ('db, 'w) task_service" where
  "on_world m s = (case m (sv_world s) of (r, w) \<Rightarrow> (r, s\<lparr>sv_world := w\<rparr>))"

definition put_task :: "string \<Rightarrow> service_task \<Rightarrow> ('db, 'w) task_service \<Rightarrow> ('db, 'w) task_service" where
  "put_task tid t s = s\<lparr>sv_tasks := (sv_tasks s)(tid := Some t)\<rparr>"

text \<open>\<open>if s.events != nil { _, _ = s.events.Append(...) }\<close>\<close>

definition service_emit ::
  "'w service_ports \<Rightarrow> string \<Rightarrow> string \<Rightarrow> service_event \<Rightarrow> ('db, 'w) task_service \<Rightarrow> ('db, 'w) task_service" where
  "service_emit P rid kind data s =
     (case po_events P of None \<Rightarrow> s | Some emit \<Rightarrow> s\<lparr>sv_world := emit rid kind data (sv_world s)\<rparr>)"

section \<open>Operations\<close>

definition service_create ::
  "'db gorm_db \<Rightarrow> 'w service_ports \<Rightarrow> char list \<Rightarrow> char list \<Rightarrow> string \<Rightarrow> string \<Rightarrow> string slice \<Rightarrow>
   (('db, 'w) task_service, service_task) prog" where
  "service_create D P rnd rnd' workspace requirement acceptance s =
     (if requirement = [] \<or> elems acceptance = [] then (Inl (Err ''requirement and acceptance are required''), s)
      else let tid = new_id rnd in
        (case on_service_db (run_create D rnd' tid Draft) s of
           (Inl e, s1) \<Rightarrow> (Inl e, s1)
         | (Inr _, s1) \<Rightarrow>
             let t = \<lparr>ta_ID = tid, ta_RunID = tid, ta_WorkspaceID = workspace, ta_Requirement = requirement,
                   ta_Acceptance = acceptance, ta_State = Draft, ta_PlanVersion = 1,
                   ta_Plan = zero_plan\<lparr>Version := 1, Acceptance := slice_of (elems acceptance)\<rparr>\<rparr>
             in (Inr t, service_emit P tid ''task.created'' (TaskEvent t) (put_task tid t s1))))"

definition service_not_found :: go_error where
  "service_not_found = Err ''task not found''"

text \<open>What \<open>Start\<close> makes of the council's plan.\<close>

definition service_adopt :: "execution_plan \<Rightarrow> service_task \<Rightarrow> service_task" where
  "service_adopt plan t =
     (let t1 = (if Version plan = 0 then t\<lparr>ta_Plan := plan\<lparr>Version := ta_PlanVersion t\<rparr>\<rparr>
           else t\<lparr>ta_Plan := plan, ta_PlanVersion := Version plan\<rparr>)
      in if elems (Acceptance plan) = []
         then t1\<lparr>ta_Plan := (ta_Plan t1)\<lparr>Acceptance := slice_of (elems (ta_Acceptance t))\<rparr>\<rparr> else t1)"

definition start_states :: "run_state list" where
  "start_states = [Analyzing, Proposing, Reviewing, Judging, RedTeam, AwaitingApproval]"

text \<open>The loop over the states, each stored in the task once its transition is.\<close>

fun service_advance ::
  "'db gorm_db \<Rightarrow> string \<Rightarrow> (run_state \<times> char list) list \<Rightarrow> service_task \<Rightarrow> (('db, 'w) task_service, service_task) prog" where
  "service_advance D tid [] t s = (Inr t, s)"
| "service_advance D tid ((next, rnd) # rest) t s =
     (case on_service_db (run_transition D rnd (ta_RunID t) next ''system'' ''task lifecycle'') s of
        (Inl e, s1) \<Rightarrow> (Inl e, s1)
      | (Inr _, s1) \<Rightarrow>
          service_advance D tid rest (t\<lparr>ta_State := next\<rparr>) (put_task tid (t\<lparr>ta_State := next\<rparr>) s1))"

definition service_start ::
  "'db gorm_db \<Rightarrow> 'w service_ports \<Rightarrow> (run_state \<Rightarrow> char list) \<Rightarrow> string \<Rightarrow> (('db, 'w) task_service, unit) prog" where
  "service_start D P rnd tid s =
     (case sv_tasks s tid of
        None \<Rightarrow> (Inl service_not_found, s)
      | Some t \<Rightarrow>
          (case (case po_council P of
               None \<Rightarrow> (Inr t, s)
             | Some (analyze, deliberate) \<Rightarrow>
                 (case on_world (analyze (ta_Requirement t)) s of
                    (Inl e, s1) \<Rightarrow> (Inl e, s1)
                  | (Inr _, s1) \<Rightarrow>
                      (case on_world (deliberate (ta_Requirement t)) s1 of
                         (Inl e, s2) \<Rightarrow> (Inl e, s2)
                       | (Inr plan, s2) \<Rightarrow> (Inr (service_adopt plan t), put_task tid (service_adopt plan t) s2)))) of
             (Inl e, s1) \<Rightarrow> (Inl e, s1)
           | (Inr t1, s1) \<Rightarrow>
               (case service_advance D tid (map (\<lambda>st. (st, rnd st)) start_states) t1 s1 of
                  (Inl e, s2) \<Rightarrow> (Inl e, s2)
                | (Inr t2, s2) \<Rightarrow> (Inr (), service_emit P tid ''task.awaiting_approval'' (TaskEvent t2) s2))))"

definition service_approve ::
  "'db gorm_db \<Rightarrow> 'w service_ports \<Rightarrow> (string \<Rightarrow> string) \<Rightarrow> char list \<Rightarrow> timestamp \<Rightarrow> string \<Rightarrow> string \<Rightarrow> string \<Rightarrow>
   int \<Rightarrow> (('db, 'w) task_service, unit) prog" where
  "service_approve D P sha rnd now tid hash actor version s =
     (case sv_tasks s tid of
        None \<Rightarrow> (Inl service_not_found, s)
      | Some t \<Rightarrow>
          if ta_State t \<noteq> AwaitingApproval \<or> version \<noteq> ta_PlanVersion t
          then (Inl (Err ''task is not awaiting matching plan''), s)
          else (case approval_verify sha hash (ta_RunID t) (ta_WorkspaceID t) (ta_Plan t) of
             Inl e \<Rightarrow> (Inl e, s)
           | Inr _ \<Rightarrow>
               (case on_service_db (bindE (approval_invalidate D now (ta_RunID t)) (\<lambda>_.
                    approval_save D \<lparr>al_ID = new_id rnd, al_RunID = ta_RunID t, al_PlanVersion = version,
                      al_SnapshotHash = hash, al_Decision = ''approved'', al_Actor = actor, al_CreatedAt = now,
                      al_InvalidatedAt = None, al_ConsumedAt = None\<rparr>)) s of
                  (Inl e, s1) \<Rightarrow> (Inl e, s1)
                | (Inr _, s1) \<Rightarrow>
                    (Inr (), service_emit P tid ''approval.created'' (ApprovalEvent version hash) s1))))"

text \<open>\<open>Execute\<close> up to the call of the runner: the request it makes.\<close>

definition service_request ::
  "'db gorm_db \<Rightarrow> string \<Rightarrow> string \<Rightarrow> (('db, 'w) task_service, service_task \<times> approved_execution) prog" where
  "service_request D tid request_id s =
     (case sv_tasks s tid of
        None \<Rightarrow> (Inl service_not_found, s)
      | Some t \<Rightarrow>
          (case on_service_db (approval_current D (ta_RunID t) (ta_PlanVersion t)) s of
             (Inl _, s1) \<Rightarrow> (Inl (Sent ErrApprovalRequired), s1)
           | (Inr a, s1) \<Rightarrow>
               if al_Decision a \<noteq> ''approved'' then (Inl (Sent ErrApprovalRequired), s1)
               else (Inr (t, \<lparr>ax_RequestID = request_id, ax_RunID = ta_RunID t, ax_WorkspaceID = ta_WorkspaceID t,
                  ax_ApprovalHash = al_SnapshotHash a, ax_Plan = ta_Plan t\<rparr>), s1)))"

text \<open>A transition whose error is dropped: the task in memory has the new state either way.\<close>

definition service_move ::
  "'db gorm_db \<Rightarrow> char list \<Rightarrow> string \<Rightarrow> service_task \<Rightarrow> run_state \<Rightarrow> string \<Rightarrow> string \<Rightarrow>
   ('db, 'w) task_service \<Rightarrow> ('db, 'w) task_service" where
  "service_move D rnd tid t st actor detail s =
     snd (on_service_db (run_transition D rnd (ta_RunID t) st actor detail) (put_task tid (t\<lparr>ta_State := st\<rparr>) s))"

definition zero_verification :: verification_report where
  "zero_verification = \<lparr>vr_Passed = False, vr_ActualDiff = [], vr_Steps = None, vr_Acceptance = None,
     vr_ReviewFindings = None\<rparr>"

definition service_execute ::
  "'db gorm_db \<Rightarrow> 'w service_ports \<Rightarrow> (run_state \<Rightarrow> char list) \<Rightarrow> string \<Rightarrow> string \<Rightarrow> ('db, 'w) task_service \<Rightarrow>
   (verification_report \<times> go_error option) \<times> ('db, 'w) task_service" where
  "service_execute D P rnd tid request_id s =
     (case service_request D tid request_id s of
        (Inl e, s1) \<Rightarrow> ((zero_verification, Some e), s1)
      | (Inr (t, req), s1) \<Rightarrow>
          (case on_world (po_runner P req) (service_move D (rnd Executing) tid t Executing ''system'' ''approved execution'' s1) of
             ((report, Some e), s2) \<Rightarrow> ((report, Some e), s2)
           | ((report, None), s2) \<Rightarrow>
               let s3 = service_move D (rnd Verifying) tid t Verifying ''runner'' ''verification'' s2 in
               ((report, None),
                if vr_Passed report
                then service_move D (rnd Succeeded) tid t Succeeded ''runner'' ''verification passed'' s3
                else service_move D (rnd Replanning) tid t Replanning ''runner'' ''verification failed'' s3)))"

section \<open>Approvals of a task\<close>

text \<open>What an approval row is for.\<close>

definition approval_key :: "approval_record \<Rightarrow> string \<times> int \<times> string" where
  "approval_key a = (al_RunID a, al_PlanVersion a, al_SnapshotHash a)"

definition approval_keys :: "tables \<Rightarrow> (string \<times> int \<times> string) set" where
  "approval_keys t = approval_key ` set (t_approvals t)"

context gorm_store
begin

lemma transition_keeps_approvals: "frames view t_approvals (run_transition D rnd rid st actor detail)"
proof -
  have "frames view t_approvals (advance_run D rnd rid st actor detail v)" for v
    unfolding advance_run_def Let_def
    by (rule frames_bind, rule frames_update [OF runs_ok], simp add: runs_spec_def)
      (simp add: frames_pure frames_create [OF audits_ok] audits_spec_def)
  then have "frames view t_approvals (transition_tx D rnd rid st actor detail)"
    unfolding transition_tx_def
    by (intro frames_bind [OF frames_first [OF runs_ok]]) (simp add: frames_pure)
  then show ?thesis unfolding run_transition_def by (rule frames_tx [OF tx_ok])
qed

lemma create_keeps_approvals: "frames view t_approvals (run_create D rnd rid st)"
  unfolding run_create_def create_tx_def
  by (rule frames_tx [OF tx_ok], rule frames_bind, rule frames_create [OF runs_ok], simp add: runs_spec_def,
      rule frames_create [OF audits_ok], simp add: audits_spec_def)

lemma current_keeps_approvals: "frames view t_approvals (approval_current D rid v)"
  unfolding approval_current_def by (rule frames_first [OF approvals_ok])

lemma invalidate_keys:
  assumes "approval_invalidate D now rid s = (q, s')"
  shows "approval_keys (view s') = approval_keys (view s)"
proof -
  let ?c = "\<lambda>a. al_RunID a = rid \<and> al_InvalidatedAt a = None" and ?f = "\<lambda>a. a\<lparr>al_InvalidatedAt := Some now\<rparr>"
  obtain u t where u: "sql_update (gd_approvals D) ?c ?f s = (u, t)" by fastforce
  with assms have t: "s' = t" by (auto simp: approval_invalidate_def bindE_def returnE_def split: sum.splits)
  show ?thesis
  proof (cases rule: sql_updateE [OF approvals_ok u])
    case (2 g)
    have "approval_key (g a) = approval_key a" for a
      using approval_norm(2-4) [OF 2(2) [of a]] by (simp add: approval_key_def)
    then have "map approval_key (map (\<lambda>a. if ?c a then g a else a) rows) = map approval_key rows" for rows
      by simp
    moreover have "t_approvals (view t) = map (\<lambda>a. if ?c a then g a else a) (t_approvals (view s))"
      using 2(3) by (simp add: approvals_spec_def)
    ultimately show ?thesis unfolding t approval_keys_def by (simp only: set_map [symmetric])
  qed (simp add: t)
qed

lemma save_keys:
  assumes "approval_save D rec s = (q, s')"
  shows "approval_keys (view s') \<subseteq> insert (approval_key rec) (approval_keys (view s))"
proof (cases rule: sql_createE [OF approvals_ok assms [unfolded approval_save_def]])
  case (2 r')
  have "approval_key r' = approval_key rec" using approval_norm(2-4) [OF 2(2)] by (simp add: approval_key_def)
  with 2(4) show ?thesis by (simp add: approval_keys_def spec_defs)
qed (auto simp: approval_keys_def)

lemma replace_approval_keys:
  assumes "bindE (approval_invalidate D now rid) (\<lambda>_. approval_save D rec) s = (q, s')"
  shows "approval_keys (view s') \<subseteq> insert (approval_key rec) (approval_keys (view s))"
proof -
  obtain u t where u: "approval_invalidate D now rid s = (u, t)" by fastforce
  show ?thesis
  proof (cases u)
    case (Inl e)
    with u assms invalidate_keys [OF u] show ?thesis by (auto simp: bindE_def)
  next
    case (Inr x)
    with u assms have "approval_save D rec t = (q, s')" by (simp add: bindE_def)
    from save_keys [OF this] invalidate_keys [OF u] show ?thesis by simp
  qed
qed

lemma current_key:
  assumes "approval_current D rid v s = (Inr a, s')"
  shows "(rid, v, al_SnapshotHash a) \<in> approval_keys (view s)"
proof (cases rule: sql_firstE [OF approvals_ok assms [unfolded approval_current_def]])
  case (3 r)
  then show ?thesis by (auto simp: approval_keys_def approval_key_def spec_defs intro!: image_eqI [of _ _ r])
qed simp_all

end

section \<open>What each call does to tasks and approvals\<close>

lemma emit_sels [simp]:
  "sv_tasks (service_emit P rid kind data s) = sv_tasks s" "sv_db (service_emit P rid kind data s) = sv_db s"
  by (simp_all add: service_emit_def split: option.splits)

lemma put_sels [simp]:
  "sv_tasks (put_task tid t s) = (sv_tasks s)(tid := Some t)" "sv_db (put_task tid t s) = sv_db s"
  by (simp_all add: put_task_def)

lemma on_db_sels [simp]:
  "sv_tasks (snd (on_service_db m s)) = sv_tasks s" "sv_db (snd (on_service_db m s)) = snd (m (sv_db s))"
  "fst (on_service_db m s) = fst (m (sv_db s))"
  by (simp_all add: on_service_db_def split: prod.splits)

lemma on_world_sels [simp]:
  "sv_tasks (snd (on_world m s)) = sv_tasks s" "sv_db (snd (on_world m s)) = sv_db s"
  by (simp_all add: on_world_def split: prod.splits)

lemma on_db_split:
  "on_service_db m s = (q, s1) \<Longrightarrow> sv_tasks s1 = sv_tasks s \<and> m (sv_db s) = (q, sv_db s1)"
  by (auto simp: on_service_db_def split: prod.splits)

lemma on_world_split: "on_world m s = (q, s1) \<Longrightarrow> sv_tasks s1 = sv_tasks s \<and> sv_db s1 = sv_db s"
  by (auto simp: on_world_def split: prod.splits)

text \<open>A task whose plan carries the task's version, under its own id.\<close>

definition task_sound :: "string \<Rightarrow> service_task \<Rightarrow> bool" where
  "task_sound tid t \<longleftrightarrow> ta_RunID t = tid \<and> Version (ta_Plan t) = ta_PlanVersion t"

definition tasks_sound :: "('db, 'w) task_service \<Rightarrow> bool" where
  "tasks_sound s \<longleftrightarrow> (\<forall>tid t. sv_tasks s tid = Some t \<longrightarrow> task_sound tid t)"

lemma adopt_sound: "task_sound tid t \<Longrightarrow> task_sound tid (service_adopt plan t)"
  by (simp add: task_sound_def service_adopt_def Let_def)

lemma state_sound [simp]: "task_sound tid (t\<lparr>ta_State := st\<rparr>) = task_sound tid t"
  by (simp add: task_sound_def)

lemma tasks_sound_put: "tasks_sound s \<Longrightarrow> task_sound tid t \<Longrightarrow> sv_tasks s' = (sv_tasks s)(tid := Some t) \<Longrightarrow> tasks_sound s'"
  by (simp add: tasks_sound_def)

lemma tasks_sound_same: "tasks_sound s \<Longrightarrow> sv_tasks s' = sv_tasks s \<Longrightarrow> tasks_sound s'"
  by (simp add: tasks_sound_def)

lemma advance_Cons:
  assumes "service_advance D tid (x # xs) t s = (q, s')"
  obtains e where "run_transition D (snd x) (ta_RunID t) (fst x) ''system'' ''task lifecycle'' (sv_db s) = (Inl e, sv_db s')"
      "sv_tasks s' = sv_tasks s" "q = Inl e"
  | s1 where "run_transition D (snd x) (ta_RunID t) (fst x) ''system'' ''task lifecycle'' (sv_db s) = (Inr (), sv_db s1)"
      "sv_tasks s1 = (sv_tasks s)(tid := Some (t\<lparr>ta_State := fst x\<rparr>))"
      "service_advance D tid xs (t\<lparr>ta_State := fst x\<rparr>) s1 = (q, s')"
proof -
  obtain st rnd where x: "x = (st, rnd)" by fastforce
  obtain r s1 where m: "on_service_db (run_transition D rnd (ta_RunID t) st ''system'' ''task lifecycle'') s = (r, s1)"
    by fastforce
  show thesis
  proof (cases r)
    case (Inl e)
    with assms m x have "s' = s1" "q = Inl e" by simp_all
    with that(1) on_db_split [OF m] Inl x show thesis by simp
  next
    case (Inr u)
    with assms m x have "service_advance D tid xs (t\<lparr>ta_State := st\<rparr>) (put_task tid (t\<lparr>ta_State := st\<rparr>) s1) = (q, s')"
      by simp
    with that(2) [of "put_task tid (t\<lparr>ta_State := st\<rparr>) s1"] on_db_split [OF m] Inr x show thesis by simp
  qed
qed

lemma advance_sound:
  "service_advance D tid xs t s = (q, s') \<Longrightarrow> tasks_sound s \<Longrightarrow> task_sound tid t \<Longrightarrow> tasks_sound s'"
proof (induction xs arbitrary: t s)
  case (Cons x xs)
  from Cons.prems(1) show ?case
  proof (cases rule: advance_Cons)
    case (1 e)
    then show ?thesis by (intro tasks_sound_same [OF Cons.prems(2)])
  next
    case (2 s1)
    have t: "task_sound tid (t\<lparr>ta_State := fst x\<rparr>)" using Cons.prems(3) by (simp only: state_sound)
    from tasks_sound_put [OF Cons.prems(2) t 2(2)] show ?thesis by (rule Cons.IH [OF 2(3) _ t])
  qed
qed simp

lemma move_tasks: "sv_tasks (service_move D rnd tid t st actor detail s) = (sv_tasks s)(tid := Some (t\<lparr>ta_State := st\<rparr>))"
  by (simp add: service_move_def)

lemma request_ok:
  assumes "service_request D tid rid s = (Inr (t, req), s')"
  obtains a where "sv_tasks s tid = Some t" "sv_tasks s' = sv_tasks s"
    "approval_current D (ta_RunID t) (ta_PlanVersion t) (sv_db s) = (Inr a, sv_db s')"
    "req = \<lparr>ax_RequestID = rid, ax_RunID = ta_RunID t, ax_WorkspaceID = ta_WorkspaceID t,
       ax_ApprovalHash = al_SnapshotHash a, ax_Plan = ta_Plan t\<rparr>"
proof -
  from assms obtain t0 where t: "sv_tasks s tid = Some t0" by (auto simp: service_request_def split: option.splits)
  obtain q s1 where q: "on_service_db (approval_current D (ta_RunID t0) (ta_PlanVersion t0)) s = (q, s1)" by fastforce
  with assms t obtain a where "q = Inr a" "t = t0" "s' = s1" "req = \<lparr>ax_RequestID = rid, ax_RunID = ta_RunID t,
      ax_WorkspaceID = ta_WorkspaceID t, ax_ApprovalHash = al_SnapshotHash a, ax_Plan = ta_Plan t\<rparr>"
    by (auto simp: service_request_def split: sum.splits if_splits)
  with that t on_db_split [OF q] show thesis by auto
qed

lemma request_tasks: "service_request D tid rid s = (q, s') \<Longrightarrow> sv_tasks s' = sv_tasks s"
  by (auto simp: service_request_def dest: on_db_split split: option.splits prod.splits sum.splits if_splits)

lemma tasks_sound_put_same:
  "tasks_sound s \<Longrightarrow> sv_tasks x = sv_tasks s \<Longrightarrow> task_sound tid t \<Longrightarrow> tasks_sound (put_task tid t x)"
  by (rule tasks_sound_put [of s]) simp_all

lemma create_sound:
  assumes "service_create D P rnd rnd' ws req acc s = (q, s')" "tasks_sound s"
  shows "tasks_sound s'"
proof -
  obtain r s1 where r: "on_service_db (run_create D rnd' (new_id rnd) Draft) s = (r, s1)" by fastforce
  define t where "t = \<lparr>ta_ID = new_id rnd, ta_RunID = new_id rnd, ta_WorkspaceID = ws, ta_Requirement = req,
    ta_Acceptance = acc, ta_State = Draft, ta_PlanVersion = 1,
    ta_Plan = zero_plan\<lparr>Version := 1, Acceptance := slice_of (elems acc)\<rparr>\<rparr>"
  have s1: "sv_tasks s1 = sv_tasks s" using on_db_split [OF r] by simp
  have "task_sound (new_id rnd) t" by (simp add: task_sound_def t_def)
  with s1 have "tasks_sound s1" "tasks_sound (put_task (new_id rnd) t s1)"
    using tasks_sound_same [OF assms(2)] tasks_sound_put_same [OF assms(2)] by auto
  moreover from this(2) have "tasks_sound (service_emit P (new_id rnd) ''task.created'' (TaskEvent t) (put_task (new_id rnd) t s1))"
    by (rule tasks_sound_same) simp
  moreover have "s' = s \<or> s' = s1 \<or> s' = service_emit P (new_id rnd) ''task.created'' (TaskEvent t) (put_task (new_id rnd) t s1)"
    using assms(1) r by (cases r) (auto simp: service_create_def Let_def t_def split: if_splits)
  ultimately show ?thesis using assms(2) by blast
qed

text \<open>The first part of \<open>Start\<close>: the plan, if there is a council to make one.\<close>

lemma start_cases:
  fixes s :: "('db, 'w) task_service"
  assumes "service_start D P rnd tid s = (q, s')" "tasks_sound s"
  obtains "tasks_sound s'" "sv_db s' = sv_db s" "\<exists>e. q = Inl e"
  | t1 r and s1 s2 :: "('db, 'w) task_service" where "tasks_sound s1" "task_sound tid t1" "sv_db s1 = sv_db s"
      "service_advance D tid (map (\<lambda>st. (st, rnd st)) start_states) t1 s1 = (r, s2)"
      "sv_db s' = sv_db s2" "sv_tasks s' = sv_tasks s2" "q = Inr () \<longleftrightarrow> (\<exists>t2. r = Inr t2)"
proof (cases "sv_tasks s tid")
  case None
  with assms that(1) show thesis by (auto simp: service_start_def)
next
  case (Some t)
  let ?plan = "case po_council P of
      None \<Rightarrow> (Inr t, s)
    | Some (analyze, deliberate) \<Rightarrow>
        (case on_world (analyze (ta_Requirement t)) s of
           (Inl e, s1) \<Rightarrow> (Inl e, s1)
         | (Inr _, s1) \<Rightarrow>
             (case on_world (deliberate (ta_Requirement t)) s1 of
                (Inl e, s2) \<Rightarrow> (Inl e, s2)
              | (Inr plan, s2) \<Rightarrow> (Inr (service_adopt plan t), put_task tid (service_adopt plan t) s2)))"
  have t: "task_sound tid t" using assms(2) Some by (simp add: tasks_sound_def)
  obtain p s1 where p: "?plan = (p, s1)" by fastforce
  have s1: "sv_db s1 = sv_db s \<and> tasks_sound s1 \<and> (\<forall>t1. p = Inr t1 \<longrightarrow> task_sound tid t1)"
    using p t assms(2) adopt_sound [OF t]
    by (auto split: option.splits prod.splits sum.splits dest!: on_world_split
        intro: tasks_sound_same [OF assms(2)] tasks_sound_put_same [OF assms(2)])
  show thesis
  proof (cases p)
    case (Inl e)
    with assms(1) Some p have "s' = s1" "q = Inl e" by (simp_all add: service_start_def)
    with s1 that(1) show thesis by simp
  next
    case (Inr t1)
    obtain r s2 where a: "service_advance D tid (map (\<lambda>st. (st, rnd st)) start_states) t1 s1 = (r, s2)" by fastforce
    have e: "(q, s') = (case service_advance D tid (map (\<lambda>st. (st, rnd st)) start_states) t1 s1 of
        (Inl e, s2) \<Rightarrow> (Inl e, s2)
      | (Inr t2, s2) \<Rightarrow> (Inr (), service_emit P tid ''task.awaiting_approval'' (TaskEvent t2) s2))"
      using assms(1) Some p Inr by (simp add: service_start_def)
    show thesis
      by (rule that(2) [OF _ _ _ a]) (use e a s1 Inr in \<open>auto split: sum.splits\<close>)
  qed
qed

lemma start_sound:
  assumes "service_start D P rnd tid s = (q, s')" "tasks_sound s"
  shows "tasks_sound s'"
  by (rule start_cases [OF assms]) (auto intro: tasks_sound_same dest: advance_sound)

lemma execute_sound:
  assumes "service_execute D P rnd tid rid s = (q, s')" "tasks_sound s"
  shows "tasks_sound s'"
proof -
  obtain r s1 where r: "service_request D tid rid s = (r, s1)" by fastforce
  show ?thesis
  proof (cases r)
    case (Inl e)
    with assms r request_tasks [OF r] show ?thesis by (auto simp: service_execute_def intro: tasks_sound_same)
  next
    case (Inr tr)
    obtain t req where tr: "tr = (t, req)" by fastforce
    from r Inr tr obtain a where t: "sv_tasks s tid = Some t" by (auto elim: request_ok)
    have s1: "sv_tasks s1 = sv_tasks s" by (rule request_tasks [OF r])
    have ts: "task_sound tid t" using assms(2) t by (simp add: tasks_sound_def)
    obtain x s2 where x: "on_world (po_runner P req) (service_move D (rnd Executing) tid t Executing ''system'' ''approved execution'' s1) = (x, s2)"
      by (rule prod.exhaust)
    have s2: "sv_tasks s2 = (sv_tasks s)(tid := Some (t\<lparr>ta_State := Executing\<rparr>))"
      using on_world_split [OF x] by (simp add: move_tasks s1)
    have "\<exists>st. sv_tasks s' = (sv_tasks s)(tid := Some (t\<lparr>ta_State := st\<rparr>))"
      using assms(1) r Inr tr x s2
      by (cases x; cases "snd x") (auto simp: service_execute_def move_tasks Let_def)
    then obtain st where "sv_tasks s' = (sv_tasks s)(tid := Some (t\<lparr>ta_State := st\<rparr>))" ..
    with ts show ?thesis by (intro tasks_sound_put [OF assms(2)]) simp_all
  qed
qed

section \<open>Histories of calls\<close>

text \<open>One call with everything it is given: its ports, random bytes and clock.\<close>

datatype 'w service_call =
    CallCreate "'w service_ports" "char list" "char list" string string "string slice"
  | CallStart "'w service_ports" "run_state \<Rightarrow> char list" string
  | CallApprove "'w service_ports" "char list" timestamp string string string int
  | CallExecute "'w service_ports" "run_state \<Rightarrow> char list" string string

fun service_step ::
  "'db gorm_db \<Rightarrow> (string \<Rightarrow> string) \<Rightarrow> 'w service_call \<Rightarrow> ('db, 'w) task_service \<Rightarrow> ('db, 'w) task_service" where
  "service_step D sha (CallCreate P rnd rnd' ws req acc) s = snd (service_create D P rnd rnd' ws req acc s)"
| "service_step D sha (CallStart P rnd tid) s = snd (service_start D P rnd tid s)"
| "service_step D sha (CallApprove P rnd now tid hash actor version) s =
     snd (service_approve D P sha rnd now tid hash actor version s)"
| "service_step D sha (CallExecute P rnd tid request_id) s = snd (service_execute D P rnd tid request_id s)"

fun service_history ::
  "'db gorm_db \<Rightarrow> (string \<Rightarrow> string) \<Rightarrow> 'w service_call list \<Rightarrow> ('db, 'w) task_service \<Rightarrow> ('db, 'w) task_service" where
  "service_history D sha [] s = s"
| "service_history D sha (c # cs) s = service_history D sha cs (service_step D sha c s)"

lemma service_history_append:
  "service_history D sha (cs @ ds) s = service_history D sha ds (service_history D sha cs s)"
  by (induction cs arbitrary: s) simp_all

text \<open>Somewhere in the history the hash was given to \<open>Approve\<close> while the task awaited approval
  of this plan version, and it was the hash of the plan the task then had.\<close>

definition hash_approved ::
  "'db gorm_db \<Rightarrow> (string \<Rightarrow> string) \<Rightarrow> 'w service_call list \<Rightarrow> ('db, 'w) task_service \<Rightarrow> string \<Rightarrow> int \<Rightarrow> string \<Rightarrow> bool" where
  "hash_approved D sha cs s0 tid version hash \<longleftrightarrow>
     (\<exists>before P rnd now actor after t. cs = before @ CallApprove P rnd now tid hash actor version # after \<and>
        sv_tasks (service_history D sha before s0) tid = Some t \<and> ta_State t = AwaitingApproval \<and>
        ta_PlanVersion t = version \<and> Version (ta_Plan t) = version \<and>
        approval_verify sha hash tid (ta_WorkspaceID t) (ta_Plan t) = Inr ())"

lemma hash_approved_snoc: "hash_approved D sha cs s0 tid v h \<Longrightarrow> hash_approved D sha (cs @ [c]) s0 tid v h"
  unfolding hash_approved_def by (elim exE conjE) (intro exI conjI; (assumption | simp))

lemma start_keeps_keys:
  assumes "gorm_store view D" "service_start D P rnd tid s = (q, s')" "tasks_sound s"
  shows "approval_keys (view (sv_db s')) = approval_keys (view (sv_db s))"
proof (rule start_cases [OF assms(2,3)])
  fix t1 r and s1 s2 :: "('a, 'c) task_service"
  have adv: "t_approvals (view (sv_db s2)) = t_approvals (view (sv_db s1))"
    if "service_advance D tid xs t1 s1 = (r, s2)" for xs t1 r and s1 s2 :: "('a, 'c) task_service"
    using that
  proof (induction xs arbitrary: t1 s1)
    case (Cons x xs)
    note k = framesD [OF gorm_store.transition_keeps_approvals [OF assms(1)]]
    from Cons.prems show ?case
    proof (cases rule: advance_Cons)
      case (1 e)
      from k [OF 1(1)] show ?thesis .
    next
      case (2 s3)
      from k [OF 2(1)] Cons.IH [OF 2(3)] show ?thesis by simp
    qed
  qed simp
  assume "sv_db s1 = sv_db s" "service_advance D tid (map (\<lambda>st. (st, rnd st)) start_states) t1 s1 = (r, s2)"
    "sv_db s' = sv_db s2"
  with adv [OF this(2)] show ?thesis by (simp add: approval_keys_def)
qed simp

lemma create_keeps_keys:
  assumes "gorm_store view D" "service_create D P rnd rnd' ws req acc s = (q, s')"
  shows "approval_keys (view (sv_db s')) = approval_keys (view (sv_db s))"
proof -
  obtain r s1 where r: "on_service_db (run_create D rnd' (new_id rnd) Draft) s = (r, s1)" by fastforce
  have "t_approvals (view (sv_db s1)) = t_approvals (view (sv_db s))"
    using framesD [OF gorm_store.create_keeps_approvals [OF assms(1)]] on_db_split [OF r] by metis
  moreover have "sv_db s' = sv_db s \<or> sv_db s' = sv_db s1"
    using assms(2) r by (cases r) (auto simp: service_create_def Let_def split: if_splits)
  ultimately show ?thesis by (auto simp: approval_keys_def)
qed

lemma move_keeps_approvals:
  assumes "gorm_store view D"
  shows "t_approvals (view (sv_db (service_move D rnd tid t st actor detail s))) = t_approvals (view (sv_db s))"
  using gorm_store.transition_keeps_approvals [OF assms] by (simp add: service_move_def frames_def)

lemma request_keeps_approvals:
  assumes "gorm_store view D" "service_request D tid rid s = (q, s')"
  shows "t_approvals (view (sv_db s')) = t_approvals (view (sv_db s))"
proof (cases "sv_tasks s tid")
  case (Some t)
  obtain r s1 where r: "on_service_db (approval_current D (ta_RunID t) (ta_PlanVersion t)) s = (r, s1)" by fastforce
  with assms(2) Some have "s' = s1" by (cases r) (auto simp: service_request_def split: if_splits)
  with framesD [OF gorm_store.current_keeps_approvals [OF assms(1)]] on_db_split [OF r] show ?thesis by metis
qed (use assms(2) in \<open>simp add: service_request_def\<close>)

text \<open>No execution changes an approval, so one approval serves any number of them.\<close>

lemma execute_keeps_approvals:
  assumes "gorm_store view D" "service_execute D P rnd tid rid s = (q, s')"
  shows "t_approvals (view (sv_db s')) = t_approvals (view (sv_db s))"
proof -
  obtain r s1 where r: "service_request D tid rid s = (r, s1)" by fastforce
  note s1 = request_keeps_approvals [OF assms(1) r]
  show ?thesis
  proof (cases r)
    case (Inl e)
    with assms(2) r s1 show ?thesis by (simp add: service_execute_def)
  next
    case (Inr tr)
    obtain t req where tr: "tr = (t, req)" by fastforce
    obtain x s2 where x: "on_world (po_runner P req) (service_move D (rnd Executing) tid t Executing ''system'' ''approved execution'' s1) = (x, s2)"
      by (rule prod.exhaust)
    have "t_approvals (view (sv_db s2)) = t_approvals (view (sv_db s))"
      using on_world_split [OF x] s1 by (simp add: move_keeps_approvals [OF assms(1)])
    with assms(2) r Inr tr x show ?thesis
      by (cases x; cases "snd x") (auto simp: service_execute_def Let_def move_keeps_approvals [OF assms(1)])
  qed
qed

lemma approve_keys:
  assumes "gorm_store view D" "service_approve D P sha rnd now tid hash actor version s = (q, s')" "tasks_sound s"
    and "k \<in> approval_keys (view (sv_db s'))"
  shows "k \<in> approval_keys (view (sv_db s)) \<or>
    (\<exists>t. k = (tid, version, hash) \<and> sv_tasks s tid = Some t \<and> ta_State t = AwaitingApproval \<and>
      ta_PlanVersion t = version \<and> Version (ta_Plan t) = version \<and>
      approval_verify sha hash tid (ta_WorkspaceID t) (ta_Plan t) = Inr ())"
proof (cases "sv_tasks s tid")
  case (Some t)
  show ?thesis
  proof (cases "ta_State t = AwaitingApproval \<and> version = ta_PlanVersion t \<and>
      approval_verify sha hash (ta_RunID t) (ta_WorkspaceID t) (ta_Plan t) = Inr ()")
    case False
    with assms(2,4) Some show ?thesis
      by (cases "approval_verify sha hash (ta_RunID t) (ta_WorkspaceID t) (ta_Plan t)")
        (auto simp: service_approve_def split: if_splits)
  next
    case True
    have t: "ta_RunID t = tid" "Version (ta_Plan t) = ta_PlanVersion t"
      using assms(3) Some by (auto simp: tasks_sound_def task_sound_def)
    let ?m = "bindE (approval_invalidate D now (ta_RunID t)) (\<lambda>_.
        approval_save D \<lparr>al_ID = new_id rnd, al_RunID = ta_RunID t, al_PlanVersion = version,
          al_SnapshotHash = hash, al_Decision = ''approved'', al_Actor = actor, al_CreatedAt = now,
          al_InvalidatedAt = None, al_ConsumedAt = None\<rparr>)"
    obtain r s1 where r: "on_service_db ?m s = (r, s1)" by fastforce
    have "sv_db s' = sv_db s1" using assms(2) Some True r by (cases r) (auto simp: service_approve_def)
    moreover have "?m (sv_db s) = (r, sv_db s1)" using on_db_split [OF r] by simp
    from gorm_store.replace_approval_keys [OF assms(1) this]
    have "approval_keys (view (sv_db s1)) \<subseteq> insert (ta_RunID t, version, hash) (approval_keys (view (sv_db s)))"
      by (simp add: approval_key_def)
    ultimately show ?thesis using assms(4) Some True t by auto
  qed
qed (use assms(2,4) in \<open>simp add: service_approve_def\<close>)

lemma approve_tasks: "sv_tasks (snd (service_approve D P sha rnd now tid hash actor version s)) = sv_tasks s"
  by (auto simp: service_approve_def dest: on_db_split split: option.splits sum.splits prod.splits)

lemma service_step_sound: "tasks_sound s \<Longrightarrow> tasks_sound (service_step D sha c s)"
proof (cases c)
  case (CallCreate P rnd rnd' ws req acc)
  assume "tasks_sound s"
  with CallCreate show ?thesis using create_sound [OF prod.collapse [symmetric]] by simp
next
  case (CallStart P rnd tid)
  assume "tasks_sound s"
  with CallStart show ?thesis using start_sound [OF prod.collapse [symmetric]] by simp
next
  case (CallApprove P rnd now tid hash actor version)
  assume s: "tasks_sound s"
  from CallApprove show ?thesis by (intro tasks_sound_same [OF s]) (simp add: approve_tasks)
next
  case (CallExecute P rnd tid rid)
  assume "tasks_sound s"
  with CallExecute show ?thesis using execute_sound [OF prod.collapse [symmetric]] by simp
qed

lemma service_history_sound:
  "tasks_sound s \<Longrightarrow> tasks_sound (service_history D sha cs s)"
  by (induction cs arbitrary: s) (simp_all add: service_step_sound)

lemma service_step_keys:
  assumes "gorm_store view D" "tasks_sound s" "k \<in> approval_keys (view (sv_db (service_step D sha c s)))"
  shows "k \<in> approval_keys (view (sv_db s)) \<or>
    (\<exists>P rnd now actor tid version hash t. c = CallApprove P rnd now tid hash actor version \<and> k = (tid, version, hash) \<and>
      sv_tasks s tid = Some t \<and> ta_State t = AwaitingApproval \<and> ta_PlanVersion t = version \<and>
      Version (ta_Plan t) = version \<and> approval_verify sha hash tid (ta_WorkspaceID t) (ta_Plan t) = Inr ())"
proof (cases c)
  case (CallCreate P rnd rnd' ws req acc)
  with assms(3) show ?thesis using create_keeps_keys [OF assms(1) prod.collapse [symmetric], of P rnd rnd' ws req acc s] by simp
next
  case (CallStart P rnd tid)
  with assms(3) show ?thesis using start_keeps_keys [OF assms(1) prod.collapse [symmetric] assms(2), of P rnd tid] by simp
next
  case (CallApprove P rnd now tid hash actor version)
  with assms(3) have "k \<in> approval_keys (view (sv_db (snd (service_approve D P sha rnd now tid hash actor version s))))"
    by simp
  from approve_keys [OF assms(1) prod.collapse [symmetric] assms(2) this] CallApprove show ?thesis by blast
next
  case (CallExecute P rnd tid rid)
  with assms(3) show ?thesis
    using execute_keeps_approvals [OF assms(1) prod.collapse [symmetric], of P rnd tid rid s]
    by (simp add: approval_keys_def)
qed

lemma service_history_keys:
  assumes "gorm_store view D" "tasks_sound s0" "approval_keys (view (sv_db s0)) = {}"
    and "(tid, version, hash) \<in> approval_keys (view (sv_db (service_history D sha cs s0)))"
  shows "hash_approved D sha cs s0 tid version hash"
  using assms(4)
proof (induction cs arbitrary: tid version hash rule: rev_induct)
  case Nil
  with assms(3) show ?case by simp
next
  case (snoc c cs)
  let ?s = "service_history D sha cs s0"
  have s: "service_history D sha (cs @ [c]) s0 = service_step D sha c ?s"
    by (simp add: service_history_append)
  have "tasks_sound ?s" by (rule service_history_sound [OF assms(2)])
  from service_step_keys [OF assms(1) this snoc.prems [unfolded s]] show ?case
  proof (elim disjE exE conjE)
    assume "(tid, version, hash) \<in> approval_keys (view (sv_db ?s))"
    then show ?thesis by (intro hash_approved_snoc snoc.IH)
  next
    fix P rnd now actor tid' version' hash' t
    assume a: "c = CallApprove P rnd now tid' hash' actor version'" "(tid, version, hash) = (tid', version', hash')"
      "sv_tasks ?s tid' = Some t" "ta_State t = AwaitingApproval" "ta_PlanVersion t = version'"
      "Version (ta_Plan t) = version'" "approval_verify sha hash' tid' (ta_WorkspaceID t) (ta_Plan t) = Inr ()"
    then show ?thesis unfolding hash_approved_def
      by (intro exI [of _ cs] exI [of _ P] exI [of _ rnd] exI [of _ now] exI [of _ actor] exI [of _ "[]"] exI [of _ t])
        simp
  qed
qed

text \<open>
  C8. The service asks the runner for nothing that was not approved. In every history of
  calls on a new service over a database without approvals, whatever the council, the runner
  and the database do, the hash in a request to the runner was given to \<open>Approve\<close> for this
  task while it awaited approval of the plan version it has now, and it was the hash of the
  plan the task had at that moment. (The plan may have been replaced since; then the runner
  finds that the hash does not fit.)
\<close>

theorem service_executes_approved_hash:
  assumes "gorm_ok view D" "t_approvals (view db) = []"
    and "service_request D tid request_id (service_history D sha cs (new_service db w)) = (Inr (t, req), s')"
  shows "ax_RunID req = tid \<and> ax_Plan req = ta_Plan t \<and> Version (ax_Plan req) = ta_PlanVersion t \<and>
    hash_approved D sha cs (new_service db w) tid (ta_PlanVersion t) (ax_ApprovalHash req)"
proof -
  let ?start = "new_service db w"
  let ?s = "service_history D sha cs ?start"
  have s0: "tasks_sound ?start" by (simp add: tasks_sound_def new_service_def)
  obtain a where a: "sv_tasks ?s tid = Some t" "approval_current D (ta_RunID t) (ta_PlanVersion t) (sv_db ?s) = (Inr a, sv_db s')"
    "req = \<lparr>ax_RequestID = request_id, ax_RunID = ta_RunID t, ax_WorkspaceID = ta_WorkspaceID t,
       ax_ApprovalHash = al_SnapshotHash a, ax_Plan = ta_Plan t\<rparr>"
    using request_ok [OF assms(3)] by metis
  have t: "ta_RunID t = tid" "Version (ta_Plan t) = ta_PlanVersion t"
    using service_history_sound [OF s0, of D sha cs] a(1) by (auto simp: tasks_sound_def task_sound_def)
  have "approval_keys (view (sv_db ?start)) = {}" using assms(2) by (simp add: approval_keys_def new_service_def)
  with service_history_keys [OF gorm_store.intro [OF assms(1)] s0 this]
    gorm_store.current_key [OF gorm_store.intro [OF assms(1)] a(2)] t(1)
  have "hash_approved D sha cs ?start tid (ta_PlanVersion t) (al_SnapshotHash a)" by simp
  with a(3) t show ?thesis by simp
qed

section \<open>A sample history\<close>

definition sample_ports :: "unit service_ports" where
  "sample_ports = \<lparr>po_council = None, po_runner = (\<lambda>req w. ((zero_verification, None), w)), po_events = None\<rparr>"

text \<open>Random bytes that differ for each of the states.\<close>

definition sample_rnd :: "run_state \<Rightarrow> char list" where
  "sample_rnd st = (case map_of (zip start_states [''1'', ''2'', ''3'', ''4'', ''5'', ''6'']) st of None \<Rightarrow> [] | Some r \<Rightarrow> r)"

lemma sample_rnds:
  "map (\<lambda>st. (st, sample_rnd st)) start_states = [(Analyzing, ''1''), (Proposing, ''2''), (Reviewing, ''3''),
     (Judging, ''4''), (RedTeam, ''5''), (AwaitingApproval, ''6'')]"
  by (simp add: sample_rnd_def start_states_def state_names)

definition audit_row :: "string \<Rightarrow> nat \<Rightarrow> audit_record" where
  "audit_row i n = \<lparr>au_ID = i, au_RunID = ''61'', au_Sequence = n, au_Type = ''state.transition'',
     au_Actor = ''system'', au_Detail = ''task lifecycle'', au_CreatedAt = 0\<rparr>"

definition run_at :: "run_state \<Rightarrow> nat \<Rightarrow> audit_record list \<Rightarrow> tables" where
  "run_at st v log = empty_tables\<lparr>t_runs := [\<lparr>rr_ID = ''61'', rr_State = st, rr_Version = v, rr_CreatedAt = 0,
     rr_UpdatedAt = 0\<rparr>], t_audits := log\<rparr>"

lemma mem_transition:
  assumes "can_transition st st'" "v < 100" "new_id rnd \<notin> set (map au_ID log)" "distinct (map au_ID log)"
    "list_all (\<lambda>a. au_RunID a = ''61'' \<and> au_Sequence a \<le> v) log" "distinct (map au_Sequence log)"
  shows "run_transition mem_db rnd ''61'' st' ''system'' ''task lifecycle'' (run_at st v log) =
    (Inr (), run_at st' (Suc v) (log @ [audit_row (new_id rnd) (Suc v)]))"
proof -
  have "distinct (map (\<lambda>r. (au_RunID r, au_Sequence r)) log)"
    using assms(6) by (simp add: distinct_map inj_on_def)
  moreover have "(''61'', Suc v) \<notin> (\<lambda>r. (au_RunID r, au_Sequence r)) ` set log"
    using assms(5) by (auto simp: list_all_iff)
  ultimately show ?thesis
    using assms(1-4) by (simp add: mem_run_eval run_at_def audit_row_def image_iff)
qed

lemma sample_new_ids:
  "new_id ''a'' = ''61''" "new_id ''b'' = ''62''" "new_id ''c'' = ''63''" "new_id ''1'' = ''31''" "new_id ''2'' = ''32''"
  "new_id ''3'' = ''33''" "new_id ''4'' = ''34''" "new_id ''5'' = ''35''" "new_id ''6'' = ''36''"
  by code_simp+

definition first_audit :: audit_record where
  "first_audit = \<lparr>au_ID = ''62'', au_RunID = ''61'', au_Sequence = 1, au_Type = ''run.created'',
     au_Actor = ''system'', au_Detail = ''run created'', au_CreatedAt = 0\<rparr>"

lemma sample_transitions:
  "run_transition mem_db ''1'' ''61'' Analyzing ''system'' ''task lifecycle'' (run_at Draft 1 [first_audit]) =
     (Inr (), run_at Analyzing 2 [first_audit, audit_row ''31'' 2])"
  "run_transition mem_db ''2'' ''61'' Proposing ''system'' ''task lifecycle'' (run_at Analyzing 2 [first_audit, audit_row ''31'' 2]) =
     (Inr (), run_at Proposing 3 [first_audit, audit_row ''31'' 2, audit_row ''32'' 3])"
  "run_transition mem_db ''3'' ''61'' Reviewing ''system'' ''task lifecycle''
     (run_at Proposing 3 [first_audit, audit_row ''31'' 2, audit_row ''32'' 3]) =
     (Inr (), run_at Reviewing 4 [first_audit, audit_row ''31'' 2, audit_row ''32'' 3, audit_row ''33'' 4])"
  "run_transition mem_db ''4'' ''61'' Judging ''system'' ''task lifecycle''
     (run_at Reviewing 4 [first_audit, audit_row ''31'' 2, audit_row ''32'' 3, audit_row ''33'' 4]) =
     (Inr (), run_at Judging 5 [first_audit, audit_row ''31'' 2, audit_row ''32'' 3, audit_row ''33'' 4, audit_row ''34'' 5])"
  "run_transition mem_db ''5'' ''61'' RedTeam ''system'' ''task lifecycle''
     (run_at Judging 5 [first_audit, audit_row ''31'' 2, audit_row ''32'' 3, audit_row ''33'' 4, audit_row ''34'' 5]) =
     (Inr (), run_at RedTeam 6 [first_audit, audit_row ''31'' 2, audit_row ''32'' 3, audit_row ''33'' 4, audit_row ''34'' 5,
        audit_row ''35'' 6])"
  "run_transition mem_db ''6'' ''61'' AwaitingApproval ''system'' ''task lifecycle''
     (run_at RedTeam 6 [first_audit, audit_row ''31'' 2, audit_row ''32'' 3, audit_row ''33'' 4, audit_row ''34'' 5,
        audit_row ''35'' 6]) =
     (Inr (), run_at AwaitingApproval 7 [first_audit, audit_row ''31'' 2, audit_row ''32'' 3, audit_row ''33'' 4,
        audit_row ''34'' 5, audit_row ''35'' 6, audit_row ''36'' 7])"
  by (simp_all add: mem_transition sample_new_ids first_audit_def audit_row_def del: One_nat_def)

definition sample_service_calls :: "unit service_call list" where
  "sample_service_calls = [CallCreate sample_ports ''a'' ''b'' ''w'' ''r'' (Some [''x'']), CallStart sample_ports sample_rnd ''61'',
     CallApprove sample_ports ''c'' 5 ''61'' ''h'' ''kim'' 1]"

lemma sample_create:
  "run_create mem_db ''b'' ''61'' Draft empty_tables = (Inr (), run_at Draft 1 [first_audit])"
  by (simp add: mem_run_eval run_at_def first_audit_def sample_new_ids del: One_nat_def)

lemma sample_request:
  "\<exists>t req s'. service_request mem_db ''61'' ''q'' (service_history mem_db (\<lambda>_. ''h'') sample_service_calls
     (new_service empty_tables ())) = (Inr (t, req), s')"
proof -
  have v: "approval_verify (\<lambda>_. ''h'') ''h'' r w p = Inr ()" for r w p by (simp add: approval_verify_def)
  let ?s1 = "service_step mem_db (\<lambda>_. ''h'') (hd sample_service_calls) (new_service empty_tables ())"
  obtain t1 where s1: "sv_tasks ?s1 ''61'' = Some t1" "ta_RunID t1 = ''61''" "ta_PlanVersion t1 = 1" "sv_db ?s1 = run_at Draft 1 [first_audit]"
    by (simp add: sample_service_calls_def service_create_def sample_create sample_new_ids on_service_db_def new_service_def Let_def
        del: One_nat_def)
  let ?s2 = "service_step mem_db (\<lambda>_. ''h'') (CallStart sample_ports sample_rnd ''61'') ?s1"
  have s2: "sv_tasks ?s2 ''61'' = Some (t1\<lparr>ta_State := AwaitingApproval\<rparr>)" "\<exists>log. sv_db ?s2 = run_at AwaitingApproval 7 log"
    using s1 by (auto simp: service_start_def sample_ports_def sample_rnds on_service_db_def sample_transitions put_task_def service_emit_def
        simp del: One_nat_def)
  then obtain log where d2: "sv_db ?s2 = run_at AwaitingApproval 7 log" by blast
  let ?a = "\<lparr>al_ID = ''63'', al_RunID = ''61'', al_PlanVersion = 1, al_SnapshotHash = ''h'', al_Decision = ''approved'',
      al_Actor = ''kim'', al_CreatedAt = 5, al_InvalidatedAt = None, al_ConsumedAt = None\<rparr>"
  have inv: "approval_invalidate mem_db 5 ''61'' (run_at AwaitingApproval 7 log) = (Inr (), run_at AwaitingApproval 7 log)"
    by (simp add: mem_approval_eval approval_invalidate_def run_at_def)
  have sav: "approval_save mem_db ?a (run_at AwaitingApproval 7 log) = (Inr (), (run_at AwaitingApproval 7 log)\<lparr>t_approvals := [?a]\<rparr>)"
    by (simp add: mem_approval_eval run_at_def)
  let ?s3 = "service_step mem_db (\<lambda>_. ''h'') (CallApprove sample_ports ''c'' 5 ''61'' ''h'' ''kim'' 1) ?s2"
  have s3: "sv_tasks ?s3 ''61'' = Some (t1\<lparr>ta_State := AwaitingApproval\<rparr>)"
    "sv_db ?s3 = (run_at AwaitingApproval 7 log)\<lparr>t_approvals := [?a]\<rparr>"
    using s1 s2(1) d2 by (simp_all add: service_approve_def v on_service_db_def bindE_def inv sav sample_new_ids sample_ports_def)
  have "approval_current mem_db ''61'' 1 ((run_at AwaitingApproval 7 log)\<lparr>t_approvals := [?a]\<rparr>) =
      (Inr ?a, (run_at AwaitingApproval 7 log)\<lparr>t_approvals := [?a]\<rparr>)"
    by (simp add: approval_current_def sql_first_def mem_approval_eval)
  with s1 s3 have "\<exists>t req s'. service_request mem_db ''61'' ''q'' ?s3 = (Inr (t, req), s')"
    by (simp add: service_request_def on_service_db_def)
  then show ?thesis by (simp add: sample_service_calls_def)
qed

theorem service_executes_approved_hash_witness:
  "\<exists>t req s'. service_request mem_db ''61'' ''q'' (service_history mem_db (\<lambda>_. ''h'') sample_service_calls
     (new_service empty_tables ())) = (Inr (t, req), s') \<and>
    hash_approved mem_db (\<lambda>_. ''h'') sample_service_calls (new_service empty_tables ()) ''61'' (ta_PlanVersion t) (ax_ApprovalHash req)"
proof -
  obtain t req s' where r: "service_request mem_db ''61'' ''q'' (service_history mem_db (\<lambda>_. ''h'') sample_service_calls
     (new_service empty_tables ())) = (Inr (t, req), s')" using sample_request by blast
  have "t_approvals empty_tables = []" by (simp add: empty_tables_def)
  from service_executes_approved_hash [OF mem_db_ok this r] r show ?thesis by blast
qed

end
