(* ===== verification/Artifact_Repository.thy ===== *)
theory Artifact_Repository
  imports File_Transaction Council_Api
begin

text \<open>
  \<open>internal/core/artifact/artifact.go\<close>, \<open>internal/storage/sqlite/artifact_repository.go\<close> and
  the endpoint \<open>getArtifact\<close> of the council server: an artifact is written to a file of its own
  by way of a temporary one, its hash goes into the database, and loading compares the two.

  The state is the database beside the file system of the theory \<open>File_Transaction\<close>, any of
  whose calls may fail; directories are implicit in the names of the files. \<open>json.Marshal\<close> is
  written out, with the compaction it applies to a \<open>json.RawMessage\<close>; what tells JSON from other
  text (\<open>json.Valid\<close>) and \<open>json.Unmarshal\<close> are parameters, and so is SHA-256 in hex.
\<close>

section \<open>Envelopes\<close>

record envelope =
  ev_SchemaVersion :: string
  ev_Type :: string
  ev_ID :: string
  ev_ParentID :: string
  ev_Content :: "char slice"
  ev_ContentHash :: string

definition CurrentSchemaVersion :: string where
  "CurrentSchemaVersion = ''1.0''"

text \<open>\<open>New\<close>, of the outcome of \<open>json.Marshal(content)\<close>.\<close>

definition artifact_new ::
  "(string \<Rightarrow> string) \<Rightarrow> string \<Rightarrow> string \<Rightarrow> string \<Rightarrow> string result \<Rightarrow> envelope result" where
  "artifact_new sha kind id' parentID content =
     (case content of
        Inl e \<Rightarrow> Inl e
      | Inr raw \<Rightarrow> Inr \<lparr>ev_SchemaVersion = CurrentSchemaVersion, ev_Type = kind, ev_ID = id',
          ev_ParentID = parentID, ev_Content = Some raw, ev_ContentHash = sha raw\<rparr>)"

text \<open>What \<open>Marshal\<close> makes of the text of a \<open>json.RawMessage\<close>: white space between tokens is
  dropped, \<open><\<close>, \<open>>\<close>, \<open>&\<close>, U+2028 and U+2029 are escaped. The flag tells whether the position is
  inside a string.\<close>

definition html_escape :: "char \<Rightarrow> string" where
  "html_escape c = (let n = of_char c :: nat in
     [backslash, CHR ''u'', CHR ''0'', CHR ''0'', hex_digit (n div 16), hex_digit (n mod 16)])"

function compact_from :: "bool \<Rightarrow> string \<Rightarrow> string" where
  "compact_from inside [] = []"
| "compact_from inside (c # s) =
     (if c \<in> {CHR ''<'', CHR ''>'', CHR ''&''} then html_escape c @ compact_from inside s
      else if c = byte 0xE2 \<and> take 2 s = [byte 0x80, byte 0xA8] then
        (backslash # ''u2028'') @ compact_from inside (drop 2 s)
      else if c = byte 0xE2 \<and> take 2 s = [byte 0x80, byte 0xA9] then
        (backslash # ''u2029'') @ compact_from inside (drop 2 s)
      else if \<not> inside \<and> c \<in> {CHR '' '', CHR 0x09, CHR 0x0A, CHR 0x0D} then compact_from inside s
      else if c = quote then c # compact_from (\<not> inside) s
      else if inside \<and> c = backslash then c # take 1 s @ compact_from inside (drop 1 s)
      else c # compact_from inside s)"
  by pat_completeness auto
termination
  by (relation "measure (\<lambda>(_, s). length s)") auto

declare compact_from.simps(2) [simp del]

definition json_compact :: "string \<Rightarrow> string" where
  "json_compact = compact_from False"

text \<open>A nil \<open>RawMessage\<close> is written as \<open>null\<close>; text that is not JSON makes \<open>Marshal\<close> fail.\<close>

definition marshal_raw :: "(string \<Rightarrow> bool) \<Rightarrow> char slice \<Rightarrow> string result" where
  "marshal_raw valid m =
     (case m of
        None \<Rightarrow> Inr ''null''
      | Some text \<Rightarrow> if valid text then Inr (json_compact text)
          else Inl (Err ''json: error calling MarshalJSON for type json.RawMessage''))"

definition envelope_json :: "envelope \<Rightarrow> string \<Rightarrow> string" where
  "envelope_json e content =
     ''{'' @ json_key ''schema_version'' @ json_string (ev_SchemaVersion e) @
     '','' @ json_key ''type'' @ json_string (ev_Type e) @ '','' @ json_key ''id'' @ json_string (ev_ID e) @
     (if ev_ParentID e = [] then [] else '','' @ json_key ''parent_id'' @ json_string (ev_ParentID e)) @
     '','' @ json_key ''content'' @ content @
     '','' @ json_key ''content_hash'' @ json_string (ev_ContentHash e) @ ''}''"

definition marshal_envelope :: "(string \<Rightarrow> bool) \<Rightarrow> envelope \<Rightarrow> string result" where
  "marshal_envelope valid e =
     (case marshal_raw valid (ev_Content e) of Inl err \<Rightarrow> Inl err | Inr c \<Rightarrow> Inr (envelope_json e c))"

section \<open>The repository\<close>

type_synonym 'db disk_db = "'db \<times> file_sys"

definition on_disk :: "(file_sys, 'a) prog \<Rightarrow> ('db disk_db, 'a) prog" where
  "on_disk m s = (case m (snd s) of (r, fs) \<Rightarrow> (r, (fst s, fs)))"

definition on_rows :: "('db, 'a) prog \<Rightarrow> ('db disk_db, 'a) prog" where
  "on_rows m s = (case m (fst s) of (r, db) \<Rightarrow> (r, (db, snd s)))"

definition os_mkdir_all :: "string \<Rightarrow> (file_sys, unit) prog" where
  "os_mkdir_all dir = sys (\<lambda>s. (Inr (), s))"

definition artifact_temp :: "string \<Rightarrow> string \<Rightarrow> string" where
  "artifact_temp dir n = (if has_suffix dir ''/'' then dir else dir @ ''/'') @ ''.artifact-'' @ n"

definition create_artifact_temp :: "string \<Rightarrow> (file_sys, string) prog" where
  "create_artifact_temp dir = sys (\<lambda>s.
     case List.find (\<lambda>n. fs_files s (artifact_temp dir n) = None) (fs_names s) of
       None \<Rightarrow> (Inl (Sent OsFailure), s)
     | Some n \<Rightarrow> (Inr (artifact_temp dir n),
         s\<lparr>fs_files := (fs_files s)(artifact_temp dir n \<mapsto> \<lparr>file_Mode = 384, file_Data = []\<rparr>)\<rparr>))"

definition fill_hash :: "(string \<Rightarrow> string) \<Rightarrow> envelope \<Rightarrow> envelope" where
  "fill_hash sha e = (if ev_ContentHash e = [] then e\<lparr>ev_ContentHash := sha (elems (ev_Content e))\<rparr> else e)"

definition artifact_dir :: "string \<Rightarrow> string \<Rightarrow> string" where
  "artifact_dir root runID = path_join [root, runID]"

definition artifact_path :: "string \<Rightarrow> string \<Rightarrow> string \<Rightarrow> string" where
  "artifact_path root runID id' = path_join [artifact_dir root runID, id' @ ''.json'']"

definition artifact_row :: "string \<Rightarrow> string \<Rightarrow> envelope \<Rightarrow> artifact_record" where
  "artifact_row root runID e = \<lparr>ar_ID = ev_ID e, ar_RunID = runID, ar_Type = ev_Type e,
     ar_SchemaVersion = ev_SchemaVersion e, ar_ParentID = ev_ParentID e,
     ar_ContentHash = ev_ContentHash e, ar_FilePath = artifact_path root runID (ev_ID e), ar_CreatedAt = 0\<rparr>"

text \<open>The part of \<open>Save\<close> that runs with the deferred \<open>os.Remove(tmpPath)\<close> pending.\<close>

definition write_artifact ::
  "(string \<Rightarrow> bool) \<Rightarrow> string \<Rightarrow> string \<Rightarrow> envelope \<Rightarrow> (file_sys, unit) prog" where
  "write_artifact valid tmp final e =
     bindE (or_close (case marshal_envelope valid e of Inl err \<Rightarrow> raiseE err | Inr raw \<Rightarrow> returnE raw)) (\<lambda>raw.
     bindE (or_close (tmp_write tmp raw)) (\<lambda>_.
     bindE (or_close tmp_sync) (\<lambda>_.
     bindE tmp_close (\<lambda>_. os_rename tmp final))))"

definition index_artifact :: "'db gorm_db \<Rightarrow> artifact_record \<Rightarrow> ('db, unit) prog" where
  "index_artifact D row = mapErr (Wrap ''save artifact index: '') (sql_save (gd_artifacts D) row)"

definition artifact_save ::
  "'db gorm_db \<Rightarrow> (string \<Rightarrow> string) \<Rightarrow> (string \<Rightarrow> bool) \<Rightarrow> string \<Rightarrow> string \<Rightarrow> envelope \<Rightarrow>
   ('db disk_db, unit) prog" where
  "artifact_save D sha valid root runID env0 =
     (if ev_ID env0 = [] \<or> ev_Type env0 = [] then raiseE (Err ''artifact id and type are required'')
      else let env = fill_hash sha env0; dir = artifact_dir root runID; final = artifact_path root runID (ev_ID env) in
     bindE (on_disk (os_mkdir_all dir)) (\<lambda>_.
     bindE (on_disk (create_artifact_temp dir)) (\<lambda>tmp.
     bindE (tryE (bindE (on_disk (write_artifact valid tmp final env))
       (\<lambda>_. on_rows (index_artifact D (artifact_row root runID env))))) (\<lambda>r.
     bindE (tryE (on_disk (os_remove tmp))) (\<lambda>_.
       case r of Inl e \<Rightarrow> raiseE e | Inr _ \<Rightarrow> returnE ())))))"

definition artifact_load ::
  "'db gorm_db \<Rightarrow> (string \<Rightarrow> string) \<Rightarrow> (string \<Rightarrow> envelope result) \<Rightarrow> string \<Rightarrow> ('db disk_db, envelope) prog" where
  "artifact_load D sha decode id' =
     bindE (on_rows (sql_first (gd_artifacts D) (\<lambda>r. ar_ID r = id') ar_ID)) (\<lambda>row.
     bindE (on_disk (os_read_file (ar_FilePath row))) (\<lambda>raw.
       case decode raw of
         Inl e \<Rightarrow> raiseE e
       | Inr env \<Rightarrow>
           if sha (elems (ev_Content env)) \<noteq> ar_ContentHash row \<or> ev_ContentHash env \<noteq> ar_ContentHash row
           then raiseE (Sent ErrArtifactTampered)
           else returnE env))"

section \<open>The endpoint\<close>

text \<open>\<open>GET /api/v1/tasks/:id/artifacts/:artifactId\<close>: the repository is missing when the server
  runs without a database. The task in the path is not looked at.\<close>

definition get_artifact ::
  "'db gorm_db option \<Rightarrow> (string \<Rightarrow> string) \<Rightarrow> (string \<Rightarrow> envelope result) \<Rightarrow> string \<Rightarrow> string \<Rightarrow>
   'db disk_db \<Rightarrow> envelope reply \<times> 'db disk_db" where
  "get_artifact repo sha decode taskId artifactId s =
     (case repo of
        None \<Rightarrow> (Error 404 ''not_found'' ''artifact not found'', s)
      | Some D \<Rightarrow> (case artifact_load D sha decode artifactId s of
            (Inl _, s1) \<Rightarrow> (Error 404 ''not_found'' ''artifact not found'', s1)
          | (Inr env, s1) \<Rightarrow> (Data 200 env, s1)))"

section \<open>What a successful save leaves\<close>

lemma create_artifact_temp_Inr:
  assumes "create_artifact_temp dir s = (Inr tmp, t)"
  shows "(\<exists>n\<in>set (fs_names s). tmp = artifact_temp dir n) \<and> fs_names t = fs_names s \<and>
    fs_files t tmp = Some \<lparr>file_Mode = 384, file_Data = []\<rparr>"
  using assms unfolding create_artifact_temp_def
  by (auto dest!: sys_Inr find_Some_in split: option.splits)

lemma write_artifact_Inr:
  assumes "write_artifact valid tmp final e s = (Inr (), t)" "fs_files s tmp = Some \<lparr>file_Mode = m, file_Data = []\<rparr>"
  obtains raw where "marshal_envelope valid e = Inr raw" "fs_files t final = Some \<lparr>file_Mode = m, file_Data = raw\<rparr>"
  using assms unfolding write_artifact_def
  by (elim bindE_InrE) (auto dest!: or_close_Inr sys_Inr simp: tmp_write_def tmp_sync_def tmp_close_def os_rename_def
      returnE_def raiseE_def split: sum.splits)

lemma remove_other: "os_remove tmp s = (r, t) \<Longrightarrow> tmp \<noteq> p \<Longrightarrow> fs_files t p = fs_files s p"
  by (auto simp: os_remove_def sys_def Let_def split: if_splits option.splits)

lemma on_disk_Inr: "on_disk m s = (Inr a, t) \<Longrightarrow> m (snd s) = (Inr a, snd t) \<and> fst t = fst s"
  by (auto simp: on_disk_def split: prod.splits)

lemma on_rows_Inr: "on_rows m s = (Inr a, t) \<Longrightarrow> m (fst s) = (Inr a, fst t) \<and> snd t = snd s"
  by (auto simp: on_rows_def split: prod.splits)

lemma tryE_Inr: "tryE m s = (Inr r, t) \<longleftrightarrow> m s = (r, t)"
  by (auto simp: tryE_def split: prod.splits)

lemma index_artifact_Inr:
  assumes "gorm_ok view D" "index_artifact D row db = (Inr (), db')"
  obtains row' where "t_artifacts (view db') = save_rows (\<lambda>x y. ar_ID x = ar_ID y) row' (t_artifacts (view db))"
    "row'\<lparr>ar_CreatedAt := 0\<rparr> = row\<lparr>ar_CreatedAt := 0\<rparr>"
proof -
  obtain r where q: "sql_save (gd_artifacts D) row db = (r, db')" "r = Inr ()"
    using assms(2) by (auto simp: index_artifact_def prog_simps split: prod.splits sum.splits)
  from gorm_okD(3) [OF assms(1)] q(1) show thesis
    by (rule sql_saveE) (use q(2) that in \<open>auto simp: artifacts_spec_def\<close>)
qed

lemma artifact_save_Inr:
  assumes "artifact_save D sha valid root runID env (db, fs) = (Inr (), (db', fs'))"
    and "\<forall>n\<in>set (fs_names fs). artifact_temp (artifact_dir root runID) n \<noteq> artifact_path root runID (ev_ID env)"
  obtains raw m where "ev_ID env \<noteq> []" "ev_Type env \<noteq> []"
    "marshal_envelope valid (fill_hash sha env) = Inr raw"
    "index_artifact D (artifact_row root runID (fill_hash sha env)) db = (Inr (), db')"
    "fs_files fs' (artifact_path root runID (ev_ID env)) = Some \<lparr>file_Mode = m, file_Data = raw\<rparr>"
proof -
  let ?e = "fill_hash sha env" and ?dir = "artifact_dir root runID"
  have id_eq: "ev_ID ?e = ev_ID env" by (simp add: fill_hash_def)
  from assms(1) have ne: "ev_ID env \<noteq> []" "ev_Type env \<noteq> []"
    by (auto simp: artifact_save_def raiseE_def split: if_splits)
  let ?final = "artifact_path root runID (ev_ID env)"
  have run: "bindE (on_disk (os_mkdir_all ?dir)) (\<lambda>_.
     bindE (on_disk (create_artifact_temp ?dir)) (\<lambda>tmp.
     bindE (tryE (bindE (on_disk (write_artifact valid tmp ?final ?e))
       (\<lambda>_. on_rows (index_artifact D (artifact_row root runID ?e))))) (\<lambda>r.
     bindE (tryE (on_disk (os_remove tmp))) (\<lambda>_.
       case r of Inl e \<Rightarrow> raiseE e | Inr _ \<Rightarrow> returnE ())))) (db, fs) = (Inr (), (db', fs'))"
    using assms(1) ne by (simp add: artifact_save_def Let_def id_eq)
  from run obtain s1 s2 tmp s3 r s4 q where
    mk: "on_disk (os_mkdir_all ?dir) (db, fs) = (Inr (), s1)" and
    cr: "on_disk (create_artifact_temp ?dir) s1 = (Inr tmp, s2)" and
    wr: "bindE (on_disk (write_artifact valid tmp ?final ?e))
       (\<lambda>_. on_rows (index_artifact D (artifact_row root runID ?e))) s2 = (r, s3)" and
    rm: "on_disk (os_remove tmp) s3 = (q, s4)" and
    fin: "(case r of Inl e \<Rightarrow> raiseE e | Inr _ \<Rightarrow> returnE ()) s4 = (Inr (), (db', fs'))"
    by (elim bindE_InrE) (simp add: tryE_Inr)
  from fin have r: "r = Inr ()" and s4: "s4 = (db', fs')"
    by (auto simp: raiseE_def returnE_def split: sum.splits)
  have s1: "fst s1 = db" "fs_names (snd s1) = fs_names fs"
    using on_disk_Inr [OF mk] by (cases s1; auto simp: os_mkdir_all_def dest!: sys_Inr)+
  have s2: "fst s2 = db" and tmp: "fs_files (snd s2) tmp = Some \<lparr>file_Mode = 384, file_Data = []\<rparr>"
    and other: "tmp \<noteq> ?final"
    using on_disk_Inr [OF cr] create_artifact_temp_Inr [of ?dir "snd s1" tmp "snd s2"] s1 assms(2) by auto
  from wr obtain u where w: "on_disk (write_artifact valid tmp ?final ?e) s2 = (Inr (), u)"
    and i: "on_rows (index_artifact D (artifact_row root runID ?e)) u = (Inr (), s3)"
    unfolding r by (elim bindE_InrE) simp
  from on_disk_Inr [OF w] tmp obtain raw where
    raw: "marshal_envelope valid ?e = Inr raw" "fs_files (snd u) ?final = Some \<lparr>file_Mode = 384, file_Data = raw\<rparr>"
    by (auto elim: write_artifact_Inr)
  have idx: "index_artifact D (artifact_row root runID ?e) db = (Inr (), fst s3)" "snd s3 = snd u"
    using on_rows_Inr [OF i] on_disk_Inr [OF w] s2 by auto
  have "os_remove tmp (snd s3) = (q, fs')" "db' = fst s3"
    using rm s4 by (auto simp: on_disk_def split: prod.splits)
  with raw idx remove_other [OF _ other] ne show thesis by (intro that) auto
qed

section \<open>What loading finds\<close>

lemma artifact_load_cases:
  assumes "gorm_ok view D" "artifact_load D sha decode id' (db, fs) = (r, s')"
  obtains (failed) e where "r = Inl e" "db_error e \<or> e = Sent OsFailure"
  | (unknown) "r = Inl (Sent RecordNotFound)" "\<forall>x\<in>set (t_artifacts (view db)). ar_ID x \<noteq> id'"
  | (no_file) row where "r = Inl (Sent OsNotExist)" "row \<in> set (t_artifacts (view db))" "ar_ID row = id'"
      "fs_files fs (ar_FilePath row) = None"
  | (read) row f where "row \<in> set (t_artifacts (view db))" "ar_ID row = id'"
      "fs_files fs (ar_FilePath row) = Some f"
      "r = (case decode (file_Data f) of Inl e \<Rightarrow> Inl e | Inr env \<Rightarrow>
           if sha (elems (ev_Content env)) \<noteq> ar_ContentHash row \<or> ev_ContentHash env \<noteq> ar_ContentHash row
           then Inl (Sent ErrArtifactTampered) else Inr env)"
proof -
  obtain q t where q: "sql_first (gd_artifacts D) (\<lambda>r. ar_ID r = id') ar_ID db = (q, t)" by fastforce
  note load = assms(2) [unfolded artifact_load_def bindE_def on_rows_def fst_conv q]
  from gorm_okD(3) [OF assms(1)] q show thesis
  proof (rule sql_firstE)
    fix e assume "q = Inl e" "db_error e"
    with load show thesis by (intro failed [of e]) simp_all
  next
    assume "q = Inl (Sent RecordNotFound)" "\<forall>r\<in>set (ts_get artifacts_spec (view db)). ar_ID r \<noteq> id'"
    with load show thesis by (intro unknown) (simp_all add: artifacts_spec_def)
  next
    fix row assume row: "q = Inr row" "row \<in> set (ts_get artifacts_spec (view db))" "ar_ID row = id'"
    obtain x u where x: "os_read_file (ar_FilePath row) fs = (x, u)" by fastforce
    have r: "r = (case x of Inl e \<Rightarrow> Inl e | Inr raw \<Rightarrow> (case decode raw of Inl e \<Rightarrow> Inl e | Inr env \<Rightarrow>
           if sha (elems (ev_Content env)) \<noteq> ar_ContentHash row \<or> ev_ContentHash env \<noteq> ar_ContentHash row
           then Inl (Sent ErrArtifactTampered) else Inr env))"
      using load row x by (auto simp: on_disk_def raiseE_def returnE_def split: sum.splits if_splits)
    from x consider "x = Inl (Sent OsFailure)" | "x = Inl (Sent OsNotExist)" "fs_files fs (ar_FilePath row) = None"
      | f where "x = Inr (file_Data f)" "fs_files fs (ar_FilePath row) = Some f"
      by (auto simp: os_read_file_def sys_def Let_def split: if_splits option.splits)
    then show thesis
      using r row by cases (auto simp: artifacts_spec_def intro: failed no_file read)
  qed
qed

lemma saved_row:
  assumes "gorm_ok view D" "index_artifact D (artifact_row root runID e) db = (Inr (), db')"
    and "row \<in> set (t_artifacts (view db'))" "ar_ID row = ev_ID e"
  shows "ar_ContentHash row = ev_ContentHash e \<and> ar_FilePath row = artifact_path root runID (ev_ID e)"
proof -
  from assms(1,2) obtain row' where
    w: "t_artifacts (view db') = save_rows (\<lambda>x y. ar_ID x = ar_ID y) row' (t_artifacts (view db))"
    and n: "row'\<lparr>ar_CreatedAt := 0\<rparr> = (artifact_row root runID e)\<lparr>ar_CreatedAt := 0\<rparr>"
    by (rule index_artifact_Inr)
  have f: "ar_ID row' = ev_ID e" "ar_ContentHash row' = ev_ContentHash e"
    "ar_FilePath row' = artifact_path root runID (ev_ID e)"
    using arg_cong [OF n, of ar_ID] arg_cong [OF n, of ar_ContentHash] arg_cong [OF n, of ar_FilePath]
    by (simp_all add: artifact_row_def)
  have "row = row'" using assms(3,4) w f by (auto simp: save_rows_def split: if_splits)
  with f show ?thesis by simp
qed

lemma saved_row_exists:
  assumes "gorm_ok view D" "index_artifact D (artifact_row root runID e) db = (Inr (), db')"
  shows "\<exists>row\<in>set (t_artifacts (view db')). ar_ID row = ev_ID e"
proof -
  from assms obtain row' where
    w: "t_artifacts (view db') = save_rows (\<lambda>x y. ar_ID x = ar_ID y) row' (t_artifacts (view db))"
    and n: "row'\<lparr>ar_CreatedAt := 0\<rparr> = (artifact_row root runID e)\<lparr>ar_CreatedAt := 0\<rparr>"
    by (rule index_artifact_Inr)
  have "ar_ID row' = ev_ID e" using arg_cong [OF n, of ar_ID] by (simp add: artifact_row_def)
  then show ?thesis unfolding w by (auto simp: save_rows_def)
qed

lemma fill_hash_sel [simp]:
  "ev_ID (fill_hash sha e) = ev_ID e" "ev_Content (fill_hash sha e) = ev_Content e"
  "ev_ContentHash (fill_hash sha e) = (if ev_ContentHash e = [] then sha (elems (ev_Content e)) else ev_ContentHash e)"
  by (simp_all add: fill_hash_def)

text \<open>
  C13. A stored artifact cannot be changed unnoticed. After a successful \<open>Save\<close>, and whatever
  then happens to the files, an envelope that \<open>Load\<close> returns under that id carries the hash the
  artifact was saved with, and the hash is that of the content it carries: it is the saved
  content, or two contents with one SHA-256, or the caller of \<open>Save\<close> gave a hash of its own.
\<close>

theorem artifact_tamper_evident:
  assumes "gorm_ok view D"
    and "\<forall>n\<in>set (fs_names fs). artifact_temp (artifact_dir root runID) n \<noteq> artifact_path root runID (ev_ID env)"
    and "artifact_save D sha valid root runID env (db, fs) = (Inr (), (db1, fs1))"
    and "t_artifacts (view db2) = t_artifacts (view db1)"
    and "artifact_load D sha decode (ev_ID env) (db2, fs2) = (Inr got, s)"
  shows "ev_ContentHash got = ev_ContentHash (fill_hash sha env) \<and>
    sha (elems (ev_Content got)) = ev_ContentHash (fill_hash sha env)"
proof -
  from assms(3,2) obtain raw where i: "index_artifact D (artifact_row root runID (fill_hash sha env)) db = (Inr (), db1)"
    by (rule artifact_save_Inr)
  from assms(1,5) show ?thesis
  proof (cases rule: artifact_load_cases)
    case (read row f)
    with saved_row [OF assms(1) i, of row] assms(4) show ?thesis
      by (auto split: sum.splits if_splits)
  qed auto
qed

text \<open>
  C14. What was saved is loaded. If the content of an artifact is JSON in the form \<open>Marshal\<close>
  writes it, the envelope carries no hash or the right one, and \<open>Unmarshal\<close> reads back what
  \<open>Marshal\<close> wrote of it, then a \<open>Load\<close> that follows a successful \<open>Save\<close> returns the envelope,
  with its hash filled in, unless the database or the file system fails.
\<close>

theorem artifact_round_trip:
  assumes "gorm_ok view D"
    and "\<forall>n\<in>set (fs_names fs). artifact_temp (artifact_dir root runID) n \<noteq> artifact_path root runID (ev_ID env)"
    and "ev_Content env = Some content" "json_compact content = content"
    and "ev_ContentHash env = [] \<or> ev_ContentHash env = sha content"
    and "decode (envelope_json (fill_hash sha env) (json_compact content)) =
           Inr ((fill_hash sha env)\<lparr>ev_Content := Some (json_compact content)\<rparr>)"
    and "artifact_save D sha valid root runID env (db, fs) = (Inr (), (db1, fs1))"
    and "artifact_load D sha decode (ev_ID env) (db1, fs1) = (r, s)"
  shows "r = Inr (fill_hash sha env) \<or> (\<exists>e. r = Inl e \<and> (db_error e \<or> e = Sent OsFailure))"
proof -
  from assms(7,2) obtain raw m where
    raw: "marshal_envelope valid (fill_hash sha env) = Inr raw" and
    i: "index_artifact D (artifact_row root runID (fill_hash sha env)) db = (Inr (), db1)" and
    on_file: "fs_files fs1 (artifact_path root runID (ev_ID env)) = Some \<lparr>file_Mode = m, file_Data = raw\<rparr>"
    by (rule artifact_save_Inr)
  have h: "ev_ContentHash (fill_hash sha env) = sha content" using assms(3,5) by auto
  have d: "decode raw = Inr (fill_hash sha env)"
    using raw assms(3,4,6) by (auto simp: marshal_envelope_def marshal_raw_def split: if_splits)
  from assms(1,8) show ?thesis
  proof (cases rule: artifact_load_cases)
    case unknown
    with saved_row_exists [OF assms(1) i] show ?thesis by auto
  next
    case (no_file row)
    with saved_row [OF assms(1) i, of row] on_file show ?thesis by auto
  next
    case (read row f)
    with saved_row [OF assms(1) i, of row] on_file h d assms(3) show ?thesis by auto
  qed auto
qed

text \<open>Content that is not in that form is stored and never comes back: \<open>Save\<close> hashes the
  bytes it was given, the file has the compacted ones.\<close>

lemma loose_content_never_loads:
  assumes "gorm_ok view D"
    and "\<forall>n\<in>set (fs_names fs). artifact_temp (artifact_dir root runID) n \<noteq> artifact_path root runID (ev_ID env)"
    and "ev_Content env = Some content" "ev_ContentHash env = []" "sha (json_compact content) \<noteq> sha content"
    and "decode (envelope_json (fill_hash sha env) (json_compact content)) =
           Inr ((fill_hash sha env)\<lparr>ev_Content := Some (json_compact content)\<rparr>)"
    and "artifact_save D sha valid root runID env (db, fs) = (Inr (), (db1, fs1))"
    and "artifact_load D sha decode (ev_ID env) (db1, fs1) = (r, s)"
  shows "\<exists>e. r = Inl e"
proof -
  from assms(7,2) obtain raw m where
    raw: "marshal_envelope valid (fill_hash sha env) = Inr raw" and
    i: "index_artifact D (artifact_row root runID (fill_hash sha env)) db = (Inr (), db1)" and
    on_file: "fs_files fs1 (artifact_path root runID (ev_ID env)) = Some \<lparr>file_Mode = m, file_Data = raw\<rparr>"
    by (rule artifact_save_Inr)
  have d: "decode raw = Inr ((fill_hash sha env)\<lparr>ev_Content := Some (json_compact content)\<rparr>)"
    using raw assms(3,6) by (auto simp: marshal_envelope_def marshal_raw_def split: if_splits)
  from assms(1,8) show ?thesis
  proof (cases rule: artifact_load_cases)
    case (read row f)
    with saved_row [OF assms(1) i, of row] on_file d assms(3-5) show ?thesis by auto
  qed auto
qed

definition sample_envelope :: envelope where
  "sample_envelope = \<lparr>ev_SchemaVersion = CurrentSchemaVersion, ev_Type = ''plan'', ev_ID = ''a'',
     ev_ParentID = [], ev_Content = Some ''{}'', ev_ContentHash = []\<rparr>"

definition sample_disk :: file_sys where
  "sample_disk = \<lparr>fs_files = (\<lambda>_. None), fs_eval = Inr, fs_names = [''1''], fs_fail = (\<lambda>_. False), fs_calls = 0\<rparr>"

definition sample_sha :: "string \<Rightarrow> string" where
  "sample_sha s = (if s = ''{}'' then ''44'' else ''0'')"

definition sample_save :: "unit result \<times> tables disk_db" where
  "sample_save = artifact_save mem_db sample_sha (\<lambda>_. True) ''d'' ''r'' sample_envelope (empty_tables, sample_disk)"

lemma sample_paths:
  "artifact_temp (artifact_dir ''d'' ''r'') ''1'' = ''d/r/.artifact-1''"
  "artifact_path ''d'' ''r'' ''a'' = ''d/r/a.json''"
  by (code_simp, code_simp)

lemma sample_compact: "json_compact ''{}'' = ''{}''"
  by code_simp

lemma sample_saved: "fst sample_save = Inr ()"
  unfolding sample_save_def artifact_save_def
  by (simp add: sample_envelope_def sample_disk_def prog_simps on_disk_def on_rows_def os_mkdir_all_def sys_def
      create_artifact_temp_def write_artifact_def or_close_def marshal_envelope_def marshal_raw_def tmp_write_def
      tmp_sync_def tmp_close_def os_rename_def index_artifact_def mem_db_def mem_table_def os_remove_def Let_def)

definition sample_load :: "envelope result \<times> tables disk_db" where
  "sample_load = artifact_load mem_db sample_sha (\<lambda>_. Inr (fill_hash sample_sha sample_envelope)) ''a'' (snd sample_save)"

lemma sample_loaded: "fst sample_load = Inr (fill_hash sample_sha sample_envelope)"
  unfolding sample_load_def sample_save_def artifact_save_def artifact_load_def
  by (simp add: sample_envelope_def sample_disk_def prog_simps on_disk_def on_rows_def os_mkdir_all_def sys_def
      create_artifact_temp_def write_artifact_def or_close_def marshal_envelope_def marshal_raw_def tmp_write_def
      tmp_sync_def tmp_close_def os_rename_def index_artifact_def mem_db_def mem_table_def os_remove_def Let_def
      sql_first_def artifacts_spec_def save_rows_def artifact_row_def empty_tables_def os_read_file_def
      sample_paths fill_hash_def sample_sha_def)

lemma sample_artifact_names:
  "\<forall>n\<in>set (fs_names sample_disk). artifact_temp (artifact_dir ''d'' ''r'') n \<noteq> artifact_path ''d'' ''r'' (ev_ID sample_envelope)"
  by (simp add: sample_disk_def sample_envelope_def sample_paths)

lemma sample_run:
  "artifact_save mem_db sample_sha (\<lambda>_. True) ''d'' ''r'' sample_envelope (empty_tables, sample_disk) =
     (Inr (), (fst (snd sample_save), snd (snd sample_save)))"
  "artifact_load mem_db sample_sha (\<lambda>_. Inr (fill_hash sample_sha sample_envelope)) (ev_ID sample_envelope)
     (fst (snd sample_save), snd (snd sample_save)) = (Inr (fill_hash sample_sha sample_envelope), snd sample_load)"
  using sample_saved sample_loaded unfolding sample_load_def sample_save_def [symmetric]
  by (simp_all add: prod_eq_iff, simp_all add: sample_envelope_def)

theorem artifact_tamper_evident_witness:
  "ev_ContentHash (fill_hash sample_sha sample_envelope) = ''44'' \<and>
   sample_sha (elems (ev_Content (fill_hash sample_sha sample_envelope))) = ''44''"
proof -
  have "ev_ContentHash (fill_hash sample_sha sample_envelope) = ''44''"
    by (simp add: sample_envelope_def sample_sha_def)
  with artifact_tamper_evident [OF mem_db_ok sample_artifact_names sample_run(1) refl sample_run(2)] show ?thesis
    by simp
qed

theorem artifact_round_trip_witness:
  "fst sample_load = Inr (fill_hash sample_sha sample_envelope) \<or>
   (\<exists>e. fst sample_load = Inl e \<and> (db_error e \<or> e = Sent OsFailure))"
  unfolding sample_loaded
  by (rule artifact_round_trip [of "\<lambda>t. t" mem_db sample_disk "''d''" "''r''" sample_envelope "''{}''" sample_sha
      "\<lambda>_. Inr (fill_hash sample_sha sample_envelope)" "\<lambda>_. True" empty_tables, OF mem_db_ok sample_artifact_names _ _ _ _ sample_run])
    (simp_all add: sample_envelope_def sample_compact fill_hash_def)

end
