(* ===== verification/Desktop_Runtime.thy ===== *)
theory Desktop_Runtime
  imports Contracts Go_Strings Go_Path Base64 "HOL-Library.Multiset"
begin

text \<open>
  \<open>internal/desktop/runtime.go\<close>, \<open>session.go\<close> and \<open>process.go\<close>: the desktop program starts the
  runner and the council as child processes, waits until both are healthy, hands the WebView
  the address and the session token, and stops them.

  \<^item> The goroutines are threads of an explicit scheduler. A thread's step is a section of the
    code under \<open>r.mu\<close>, a send or receive on a channel, or one call to the outside; the state
    \<open>shared\<close> holds the fields of \<open>Runtime\<close>, \<open>stopMu\<close>, which channels are closed, and what is known
    of the processes. Any thread may run next.
  \<^item> What the outside does comes with the step as an \<open>outcome\<close>: whether a process starts, what
    the health checks find, whether a timer fires before the child is done.
  \<^item> Numbers name processes with their \<open>done\<close> channels, and the channels of \<open>stopWatch\<close>.
\<close>

section \<open>Configuration and status\<close>

datatype runtime_state = StateStopped | StateStarting | StateReady | StateStopping | StateFailed

primrec state_text :: "runtime_state \<Rightarrow> string" where
  "state_text StateStopped = ''stopped''"
| "state_text StateStarting = ''starting''"
| "state_text StateReady = ''ready''"
| "state_text StateStopping = ''stopping''"
| "state_text StateFailed = ''failed''"

record runtime_status =
  st_State :: runtime_state
  st_CouncilURL :: string
  st_RunnerURL :: string
  st_RunnerGRPCAddress :: string
  st_LastError :: string

definition fresh_status :: "runtime_state \<Rightarrow> runtime_status" where
  "fresh_status st = \<lparr>st_State = st, st_CouncilURL = [], st_RunnerURL = [], st_RunnerGRPCAddress = [],
     st_LastError = []\<rparr>"

record desktop_config =
  cf_DataDir :: string
  cf_LogDir :: string
  cf_CouncilBinary :: string
  cf_RunnerBinary :: string

record runtime_options =
  op_Config :: desktop_config
  op_WorkspaceRoot :: string
  op_PollInterval :: int
  op_StopTimeout :: int
  op_TLSCert :: string
  op_TLSKey :: string
  op_RBACRole :: string
  op_RBACSubject :: string
  op_Environment :: "(string \<times> string) slice"

record process_spec =
  sp_Name :: string
  sp_Args :: "string list"
  sp_Env :: "(string \<times> string) slice"
  sp_Log :: string

record child =
  ch_name :: string
  ch_pid :: nat

record shutdown_request =
  sr_URL :: string
  sr_Token :: string

record web_session =
  ws_APIBase :: string
  ws_SessionToken :: string

text \<open>\<open>reserveLoopbackAddress\<close>, of the outcomes of listening and of closing the listener.\<close>

definition reserve_loopback_address :: "string result \<Rightarrow> unit result \<Rightarrow> string result" where
  "reserve_loopback_address listen closed =
     (case listen of Inl e \<Rightarrow> Inl e
      | Inr address \<Rightarrow> (case closed of Inl e \<Rightarrow> Inl e | Inr _ \<Rightarrow> Inr address))"

text \<open>\<open>NewSessionToken\<close>, of the outcome of reading 32 random bytes.\<close>

definition new_session_token :: "string result \<Rightarrow> string result" where
  "new_session_token random = (case random of Inl e \<Rightarrow> Inl e | Inr b \<Rightarrow> Inr (b64_encode url_alphabet b))"

definition service_url :: "string \<Rightarrow> string \<Rightarrow> string \<Rightarrow> string" where
  "service_url address cert key =
     (if cert \<noteq> [] \<and> key \<noteq> [] then ''https://'' @ address else ''http://'' @ address)"

definition clone_environment :: "(string \<times> string) slice \<Rightarrow> (string \<times> string) slice" where
  "clone_environment env = (if elems env = [] then None else Some (elems env))"

text \<open>\<open>defaultHealthCheck\<close>, of the outcome of the request: an error or the status.\<close>

definition default_health_check :: "int result \<Rightarrow> unit result" where
  "default_health_check response =
     (case response of
        Inl e \<Rightarrow> Inl e
      | Inr status \<Rightarrow> if status < 200 \<or> status \<ge> 300
          then Inl (Err (''health endpoint returned HTTP '' @ itoa status)) else Inr ())"

text \<open>\<open>defaultShutdownRequest\<close>, of the outcome of \<open>url.Parse\<close> (scheme and host), of
  \<open>net.ParseIP\<close> with \<open>IsLoopback\<close>, and of the request.\<close>

definition default_shutdown_request ::
  "(string \<times> string) result \<Rightarrow> (string \<Rightarrow> bool) \<Rightarrow> string \<Rightarrow> int result \<Rightarrow> unit result" where
  "default_shutdown_request parsed loopback url response =
     (case parsed of
        Inl e \<Rightarrow> Inl e
      | Inr (scheme, host) \<Rightarrow>
          if scheme \<noteq> ''http'' \<and> scheme \<noteq> ''https'' then Inl (Err (''unsupported local shutdown scheme '' @ scheme))
          else if \<not> loopback host then Inl (Err (''shutdown endpoint '' @ url @ '' is not loopback''))
          else (case response of
              Inl e \<Rightarrow> Inl e
            | Inr status \<Rightarrow> if status \<noteq> 202 then Inl (Err (''shutdown endpoint returned HTTP '' @ itoa status))
                else Inr ()))"

text \<open>\<open>mergedEnvironment\<close>: the entries of \<open>os.Environ\<close> are cut at their first \<open>=\<close>, those without
  one are dropped, later ones and the overlay win, and the result is sorted by key.\<close>

definition env_entry :: "string \<Rightarrow> (string \<times> string) list" where
  "env_entry e = (if CHR ''='' \<in> set e
     then [(takeWhile (\<lambda>c. c \<noteq> CHR ''='') e, tl (dropWhile (\<lambda>c. c \<noteq> CHR ''='') e))] else [])"

definition merged_environment :: "string list \<Rightarrow> (string \<times> string) slice \<Rightarrow> string list" where
  "merged_environment environ overlay =
     (if elems overlay = [] then environ
      else let env = map_of (rev (concat (map env_entry environ) @ elems overlay));
               keys = sort (remdups (map fst (concat (map env_entry environ) @ elems overlay)))
           in map (\<lambda>k. k @ ''='' @ the (env k)) keys)"

lemma merged_overlay_wins:
  assumes "distinct (map fst (elems overlay))" "(k, v) \<in> set (elems overlay)"
  shows "k @ ''='' @ v \<in> set (merged_environment environ overlay)"
proof -
  have "map_of (rev (elems overlay)) k = Some v"
    using assms by (intro map_of_is_SomeI) (simp_all add: rev_map [symmetric])
  then have env: "map_of (rev (concat (map env_entry environ) @ elems overlay)) k = Some v" (is "?env k = _")
    by (simp add: map_add_Some_iff)
  have k: "k \<in> set (sort (remdups (map fst (concat (map env_entry environ) @ elems overlay))))"
    using assms(2) by force
  have "elems overlay \<noteq> []" using assms(2) by auto
  then have "merged_environment environ overlay = map (\<lambda>k. k @ ''='' @ the (?env k))
      (sort (remdups (map fst (concat (map env_entry environ) @ elems overlay))))"
    by (simp only: merged_environment_def Let_def if_False)
  with imageI [OF k, of "\<lambda>k. k @ ''='' @ the (?env k)"] env show ?thesis by (simp only: set_map option.sel)
qed

section \<open>What Start prepares\<close>

record prepared_start =
  pr_runnerHTTP :: string
  pr_runnerGRPC :: string
  pr_councilHTTP :: string
  pr_token :: string

text \<open>The three addresses, the token and the two log files in the order of the code; the left
  value is the message of \<open>failStart\<close>.\<close>

definition prepare_start ::
  "string result \<Rightarrow> string result \<Rightarrow> string result \<Rightarrow> string result \<Rightarrow> unit result \<Rightarrow> unit result \<Rightarrow>
   string + prepared_start" where
  "prepare_start a1 a2 a3 tok log1 log2 =
     (case a1 of Inl _ \<Rightarrow> Inl ''allocate runner HTTP address'' | Inr runnerHTTP \<Rightarrow>
     (case a2 of Inl _ \<Rightarrow> Inl ''allocate runner gRPC address'' | Inr runnerGRPC \<Rightarrow>
     (case a3 of Inl _ \<Rightarrow> Inl ''allocate council HTTP address'' | Inr councilHTTP \<Rightarrow>
     (case tok of Inl _ \<Rightarrow> Inl ''create session token'' | Inr token \<Rightarrow>
     (case log1 of Inl _ \<Rightarrow> Inl ''create runner log'' | Inr _ \<Rightarrow>
     (case log2 of Inl _ \<Rightarrow> Inl ''create council log'' | Inr _ \<Rightarrow>
        Inr \<lparr>pr_runnerHTTP = runnerHTTP, pr_runnerGRPC = runnerGRPC, pr_councilHTTP = councilHTTP,
          pr_token = token\<rparr>))))))"

definition runner_spec :: "runtime_options \<Rightarrow> prepared_start \<Rightarrow> process_spec" where
  "runner_spec o' p = \<lparr>sp_Name = cf_RunnerBinary (op_Config o'),
     sp_Args = [''--listen'', pr_runnerHTTP p, ''--grpc-listen'', pr_runnerGRPC p,
       ''--workspace-root'', op_WorkspaceRoot o',
       ''--db'', path_join [cf_DataDir (op_Config o'), ''runner.db''],
       ''--token'', pr_token p, ''--tls-cert'', op_TLSCert o', ''--tls-key'', op_TLSKey o'],
     sp_Env = None, sp_Log = path_join [cf_LogDir (op_Config o'), ''runner.log'']\<rparr>"

definition council_spec :: "runtime_options \<Rightarrow> prepared_start \<Rightarrow> process_spec" where
  "council_spec o' p = \<lparr>sp_Name = cf_CouncilBinary (op_Config o'),
     sp_Args = [''--listen'', pr_councilHTTP p,
       ''--db'', path_join [cf_DataDir (op_Config o'), ''council.db''],
       ''--token'', pr_token p, ''--runner'', pr_runnerGRPC p, ''--runner-token'', pr_token p,
       ''--tls-cert'', op_TLSCert o', ''--tls-key'', op_TLSKey o',
       ''--rbac-role'', op_RBACRole o', ''--rbac-bootstrap-subject'', op_RBACSubject o'] @
       (if op_TLSCert o' \<noteq> [] \<and> op_TLSKey o' \<noteq> [] then [''--runner-tls''] else []) @
       (if op_RBACRole o' \<noteq> [] \<and> op_RBACSubject o' \<noteq> [] then [''--rbac-bootstrap-token'', pr_token p] else []),
     sp_Env = clone_environment (op_Environment o'),
     sp_Log = path_join [cf_LogDir (op_Config o'), ''council.log'']\<rparr>"

section \<open>The shared state and its sections\<close>

text \<open>A context is a number, or \<open>None\<close> for \<open>context.Background()\<close>; \<open>dr_ctx\<close> has the error of
  those that are done. \<open>dr_started\<close>, \<open>dr_exited\<close> and \<open>dr_killed\<close> tell of the processes, \<open>dr_asked\<close>
  and \<open>dr_signalled\<close> of what the runtime has sent them. Closing a closed channel panics.\<close>

record shared =
  dr_status :: runtime_status
  dr_children :: "child list"
  dr_stopWatch :: "nat option"
  dr_sessionToken :: string
  dr_stopMu :: bool
  dr_fresh :: nat
  dr_closed :: "nat set"
  dr_panic :: bool
  dr_ctx :: "nat \<Rightarrow> go_error option"
  dr_started :: "(nat \<times> process_spec) list"
  dr_exited :: "nat set"
  dr_killed :: "nat set"
  dr_asked :: "shutdown_request list"
  dr_signalled :: "nat list"

definition default_poll_interval :: int where "default_poll_interval = 100 * 10 ^ 6"
definition default_stop_timeout :: int where "default_stop_timeout = 5 * 10 ^ 9"

definition runtime_defaults :: "runtime_options \<Rightarrow> runtime_options" where
  "runtime_defaults o' = o'\<lparr>
     op_PollInterval := (if op_PollInterval o' \<le> 0 then default_poll_interval else op_PollInterval o'),
     op_StopTimeout := (if op_StopTimeout o' \<le> 0 then default_stop_timeout else op_StopTimeout o')\<rparr>"

definition new_runtime :: shared where
  "new_runtime = \<lparr>dr_status = fresh_status StateStopped, dr_children = [], dr_stopWatch = None,
     dr_sessionToken = [], dr_stopMu = False, dr_fresh = 0, dr_closed = {}, dr_panic = False,
     dr_ctx = (\<lambda>_. None), dr_started = [], dr_exited = {}, dr_killed = {}, dr_asked = [], dr_signalled = []\<rparr>"

definition close_chan :: "nat \<Rightarrow> shared \<Rightarrow> shared" where
  "close_chan n s = (if n \<in> dr_closed s then s\<lparr>dr_panic := True\<rparr> else s\<lparr>dr_closed := insert n (dr_closed s)\<rparr>)"

definition set_status :: "(runtime_status \<Rightarrow> runtime_status) \<Rightarrow> shared \<Rightarrow> shared" where
  "set_status f s = s\<lparr>dr_status := f (dr_status s)\<rparr>"

definition start_begin :: "shared \<Rightarrow> shared result" where
  "start_begin s =
     (let st = st_State (dr_status s) in
      if st \<noteq> StateStopped then Inl (Err (''desktop runtime cannot start while '' @ state_text st))
      else Inr (s\<lparr>dr_status := fresh_status StateStarting, dr_stopWatch := Some (dr_fresh s),
        dr_fresh := Suc (dr_fresh s)\<rparr>))"

definition fail_start :: "string \<Rightarrow> shared \<Rightarrow> shared" where
  "fail_start message = set_status (\<lambda>t. t\<lparr>st_State := StateFailed, st_LastError := message\<rparr>)"

text \<open>\<open>startChild\<close> when the process starts; its goroutine is the thread \<open>WatchChild\<close>.\<close>

definition launch :: "string \<Rightarrow> process_spec \<Rightarrow> shared \<Rightarrow> child \<times> shared" where
  "launch name spec s =
     (\<lparr>ch_name = name, ch_pid = dr_fresh s\<rparr>,
      s\<lparr>dr_started := dr_started s @ [(dr_fresh s, spec)], dr_fresh := Suc (dr_fresh s)\<rparr>)"

definition report_exit :: "string \<Rightarrow> shared \<Rightarrow> shared" where
  "report_exit name s =
     (if st_State (dr_status s) = StateStarting \<or> st_State (dr_status s) = StateReady
      then set_status (\<lambda>t. t\<lparr>st_State := StateFailed, st_LastError := name @ '' exited unexpectedly''\<rparr>) s
      else s)"

definition set_children :: "child list \<Rightarrow> shared \<Rightarrow> shared" where
  "set_children cs s = s\<lparr>dr_children := cs\<rparr>"

definition publish :: "runtime_options \<Rightarrow> prepared_start \<Rightarrow> child \<Rightarrow> child \<Rightarrow> shared \<Rightarrow> shared" where
  "publish o' p runner council s =
     set_status (\<lambda>t. t\<lparr>st_CouncilURL := service_url (pr_councilHTTP p) (op_TLSCert o') (op_TLSKey o'),
         st_RunnerURL := ''http://'' @ pr_runnerHTTP p, st_RunnerGRPCAddress := pr_runnerGRPC p\<rparr>)
       (s\<lparr>dr_children := [runner, council], dr_sessionToken := pr_token p\<rparr>)"

definition web_runtime :: "shared \<Rightarrow> web_session result" where
  "web_runtime s =
     (let t = dr_status s in
      if st_State t \<noteq> StateStarting \<and> st_State t \<noteq> StateReady then Inl (Err ''desktop runtime is not running'')
      else if st_CouncilURL t = [] \<or> dr_sessionToken s = []
        then Inl (Err ''desktop runtime connection is unavailable'')
      else Inr \<lparr>ws_APIBase = st_CouncilURL t @ ''/api/v1'', ws_SessionToken = dr_sessionToken s\<rparr>)"

text \<open>The head of the loop of \<open>WaitReady\<close>: what it returns at once, if anything.\<close>

definition wait_status :: "runtime_status \<Rightarrow> unit result option" where
  "wait_status t =
     (case st_State t of
        StateStopped \<Rightarrow> Some (Inl (Err ''desktop runtime is not running''))
      | StateStopping \<Rightarrow> Some (Inl (Err ''desktop runtime is stopping''))
      | StateFailed \<Rightarrow> Some (Inl (Err (if st_LastError t = [] then ''desktop runtime failed'' else st_LastError t)))
      | StateReady \<Rightarrow> Some (Inr ())
      | StateStarting \<Rightarrow> None)"

definition promote :: "shared \<Rightarrow> shared" where
  "promote s = (if st_State (dr_status s) = StateStarting then set_status (\<lambda>t. t\<lparr>st_State := StateReady\<rparr>) s else s)"

text \<open>\<open>Stop\<close>: its first section takes copies of what it needs.\<close>

record stopping =
  sn_children :: "child list"
  sn_councilURL :: string
  sn_runnerURL :: string
  sn_token :: string

definition stop_mark :: "shared \<Rightarrow> stopping \<times> shared" where
  "stop_mark s =
     (\<lparr>sn_children = dr_children s, sn_councilURL = st_CouncilURL (dr_status s),
        sn_runnerURL = st_RunnerURL (dr_status s), sn_token = dr_sessionToken s\<rparr>,
      (case dr_stopWatch s of
         None \<Rightarrow> set_status (\<lambda>t. t\<lparr>st_State := StateStopping\<rparr>) s
       | Some n \<Rightarrow> (close_chan n (set_status (\<lambda>t. t\<lparr>st_State := StateStopping\<rparr>) s))\<lparr>dr_stopWatch := None\<rparr>))"

definition shutdown_url :: "stopping \<Rightarrow> child \<Rightarrow> string" where
  "shutdown_url sn c =
     (if ch_name c = ''council'' then sn_councilURL sn @ ''/shutdown''
      else if ch_name c = ''runner'' then sn_runnerURL sn @ ''/shutdown'' else [])"

definition ask_shutdown :: "stopping \<Rightarrow> child \<Rightarrow> shared \<Rightarrow> shared" where
  "ask_shutdown sn c s =
     (if shutdown_url sn c \<noteq> [] \<and> sn_token sn \<noteq> []
      then s\<lparr>dr_asked := dr_asked s @ [\<lparr>sr_URL = shutdown_url sn c, sr_Token = sn_token sn\<rparr>]\<rparr> else s)"

definition signal_child :: "child \<Rightarrow> shared \<Rightarrow> shared" where
  "signal_child c s = s\<lparr>dr_signalled := dr_signalled s @ [ch_pid c]\<rparr>"

definition kill_child :: "child \<Rightarrow> shared \<Rightarrow> shared" where
  "kill_child c s = (if ch_pid c \<in> dr_closed s then s else s\<lparr>dr_killed := insert (ch_pid c) (dr_killed s)\<rparr>)"

definition mark_stopped :: "shared \<Rightarrow> shared" where
  "mark_stopped s = set_status (\<lambda>t. t\<lparr>st_State := StateStopped, st_LastError := []\<rparr>)
     (s\<lparr>dr_children := [], dr_sessionToken := []\<rparr>)"

section \<open>Threads\<close>

text \<open>Who called \<open>Stop\<close>: a client or the watcher of the context, or \<open>Start\<close> itself after the
  council failed to start.\<close>

datatype caller = FromOutside | FromStart

datatype thread =
    StartCall "nat option" \<comment> \<open>\<open>Start\<close>, before its first section\<close>
  | Prepare "nat option"
  | LaunchRunner "nat option" prepared_start
  | LaunchCouncil "nat option" prepared_start child
  | Publish "nat option" prepared_start child child
  | FailWith string
  | HoldRunner child \<comment> \<open>the council has not started: \<open>setChildren\<close>\<close>
  | MarkFailed
  | StopCall "nat option" caller \<comment> \<open>\<open>Stop\<close>, waiting for \<open>stopMu\<close>\<close>
  | StopMark "nat option" caller
  | StopAsk "nat option" caller stopping "child list"
  | StopSignal "nat option" caller stopping "child list"
  | StopWait "nat option" caller stopping "child list"
  | StopKill caller "child list" "unit result"
  | StopEnd caller "unit result"
  | StopUnlock caller "unit result"
  | WaitCall "nat option"
  | WaitCheck "nat option" runtime_status
  | WaitPromote "nat option"
  | WaitSleep "nat option"
  | WatchChild child \<comment> \<open>the goroutine of \<open>startChild\<close>, in \<open>process.Wait\<close>\<close>
  | ReportExit child
  | WatchContext "nat option" "nat option" \<comment> \<open>the goroutine at the end of \<open>Start\<close>\<close>
  | Finished "unit result"

datatype outcome =
    Goes
  | Fails
  | Prepared "string + prepared_start"
  | Health "unit result" "unit result"
  | Fires \<comment> \<open>a timer\<close>
  | Done \<comment> \<open>the context\<close>

definition ctx_error :: "nat option \<Rightarrow> shared \<Rightarrow> go_error option" where
  "ctx_error ctx s = (case ctx of None \<Rightarrow> None | Some n \<Rightarrow> dr_ctx s n)"

definition resume :: "caller \<Rightarrow> unit result \<Rightarrow> thread" where
  "resume k r = (case k of FromOutside \<Rightarrow> Finished r | FromStart \<Rightarrow> MarkFailed)"

definition launch_failed :: "shared \<Rightarrow> shared" where
  "launch_failed = set_status (\<lambda>t. t\<lparr>st_State := StateFailed, st_LastError := ''start council''\<rparr>)"

text \<open>One step of a thread: the new state, what is left of the thread, and the goroutines it
  has started; \<open>None\<close> where it cannot run with this outcome.\<close>

fun start_step ::
  "runtime_options \<Rightarrow> outcome \<Rightarrow> thread \<Rightarrow> shared \<Rightarrow> (shared \<times> thread \<times> thread list) option" where
  "start_step o' out (StartCall ctx) s =
     (case start_begin s of Inl e \<Rightarrow> Some (s, Finished (Inl e), []) | Inr s1 \<Rightarrow> Some (s1, Prepare ctx, []))"
| "start_step o' out (Prepare ctx) s =
     (case out of
        Prepared (Inl message) \<Rightarrow> Some (s, FailWith message, [])
      | Prepared (Inr p) \<Rightarrow> Some (s, LaunchRunner ctx p, [])
      | _ \<Rightarrow> None)"
| "start_step o' out (FailWith message) s = Some (fail_start message s, Finished (Inl (Err message)), [])"
| "start_step o' out (LaunchRunner ctx p) s =
     (case out of
        Fails \<Rightarrow> Some (s, FailWith ''start runner'', [])
      | Goes \<Rightarrow> (case launch ''runner'' (runner_spec o' p) s of
          (c, s1) \<Rightarrow> Some (s1, LaunchCouncil ctx p c, [WatchChild c]))
      | _ \<Rightarrow> None)"
| "start_step o' out (LaunchCouncil ctx p runner) s =
     (case out of
        Fails \<Rightarrow> Some (s, HoldRunner runner, [])
      | Goes \<Rightarrow> (case launch ''council'' (council_spec o' p) s of
          (c, s1) \<Rightarrow> Some (s1, Publish ctx p runner c, [WatchChild c]))
      | _ \<Rightarrow> None)"
| "start_step o' out (HoldRunner runner) s = Some (set_children [runner] s, StopCall None FromStart, [])"
| "start_step o' out MarkFailed s = Some (launch_failed s, Finished (Inl (Err ''start council'')), [])"
| "start_step o' out (Publish ctx p runner council) s =
     Some (publish o' p runner council s, Finished (Inr ()), [WatchContext ctx (dr_stopWatch s)])"
| "start_step o' out _ s = None"

fun stop_step :: "outcome \<Rightarrow> thread \<Rightarrow> shared \<Rightarrow> (shared \<times> thread \<times> thread list) option" where
  "stop_step out (StopCall ctx k) s =
     (if dr_stopMu s then None else Some (s\<lparr>dr_stopMu := True\<rparr>, StopMark ctx k, []))"
| "stop_step out (StopMark ctx k) s =
     (if st_State (dr_status s) = StateStopped then Some (s, StopUnlock k (Inr ()), [])
      else (case stop_mark s of (sn, s1) \<Rightarrow> Some (s1, StopAsk ctx k sn (rev (sn_children sn)), [])))"
| "stop_step out (StopAsk ctx k sn (c # cs)) s = Some (ask_shutdown sn c s, StopAsk ctx k sn cs, [])"
| "stop_step out (StopAsk ctx k sn []) s = Some (s, StopSignal ctx k sn (rev (sn_children sn)), [])"
| "stop_step out (StopSignal ctx k sn (c # cs)) s = Some (signal_child c s, StopSignal ctx k sn cs, [])"
| "stop_step out (StopSignal ctx k sn []) s = Some (s, StopWait ctx k sn (sn_children sn), [])"
| "stop_step out (StopWait ctx k sn []) s = Some (s, StopEnd k (Inr ()), [])"
| "stop_step out (StopWait ctx k sn (c # cs)) s =
     (case out of
        Goes \<Rightarrow> if ch_pid c \<in> dr_closed s then Some (s, StopWait ctx k sn cs, []) else None
      | Done \<Rightarrow> (case ctx_error ctx s of
           None \<Rightarrow> None | Some e \<Rightarrow> Some (s, StopKill k (sn_children sn) (Inl e), []))
      | Fires \<Rightarrow> Some (s, StopKill k (sn_children sn) (Inr ()), [])
      | _ \<Rightarrow> None)"
| "stop_step out (StopKill k (c # cs) r) s = Some (kill_child c s, StopKill k cs r, [])"
| "stop_step out (StopKill k [] r) s = Some (s, StopEnd k r, [])"
| "stop_step out (StopEnd k r) s = Some (mark_stopped s, StopUnlock k r, [])"
| "stop_step out (StopUnlock k r) s = Some (s\<lparr>dr_stopMu := False\<rparr>, resume k r, [])"
| "stop_step out _ s = None"

fun wait_step :: "outcome \<Rightarrow> thread \<Rightarrow> shared \<Rightarrow> (shared \<times> thread \<times> thread list) option" where
  "wait_step out (WaitCall ctx) s =
     (case wait_status (dr_status s) of
        Some r \<Rightarrow> Some (s, Finished r, []) | None \<Rightarrow> Some (s, WaitCheck ctx (dr_status s), []))"
| "wait_step out (WaitCheck ctx t) s =
     (case out of
        Health (Inr _) (Inr _) \<Rightarrow> Some (s, WaitPromote ctx, [])
      | Health _ _ \<Rightarrow> Some (s, WaitSleep ctx, [])
      | _ \<Rightarrow> None)"
| "wait_step out (WaitPromote ctx) s =
     (let s1 = promote s in
      Some (s1, if st_State (dr_status s1) = StateReady then Finished (Inr ()) else WaitCall ctx, []))"
| "wait_step out (WaitSleep ctx) s =
     (case out of
        Fires \<Rightarrow> Some (s, WaitCall ctx, [])
      | Done \<Rightarrow> (case ctx_error ctx s of None \<Rightarrow> None | Some e \<Rightarrow> Some (s, Finished (Inl e), []))
      | _ \<Rightarrow> None)"
| "wait_step out _ s = None"

fun watch_step :: "outcome \<Rightarrow> thread \<Rightarrow> shared \<Rightarrow> (shared \<times> thread \<times> thread list) option" where
  "watch_step out (WatchChild c) s =
     (if ch_pid c \<in> dr_exited s then Some (close_chan (ch_pid c) s, ReportExit c, []) else None)"
| "watch_step out (ReportExit c) s = Some (report_exit (ch_name c) s, Finished (Inr ()), [])"
| "watch_step out (WatchContext ctx ch) s =
     (case out of
        Done \<Rightarrow> (case ctx_error ctx s of None \<Rightarrow> None | Some _ \<Rightarrow> Some (s, StopCall None FromOutside, []))
      | Goes \<Rightarrow> (case ch of
           None \<Rightarrow> None | Some n \<Rightarrow> if n \<in> dr_closed s then Some (s, Finished (Inr ()), []) else None)
      | _ \<Rightarrow> None)"
| "watch_step out _ s = None"

definition thread_step ::
  "runtime_options \<Rightarrow> outcome \<Rightarrow> thread \<Rightarrow> shared \<Rightarrow> (shared \<times> thread \<times> thread list) option" where
  "thread_step o' out t s =
     (case start_step o' out t s of Some r \<Rightarrow> Some r | None \<Rightarrow>
     (case stop_step out t s of Some r \<Rightarrow> Some r | None \<Rightarrow>
     (case wait_step out t s of Some r \<Rightarrow> Some r | None \<Rightarrow> watch_step out t s)))"

section \<open>The system\<close>

text \<open>A client may call the three operations when \<open>may\<close> allows it; a process may exit and a
  context may end at any time.\<close>

primrec is_call :: "thread \<Rightarrow> bool" where
  "is_call (StartCall ctx) = True" | "is_call (StopCall ctx k) = (k = FromOutside)" | "is_call (WaitCall ctx) = True"
| "is_call (Prepare ctx) = False" | "is_call (LaunchRunner ctx p) = False" | "is_call (LaunchCouncil ctx p c) = False"
| "is_call (Publish ctx p c d) = False" | "is_call (FailWith m) = False" | "is_call (HoldRunner c) = False"
| "is_call MarkFailed = False" | "is_call (StopMark ctx k) = False" | "is_call (StopAsk ctx k sn cs) = False"
| "is_call (StopSignal ctx k sn cs) = False" | "is_call (StopWait ctx k sn cs) = False"
| "is_call (StopKill k cs r) = False" | "is_call (StopEnd k r) = False" | "is_call (StopUnlock k r) = False"
| "is_call (WaitCheck ctx t) = False" | "is_call (WaitPromote ctx) = False" | "is_call (WaitSleep ctx) = False"
| "is_call (WatchChild c) = False" | "is_call (ReportExit c) = False" | "is_call (WatchContext ctx ch) = False"
| "is_call (Finished r) = False"

type_synonym system = "shared \<times> thread list"
type_synonym discipline = "thread list \<Rightarrow> thread \<Rightarrow> bool"

inductive sys_step :: "runtime_options \<Rightarrow> discipline \<Rightarrow> system \<Rightarrow> system \<Rightarrow> bool" for o' may where
  run: "thread_step o' out t s = Some (s', t', new) \<Longrightarrow>
    sys_step o' may (s, xs @ t # ys) (s', xs @ t' # ys @ new)"
| call: "is_call t \<Longrightarrow> may ts t \<Longrightarrow> sys_step o' may (s, ts) (s, ts @ [t])"
| exit: "p \<in> fst ` set (dr_started s) \<Longrightarrow> sys_step o' may (s, ts) (s\<lparr>dr_exited := insert p (dr_exited s)\<rparr>, ts)"
| cancel: "dr_ctx s n = None \<Longrightarrow> sys_step o' may (s, ts) (s\<lparr>dr_ctx := (dr_ctx s)(n \<mapsto> e)\<rparr>, ts)"

definition new_system :: "system \<Rightarrow> bool" where
  "new_system x \<longleftrightarrow> x = (new_runtime, [])"

definition reachable :: "runtime_options \<Rightarrow> discipline \<Rightarrow> system \<Rightarrow> bool" where
  "reachable o' may = attains new_system (sys_step o' may)"

lemma reachable_init: "reachable o' may (new_runtime, [])"
  unfolding reachable_def by (rule attains_init) (simp add: new_system_def)

lemma reachable_step: "reachable o' may x \<Longrightarrow> sys_step o' may x y \<Longrightarrow> reachable o' may y"
  unfolding reachable_def by (rule attains_step)

text \<open>Two kinds of clients: any calls at any time; and, as the desktop program does it, one
  \<open>Start\<close>, and the other calls once it has returned.\<close>

definition any_calls :: discipline where
  "any_calls ts t = True"

fun in_start :: "thread \<Rightarrow> bool" where
  "in_start (StartCall ctx) = True"
| "in_start (Prepare ctx) = True"
| "in_start (LaunchRunner ctx p) = True"
| "in_start (LaunchCouncil ctx p c) = True"
| "in_start (Publish ctx p c d) = True"
| "in_start (FailWith m) = True"
| "in_start (HoldRunner c) = True"
| "in_start MarkFailed = True"
| "in_start (StopCall ctx k) = (k = FromStart)"
| "in_start (StopMark ctx k) = (k = FromStart)"
| "in_start (StopAsk ctx k sn cs) = (k = FromStart)"
| "in_start (StopSignal ctx k sn cs) = (k = FromStart)"
| "in_start (StopWait ctx k sn cs) = (k = FromStart)"
| "in_start (StopKill k cs r) = (k = FromStart)"
| "in_start (StopEnd k r) = (k = FromStart)"
| "in_start (StopUnlock k r) = (k = FromStart)"
| "in_start _ = False"

definition one_start :: discipline where
  "one_start ts t \<longleftrightarrow> (case t of StartCall _ \<Rightarrow> ts = [] | _ \<Rightarrow> ts \<noteq> [] \<and> (\<forall>u\<in>set ts. \<not> in_start u))"

lemma thread_step_cases:
  assumes "thread_step o' out t s = Some r"
  obtains (start) "start_step o' out t s = Some r" | (stop) "stop_step out t s = Some r"
  | (wait) "wait_step out t s = Some r" | (watch) "watch_step out t s = Some r"
  using assms by (auto simp: thread_step_def split: option.splits)

section \<open>Channels\<close>

fun watched :: "thread \<Rightarrow> nat list" where
  "watched (WatchChild c) = [ch_pid c]"
| "watched _ = []"

definition watching :: "thread list \<Rightarrow> nat list" where
  "watching ts = concat (map watched ts)"

lemma watching_simps [simp]:
  "watching [] = []" "watching (t # ts) = watched t @ watching ts" "watching (xs @ ys) = watching xs @ watching ys"
  by (simp_all add: watching_def)

definition pids :: "shared \<Rightarrow> nat set" where
  "pids s = fst ` set (dr_started s)"

text \<open>\<open>W\<close> has the processes whose goroutine is still in \<open>process.Wait\<close>.\<close>

definition channels_ok :: "shared \<Rightarrow> nat list \<Rightarrow> bool" where
  "channels_ok s W \<longleftrightarrow>
     \<not> dr_panic s \<and>
     (\<forall>n. dr_stopWatch s = Some n \<longrightarrow> n < dr_fresh s \<and> n \<notin> dr_closed s \<and> n \<notin> pids s) \<and>
     (\<forall>n\<in>dr_closed s. n < dr_fresh s) \<and> (\<forall>n\<in>pids s. n < dr_fresh s) \<and>
     (\<forall>n\<in>pids s. n \<in> dr_closed s \<longrightarrow> n \<in> dr_exited s) \<and>
     distinct W \<and> (\<forall>n\<in>set W. n \<in> pids s \<and> n \<notin> dr_closed s)"

lemma channels_perm: "channels_ok s (xs @ zs @ ys) \<longleftrightarrow> channels_ok s (zs @ xs @ ys)"
  unfolding channels_ok_def by auto

lemma channels_status [simp]: "channels_ok (set_status f s) W = channels_ok s W"
  by (simp add: channels_ok_def set_status_def pids_def)

lemma channels_same [simp]:
  "channels_ok (fail_start m s) W = channels_ok s W" "channels_ok (launch_failed s) W = channels_ok s W"
  "channels_ok (report_exit nm s) W = channels_ok s W" "channels_ok (promote s) W = channels_ok s W"
  "channels_ok (set_children cs s) W = channels_ok s W" "channels_ok (publish o' p c d s) W = channels_ok s W"
  "channels_ok (ask_shutdown sn c s) W = channels_ok s W" "channels_ok (signal_child c s) W = channels_ok s W"
  "channels_ok (kill_child c s) W = channels_ok s W" "channels_ok (mark_stopped s) W = channels_ok s W"
  "channels_ok (s\<lparr>dr_stopMu := b\<rparr>) W = channels_ok s W"
  unfolding fail_start_def launch_failed_def report_exit_def promote_def publish_def mark_stopped_def
  by (simp_all add: set_children_def ask_shutdown_def signal_child_def kill_child_def,
      simp_all add: channels_ok_def pids_def)

lemma pids_updates [simp]:
  "pids (s\<lparr>dr_status := a\<rparr>) = pids s" "pids (s\<lparr>dr_stopWatch := b\<rparr>) = pids s" "pids (s\<lparr>dr_fresh := n\<rparr>) = pids s"
  "pids (s\<lparr>dr_closed := c\<rparr>) = pids s" "pids (s\<lparr>dr_panic := d\<rparr>) = pids s" "pids (s\<lparr>dr_exited := c\<rparr>) = pids s"
  "pids (s\<lparr>dr_ctx := g\<rparr>) = pids s" "pids (s\<lparr>dr_killed := c\<rparr>) = pids s"
  "pids (s\<lparr>dr_started := dr_started s @ [(n, spec)]\<rparr>) = insert n (pids s)"
  by (simp_all add: pids_def)

lemma channels_begin: "start_begin s = Inr s' \<Longrightarrow> channels_ok s W \<Longrightarrow> channels_ok s' W"
  unfolding channels_ok_def start_begin_def Let_def
  by (clarsimp split: if_splits) (metis less_SucI less_irrefl)

lemma channels_launch: "launch nm spec s = (c, s') \<Longrightarrow> channels_ok s W \<Longrightarrow> channels_ok s' (ch_pid c # W)"
  unfolding channels_ok_def launch_def by clarsimp (metis less_SucI less_irrefl)

lemma channels_mark: "stop_mark s = (sn, s') \<Longrightarrow> channels_ok s W \<Longrightarrow> channels_ok s' W"
  unfolding channels_ok_def stop_mark_def set_status_def close_chan_def
  by (auto split: option.splits)

lemma channels_exit: "channels_ok s (n # W) \<Longrightarrow> n \<in> dr_exited s \<Longrightarrow> channels_ok (close_chan n s) W"
  unfolding channels_ok_def close_chan_def by auto

lemmas section_defs = start_begin_def fail_start_def launch_def report_exit_def set_children_def publish_def
  promote_def stop_mark_def ask_shutdown_def signal_child_def kill_child_def mark_stopped_def set_status_def
  launch_failed_def resume_def close_chan_def shutdown_url_def ctx_error_def

lemmas step_splits = if_splits option.splits outcome.splits sum.splits prod.splits caller.splits

lemma start_step_channels:
  assumes "start_step o' out t s = Some (s', t', new)" "channels_ok s (watched t @ W)"
  shows "channels_ok s' (watched t' @ watching new @ W)"
  using assms by (cases t) (auto simp: channels_begin channels_launch split: step_splits)

lemma stop_step_channels:
  assumes "stop_step out t s = Some (s', t', new)" "channels_ok s (watched t @ W)"
  shows "channels_ok s' (watched t' @ watching new @ W)"
  using assms
  by (cases "(out, t, s)" rule: stop_step.cases) (auto simp: channels_mark resume_def split: step_splits)

lemma wait_step_channels:
  assumes "wait_step out t s = Some (s', t', new)" "channels_ok s (watched t @ W)"
  shows "channels_ok s' (watched t' @ watching new @ W)"
  using assms by (cases t) (auto simp: Let_def split: step_splits)

lemma watch_step_channels:
  assumes "watch_step out t s = Some (s', t', new)" "channels_ok s (watched t @ W)"
  shows "channels_ok s' (watched t' @ watching new @ W)"
  using assms by (cases t) (auto simp: channels_exit split: step_splits)

interpretation channels: kept_invariant new_system "sys_step o' may"
  "\<lambda>x. channels_ok (fst x) (watching (snd x))" for o' may
proof unfold_locales
  fix x
  assume "new_system x"
  then show "channels_ok (fst x) (watching (snd x))"
    by (simp add: new_system_def channels_ok_def new_runtime_def pids_def)
next
  fix x y
  assume ok: "channels_ok (fst x) (watching (snd x))" and "sys_step o' may x y"
  from this(2) show "channels_ok (fst y) (watching (snd y))"
  proof (cases rule: sys_step.cases)
    case (run out t s s' t' new xs ys)
    have old: "channels_ok s (watched t @ watching xs @ watching ys)"
      using ok run(1) by (simp add: channels_perm)
    from run(3) old have "channels_ok s' (watched t' @ watching new @ watching xs @ watching ys)"
      by (cases rule: thread_step_cases)
        (rule start_step_channels stop_step_channels wait_step_channels watch_step_channels; assumption)+
    then show ?thesis using run(2) by (auto simp: channels_ok_def)
  next
    case (call t ts s)
    then show ?thesis using ok by (cases t) auto
  qed (use ok in \<open>auto simp: channels_ok_def pids_def\<close>)
qed

text \<open>
  C36. No channel of the desktop runtime is closed twice. Whatever the clients call, in every
  interleaving of the goroutines, of exits of the processes and of ends of contexts, the
  \<open>close\<close> of a process's \<open>done\<close> and the \<open>close\<close> of \<open>stopWatch\<close> find the channel open: neither
  panics, and a process whose \<open>done\<close> is closed has exited.
\<close>

theorem channels_closed_once:
  assumes "reachable o' may (s, ts)"
  shows "\<not> dr_panic s \<and> (\<forall>n\<in>dr_closed s. n \<in> fst ` set (dr_started s) \<longrightarrow> n \<in> dr_exited s)"
  using channels.attains_inv [OF assms [unfolded reachable_def]] by (auto simp: channels_ok_def pids_def)

section \<open>The session of the WebView\<close>

definition session_of :: "runtime_options \<Rightarrow> prepared_start \<Rightarrow> string \<times> string" where
  "session_of o' p = (service_url (pr_councilHTTP p) (op_TLSCert o') (op_TLSKey o'), pr_token p)"

definition session_ok :: "runtime_options \<Rightarrow> shared \<Rightarrow> bool" where
  "session_ok o' s \<longleftrightarrow>
     st_CouncilURL (dr_status s) = [] \<or> dr_sessionToken s = [] \<or>
     (\<exists>p n. (n, council_spec o' p) \<in> set (dr_started s) \<and>
        (st_CouncilURL (dr_status s), dr_sessionToken s) = session_of o' p)"

fun publish_ok :: "runtime_options \<Rightarrow> shared \<Rightarrow> thread \<Rightarrow> bool" where
  "publish_ok o' s (Publish ctx p runner council) = ((ch_pid council, council_spec o' p) \<in> set (dr_started s))"
| "publish_ok o' s _ = True"

definition session_step :: "runtime_options \<Rightarrow> shared \<Rightarrow> shared \<Rightarrow> thread \<Rightarrow> thread list \<Rightarrow> bool" where
  "session_step o' s s' t' new \<longleftrightarrow>
     set (dr_started s) \<subseteq> set (dr_started s') \<and> session_ok o' s' \<and> (\<forall>u\<in>set (t' # new). publish_ok o' s' u)"

lemma session_cong:
  "dr_started s' = dr_started s \<Longrightarrow> st_CouncilURL (dr_status s') = st_CouncilURL (dr_status s) \<Longrightarrow>
   dr_sessionToken s' = dr_sessionToken s \<Longrightarrow> session_ok o' s' = session_ok o' s"
  by (simp add: session_ok_def)

lemma session_grow:
  "set (dr_started s) \<subseteq> set (dr_started s') \<Longrightarrow> st_CouncilURL (dr_status s') = st_CouncilURL (dr_status s) \<Longrightarrow>
   dr_sessionToken s' = dr_sessionToken s \<Longrightarrow> session_ok o' s \<Longrightarrow> session_ok o' s'"
  unfolding session_ok_def by auto

lemma started_same [simp]:
  "dr_started (set_status f s) = dr_started s" "dr_started (set_children cs s) = dr_started s"
  "dr_started (ask_shutdown sn c s) = dr_started s" "dr_started (signal_child c s) = dr_started s"
  "dr_started (kill_child c s) = dr_started s" "dr_started (close_chan n s) = dr_started s"
  "dr_started (publish o' p c d s) = dr_started s" "dr_started (mark_stopped s) = dr_started s"
  "dr_started (fail_start m s) = dr_started s" "dr_started (launch_failed s) = dr_started s"
  "dr_started (promote s) = dr_started s" "dr_started (report_exit nm s) = dr_started s"
  by (simp_all add: set_status_def set_children_def ask_shutdown_def signal_child_def kill_child_def
      close_chan_def publish_def mark_stopped_def fail_start_def launch_failed_def promote_def report_exit_def)

lemma session_same [simp]:
  "session_ok o' (fail_start m s) = session_ok o' s" "session_ok o' (launch_failed s) = session_ok o' s"
  "session_ok o' (report_exit nm s) = session_ok o' s" "session_ok o' (promote s) = session_ok o' s"
  "session_ok o' (set_children cs s) = session_ok o' s" "session_ok o' (ask_shutdown sn c s) = session_ok o' s"
  "session_ok o' (signal_child c s) = session_ok o' s" "session_ok o' (kill_child c s) = session_ok o' s"
  "session_ok o' (close_chan n s) = session_ok o' s" "session_ok o' (mark_stopped s)"
  "session_ok o' (s\<lparr>dr_stopMu := b\<rparr>) = session_ok o' s"
  by (auto simp: set_status_def set_children_def ask_shutdown_def signal_child_def kill_child_def
      close_chan_def mark_stopped_def fail_start_def launch_failed_def promote_def report_exit_def
      session_ok_def)

lemma session_publish:
  "(ch_pid d, council_spec o' p) \<in> set (dr_started s) \<Longrightarrow> session_ok o' (publish o' p c d s)"
  by (auto simp: session_ok_def session_of_def publish_def set_status_def)

lemma session_begin: "start_begin s = Inr s' \<Longrightarrow> session_ok o' s' \<and> dr_started s' = dr_started s"
  by (auto simp: start_begin_def session_ok_def fresh_status_def Let_def split: if_splits)

lemma session_launch:
  assumes "launch nm spec s = (c, s')" "session_ok o' s"
  shows "session_ok o' s' \<and> set (dr_started s) \<subseteq> set (dr_started s') \<and> (ch_pid c, spec) \<in> set (dr_started s')"
  using assms session_grow [of s s' o'] by (auto simp: launch_def subset_insertI)

lemma stop_mark_sel:
  assumes "stop_mark s = (sn, s')"
  shows "dr_status s' = (dr_status s)\<lparr>st_State := StateStopping\<rparr>" "dr_children s' = dr_children s"
    "dr_sessionToken s' = dr_sessionToken s" "dr_stopMu s' = dr_stopMu s" "dr_started s' = dr_started s"
    "dr_exited s' = dr_exited s" "dr_killed s' = dr_killed s" "sn_children sn = dr_children s"
    "dr_closed s \<subseteq> dr_closed s'" "dr_closed s' \<subseteq> dr_closed s \<union> set_option (dr_stopWatch s)"
  using assms by (auto simp: stop_mark_def close_chan_def set_status_def split: option.splits if_splits)

lemma session_mark: "stop_mark s = (sn, s') \<Longrightarrow> session_ok o' s' = session_ok o' s \<and> dr_started s' = dr_started s"
  by (intro conjI session_cong) (simp_all add: stop_mark_sel)

lemma start_step_session:
  assumes "start_step o' out t s = Some (s', t', new)" "session_ok o' s" "publish_ok o' s t"
  shows "session_step o' s s' t' new"
  using assms by (cases t)
    (auto simp: session_step_def session_publish dest: session_begin session_launch split: step_splits)

lemma stop_step_session:
  assumes "stop_step out t s = Some (s', t', new)" "session_ok o' s"
  shows "session_step o' s s' t' new"
  using assms by (cases "(out, t, s)" rule: stop_step.cases)
    (auto simp: session_step_def resume_def dest: session_mark split: step_splits)

lemma wait_step_session:
  assumes "wait_step out t s = Some (s', t', new)" "session_ok o' s"
  shows "session_step o' s s' t' new"
  using assms by (cases t) (auto simp: session_step_def Let_def split: step_splits)

lemma watch_step_session:
  assumes "watch_step out t s = Some (s', t', new)" "session_ok o' s"
  shows "session_step o' s s' t' new"
  using assms by (cases t) (auto simp: session_step_def split: step_splits)

lemma publish_ok_mono: "set (dr_started s) \<subseteq> set (dr_started s') \<Longrightarrow> publish_ok o' s t \<Longrightarrow> publish_ok o' s' t"
  by (cases t) auto

definition sessions_ok :: "runtime_options \<Rightarrow> system \<Rightarrow> bool" where
  "sessions_ok o' x \<longleftrightarrow> session_ok o' (fst x) \<and> (\<forall>t\<in>set (snd x). publish_ok o' (fst x) t)"

interpretation session: kept_invariant new_system "sys_step o' may" "sessions_ok o'" for o' may
proof unfold_locales
  fix x
  assume "new_system x"
  then show "sessions_ok o' x"
    by (simp add: new_system_def sessions_ok_def session_ok_def new_runtime_def fresh_status_def)
next
  fix x y
  assume "sessions_ok o' x" and move: "sys_step o' may x y"
  note ok = this(1) [unfolded sessions_ok_def]
  from move show "sessions_ok o' y"
  proof (cases rule: sys_step.cases)
    case (run out t s s' t' new xs ys)
    have old: "session_ok o' s" "publish_ok o' s t" "\<forall>u\<in>set (xs @ ys). publish_ok o' s u"
      using ok run(1) by auto
    from run(3) old have "session_step o' s s' t' new"
      by (cases rule: thread_step_cases)
        (rule start_step_session stop_step_session wait_step_session watch_step_session; assumption)+
    then show ?thesis using run(2) old(3) publish_ok_mono [of s s' o'] by (auto simp: sessions_ok_def session_step_def)
  next
    case (call t ts s)
    then show ?thesis using ok by (cases t) (auto simp: sessions_ok_def)
  next
    case (exit p s ts)
    then show ?thesis using ok publish_ok_mono [of s "fst y" o'] by (auto simp: sessions_ok_def session_ok_def)
  next
    case (cancel s n ts e)
    then show ?thesis using ok publish_ok_mono [of s "fst y" o'] by (auto simp: sessions_ok_def session_ok_def)
  qed
qed

text \<open>
  C35. The WebView is given one council's address with that council's token. Whatever the clients
  call, in every interleaving, the session that \<open>WebRuntime\<close> returns has the address of a council
  process that was started with \<open>--listen\<close> at this address and with this \<open>--token\<close>: never the
  token of one run with the address of another.
\<close>

theorem web_session_matches_council:
  assumes "reachable o' may (s, ts)" "web_runtime s = Inr session"
  shows "\<exists>p n. (n, council_spec o' p) \<in> set (dr_started s) \<and> ws_SessionToken session = pr_token p \<and>
    ws_APIBase session = service_url (pr_councilHTTP p) (op_TLSCert o') (op_TLSKey o') @ ''/api/v1'' \<and>
    take 2 (sp_Args (council_spec o' p)) = [''--listen'', pr_councilHTTP p] \<and>
    (\<exists>i. sp_Args (council_spec o' p) ! i = ''--token'' \<and> sp_Args (council_spec o' p) ! Suc i = pr_token p)"
proof -
  have w: "st_CouncilURL (dr_status s) \<noteq> []" "dr_sessionToken s \<noteq> []"
    "session = \<lparr>ws_APIBase = st_CouncilURL (dr_status s) @ ''/api/v1'', ws_SessionToken = dr_sessionToken s\<rparr>"
    using assms(2) by (auto simp: web_runtime_def Let_def split: if_splits)
  then obtain p n where p: "(n, council_spec o' p) \<in> set (dr_started s)"
    "(st_CouncilURL (dr_status s), dr_sessionToken s) = session_of o' p"
    using session.attains_inv [OF assms(1) [unfolded reachable_def]] by (auto simp: sessions_ok_def session_ok_def)
  have args: "take 2 (sp_Args (council_spec o' p)) = [''--listen'', pr_councilHTTP p]"
    "sp_Args (council_spec o' p) ! 4 = ''--token''" "sp_Args (council_spec o' p) ! Suc 4 = pr_token p"
    by (simp_all add: council_spec_def)
  show ?thesis
    by (intro exI [of _ p] exI [of _ n] conjI exI [of _ 4] p(1) args) (use p(2) w(3) in \<open>simp_all add: session_of_def\<close>)
qed

section \<open>No process is left behind\<close>

text \<open>Every process the runtime has started is among \<open>P\<close>, has exited, or has been sent a kill.\<close>

definition covered :: "shared \<Rightarrow> nat set \<Rightarrow> bool" where
  "covered s P \<longleftrightarrow> pids s \<subseteq> P \<union> dr_exited s \<union> dr_killed s"

abbreviation state_of :: "shared \<Rightarrow> runtime_state" where
  "state_of s \<equiv> st_State (dr_status s)"

definition cpids :: "child list \<Rightarrow> nat set" where
  "cpids cs = ch_pid ` set cs"

lemma cpids_Nil [simp]: "cpids [] = {}"
  by (simp add: cpids_def)

definition idle_ok :: "shared \<Rightarrow> bool" where
  "idle_ok s \<longleftrightarrow> (state_of s = StateStopped \<longrightarrow> covered s {}) \<and>
     (state_of s \<noteq> StateStopped \<and> state_of s \<noteq> StateStopping \<longrightarrow> covered s (cpids (dr_children s)))"

definition running :: "shared \<Rightarrow> bool" where
  "running s \<longleftrightarrow> state_of s \<noteq> StateStopped \<and> state_of s \<noteq> StateStopping"

text \<open>What each thread that holds processes, or \<open>stopMu\<close>, can rely on.\<close>

fun local_ok :: "shared \<Rightarrow> thread \<Rightarrow> bool" where
  "local_ok s (StartCall ctx) = idle_ok s"
| "local_ok s (Prepare ctx) = (running s \<and> covered s {})"
| "local_ok s (LaunchRunner ctx p) = (running s \<and> covered s {})"
| "local_ok s (LaunchCouncil ctx p r) = (running s \<and> covered s {ch_pid r})"
| "local_ok s (Publish ctx p r c) = (running s \<and> covered s {ch_pid r, ch_pid c})"
| "local_ok s (FailWith m) = (running s \<and> covered s {})"
| "local_ok s (HoldRunner r) = (running s \<and> covered s {ch_pid r})"
| "local_ok s MarkFailed = covered s {}"
| "local_ok s (StopCall ctx k) = (k = FromStart \<longrightarrow> running s \<and> covered s (cpids (dr_children s)))"
| "local_ok s (StopMark ctx k) = (k = FromStart \<longrightarrow> running s \<and> covered s (cpids (dr_children s)))"
| "local_ok s (StopAsk ctx k sn cs) = (state_of s = StateStopping \<and> covered s (cpids (sn_children sn)))"
| "local_ok s (StopSignal ctx k sn cs) = (state_of s = StateStopping \<and> covered s (cpids (sn_children sn)))"
| "local_ok s (StopWait ctx k sn cs) =
     (state_of s = StateStopping \<and> covered s (cpids (sn_children sn)) \<and> covered s (cpids cs))"
| "local_ok s (StopKill k cs r) = (state_of s = StateStopping \<and> covered s (cpids cs))"
| "local_ok s (StopEnd k r) = (state_of s = StateStopping \<and> covered s {})"
| "local_ok s (StopUnlock k r) = covered s {}"
| "local_ok s _ = True"

fun past_mark :: "thread \<Rightarrow> bool" where
  "past_mark (StopAsk ctx k sn cs) = True"
| "past_mark (StopSignal ctx k sn cs) = True"
| "past_mark (StopWait ctx k sn cs) = True"
| "past_mark (StopKill k cs r) = True"
| "past_mark (StopEnd k r) = True"
| "past_mark _ = False"

fun holds :: "thread \<Rightarrow> bool" where
  "holds (StopMark ctx k) = True"
| "holds (StopUnlock k r) = True"
| "holds t = past_mark t"

fun bystander :: "thread \<Rightarrow> bool" where
  "bystander (WatchChild c) = True"
| "bystander (ReportExit c) = True"
| "bystander (Finished r) = True"
| "bystander _ = False"

definition system_ok :: "shared \<Rightarrow> thread list \<Rightarrow> bool" where
  "system_ok s ts \<longleftrightarrow>
     (\<forall>t\<in>set ts. local_ok s t) \<and>
     length (filter holds ts) = (if dr_stopMu s then 1 else 0) \<and>
     length (filter in_start ts) \<le> 1 \<and>
     ((\<exists>t\<in>set ts. in_start t) \<longrightarrow> (\<forall>t\<in>set ts. in_start t \<or> bystander t)) \<and>
     (state_of s = StateStopping \<longrightarrow> (\<exists>t\<in>set ts. past_mark t)) \<and>
     ((\<forall>t\<in>set ts. \<not> in_start t) \<longrightarrow> idle_ok s)"

lemma system_ok_mset:
  assumes "mset ts = mset us"
  shows "system_ok s ts = system_ok s us"
proof -
  have "length (filter P ts) = length (filter P us)" for P
    by (metis assms mset_filter size_mset)
  moreover have "set ts = set us" using assms by (rule mset_eq_setD)
  ultimately show ?thesis by (simp add: system_ok_def)
qed

lemma system_ok_perm:
  "system_ok s (xs @ t # ys) \<longleftrightarrow> system_ok s (t # xs @ ys)"
  "system_ok s (xs @ t' # ys @ new) \<longleftrightarrow> system_ok s (t' # new @ xs @ ys)"
  by (rule system_ok_mset, simp)+

lemma bystander_free: "bystander t \<Longrightarrow> \<not> holds t \<and> \<not> past_mark t \<and> \<not> in_start t"
  by (cases t) auto

lemma past_mark_holds: "past_mark t \<Longrightarrow> holds t"
  by (cases t) auto

lemma local_ok_free: "\<not> holds t \<Longrightarrow> \<not> in_start t \<Longrightarrow> local_ok s t"
  by (cases t) auto

lemma covered_mono:
  "covered s P \<Longrightarrow> P \<subseteq> Q \<Longrightarrow> pids s' = pids s \<Longrightarrow> dr_exited s \<subseteq> dr_exited s' \<Longrightarrow>
   dr_killed s \<subseteq> dr_killed s' \<Longrightarrow> covered s' Q"
  unfolding covered_def by blast

text \<open>What another thread does is harmless to a thread's own facts as long as it keeps these.\<close>

definition harmless :: "shared \<Rightarrow> shared \<Rightarrow> bool" where
  "harmless s s' \<longleftrightarrow> pids s' = pids s \<and> dr_exited s \<subseteq> dr_exited s' \<and> dr_killed s \<subseteq> dr_killed s' \<and>
     dr_children s' = dr_children s \<and> dr_stopMu s' = dr_stopMu s \<and>
     (state_of s' = state_of s \<or> running s \<and> running s')"

lemma harmless_idle: "harmless s s' \<Longrightarrow> idle_ok s \<Longrightarrow> idle_ok s'"
  unfolding harmless_def idle_ok_def running_def using covered_mono [of s _ _ s'] by fastforce

lemma harmless_keeps:
  assumes "harmless s s'"
  shows "covered s P \<Longrightarrow> covered s' P" "running s \<Longrightarrow> running s'" "dr_children s' = dr_children s"
    "state_of s = StateStopping \<Longrightarrow> state_of s' = StateStopping" "idle_ok s \<Longrightarrow> idle_ok s'"
  using assms covered_mono [of s P P s'] harmless_idle [OF assms] by (auto simp: harmless_def running_def)

lemma harmless_local: "harmless s s' \<Longrightarrow> local_ok s t \<Longrightarrow> local_ok s' t"
  by (cases t) (simp_all add: harmless_keeps)

lemma harmless_system:
  assumes "harmless s s'" "system_ok s ts"
  shows "system_ok s' ts"
  using assms harmless_local [OF assms(1)] harmless_idle [OF assms(1)]
  unfolding system_ok_def by (auto simp: harmless_def running_def)

text \<open>Replacing a thread that neither starts nor stops anything by others of that kind.\<close>

lemma swap_free:
  assumes "system_ok s (t # R)" "\<not> holds t" "\<not> in_start t"
    and "\<forall>u\<in>set us. \<not> holds u \<and> \<not> in_start u" "(\<exists>u\<in>set R. in_start u) \<longrightarrow> bystander t \<longrightarrow> (\<forall>u\<in>set us. bystander u)"
  shows "system_ok s (us @ R)"
proof -
  have "filter holds us = []" "filter in_start us = []" "\<forall>u\<in>set us. local_ok s u \<and> \<not> past_mark u"
    using assms(4) local_ok_free past_mark_holds by (auto simp: filter_empty_conv)
  with assms show ?thesis
    unfolding system_ok_def by (auto simp: past_mark_holds)
qed

lemma system_build:
  assumes "\<forall>u\<in>set R. \<not> holds u \<and> \<not> in_start u" "in_start t' \<longrightarrow> (\<forall>u\<in>set R. bystander u)"
    "\<not> in_start t' \<longrightarrow> idle_ok s'" "local_ok s' t'" "dr_stopMu s' = holds t'"
    "state_of s' = StateStopping \<longrightarrow> past_mark t'"
  shows "system_ok s' (t' # R)"
proof -
  have "filter holds R = []" "filter in_start R = []" "\<forall>u\<in>set R. local_ok s' u"
    using assms(1) local_ok_free by (auto simp: filter_empty_conv)
  with assms show ?thesis unfolding system_ok_def by auto
qed

lemma start_frame:
  assumes "system_ok s (t # R)" "in_start t"
  shows "\<forall>u\<in>set R. bystander u \<and> \<not> holds u \<and> \<not> in_start u" "dr_stopMu s = holds t"
    "state_of s = StateStopping \<longrightarrow> past_mark t" "local_ok s t"
proof -
  have "filter in_start R = []" using assms by (auto simp: system_ok_def)
  then show b: "\<forall>u\<in>set R. bystander u \<and> \<not> holds u \<and> \<not> in_start u"
    using assms bystander_free by (auto simp: system_ok_def filter_empty_conv)
  then have "filter holds R = []" by (simp add: filter_empty_conv)
  then show "dr_stopMu s = holds t" using assms by (auto simp: system_ok_def split: if_splits)
  show "state_of s = StateStopping \<longrightarrow> past_mark t" using assms b past_mark_holds by (auto simp: system_ok_def)
  show "local_ok s t" using assms by (simp add: system_ok_def)
qed

lemma outside_frame:
  assumes "system_ok s (t # R)" "\<not> in_start t" "\<not> bystander t" "holds t \<or> \<not> dr_stopMu s"
  shows "\<forall>u\<in>set R. \<not> holds u \<and> \<not> in_start u" "dr_stopMu s = holds t"
    "state_of s = StateStopping \<longrightarrow> past_mark t" "local_ok s t" "idle_ok s"
proof -
  have "filter holds R = []" using assms by (auto simp: system_ok_def split: if_splits)
  moreover have i: "\<forall>u\<in>set R. \<not> in_start u" using assms by (auto simp: system_ok_def)
  ultimately show h: "\<forall>u\<in>set R. \<not> holds u \<and> \<not> in_start u" by (simp add: filter_empty_conv)
  then have "filter holds R = []" by (simp add: filter_empty_conv)
  then show "dr_stopMu s = holds t" using assms by (auto simp: system_ok_def split: if_splits)
  show "state_of s = StateStopping \<longrightarrow> past_mark t" using assms h past_mark_holds by (auto simp: system_ok_def)
  show "local_ok s t" using assms by (simp add: system_ok_def)
  show "idle_ok s" using assms i by (simp add: system_ok_def)
qed

lemma covered_same [simp]:
  "covered (set_status f s) P = covered s P" "covered (set_children cs s) P = covered s P"
  "covered (ask_shutdown sn c s) P = covered s P" "covered (signal_child c s) P = covered s P"
  "covered (publish o' p c d s) P = covered s P" "covered (mark_stopped s) P = covered s P"
  "covered (fail_start m s) P = covered s P" "covered (launch_failed s) P = covered s P"
  "covered (s\<lparr>dr_stopMu := b\<rparr>) P = covered s P"
  by (simp_all add: covered_def pids_def set_status_def set_children_def ask_shutdown_def signal_child_def
      publish_def mark_stopped_def fail_start_def launch_failed_def)

lemma section_state [simp]:
  "state_of (fail_start m s) = StateFailed" "state_of (launch_failed s) = StateFailed"
  "state_of (set_children cs s) = state_of s" "state_of (publish o' p c d s) = state_of s"
  "state_of (ask_shutdown sn c s) = state_of s" "state_of (signal_child c s) = state_of s"
  "state_of (kill_child c s) = state_of s" "state_of (mark_stopped s) = StateStopped"
  "dr_stopMu (fail_start m s) = dr_stopMu s" "dr_stopMu (launch_failed s) = dr_stopMu s"
  "dr_stopMu (set_children cs s) = dr_stopMu s" "dr_stopMu (publish o' p c d s) = dr_stopMu s"
  "dr_stopMu (ask_shutdown sn c s) = dr_stopMu s" "dr_stopMu (signal_child c s) = dr_stopMu s"
  "dr_stopMu (kill_child c s) = dr_stopMu s" "dr_stopMu (mark_stopped s) = dr_stopMu s"
  "dr_children (set_children cs s) = cs" "dr_children (publish o' p c d s) = [c, d]"
  "dr_children (fail_start m s) = dr_children s" "dr_children (launch_failed s) = dr_children s"
  by (simp_all add: fail_start_def launch_failed_def set_status_def set_children_def publish_def
      ask_shutdown_def signal_child_def kill_child_def mark_stopped_def)

lemma idle_simps:
  "idle_ok (s\<lparr>dr_stopMu := b\<rparr>) = idle_ok s" "idle_ok (ask_shutdown sn c s) = idle_ok s"
  "idle_ok (signal_child c s) = idle_ok s" "state_of s = StateStopping \<Longrightarrow> idle_ok s"
  "covered s {} \<Longrightarrow> idle_ok (mark_stopped s)"
  by (auto simp: idle_ok_def signal_child_def ask_shutdown_def covered_def pids_def mark_stopped_def set_status_def)

lemma covered_none: "covered s {} \<Longrightarrow> covered s P"
  by (auto simp: covered_def)

lemma covered_launch: "launch nm spec s = (c, s') \<Longrightarrow> covered s P \<Longrightarrow> covered s' (insert (ch_pid c) P)"
  by (auto simp: launch_def covered_def)

lemma launch_ok:
  "launch nm spec s = (c, s') \<Longrightarrow> covered s P \<Longrightarrow>
   covered s' (insert (ch_pid c) P) \<and> dr_status s' = dr_status s \<and> dr_stopMu s' = dr_stopMu s"
  using covered_launch [of nm spec s c s' P] by (auto simp: launch_def)

lemma start_begin_ok:
  assumes "start_begin s = Inr s'" "idle_ok s"
  shows "running s' \<and> covered s' {} \<and> dr_stopMu s' = dr_stopMu s"
  using assms by (auto simp: start_begin_def idle_ok_def covered_def running_def fresh_status_def Let_def
      split: if_splits)

lemma running_cong: "state_of s' = state_of s \<Longrightarrow> running s' = running s"
  by (simp add: running_def)

lemma start_step_ok:
  assumes "start_step o' out t s = Some (s', t', new)" "system_ok s (t # R)"
  shows "system_ok s' (t' # new @ R)"
proof -
  have i: "in_start t" "\<not> holds t" using assms(1) by (cases t; simp)+
  note f = start_frame [OF assms(2) i(1)]
  have st: "state_of s \<noteq> StateStopping" using f(3) i(2) past_mark_holds by blast
  have build: "(\<forall>u\<in>set new. bystander u) \<or> \<not> in_start t' \<and> (\<forall>u\<in>set new. \<not> holds u \<and> \<not> in_start u) \<Longrightarrow>
      (\<not> in_start t' \<Longrightarrow> idle_ok s') \<Longrightarrow> local_ok s' t' \<Longrightarrow> \<not> holds t' \<Longrightarrow> \<not> dr_stopMu s' \<Longrightarrow>
      state_of s' \<noteq> StateStopping \<Longrightarrow> ?thesis"
    using f(1) bystander_free by (intro system_build) auto
  show ?thesis
  proof (cases t)
    case (StartCall ctx)
    with assms(1) f i st show ?thesis
      by (intro build) (auto simp: running_def dest!: start_begin_ok split: sum.splits)
  next
    case (LaunchRunner ctx p)
    with assms(1) f i st show ?thesis
      by (intro build) (auto simp: running_def dest!: launch_ok split: outcome.splits prod.splits)
  next
    case (LaunchCouncil ctx p r)
    with assms(1) f i st show ?thesis
      by (intro build)
        (auto simp: running_def insert_commute dest!: launch_ok split: outcome.splits prod.splits)
  next
    case (Publish ctx p r c)
    with assms(1) f i st show ?thesis
      by (intro build) (auto simp: running_def idle_ok_def cpids_def)
  next
    case (Prepare ctx)
    with assms(1) f i st show ?thesis
      by (intro build) (auto split: outcome.splits sum.splits)
  next
    case (FailWith m)
    with assms(1) f i st show ?thesis
      by (intro build) (auto simp: running_def idle_ok_def covered_none)
  next
    case (HoldRunner r)
    with assms(1) f i st show ?thesis
      by (intro build) (auto simp: running_def cpids_def)
  next
    case MarkFailed
    with assms(1) f i st show ?thesis
      by (intro build) (auto simp: idle_ok_def covered_none)
  qed (use assms(1) in simp_all)
qed

lemma in_start_resume: "in_start (resume k r) = (k = FromStart)" "\<not> holds (resume k r)" "local_ok s (resume k r) = (k = FromStart \<longrightarrow> covered s {})"
  by (cases k; simp add: resume_def)+

lemma covered_kill:
  assumes "covered s (cpids (c # cs))" "\<forall>n\<in>pids s. n \<in> dr_closed s \<longrightarrow> n \<in> dr_exited s"
  shows "covered (kill_child c s) (cpids cs)"
  using assms by (auto simp: covered_def cpids_def kill_child_def)

lemma covered_waited:
  assumes "covered s (cpids (c # cs))" "\<forall>n\<in>pids s. n \<in> dr_closed s \<longrightarrow> n \<in> dr_exited s" "ch_pid c \<in> dr_closed s"
  shows "covered s (cpids cs)"
  using assms by (auto simp: covered_def cpids_def)

lemma stop_mark_ok:
  assumes "stop_mark s = (sn, s')"
  shows "state_of s' = StateStopping" "dr_stopMu s' = dr_stopMu s"
    "covered s (cpids (dr_children s)) \<Longrightarrow> covered s' (cpids (sn_children sn))"
  using stop_mark_sel [OF assms] by (auto simp: covered_def pids_def)

lemma stop_step_ok:
  assumes "stop_step out t s = Some (s', t', new)" "system_ok s (t # R)"
    and "\<forall>n\<in>pids s. n \<in> dr_closed s \<longrightarrow> n \<in> dr_exited s"
  shows "system_ok s' (t' # new @ R)"
proof -
  have b: "\<not> bystander t" "holds t \<or> \<not> dr_stopMu s" using assms(1) by (cases t; auto split: if_splits)+
  have new: "new = []" and same: "in_start t' = in_start t"
    using assms(1)
    by (cases "(out, t, s)" rule: stop_step.cases; auto simp: in_start_resume split: step_splits)+
  have fr: "\<forall>u\<in>set R. \<not> holds u \<and> \<not> in_start u" "in_start t \<longrightarrow> (\<forall>u\<in>set R. bystander u)" "dr_stopMu s = holds t"
    "state_of s = StateStopping \<longrightarrow> past_mark t" "local_ok s t" "\<not> in_start t \<longrightarrow> idle_ok s"
    using start_frame [OF assms(2)] outside_frame [OF assms(2) _ b] by (cases "in_start t"; blast)+
  have build: "(\<not> in_start t \<Longrightarrow> idle_ok s') \<Longrightarrow> local_ok s' t' \<Longrightarrow> dr_stopMu s' = holds t' \<Longrightarrow>
      (state_of s' = StateStopping \<Longrightarrow> past_mark t') \<Longrightarrow> ?thesis"
    using fr same new by (intro system_build) auto
  show ?thesis
  proof (cases t)
    case (StopCall ctx k)
    with assms(1) fr show ?thesis
      by (intro build) (auto simp: idle_simps running_def split: if_splits)
  next
    case (StopMark ctx k)
    show ?thesis
    proof (cases "state_of s = StateStopped")
      case True
      with assms(1) fr StopMark have "covered s {}" by (cases k) (auto simp: idle_ok_def running_def)
      with assms(1) fr StopMark True show ?thesis by (intro build) auto
    next
      case False
      with fr StopMark have "covered s (cpids (dr_children s))" by (cases k) (auto simp: idle_ok_def)
      with assms(1) fr StopMark False show ?thesis
        by (intro build) (auto simp: stop_mark_ok idle_simps split: prod.splits)
    qed
  next
    case (StopAsk ctx k sn cs)
    with assms(1) fr show ?thesis by (cases cs; intro build) (auto simp: idle_simps)
  next
    case (StopSignal ctx k sn cs)
    with assms(1) fr show ?thesis by (cases cs; intro build) (auto simp: idle_simps)
  next
    case (StopWait ctx k sn cs)
    with assms(1,3) fr show ?thesis
      by (cases cs; intro build) (auto simp: idle_simps intro: covered_waited split: step_splits)
  next
    case (StopKill k cs r)
    with assms(1,3) fr show ?thesis
      by (cases cs; intro build) (auto simp: idle_simps covered_kill)
  next
    case (StopEnd k r)
    with assms(1) fr show ?thesis by (intro build) (auto simp: idle_simps)
  next
    case (StopUnlock k r)
    with assms(1) fr show ?thesis
      by (intro build) (auto simp: idle_simps in_start_resume)
  qed (use assms(1) in simp_all)
qed

lemma harmless_refl: "harmless s s"
  by (simp add: harmless_def)

lemma harmless_promote: "harmless s (promote s)"
  by (simp add: harmless_def promote_def set_status_def pids_def running_def)

lemma harmless_report: "harmless s (report_exit nm s)"
  by (simp add: harmless_def report_exit_def set_status_def pids_def running_def)

lemma harmless_close: "harmless s (close_chan n s)"
  by (simp add: harmless_def close_chan_def pids_def)

lemma wait_step_ok:
  assumes "wait_step out t s = Some (s', t', new)" "system_ok s (t # R)"
  shows "system_ok s' (t' # new @ R)"
proof -
  have h: "harmless s s'" "\<not> holds t" "\<not> in_start t" "\<not> bystander t" "\<not> holds t'" "\<not> in_start t'" "new = []"
    using assms(1)
    by (cases t; auto simp: Let_def harmless_promote harmless_refl split: step_splits)+
  have "system_ok s ([t'] @ R)" using h by (intro swap_free [OF assms(2)]) auto
  with h show ?thesis by (simp add: harmless_system)
qed

lemma watch_step_ok:
  assumes "watch_step out t s = Some (s', t', new)" "system_ok s (t # R)"
  shows "system_ok s' (t' # new @ R)"
proof -
  have h: "harmless s s'" "\<not> holds t" "\<not> in_start t" "\<not> holds t'" "\<not> in_start t'" "new = []"
    "bystander t \<longrightarrow> bystander t'"
    using assms(1)
    by (cases t; auto simp: harmless_report harmless_close harmless_refl split: step_splits)+
  have "system_ok s ([t'] @ R)" using h by (intro swap_free [OF assms(2)]) auto
  with h show ?thesis by (simp add: harmless_system)
qed

lemma call_ok:
  assumes "system_ok s ts" "is_call t" "one_start ts t"
  shows "system_ok s (t # ts)"
proof (cases "\<exists>ctx. t = StartCall ctx")
  case True
  with assms show ?thesis by (auto simp: one_start_def system_ok_def)
next
  case False
  with assms have "\<forall>u\<in>set ts. \<not> in_start u" "\<not> in_start t" "\<not> holds t"
    by (cases t; auto simp: one_start_def)+
  with assms local_ok_free [of t s] show ?thesis unfolding system_ok_def by auto
qed

text \<open>That closed channels are those of exited processes is taken from the channels' invariant.\<close>

interpretation services: kept_invariant new_system "sys_step o' one_start"
  "\<lambda>x. system_ok (fst x) (snd x)" for o'
proof unfold_locales
  fix x
  assume "new_system x"
  then show "system_ok (fst x) (snd x)"
    by (simp add: new_system_def system_ok_def new_runtime_def idle_ok_def fresh_status_def covered_def pids_def)
next
  fix x y
  assume reached: "attains new_system (sys_step o' one_start) x" and ok: "system_ok (fst x) (snd x)"
    and move: "sys_step o' one_start x y"
  have exited: "\<forall>n\<in>pids (fst x). n \<in> dr_closed (fst x) \<longrightarrow> n \<in> dr_exited (fst x)"
    using channels.attains_inv [OF reached] by (simp add: channels_ok_def)
  from move show "system_ok (fst y) (snd y)"
  proof (cases rule: sys_step.cases)
    case (run out t s s' t' new xs ys)
    have old: "system_ok s (t # xs @ ys)" using ok run(1) by (simp add: system_ok_perm)
    from run(3) have "system_ok s' (t' # new @ xs @ ys)"
      using old exited run(1)
      by (cases rule: thread_step_cases) (auto intro: start_step_ok stop_step_ok wait_step_ok watch_step_ok)
    then have "system_ok s' (xs @ t' # ys @ new)" by (rule iffD2 [OF system_ok_perm(2)])
    then show ?thesis using run(2) by simp
  next
    case (call t ts s)
    with ok have "system_ok s (t # ts)" by (auto intro: call_ok)
    then show ?thesis using call system_ok_mset [of "ts @ [t]" "t # ts"] by simp
  next
    case (exit p s ts)
    then have "harmless s (fst y)" by (auto simp: harmless_def)
    with ok exit show ?thesis by (auto intro: harmless_system)
  next
    case (cancel s n ts e)
    then have "harmless s (fst y)" by (auto simp: harmless_def)
    with ok cancel show ?thesis by (auto intro: harmless_system)
  qed
qed

text \<open>
  C34. Stopping leaves no process behind. If \<open>Start\<close> is called once and the other calls begin when
  it has returned, then, in every interleaving, whenever the runtime is in the state "stopped",
  and whenever a call of \<open>Stop\<close> is about to return, every process it has started has exited or
  has been sent a kill; in the states "starting", "ready" and "failed", with no \<open>Start\<close> or \<open>Stop\<close>
  on the way, the others are all among its children.
\<close>

theorem stop_leaves_no_process:
  assumes "reachable o' one_start (s, ts)" "\<forall>t\<in>set ts. \<not> in_start t"
    and "p \<in> fst ` set (dr_started s)" "p \<notin> dr_exited s" "p \<notin> dr_killed s"
  shows "st_State (dr_status s) \<noteq> StateStopped \<and> (\<forall>k r. StopUnlock k r \<notin> set ts) \<and>
    (st_State (dr_status s) = StateStopping \<or> p \<in> ch_pid ` set (dr_children s))"
proof -
  have ok: "system_ok s ts" using services.attains_inv [OF assms(1) [unfolded reachable_def]] by simp
  have p: "p \<in> pids s" using assms(3) by (simp add: pids_def)
  have "idle_ok s" using ok assms(2) by (simp add: system_ok_def)
  moreover have "covered s {}" if "StopUnlock k r \<in> set ts" for k r
    using ok that unfolding system_ok_def by (metis local_ok.simps(16))
  ultimately show ?thesis
    using p assms(4,5) by (auto simp: idle_ok_def covered_def cpids_def)
qed

section \<open>Stop ends\<close>

text \<open>The steps left to a call of \<open>Stop\<close> that has taken its copies.\<close>

fun stop_work :: "thread \<Rightarrow> nat" where
  "stop_work (StopAsk ctx k sn cs) = length cs + 3 * length (sn_children sn) + 6"
| "stop_work (StopSignal ctx k sn cs) = length cs + 2 * length (sn_children sn) + 5"
| "stop_work (StopWait ctx k sn cs) = length cs + length (sn_children sn) + 4"
| "stop_work (StopKill k cs r) = length cs + 3"
| "stop_work (StopEnd k r) = 2"
| "stop_work (StopUnlock k r) = 1"
| "stop_work _ = 0"

text \<open>The steps of one thread, each with the outcome and the state it finds: in between the
  others may have changed the state at will.\<close>

fun own_steps :: "runtime_options \<Rightarrow> (outcome \<times> shared) list \<Rightarrow> thread \<Rightarrow> thread option" where
  "own_steps o' [] t = Some t"
| "own_steps o' ((out, s) # rest) t =
     (case thread_step o' out t s of None \<Rightarrow> None | Some (_, t', _) \<Rightarrow> own_steps o' rest t')"

lemma holder_step:
  assumes "thread_step o' out t s = Some (s', t', new)" "holds t" "\<nexists>ctx k. t = StopMark ctx k"
  shows "stop_work t' < stop_work t \<and> (if holds t' then \<nexists>ctx k. t' = StopMark ctx k
    else t' = MarkFailed \<or> (\<exists>r. t' = Finished r))"
  using assms(1)
proof (cases rule: thread_step_cases)
  case stop
  then show ?thesis using assms(2,3)
    by (cases "(out, t, s)" rule: stop_step.cases) (auto simp: resume_def split: step_splits)
qed (use assms(2) in \<open>cases t; simp\<close>)+

lemma holder_not_stuck: "holds t \<Longrightarrow> \<exists>out r. thread_step o' out t s = Some r"
proof (cases t)
  case (StopWait ctx k sn cs)
  then have "stop_step Fires t s \<noteq> None" by (cases cs) auto
  moreover have "start_step o' Fires t s = None" using StopWait by simp
  ultimately show ?thesis by (auto simp: thread_step_def intro!: exI [of _ Fires])
next
  case (StopAsk ctx k sn cs)
  then show ?thesis by (cases cs) (auto simp: thread_step_def)
next
  case (StopSignal ctx k sn cs)
  then show ?thesis by (cases cs) (auto simp: thread_step_def)
next
  case (StopKill k cs r)
  then show ?thesis by (cases cs) (auto simp: thread_step_def)
qed (auto simp: thread_step_def split: prod.splits)

lemma own_steps_over:
  "own_steps o' steps t = Some t' \<Longrightarrow> t = MarkFailed \<or> (\<exists>r. t = Finished r) \<Longrightarrow> \<not> holds t'"
proof (induction steps arbitrary: t)
  case (Cons a rest)
  then obtain r where "own_steps o' rest (Finished r) = Some t'"
    by (cases a) (auto simp: thread_step_def split: option.splits)
  then show ?case using Cons.IH by blast
qed auto

lemma own_steps_bound:
  "own_steps o' steps t = Some t' \<Longrightarrow> holds t' \<Longrightarrow> holds t \<Longrightarrow> \<nexists>ctx k. t = StopMark ctx k \<Longrightarrow>
   length steps < stop_work t"
proof (induction steps arbitrary: t)
  case Nil
  then show ?case by (cases t) auto
next
  case (Cons a rest)
  obtain out s where a: "a = (out, s)" by fastforce
  with Cons.prems(1) obtain s1 t1 new where
    one: "thread_step o' out t s = Some (s1, t1, new)" and rest: "own_steps o' rest t1 = Some t'"
    by (auto split: option.splits)
  note h = holder_step [OF one Cons.prems(3,4)]
  have "holds t1" using own_steps_over [OF rest] h Cons.prems(2) by (auto split: if_splits)
  with Cons.IH [OF rest Cons.prems(2)] h show ?case by simp
qed


section \<open>Runs\<close>

text \<open>A run given step by step: which thread runs with which outcome, what the clients call,
  which process exits and which context ends.\<close>

datatype event = Call thread | Run nat outcome | Exit nat | Cancel nat go_error

fun perform :: "runtime_options \<Rightarrow> discipline \<Rightarrow> event \<Rightarrow> system \<Rightarrow> system option" where
  "perform o' may (Call t) (s, ts) = (if is_call t \<and> may ts t then Some (s, ts @ [t]) else None)"
| "perform o' may (Run i out) (s, ts) =
     (if i < length ts then (case thread_step o' out (ts ! i) s of
        None \<Rightarrow> None | Some (s', t', new) \<Rightarrow> Some (s', take i ts @ t' # drop (Suc i) ts @ new)) else None)"
| "perform o' may (Exit p) (s, ts) =
     (if p \<in> fst ` set (dr_started s) then Some (s\<lparr>dr_exited := insert p (dr_exited s)\<rparr>, ts) else None)"
| "perform o' may (Cancel n e) (s, ts) =
     (if dr_ctx s n = None then Some (s\<lparr>dr_ctx := (dr_ctx s)(n \<mapsto> e)\<rparr>, ts) else None)"

fun perform_all :: "runtime_options \<Rightarrow> discipline \<Rightarrow> event list \<Rightarrow> system \<Rightarrow> system option" where
  "perform_all o' may [] x = Some x"
| "perform_all o' may (e # es) x =
     (case perform o' may e x of None \<Rightarrow> None | Some y \<Rightarrow> perform_all o' may es y)"

lemma perform_step:
  assumes "perform o' may e x = Some y"
  shows "sys_step o' may x y"
proof -
  obtain s ts where x: "x = (s, ts)" by fastforce
  show ?thesis
  proof (cases e)
    case (Run i out)
    with assms x obtain s' t' new where i: "i < length ts"
      and st: "thread_step o' out (ts ! i) s = Some (s', t', new)"
      and y: "y = (s', take i ts @ t' # drop (Suc i) ts @ new)"
      by (auto split: if_splits option.splits)
    have ts: "ts = take i ts @ ts ! i # drop (Suc i) ts" using i by (rule id_take_nth_drop)
    show ?thesis unfolding x y by (subst (1) ts) (rule sys_step.run [OF st])
  qed (use assms x in \<open>auto intro: sys_step.intros split: if_splits\<close>)
qed

lemma perform_all_reachable:
  "perform_all o' may es x = Some y \<Longrightarrow> reachable o' may x \<Longrightarrow> reachable o' may y"
proof (induction es arbitrary: x)
  case (Cons e es)
  then obtain x1 where "perform o' may e x = Some x1" "perform_all o' may es x1 = Some y"
    by (auto split: option.splits)
  with Cons show ?case by (blast intro: reachable_step perform_step)
qed simp

definition sample_options :: runtime_options where
  "sample_options = \<lparr>op_Config = \<lparr>cf_DataDir = ''d'', cf_LogDir = ''l'', cf_CouncilBinary = ''c'', cf_RunnerBinary = ''r''\<rparr>,
     op_WorkspaceRoot = ''w'', op_PollInterval = 1, op_StopTimeout = 1, op_TLSCert = [], op_TLSKey = [],
     op_RBACRole = [], op_RBACSubject = [], op_Environment = None\<rparr>"

definition sample_prepared :: prepared_start where
  "sample_prepared = \<lparr>pr_runnerHTTP = ''1'', pr_runnerGRPC = ''2'', pr_councilHTTP = ''3'', pr_token = ''t''\<rparr>"

text \<open>\<open>Start\<close> up to its return, as the thread 0 with the context 7.\<close>

definition start_events :: "event list" where
  "start_events = [Call (StartCall (Some 7)), Run 0 Goes, Run 0 (Prepared (Inr sample_prepared)), Run 0 Goes,
     Run 0 Goes, Run 0 Goes]"

definition started_state :: shared where
  "started_state = new_runtime\<lparr>
     dr_status := \<lparr>st_State = StateStarting, st_CouncilURL = ''http://3'', st_RunnerURL = ''http://1'',
       st_RunnerGRPCAddress = ''2'', st_LastError = []\<rparr>,
     dr_children := [\<lparr>ch_name = ''runner'', ch_pid = 1\<rparr>, \<lparr>ch_name = ''council'', ch_pid = 2\<rparr>],
     dr_stopWatch := Some 0, dr_sessionToken := ''t'', dr_fresh := 3,
     dr_started := [(1, runner_spec sample_options sample_prepared), (2, council_spec sample_options sample_prepared)]\<rparr>"

lemma start_run:
  "perform_all sample_options one_start start_events (new_runtime, []) =
     Some (started_state, [Finished (Inr ()), WatchChild \<lparr>ch_name = ''runner'', ch_pid = 1\<rparr>,
       WatchChild \<lparr>ch_name = ''council'', ch_pid = 2\<rparr>, WatchContext (Some 7) (Some 0)])"
  by (simp add: start_events_def one_start_def thread_step_def section_defs fresh_status_def new_runtime_def
      started_state_def sample_prepared_def service_url_def sample_options_def)

lemma started_reachable:
  "reachable sample_options one_start (started_state, [Finished (Inr ()), WatchChild \<lparr>ch_name = ''runner'', ch_pid = 1\<rparr>,
     WatchChild \<lparr>ch_name = ''council'', ch_pid = 2\<rparr>, WatchContext (Some 7) (Some 0)])"
  by (rule perform_all_reachable [OF start_run reachable_init])

text \<open>The runner exits, its goroutine closes its channel, and a \<open>Stop\<close> closes \<open>stopWatch\<close>.\<close>

definition closing_events :: "event list" where
  "closing_events = [Exit 1, Run 1 Goes, Call (StopCall None FromOutside), Run 4 Goes, Run 4 Goes]"

definition closing_run :: "system option" where
  "closing_run = perform_all sample_options one_start closing_events
     (started_state, [Finished (Inr ()), WatchChild \<lparr>ch_name = ''runner'', ch_pid = 1\<rparr>,
       WatchChild \<lparr>ch_name = ''council'', ch_pid = 2\<rparr>, WatchContext (Some 7) (Some 0)])"

lemma closing_run_done: "\<exists>s ts. closing_run = Some (s, ts) \<and> dr_closed s = {0, 1}"
  by (auto simp: closing_run_def closing_events_def one_start_def thread_step_def section_defs new_runtime_def
      started_state_def)

theorem channels_closed_once_witness:
  "\<exists>s ts. closing_run = Some (s, ts) \<and> \<not> dr_panic s \<and> 1 \<in> dr_closed s"
proof -
  obtain s ts where r: "closing_run = Some (s, ts)" "dr_closed s = {0, 1}" using closing_run_done by blast
  from channels_closed_once [OF perform_all_reachable [OF r(1) [unfolded closing_run_def] started_reachable]] r
  show ?thesis by auto
qed

theorem web_session_matches_council_witness:
  "\<exists>p n. (n, council_spec sample_options p) \<in> set (dr_started started_state) \<and> pr_token p = ''t'' \<and>
     service_url (pr_councilHTTP p) [] [] @ ''/api/v1'' = ''http://3/api/v1''"
proof -
  have "web_runtime started_state = Inr \<lparr>ws_APIBase = ''http://3/api/v1'', ws_SessionToken = ''t''\<rparr>"
    by (simp add: web_runtime_def started_state_def)
  from web_session_matches_council [OF started_reachable this] show ?thesis
    by (auto simp: sample_options_def)
qed

theorem stop_leaves_no_process_witness:
  "st_State (dr_status started_state) \<noteq> StateStopped \<and>
   (st_State (dr_status started_state) = StateStopping \<or> 1 \<in> ch_pid ` set (dr_children started_state))"
  using stop_leaves_no_process [OF started_reachable, of 1] by (simp add: started_state_def new_runtime_def)


section \<open>Two runs that go wrong\<close>

text \<open>\<open>Stop\<close> while \<open>Start\<close> is preparing: it finds no children and returns, \<open>Start\<close> goes on and
  returns without an error, and the two processes run on in a runtime that is "stopped" and
  whose \<open>Stop\<close> does nothing.\<close>

lemma stop_during_start:
  "\<exists>s. reachable sample_options any_calls (s, [Finished (Inr ()), Finished (Inr ()),
       WatchChild \<lparr>ch_name = ''runner'', ch_pid = 1\<rparr>, WatchChild \<lparr>ch_name = ''council'', ch_pid = 2\<rparr>,
       WatchContext (Some 7) None]) \<and>
     st_State (dr_status s) = StateStopped \<and> fst ` set (dr_started s) = {1, 2} \<and> dr_exited s = {} \<and> dr_killed s = {} \<and>
     dr_signalled s = []"
proof -
  let ?es = "[Call (StartCall (Some 7)), Run 0 Goes, Call (StopCall None FromOutside), Run 1 Goes, Run 1 Goes,
     Run 1 Goes, Run 1 Goes, Run 1 Goes, Run 1 Goes, Run 1 Goes, Run 0 (Prepared (Inr sample_prepared)),
     Run 0 Goes, Run 0 Goes, Run 0 Goes]"
  have "\<exists>s. perform_all sample_options any_calls ?es (new_runtime, []) =
     Some (s, [Finished (Inr ()), Finished (Inr ()),
       WatchChild \<lparr>ch_name = ''runner'', ch_pid = 1\<rparr>, WatchChild \<lparr>ch_name = ''council'', ch_pid = 2\<rparr>,
       WatchContext (Some 7) None]) \<and>
     st_State (dr_status s) = StateStopped \<and> fst ` set (dr_started s) = {1, 2} \<and> dr_exited s = {} \<and> dr_killed s = {} \<and>
     dr_signalled s = []"
    by (simp add: any_calls_def thread_step_def section_defs fresh_status_def new_runtime_def numeral_2_eq_2)
  then show ?thesis by (blast intro: perform_all_reachable reachable_init)
qed

text \<open>The context of \<open>Start\<close> ends after \<open>Start\<close> has returned: the services are stopped though
  nobody called \<open>Stop\<close>.\<close>

lemma ended_context_stops:
  "\<exists>s ts. reachable sample_options one_start (s, Finished (Inr ()) # ts) \<and>
     st_State (dr_status s) = StateStopped \<and> fst ` set (dr_started s) = {1, 2} \<and> dr_killed s = {1, 2}"
proof -
  let ?es = "[Cancel 7 (Sent ContextCanceled), Run 3 Done, Run 3 Goes, Run 3 Goes, Run 3 Goes, Run 3 Goes, Run 3 Goes,
     Run 3 Goes, Run 3 Goes, Run 3 Goes, Run 3 Fires, Run 3 Goes, Run 3 Goes, Run 3 Goes, Run 3 Goes, Run 3 Goes]"
  have "\<exists>s ts. perform_all sample_options one_start ?es (started_state, [Finished (Inr ()),
       WatchChild \<lparr>ch_name = ''runner'', ch_pid = 1\<rparr>, WatchChild \<lparr>ch_name = ''council'', ch_pid = 2\<rparr>,
       WatchContext (Some 7) (Some 0)]) = Some (s, Finished (Inr ()) # ts) \<and>
     st_State (dr_status s) = StateStopped \<and> fst ` set (dr_started s) = {1, 2} \<and> dr_killed s = {1, 2}"
    by (simp add: thread_step_def section_defs started_state_def new_runtime_def insert_commute)
  then show ?thesis by (blast intro: perform_all_reachable started_reachable)
qed

end
