(* ===== verification/Desktop_Secrets.thy ===== *)
theory Desktop_Secrets
  imports Contracts File_Transaction
begin

text \<open>
  \<open>internal/desktop/secrets.go\<close>, \<open>masterkey_other.go\<close> and the provider keys of
  \<open>cmd/aicouncil-desktop/app.go\<close>: secrets in files of their own, encrypted with a key of the
  installation.

  AES-256-GCM is the record \<open>aead\<close> of its four functions, with the laws in \<open>aead_ok\<close>; random
  bytes are arguments. \<open>os.WriteFile\<close> is two calls, since it empties the file before it writes:
  either may fail. A context that is done is an error in the argument \<open>ctx\<close>, looked at as often
  as the code looks.
\<close>

section \<open>Encryption and files\<close>

record aead =
  ae_NonceSize :: nat
  ae_Overhead :: nat
  ae_Seal :: "string \<Rightarrow> string \<Rightarrow> string \<Rightarrow> string" \<comment> \<open>nonce, plain text, additional data\<close>
  ae_Open :: "string \<Rightarrow> string \<Rightarrow> string \<Rightarrow> string result" \<comment> \<open>nonce, sealed text, additional data\<close>

definition aead_ok :: "aead \<Rightarrow> bool" where
  "aead_ok A \<longleftrightarrow> (\<forall>nonce v key. length (ae_Seal A nonce v key) = length v + ae_Overhead A \<and>
     ae_Open A nonce (ae_Seal A nonce v key) key = Inr v)"

definition open_truncated :: "string \<Rightarrow> int \<Rightarrow> (file_sys, unit) prog" where
  "open_truncated path mode = sys (\<lambda>s. (Inr (), s\<lparr>fs_files := (fs_files s)(path \<mapsto>
     (case fs_files s path of None \<Rightarrow> \<lparr>file_Mode = mode, file_Data = []\<rparr> | Some f \<Rightarrow> f\<lparr>file_Data := []\<rparr>))\<rparr>))"

definition os_write_file :: "string \<Rightarrow> string \<Rightarrow> int \<Rightarrow> (file_sys, unit) prog" where
  "os_write_file path data mode = bindE (open_truncated path mode) (\<lambda>_. tmp_write path data)"

definition os_chmod :: "string \<Rightarrow> int \<Rightarrow> (file_sys, unit) prog" where
  "os_chmod path mode = sys (\<lambda>s. case fs_files s path of None \<Rightarrow> (Inl (Sent OsNotExist), s)
     | Some f \<Rightarrow> (Inr (), s\<lparr>fs_files := (fs_files s)(path \<mapsto> f\<lparr>file_Mode := mode\<rparr>)\<rparr>))"

section \<open>The store\<close>

definition secret_format_version :: char where "secret_format_version = byte 1"

record secret_store =
  se_dir :: string
  se_aead :: aead

definition key_char :: "char \<Rightarrow> bool" where
  "key_char c \<longleftrightarrow>
     (let n = of_char c :: nat in
      97 \<le> n \<and> n \<le> 122 \<or> 65 \<le> n \<and> n \<le> 90 \<or> 48 \<le> n \<and> n \<le> 57 \<or>
      c = CHR ''-'' \<or> c = CHR ''_'' \<or> c = CHR ''.'')"

definition valid_secret_key :: "string \<Rightarrow> bool" where
  "valid_secret_key key \<longleftrightarrow>
     \<not> (key = [] \<or> length key > 255 \<or> key = ''.'' \<or> key = ''..'') \<and> list_all key_char key"

definition path_for_key :: "secret_store \<Rightarrow> string \<Rightarrow> string result" where
  "path_for_key st key =
     (if \<not> valid_secret_key key then Inl (Err (''invalid secret key '' @ key))
      else Inr (path_join [se_dir st, key @ ''.secret'']))"

definition ctx_check :: "go_error option \<Rightarrow> ('s, unit) prog" where
  "ctx_check ctx = (case ctx of None \<Rightarrow> returnE () | Some e \<Rightarrow> raiseE e)"

definition of_result :: "'a result \<Rightarrow> ('s, 'a) prog" where
  "of_result r = (case r of Inl e \<Rightarrow> raiseE e | Inr a \<Rightarrow> returnE a)"

definition secret_not_found :: "string \<Rightarrow> go_error" where
  "secret_not_found key = Wrap (''secret '' @ key) (Sent ErrSecretNotFound)"

text \<open>\<open>random\<close> is what reading a nonce gives; \<open>ctx1\<close> and \<open>ctx2\<close> what the two looks at the
  context find.\<close>

definition secret_put ::
  "secret_store \<Rightarrow> go_error option \<Rightarrow> go_error option \<Rightarrow> string result \<Rightarrow> string \<Rightarrow> string \<Rightarrow> (file_sys, unit) prog" where
  "secret_put st ctx1 ctx2 random key value =
     bindE (ctx_check ctx1) (\<lambda>_.
     bindE (of_result (path_for_key st key)) (\<lambda>path.
     bindE (mapErr (Wrap ''generate secret nonce: '') (of_result random)) (\<lambda>nonce.
       let contents = [secret_format_version] @ nonce @ ae_Seal (se_aead st) nonce value key in
     bindE (ctx_check ctx2) (\<lambda>_.
     bindE (mapErr (Wrap (''write encrypted secret '' @ key)) (os_write_file path contents 384)) (\<lambda>_.
       mapErr (Wrap (''secure encrypted secret '' @ key)) (os_chmod path 384))))))"

definition secret_open :: "secret_store \<Rightarrow> string \<Rightarrow> string \<Rightarrow> string result" where
  "secret_open st key contents =
     (let n = ae_NonceSize (se_aead st) in
      if length contents < 1 + n + ae_Overhead (se_aead st) \<or> contents ! 0 \<noteq> secret_format_version
      then Inl (Err (''encrypted secret '' @ key @ '' has an invalid format''))
      else (case ae_Open (se_aead st) (take n (drop 1 contents)) (drop (1 + n) contents) key of
          Inl e \<Rightarrow> Inl (Wrap (''decrypt secret '' @ key) e)
        | Inr plaintext \<Rightarrow> Inr plaintext))"

definition secret_get ::
  "secret_store \<Rightarrow> go_error option \<Rightarrow> go_error option \<Rightarrow> string \<Rightarrow> (file_sys, string) prog" where
  "secret_get st ctx1 ctx2 key =
     bindE (ctx_check ctx1) (\<lambda>_.
     bindE (of_result (path_for_key st key)) (\<lambda>path.
     bindE (tryE (os_read_file path)) (\<lambda>r.
       case r of
         Inl e \<Rightarrow> if errors_is e OsNotExist then raiseE (secret_not_found key)
           else raiseE (Wrap (''read encrypted secret '' @ key) e)
       | Inr contents \<Rightarrow> bindE (ctx_check ctx2) (\<lambda>_. of_result (secret_open st key contents)))))"

definition secret_delete ::
  "secret_store \<Rightarrow> go_error option \<Rightarrow> go_error option \<Rightarrow> string \<Rightarrow> (file_sys, unit) prog" where
  "secret_delete st ctx1 ctx2 key =
     bindE (ctx_check ctx1) (\<lambda>_.
     bindE (of_result (path_for_key st key)) (\<lambda>path.
     bindE (ctx_check ctx2) (\<lambda>_.
     bindE (tryE (os_remove path)) (\<lambda>r.
       case r of
         Inl e \<Rightarrow> if errors_is e OsNotExist then raiseE (secret_not_found key)
           else raiseE (Wrap (''delete encrypted secret '' @ key) e)
       | Inr _ \<Rightarrow> returnE ()))))"

text \<open>\<open>loadOrCreateMasterKey\<close> outside Windows.\<close>

definition load_or_create_master_key :: "string \<Rightarrow> string result \<Rightarrow> (file_sys, string) prog" where
  "load_or_create_master_key path random =
     bindE (tryE (os_read_file path)) (\<lambda>r.
       case r of
         Inr key \<Rightarrow>
           if length key \<noteq> 32
           then raiseE (Err (''secret store master key has invalid length '' @ itoa (int (length key))))
           else bindE (os_chmod path 384) (\<lambda>_. returnE key)
       | Inl e \<Rightarrow>
           if \<not> errors_is e OsNotExist then raiseE (Wrap ''read secret store master key: '' e)
           else bindE (mapErr (Wrap ''generate secret store master key: '') (of_result random)) (\<lambda>key.
             bindE (mapErr (Wrap ''write secret store master key: '') (os_write_file path key 384))
               (\<lambda>_. returnE key)))"

text \<open>Windows builds (\<open>masterkey_windows.go\<close>) keep the key protected by DPAPI; \<open>protect\<close> and \<open>unprotect\<close> are the
  two calls of \<open>crypt32.dll\<close>.\<close>

definition crypt_data :: "(string \<Rightarrow> string result) \<Rightarrow> string \<Rightarrow> string result" where
  "crypt_data proc value =
     (if value = [] then Inl (Err ''DPAPI input is empty'')
      else (case proc value of
          Inl e \<Rightarrow> Inl e
        | Inr out \<Rightarrow> if out = [] then Inl (Err ''DPAPI returned empty output'') else Inr out))"

definition load_or_create_protected_key ::
  "(string \<Rightarrow> string result) \<Rightarrow> (string \<Rightarrow> string result) \<Rightarrow> string \<Rightarrow> string result \<Rightarrow> (file_sys, string) prog" where
  "load_or_create_protected_key protect unprotect path random =
     bindE (tryE (os_read_file path)) (\<lambda>r.
       case r of
         Inr protected \<Rightarrow>
           bindE (mapErr (Wrap ''unprotect secret store master key: '') (of_result (crypt_data unprotect protected))) (\<lambda>key.
             if length key \<noteq> 32
             then raiseE (Err (''secret store master key has invalid length '' @ itoa (int (length key))))
             else returnE key)
       | Inl e \<Rightarrow>
           if \<not> errors_is e OsNotExist then raiseE (Wrap ''read secret store master key: '' e)
           else bindE (mapErr (Wrap ''generate secret store master key: '') (of_result random)) (\<lambda>key.
             bindE (mapErr (Wrap ''protect secret store master key: '') (of_result (crypt_data protect key))) (\<lambda>protected.
             bindE (mapErr (Wrap ''write protected secret store master key: '') (os_write_file path protected 384))
               (\<lambda>_. returnE key))))"

text \<open>\<open>NewSecretStore\<close>: \<open>aes\<close> and \<open>gcm\<close> make the block cipher of a key and the AEAD of that.\<close>

definition os_make_dir :: "(file_sys, unit) prog" where
  "os_make_dir = sys (\<lambda>s. (Inr (), s))"

definition new_secret_store ::
  "(string \<Rightarrow> 'block result) \<Rightarrow> ('block \<Rightarrow> aead result) \<Rightarrow> string \<Rightarrow> string result \<Rightarrow>
   (file_sys, secret_store) prog" where
  "new_secret_store aes gcm dir random =
     (if trim_space dir = [] then raiseE (Err ''secret store directory is empty'')
      else
        bindE (mapErr (Wrap ''create secret store directory: '') os_make_dir) (\<lambda>_.
        bindE (mapErr (Wrap ''secure secret store directory: '') os_make_dir) (\<lambda>_.
        bindE (load_or_create_master_key (path_join [dir, ''master.key'']) random) (\<lambda>key.
        bindE (mapErr (Wrap ''initialize secret encryption: '') (of_result (aes key))) (\<lambda>block.
        bindE (mapErr (Wrap ''initialize authenticated encryption: '') (of_result (gcm block))) (\<lambda>A.
          returnE \<lparr>se_dir = dir, se_aead = A\<rparr>))))))"

section \<open>Provider keys\<close>

definition provider_secret :: "string \<Rightarrow> (string \<times> string) option" where
  "provider_secret provider =
     (let p = to_lower (trim_space provider) in
      if p = ''openai'' then Some (''provider.openai'', ''OPENAI_API_KEY'')
      else if p = ''deepseek'' then Some (''provider.deepseek'', ''DEEPSEEK_API_KEY'')
      else if p = ''anthropic'' then Some (''provider.anthropic'', ''ANTHROPIC_API_KEY'')
      else None)"

definition save_provider_key :: "secret_store \<Rightarrow> string result \<Rightarrow> string \<Rightarrow> string \<Rightarrow> (file_sys, unit) prog" where
  "save_provider_key st random provider key =
     (case provider_secret provider of
        None \<Rightarrow> raiseE (Err (''unsupported provider '' @ provider))
      | Some (secretKey, _) \<Rightarrow>
          if trim_space key = [] then raiseE (Err ''provider key is empty'')
          else secret_put st None None random secretKey key)"

fun read_provider_keys :: "secret_store \<Rightarrow> string list \<Rightarrow> (string \<times> string) list \<Rightarrow> (file_sys, (string \<times> string) list) prog" where
  "read_provider_keys st [] environment = returnE environment"
| "read_provider_keys st (provider # ps) environment =
     (case (case provider_secret provider of None \<Rightarrow> ([], []) | Some names \<Rightarrow> names) of
        (secretKey, environmentKey) \<Rightarrow>
          bindE (tryE (secret_get st None None secretKey)) (\<lambda>r.
            case r of
              Inl e \<Rightarrow> if errors_is e ErrSecretNotFound then read_provider_keys st ps environment
                else raiseE (Wrap (''read '' @ provider @ '' provider key: '') e)
            | Inr value \<Rightarrow> read_provider_keys st ps (environment @ [(environmentKey, value)])))"

definition provider_environment :: "secret_store \<Rightarrow> (file_sys, (string \<times> string) list) prog" where
  "provider_environment st = read_provider_keys st [''openai'', ''deepseek'', ''anthropic''] []"

section \<open>Where secrets are\<close>

definition proper_dir :: "secret_store \<Rightarrow> string list \<Rightarrow> bool" where
  "proper_dir st cs \<longleftrightarrow> se_dir st = abs_path cs \<and> list_all normal_comp cs"

lemma key_char_not_slash: "key_char c \<Longrightarrow> c \<noteq> slash"
  by (auto simp: key_char_def)

lemma secret_name_normal:
  assumes "valid_secret_key key"
  shows "normal_comp (key @ ''.secret'')"
proof -
  have "slash \<notin> set key" using assms key_char_not_slash by (auto simp: valid_secret_key_def list_all_iff)
  moreover have "length (key @ ''.secret'') > 2" by simp
  then have "key @ ''.secret'' \<noteq> ''.''" "key @ ''.secret'' \<noteq> ''..''" by (metis length_Cons list.size(3) not_less_eq zero_less_Suc numeral_2_eq_2 less_Suc_eq)+
  ultimately show ?thesis by (simp add: normal_comp_def)
qed

lemma path_for_key_abs:
  assumes "proper_dir st cs"
  shows "path_for_key st key =
    (if valid_secret_key key then Inr (abs_path (cs @ [key @ ''.secret''])) else Inl (Err (''invalid secret key '' @ key)))"
proof (cases "valid_secret_key key")
  case True
  note n = secret_name_normal [OF True]
  then have "slash \<notin> set (key @ ''.secret'')" by (simp add: normal_comp_def)
  then have "split_on slash (key @ ''.secret'') = [key @ ''.secret'']" by (rule split_on_id)
  then have "path_join [abs_path cs, key @ ''.secret''] = abs_path (clean_go True (rev cs) [key @ ''.secret''])"
    using assms by (simp only: join_abs_path proper_dir_def)
  also have "clean_go True (rev cs) [key @ ''.secret''] = cs @ [key @ ''.secret'']"
    using n by (simp add: normal_comp_def)
  finally show ?thesis using True assms by (simp add: path_for_key_def proper_dir_def)
qed (simp add: path_for_key_def)

definition key_path :: "string list \<Rightarrow> string \<Rightarrow> string" where
  "key_path cs key = abs_path (cs @ [key @ ''.secret''])"

lemma key_path_inject:
  assumes "proper_dir st cs" "valid_secret_key k" "valid_secret_key l"
  shows "key_path cs k = key_path cs l \<longleftrightarrow> k = l"
  using assms abs_path_inject [of "cs @ [k @ ''.secret'']" "cs @ [l @ ''.secret'']"]
  by (simp add: key_path_def proper_dir_def secret_name_normal)

text \<open>The secrets a store holds, as a map.\<close>

definition secret_map :: "secret_store \<Rightarrow> string list \<Rightarrow> file_sys \<Rightarrow> string \<Rightarrow> string option" where
  "secret_map st cs s key =
     (case fs_files s (key_path cs key) of
        None \<Rightarrow> None
      | Some f \<Rightarrow> (case secret_open st key (file_Data f) of Inl _ \<Rightarrow> None | Inr v \<Rightarrow> Some v))"

definition store_ok :: "secret_store \<Rightarrow> string list \<Rightarrow> file_sys \<Rightarrow> bool" where
  "store_ok st cs s \<longleftrightarrow> proper_dir st cs \<and> aead_ok (se_aead st) \<and> (\<forall>n. \<not> fs_fail s n) \<and>
     (\<forall>key f. valid_secret_key key \<longrightarrow> fs_files s (key_path cs key) = Some f \<longrightarrow>
        (\<exists>v. secret_open st key (file_Data f) = Inr v))"

lemma sys_ok: "\<not> fs_fail s (fs_calls s) \<Longrightarrow> sys m s = m (s\<lparr>fs_calls := Suc (fs_calls s)\<rparr>)"
  by (simp add: sys_def)

lemma secret_open_sealed:
  assumes "aead_ok (se_aead st)" "length nonce = ae_NonceSize (se_aead st)"
  shows "secret_open st key ([secret_format_version] @ nonce @ ae_Seal (se_aead st) nonce v key) = Inr v"
  using assms by (simp add: secret_open_def Let_def aead_ok_def)

lemma put_files:
  assumes "store_ok st cs s" "valid_secret_key key" "secret_put st None None (Inr nonce) key v s = (r, s')"
  shows "r = Inr () \<and> fs_fail s' = fs_fail s \<and>
    (\<exists>f. fs_files s' = (fs_files s)(key_path cs key \<mapsto> f) \<and> file_Mode f = 384 \<and>
      file_Data f = [secret_format_version] @ nonce @ ae_Seal (se_aead st) nonce v key)"
proof -
  have ok: "\<forall>n. \<not> fs_fail s n" "proper_dir st cs" using assms(1) by (auto simp: store_ok_def)
  show ?thesis
    using assms(3) ok(1) assms(2) path_for_key_abs [OF ok(2), of key]
    by (auto simp: secret_put_def prog_simps ctx_check_def of_result_def os_write_file_def open_truncated_def
        tmp_write_def os_chmod_def sys_ok key_path_def [symmetric] Let_def split: option.splits)
qed

lemma put_ok:
  assumes "store_ok st cs s" "valid_secret_key key" "length nonce = ae_NonceSize (se_aead st)"
    and "secret_put st None None (Inr nonce) key v s = (r, s')"
  shows "r = Inr () \<and> store_ok st cs s' \<and>
    (\<forall>k. valid_secret_key k \<longrightarrow> secret_map st cs s' k = (if k = key then Some v else secret_map st cs s k))"
proof -
  have a: "aead_ok (se_aead st)" "proper_dir st cs" using assms(1) by (auto simp: store_ok_def)
  note put = put_files [OF assms(1,2,4)]
  note inj = key_path_inject [OF a(2)]
  from put obtain f where f: "fs_files s' = (fs_files s)(key_path cs key \<mapsto> f)"
    "secret_open st key (file_Data f) = Inr v" using secret_open_sealed [OF a(1) assms(3)] by auto
  have "store_ok st cs s'"
    unfolding store_ok_def
  proof (intro conjI allI impI)
    fix k g assume k: "valid_secret_key k" "fs_files s' (key_path cs k) = Some g"
    show "\<exists>v. secret_open st k (file_Data g) = Inr v"
    proof (cases "k = key")
      case False
      then show ?thesis using k f inj [OF k(1) assms(2)] assms(1) by (auto simp: store_ok_def)
    qed (use k f in auto)
  qed (use assms(1) put a in \<open>auto simp: store_ok_def\<close>)
  then show ?thesis using put f inj assms(2) by (auto simp: secret_map_def)
qed

lemma get_ok:
  assumes "store_ok st cs s" "valid_secret_key key" "secret_get st None None key s = (r, s')"
  shows "r = (case secret_map st cs s key of None \<Rightarrow> Inl (secret_not_found key) | Some v \<Rightarrow> Inr v) \<and>
    fs_files s' = fs_files s \<and> fs_fail s' = fs_fail s"
proof -
  have ok: "\<forall>n. \<not> fs_fail s n" "proper_dir st cs" using assms(1) by (auto simp: store_ok_def)
  have open_ok: "fs_files s (key_path cs key) = Some f \<Longrightarrow> \<exists>v. secret_open st key (file_Data f) = Inr v" for f
    using assms(1,2) by (auto simp: store_ok_def)
  note ev = secret_get_def prog_simps ctx_check_def of_result_def os_read_file_def sys_ok secret_map_def
  show ?thesis
  proof (cases "fs_files s (key_path cs key)")
    case None
    with assms(2,3) ok(1) path_for_key_abs [OF ok(2), of key] show ?thesis
      by (auto simp: ev key_path_def [symmetric])
  next
    case (Some f)
    with open_ok obtain v where v: "secret_open st key (file_Data f) = Inr v" by blast
    with Some assms(2,3) ok(1) path_for_key_abs [OF ok(2), of key] show ?thesis
      by (auto simp: v ev key_path_def [symmetric])
  qed
qed

lemma delete_ok:
  assumes "store_ok st cs s" "valid_secret_key key" "secret_delete st None None key s = (r, s')"
  shows "r = (case secret_map st cs s key of None \<Rightarrow> Inl (secret_not_found key) | Some v \<Rightarrow> Inr ()) \<and>
    fs_files s' = (fs_files s)(key_path cs key := None) \<and> fs_fail s' = fs_fail s"
proof -
  have ok: "\<forall>n. \<not> fs_fail s n" "proper_dir st cs" using assms(1) by (auto simp: store_ok_def)
  have open_ok: "fs_files s (key_path cs key) = Some f \<Longrightarrow> \<exists>v. secret_open st key (file_Data f) = Inr v" for f
    using assms(1,2) by (auto simp: store_ok_def)
  note ev = secret_delete_def prog_simps ctx_check_def of_result_def os_remove_def sys_ok secret_map_def
  show ?thesis
  proof (cases "fs_files s (key_path cs key)")
    case None
    with assms(2,3) ok(1) path_for_key_abs [OF ok(2), of key] show ?thesis
      by (auto simp: ev key_path_def [symmetric])
  next
    case (Some f)
    with open_ok obtain v where v: "secret_open st key (file_Data f) = Inr v" by blast
    with Some assms(2,3) ok(1) path_for_key_abs [OF ok(2), of key] show ?thesis
      by (auto simp: v ev key_path_def [symmetric])
  qed
qed

section \<open>The store is a map\<close>

datatype secret_call = PutSecret string string string | GetSecret string | DeleteSecret string

fun store_call :: "secret_store \<Rightarrow> secret_call \<Rightarrow> (file_sys, string) prog" where
  "store_call st (PutSecret nonce key v) = bindE (secret_put st None None (Inr nonce) key v) (\<lambda>_. returnE [])"
| "store_call st (GetSecret key) = secret_get st None None key"
| "store_call st (DeleteSecret key) = bindE (secret_delete st None None key) (\<lambda>_. returnE [])"

definition store_calls :: "secret_store \<Rightarrow> secret_call list \<Rightarrow> file_sys \<Rightarrow> string result list" where
  "store_calls st cs s = answers (store_call st) cs s"

text \<open>What the store promises: a map from valid keys to values.\<close>

primrec call_key :: "secret_call \<Rightarrow> string" where
  "call_key (PutSecret nonce key v) = key" | "call_key (GetSecret key) = key" | "call_key (DeleteSecret key) = key"

fun map_call :: "secret_call \<Rightarrow> (string \<Rightarrow> string option) \<Rightarrow> string result \<times> (string \<Rightarrow> string option)" where
  "map_call (PutSecret nonce key v) m = (Inr [], m(key \<mapsto> v))"
| "map_call (GetSecret key) m =
     ((case m key of None \<Rightarrow> Inl (secret_not_found key) | Some v \<Rightarrow> Inr v), m)"
| "map_call (DeleteSecret key) m =
     (case m key of None \<Rightarrow> (Inl (secret_not_found key), m) | Some _ \<Rightarrow> (Inr [], m(key := None)))"

definition checked_call :: "secret_call \<Rightarrow> (string \<Rightarrow> string option) \<Rightarrow> string result \<times> (string \<Rightarrow> string option)" where
  "checked_call c m =
     (if valid_secret_key (call_key c) then map_call c m
      else (Inl (Err (''invalid secret key '' @ call_key c)), m))"

definition map_calls :: "secret_call list \<Rightarrow> (string \<Rightarrow> string option) \<Rightarrow> string result list" where
  "map_calls cs m = answers checked_call cs m"

definition agrees :: "secret_store \<Rightarrow> string list \<Rightarrow> file_sys \<Rightarrow> (string \<Rightarrow> string option) \<Rightarrow> bool" where
  "agrees st cs s m \<longleftrightarrow> store_ok st cs s \<and> (\<forall>k. valid_secret_key k \<longrightarrow> m k = secret_map st cs s k)"

lemma agrees_same_files:
  "agrees st cs s m \<Longrightarrow> fs_files s' = fs_files s \<Longrightarrow> fs_fail s' = fs_fail s \<Longrightarrow> agrees st cs s' m"
  by (simp add: agrees_def store_ok_def secret_map_def)

lemma store_call_invalid:
  assumes "agrees st cs s m" "\<not> valid_secret_key (call_key c)"
  shows "store_call st c s = (Inl (Err (''invalid secret key '' @ call_key c)), s)"
  using assms(2) by (cases c) (auto simp: secret_put_def secret_get_def secret_delete_def path_for_key_def
      prog_simps ctx_check_def of_result_def)

lemma store_call_valid:
  assumes "agrees st cs s m" "valid_secret_key (call_key c)" "store_call st c s = (r, s')"
    and "\<forall>nonce key v. c = PutSecret nonce key v \<longrightarrow> length nonce = ae_NonceSize (se_aead st)"
  shows "\<exists>m'. map_call c m = (r, m') \<and> agrees st cs s' m'"
proof (cases c)
  case (PutSecret nonce key v)
  obtain q u where q: "secret_put st None None (Inr nonce) key v s = (q, u)" by fastforce
  have "store_ok st cs s" "valid_secret_key key" "length nonce = ae_NonceSize (se_aead st)"
    using assms PutSecret by (auto simp: agrees_def)
  from put_ok [OF this q] assms(1,3) PutSecret q show ?thesis
    by (auto simp: prog_simps agrees_def)
next
  case (GetSecret key)
  have "store_ok st cs s" "valid_secret_key key" using assms(1,2) GetSecret by (auto simp: agrees_def)
  note g = get_ok [OF this, of r s']
  have "secret_get st None None key s = (r, s')" using assms(3) GetSecret by simp
  moreover have "m key = secret_map st cs s key" using assms(1,2) GetSecret by (simp add: agrees_def)
  ultimately show ?thesis using g agrees_same_files [OF assms(1), of s'] GetSecret by auto
next
  case (DeleteSecret key)
  obtain q u where q: "secret_delete st None None key s = (q, u)" by fastforce
  have ok: "store_ok st cs s" "valid_secret_key key" using assms(1,2) DeleteSecret by (auto simp: agrees_def)
  note d = delete_ok [OF ok q]
  note inj = key_path_inject [of st cs]
  have p: "proper_dir st cs" using ok(1) by (simp add: store_ok_def)
  have "store_ok st cs u" using ok(1) d by (auto simp: store_ok_def)
  moreover have "\<forall>k. valid_secret_key k \<longrightarrow> (m(key := None)) k = secret_map st cs u k"
    using d assms(1) key_path_inject [OF p _ ok(2)] by (auto simp: agrees_def secret_map_def)
  ultimately have ag: "agrees st cs u (m(key := None))" by (simp add: agrees_def)
  have mk: "m key = secret_map st cs s key" using assms(1) ok(2) by (simp add: agrees_def)
  show ?thesis
  proof (cases "m key")
    case None
    then have "m(key := None) = m" by auto
    with ag d assms(3) DeleteSecret q None mk show ?thesis by (auto simp: prog_simps)
  next
    case (Some v)
    then have "secret_map st cs s key = Some v" using mk by simp
    with ag d assms(3) DeleteSecret q Some show ?thesis by (auto simp: prog_simps)
  qed
qed

definition nonces_fit :: "secret_store \<Rightarrow> secret_call list \<Rightarrow> bool" where
  "nonces_fit st calls \<longleftrightarrow>
     (\<forall>nonce key v. PutSecret nonce key v \<in> set calls \<longrightarrow> length nonce = ae_NonceSize (se_aead st))"

interpretation secrets: simulation "store_call st" checked_call
  "\<lambda>calls s m. agrees st cs s m \<and> nonces_fit st calls" for st cs
proof unfold_locales
  fix c calls s m r s'
  assume rel: "agrees st cs s m \<and> nonces_fit st (c # calls)" and r: "store_call st c s = (r, s')"
  then have fit: "\<forall>nonce key v. c = PutSecret nonce key v \<longrightarrow> length nonce = ae_NonceSize (se_aead st)"
    and rest: "nonces_fit st calls" by (auto simp: nonces_fit_def)
  show "\<exists>m'. checked_call c m = (r, m') \<and> agrees st cs s' m' \<and> nonces_fit st calls"
  proof (cases "valid_secret_key (call_key c)")
    case True
    with store_call_valid [OF conjunct1 [OF rel] True r fit] rest show ?thesis by (simp add: checked_call_def)
  next
    case False
    with store_call_invalid [OF conjunct1 [OF rel] False] r rel rest show ?thesis by (simp add: checked_call_def)
  qed
qed


definition sample_aead :: aead where
  "sample_aead = \<lparr>ae_NonceSize = 1, ae_Overhead = 1, ae_Seal = (\<lambda>_ v _. v @ ''x''),
     ae_Open = (\<lambda>_ c _. Inr (butlast c))\<rparr>"

definition sample_store :: secret_store where
  "sample_store = \<lparr>se_dir = ''/s'', se_aead = sample_aead\<rparr>"

definition empty_disk :: file_sys where
  "empty_disk = \<lparr>fs_files = (\<lambda>_. None), fs_eval = Inr, fs_names = [], fs_fail = (\<lambda>_. False), fs_calls = 0\<rparr>"

lemma sample_store_ok: "store_ok sample_store [''s''] empty_disk"
  by (simp add: store_ok_def proper_dir_def sample_store_def sample_aead_def empty_disk_def aead_ok_def
      abs_path_def normal_comp_def)


text \<open>A \<open>Put\<close> that fails while writing has already emptied the file: the earlier secret is lost.\<close>

lemma failed_put_loses_secret:
  assumes "proper_dir st cs" "valid_secret_key key" "\<not> fs_fail s (fs_calls s)" "fs_fail s (Suc (fs_calls s))"
    and "secret_put st None None (Inr nonce) key v s = (r, s')"
  shows "(\<exists>e. r = Inl e) \<and> secret_map st cs s' key = None"
proof -
  have r: "r = Inl (Wrap (''write encrypted secret '' @ key) (Sent OsFailure))"
    and f: "map_option file_Data (fs_files s' (key_path cs key)) = Some []"
    using assms(2-5) path_for_key_abs [OF assms(1), of key]
    by (auto simp: secret_put_def prog_simps ctx_check_def of_result_def os_write_file_def open_truncated_def
        tmp_write_def sys_def key_path_def [symmetric] Let_def split: option.splits)
  then obtain g where "fs_files s' (key_path cs key) = Some g" "file_Data g = []" by auto
  with r show ?thesis by (simp add: secret_map_def secret_open_def)
qed

text \<open>A name that is accepted as a key can be too long for a file: 255 bytes and the suffix.\<close>

lemma accepted_key_too_long:
  "valid_secret_key (replicate 255 CHR ''a'') \<and> length (replicate 255 CHR ''a'' @ ''.secret'') = 262"
proof -
  have "key_char CHR ''a''" by code_simp
  moreover have "replicate 255 CHR ''a'' \<noteq> ''.''" "replicate 255 CHR ''a'' \<noteq> ''..''"
    by (metis length_replicate list.size(3) length_Cons numeral_eq_one_iff One_nat_def num.distinct(3) num.distinct(1),
        metis length_replicate list.size(3) length_Cons numeral_2_eq_2 numeral_eq_iff num.distinct One_nat_def)
  ultimately show ?thesis by (simp add: valid_secret_key_def list_all_iff)
qed

end
