(* ===== verification/Desktop_App.thy ===== *)
theory Desktop_App
  imports Desktop_Runtime Desktop_Secrets
begin

text \<open>
  \<open>cmd/aicouncil-desktop/app.go\<close>, with \<open>LoadConfig\<close> of \<open>internal/desktop/config.go\<close> and the
  choice of binaries of \<open>main.go\<close>: the object the window calls. Its fields are under a mutex that
  \<open>Start\<close> and \<open>Stop\<close> release while they wait for the runtime, so they are functions per section;
  runtimes are numbered, and what is asked of them is a list of \<open>runtime_call\<close>s.
\<close>

section \<open>Configuration\<close>

definition app_directory_name :: string where "app_directory_name = ''AI-Council''"

definition executable_name :: "string \<Rightarrow> string \<Rightarrow> string" where
  "executable_name name goos = (if goos = ''windows'' then name @ ''.exe'' else name)"

text \<open>\<open>getenv\<close> gives the empty string for a variable that is not set.\<close>

definition user_config_dir :: "string \<Rightarrow> (string \<Rightarrow> string) \<Rightarrow> string result" where
  "user_config_dir goos getenv =
     (let no_home = Inl (Err ''determine user config directory: home directory is not set'') in
      if goos = ''windows'' then
        (if getenv ''LOCALAPPDATA'' \<noteq> [] then Inr (getenv ''LOCALAPPDATA'')
         else Inl (Err ''determine user config directory: LOCALAPPDATA is not set''))
      else if goos = ''darwin'' then
        (if getenv ''HOME'' \<noteq> [] then Inr (path_join [getenv ''HOME'', ''Library'', ''Application Support''])
         else no_home)
      else
        (if getenv ''XDG_CONFIG_HOME'' \<noteq> [] then Inr (getenv ''XDG_CONFIG_HOME'')
         else if getenv ''HOME'' \<noteq> [] then Inr (path_join [getenv ''HOME'', ''.config''])
         else no_home))"

text \<open>\<open>env\<close> is \<open>None\<close> for the environment of the process, given as \<open>process_env\<close>; \<open>mkdir\<close> and
  \<open>chmod\<close> are the outcomes for a directory.\<close>

definition load_config ::
  "(string \<Rightarrow> string) \<Rightarrow> string \<Rightarrow> (string \<Rightarrow> unit result) \<Rightarrow> (string \<Rightarrow> unit result) \<Rightarrow>
   (string \<Rightarrow> string) option \<Rightarrow> desktop_config result" where
  "load_config process_env process_goos mkdir chmod env =
     (let getenv = (case env of None \<Rightarrow> process_env | Some e \<Rightarrow> e);
          goos = (case env of None \<Rightarrow> process_goos | Some e \<Rightarrow> if e ''GOOS'' \<noteq> [] then e ''GOOS'' else process_goos);
          or_default = (\<lambda>v d. if v = [] then d else v);
          secure = (\<lambda>dir. case mkdir dir of
              Inl e \<Rightarrow> Inl (Wrap (''create desktop directory '' @ dir) e)
            | Inr _ \<Rightarrow> (case chmod dir of
                Inl e \<Rightarrow> Inl (Wrap (''secure desktop directory '' @ dir) e) | Inr _ \<Rightarrow> Inr ()))
      in case (if getenv ''AI_COUNCIL_DATA_DIR'' \<noteq> [] then Inr (getenv ''AI_COUNCIL_DATA_DIR'')
               else (case user_config_dir goos getenv of
                   Inl e \<Rightarrow> Inl e | Inr d \<Rightarrow> Inr (path_join [d, app_directory_name]))) of
           Inl e \<Rightarrow> Inl e
         | Inr dataDir \<Rightarrow>
             let logDir = or_default (getenv ''AI_COUNCIL_LOG_DIR'') (path_join [dataDir, ''logs'']);
                 council = or_default (getenv ''AI_COUNCIL_BINARY'') (executable_name ''council-server'' goos);
                 runner = or_default (getenv ''AI_RUNNER_BINARY'') (executable_name ''workspace-runner'' goos)
             in case secure dataDir of Inl e \<Rightarrow> Inl e | Inr _ \<Rightarrow>
               (case secure logDir of Inl e \<Rightarrow> Inl e | Inr _ \<Rightarrow>
                 Inr \<lparr>cf_DataDir = dataDir, cf_LogDir = logDir, cf_CouncilBinary = council,
                   cf_RunnerBinary = runner\<rparr>))"

definition bundled :: "string \<Rightarrow> (string \<Rightarrow> bool) \<Rightarrow> string \<Rightarrow> string \<Rightarrow> string" where
  "bundled bundleDir exists' variable binary =
     (let candidate = path_join [bundleDir, path_base binary] in
      if variable = [] \<and> exists' candidate then candidate else binary)"

definition with_bundled_service_binaries ::
  "string result \<Rightarrow> (string \<Rightarrow> string) \<Rightarrow> (string \<Rightarrow> bool) \<Rightarrow> desktop_config \<Rightarrow> desktop_config" where
  "with_bundled_service_binaries executable getenv exists' config =
     (case executable of
        Inl _ \<Rightarrow> config
      | Inr exe \<Rightarrow> config\<lparr>
          cf_CouncilBinary := bundled (path_dir exe) exists' (getenv ''AI_COUNCIL_BINARY'') (cf_CouncilBinary config),
          cf_RunnerBinary := bundled (path_dir exe) exists' (getenv ''AI_RUNNER_BINARY'') (cf_RunnerBinary config)\<rparr>)"

section \<open>The application\<close>

record desktop_status =
  ds_State :: runtime_state
  ds_Workspace :: string
  ds_CouncilURL :: string
  ds_LastError :: string

record desktop_app =
  da_config :: desktop_config
  da_store :: secret_store
  da_workspace :: string
  da_runtime :: "nat option"
  da_lastError :: string

datatype runtime_call = RuntimeStart nat runtime_options | RuntimeStop nat

definition new_desktop_app :: "desktop_config \<Rightarrow> secret_store option \<Rightarrow> string \<Rightarrow> desktop_app result" where
  "new_desktop_app config store workspace =
     (case store of
        None \<Rightarrow> Inl (Err ''desktop configuration and secret store are required'')
      | Some st \<Rightarrow>
          if trim_space (cf_DataDir config) = [] then Inl (Err ''desktop configuration and secret store are required'')
          else Inr \<lparr>da_config = config, da_store = st,
            da_workspace = (if trim_space workspace = [] then cf_DataDir config else workspace),
            da_runtime = None, da_lastError = []\<rparr>)"

text \<open>\<open>status\<close> gives the status of a runtime.\<close>

definition status_locked :: "(nat \<Rightarrow> runtime_status) \<Rightarrow> desktop_app \<Rightarrow> desktop_status" where
  "status_locked status a =
     (case da_runtime a of
        None \<Rightarrow> \<lparr>ds_State = StateStopped, ds_Workspace = da_workspace a, ds_CouncilURL = [],
          ds_LastError = da_lastError a\<rparr>
      | Some r \<Rightarrow> \<lparr>ds_State = st_State (status r), ds_Workspace = da_workspace a,
          ds_CouncilURL = st_CouncilURL (status r),
          ds_LastError = (if st_LastError (status r) \<noteq> [] then st_LastError (status r) else da_lastError a)\<rparr>)"

definition set_start_error ::
  "(nat \<Rightarrow> runtime_status) \<Rightarrow> go_error \<Rightarrow> desktop_app \<Rightarrow> (desktop_status \<times> go_error option) \<times> desktop_app" where
  "set_start_error status err a =
     (let a1 = a\<lparr>da_lastError := ''desktop services failed to start''\<rparr> in
      ((status_locked status a1, Some (Wrap ''start desktop services: '' err)), a1))"

definition app_options :: "desktop_app \<Rightarrow> string \<Rightarrow> (string \<times> string) list \<Rightarrow> runtime_options" where
  "app_options a workspace environment = runtime_defaults \<lparr>op_Config = da_config a, op_WorkspaceRoot = workspace,
     op_PollInterval = 0, op_StopTimeout = 0, op_TLSCert = [], op_TLSKey = [], op_RBACRole = [],
     op_RBACSubject = [], op_Environment = Some environment\<rparr>"

definition install_runtime ::
  "(nat \<Rightarrow> runtime_status) \<Rightarrow> nat \<Rightarrow> desktop_app \<Rightarrow> (desktop_status \<times> go_error option) \<times> desktop_app" where
  "install_runtime status r a =
     (let a1 = a\<lparr>da_runtime := Some r, da_lastError := []\<rparr> in ((status_locked status a1, None), a1))"

text \<open>\<open>Start\<close>: \<open>env\<close>, \<open>started\<close> and \<open>ready\<close> are the outcomes of reading the keys and of the new
  runtime's \<open>Start\<close> and \<open>WaitReady\<close>; \<open>others\<close> is what happens while the mutex is free.\<close>

definition app_start ::
  "(nat \<Rightarrow> runtime_status) \<Rightarrow> (desktop_app \<Rightarrow> desktop_app) \<Rightarrow> nat \<Rightarrow> (string \<times> string) list result \<Rightarrow>
   unit result \<Rightarrow> unit result \<Rightarrow> desktop_app \<Rightarrow>
   (desktop_status \<times> go_error option) \<times> desktop_app \<times> runtime_call list" where
  "app_start status others r env started ready a =
     (if da_runtime a \<noteq> None then ((status_locked status a, None), a, [])
      else let workspace = da_workspace a; a1 = others a in
      (case env of
         Inl e \<Rightarrow> (case set_start_error status e a1 of (res, a2) \<Rightarrow> (res, a2, []))
       | Inr environment \<Rightarrow>
           let go = RuntimeStart r (app_options a workspace environment) in
           (case started of
              Inl e \<Rightarrow> (case set_start_error status e a1 of (res, a2) \<Rightarrow> (res, a2, [go]))
            | Inr _ \<Rightarrow> (case ready of
                Inl e \<Rightarrow> (case set_start_error status e a1 of (res, a2) \<Rightarrow> (res, a2, [go, RuntimeStop r]))
              | Inr _ \<Rightarrow> (case install_runtime status r a1 of (res, a2) \<Rightarrow> (res, a2, [go]))))))"

definition app_stop ::
  "(desktop_app \<Rightarrow> desktop_app) \<Rightarrow> unit result \<Rightarrow> desktop_app \<Rightarrow> unit result \<times> desktop_app \<times> runtime_call list" where
  "app_stop others stopped a =
     (case da_runtime a of
        None \<Rightarrow> (Inr (), a, [])
      | Some r \<Rightarrow> let a1 = others a in
          (case stopped of
             Inl e \<Rightarrow> (Inl e, a1, [RuntimeStop r])
           | Inr _ \<Rightarrow> (Inr (), (if da_runtime a1 = Some r then a1\<lparr>da_runtime := None\<rparr> else a1), [RuntimeStop r])))"

definition app_web_runtime :: "(nat \<Rightarrow> web_session result) \<Rightarrow> desktop_app \<Rightarrow> web_session result" where
  "app_web_runtime session a =
     (case da_runtime a of None \<Rightarrow> Inl (Err ''desktop services are not running'') | Some r \<Rightarrow> session r)"

text \<open>\<open>OpenWorkspace\<close>, of the outcomes of \<open>filepath.Abs\<close> and of \<open>os.Stat\<close> (is it a directory).\<close>

definition open_workspace ::
  "(string \<Rightarrow> string result) \<Rightarrow> (string \<Rightarrow> bool result) \<Rightarrow> string \<Rightarrow> (desktop_app, unit) prog" where
  "open_workspace make_abs stat path a =
     (case make_abs (trim_space path) of
        Inl e \<Rightarrow> (Inl (Wrap ''resolve workspace: '' e), a)
      | Inr cleaned \<Rightarrow> (case stat cleaned of
          Inl e \<Rightarrow> (Inl (Wrap ''inspect workspace: '' e), a)
        | Inr is_dir \<Rightarrow>
            if \<not> is_dir then (Inl (Err ''workspace must be a directory''), a)
            else if da_runtime a \<noteq> None
              then (Inl (Err ''stop the desktop runtime before changing workspace''), a)
            else (Inr (), a\<lparr>da_workspace := cleaned\<rparr>)))"

text \<open>\<open>ChooseWorkspace\<close>: \<open>dialog\<close> is the answer of the native chooser, empty when it was closed.\<close>

definition choose_workspace ::
  "bool \<Rightarrow> string result \<Rightarrow> (string \<Rightarrow> string result) \<Rightarrow> (string \<Rightarrow> bool result) \<Rightarrow> (desktop_app, string) prog" where
  "choose_workspace window dialog make_abs stat a =
     (if \<not> window then (Inl (Err ''desktop window is not ready''), a)
      else (case dialog of
          Inl e \<Rightarrow> (Inl e, a)
        | Inr path \<Rightarrow>
            if path = [] then (Inr [], a)
            else (case open_workspace make_abs stat path a of
                (Inl e, a1) \<Rightarrow> (Inl e, a1)
              | (Inr _, a1) \<Rightarrow> (Inr path, a1))))"

text \<open>\<open>OnDomReady\<close>, of the outcomes of \<open>Start\<close>, \<open>WebRuntime\<close> and \<open>json.Marshal\<close>: the script that is
  run in the window, if any.\<close>

definition on_dom_ready ::
  "desktop_status \<times> go_error option \<Rightarrow> web_session result \<Rightarrow> (web_session \<Rightarrow> string result) \<Rightarrow> string option" where
  "on_dom_ready started connection encode =
     (case snd started of
        Some _ \<Rightarrow> None
      | None \<Rightarrow> (case connection of
          Inl _ \<Rightarrow> None
        | Inr session \<Rightarrow> (case encode session of
            Inl _ \<Rightarrow> None
          | Inr payload \<Rightarrow> Some (''window.__AI_COUNCIL_DESKTOP__='' @ payload @ '';''))))"

text \<open>\<open>main\<close> up to the window, of the outcomes of \<open>LoadConfig\<close>, \<open>NewSecretStore\<close> and \<open>os.Getwd\<close>.\<close>

definition desktop_main ::
  "desktop_config result \<Rightarrow> string result \<Rightarrow> (string \<Rightarrow> string) \<Rightarrow> (string \<Rightarrow> bool) \<Rightarrow>
   (string \<Rightarrow> secret_store result) \<Rightarrow> string result \<Rightarrow> desktop_app result" where
  "desktop_main config executable getenv exists' store cwd =
     (case config of Inl e \<Rightarrow> Inl e
      | Inr config0 \<Rightarrow>
          let config1 = with_bundled_service_binaries executable getenv exists' config0 in
          (case store (path_join [cf_DataDir config1, ''secrets'']) of Inl e \<Rightarrow> Inl e
           | Inr st \<Rightarrow> (case cwd of Inl e \<Rightarrow> Inl e | Inr workspace \<Rightarrow> new_desktop_app config1 (Some st) workspace)))"

section \<open>Provider keys reach the council and nobody else\<close>

lemma provider_secret_cases:
  assumes "provider_secret provider = Some (k, e)"
  obtains (openai) "k = ''provider.openai''" "e = ''OPENAI_API_KEY''"
  | (deepseek) "k = ''provider.deepseek''" "e = ''DEEPSEEK_API_KEY''"
  | (anthropic) "k = ''provider.anthropic''" "e = ''ANTHROPIC_API_KEY''"
proof -
  let ?p = "to_lower (trim_space provider)"
  consider "?p = ''openai''" | "?p \<noteq> ''openai''" "?p = ''deepseek''"
    | "?p \<noteq> ''openai''" "?p \<noteq> ''deepseek''" "?p = ''anthropic''"
    | "?p \<noteq> ''openai''" "?p \<noteq> ''deepseek''" "?p \<noteq> ''anthropic''"
    by blast
  then show thesis
  proof cases
    case 1
    with assms show thesis by (intro openai) (simp_all add: provider_secret_def)
  next
    case 2
    with assms show thesis
      by (intro deepseek) (simp_all add: provider_secret_def)
  next
    case 3
    with assms show thesis
      by (intro anthropic) (simp_all add: provider_secret_def)
  next
    case 4
    with assms show thesis by (simp add: provider_secret_def)
  qed
qed

lemma plain_trim:
  assumes "list_all (\<lambda>c. 32 < (of_char c :: nat) \<and> (of_char c :: nat) < 127) s" "s \<noteq> []"
  shows "trim_space s = s"
proof (rule trim_space_id)
  have "c \<notin> space_bytes" if "c \<in> set s" for c
    using assms(1) that graphic_not_space by (auto simp: list_all_iff)
  then show "hd s \<notin> space_bytes" "last s \<notin> space_bytes" using assms(2) by simp_all
qed (rule assms(2))

lemma provider_names:
  "provider_secret ''openai'' = Some (''provider.openai'', ''OPENAI_API_KEY'')"
  "provider_secret ''deepseek'' = Some (''provider.deepseek'', ''DEEPSEEK_API_KEY'')"
  "provider_secret ''anthropic'' = Some (''provider.anthropic'', ''ANTHROPIC_API_KEY'')"
proof -
  have t: "trim_space ''openai'' = ''openai''" "trim_space ''deepseek'' = ''deepseek''" "trim_space ''anthropic'' = ''anthropic''"
    by (rule plain_trim; simp)+
  have l: "to_lower ''openai'' = ''openai''" "to_lower ''deepseek'' = ''deepseek''" "to_lower ''anthropic'' = ''anthropic''"
    by code_simp+
  show "provider_secret ''openai'' = Some (''provider.openai'', ''OPENAI_API_KEY'')"
    "provider_secret ''deepseek'' = Some (''provider.deepseek'', ''DEEPSEEK_API_KEY'')"
    "provider_secret ''anthropic'' = Some (''provider.anthropic'', ''ANTHROPIC_API_KEY'')"
    unfolding provider_secret_def t l Let_def by simp_all
qed

lemma provider_keys_valid:
  "valid_secret_key ''provider.openai''" "valid_secret_key ''provider.deepseek''" "valid_secret_key ''provider.anthropic''"
  by code_simp+

definition stored_keys :: "(string \<Rightarrow> string option) \<Rightarrow> (string \<times> string) list \<Rightarrow> (string \<times> string) list" where
  "stored_keys m names = concat (map (\<lambda>(k, e). case m k of None \<Rightarrow> [] | Some v \<Rightarrow> [(e, v)]) names)"

lemma read_keys_ok:
  assumes "store_ok st cs s" "\<forall>p\<in>set ps. \<exists>k e. provider_secret p = Some (k, e) \<and> valid_secret_key k"
  shows "\<exists>s'. read_provider_keys st ps env s =
    (Inr (env @ stored_keys (secret_map st cs s) (map (the \<circ> provider_secret) ps)), s')"
  using assms
proof (induction ps arbitrary: env s)
  case Nil
  then show ?case by (simp add: returnE_def stored_keys_def)
next
  case (Cons p ps)
  then obtain k e where p: "provider_secret p = Some (k, e)" "valid_secret_key k" by auto
  obtain r s1 where g: "secret_get st None None k s = (r, s1)" by fastforce
  note get = get_ok [OF Cons.prems(1) p(2) g]
  have ok1: "store_ok st cs s1" and same: "secret_map st cs s1 = secret_map st cs s"
    using get Cons.prems(1) by (auto simp: store_ok_def secret_map_def fun_eq_iff)
  show ?case
  proof (cases "secret_map st cs s k")
    case None
    with Cons.IH [OF ok1, of env] Cons.prems(2) get g p same show ?thesis
      by (auto simp: prog_simps stored_keys_def secret_not_found_def)
  next
    case (Some v)
    with Cons.IH [OF ok1, of "env @ [(e, v)]"] Cons.prems(2) get g p same show ?thesis
      by (auto simp: prog_simps stored_keys_def)
  qed
qed

text \<open>What \<open>Start\<close> reads from the store after \<open>SaveProviderKey\<close> has succeeded on a disk that does not
  fail, and the environments of the two processes.\<close>

lemma saved_key_in_environment:
  assumes "store_ok st cs s" "length nonce = ae_NonceSize (se_aead st)"
    and "save_provider_key st (Inr nonce) provider key s = (Inr (), s1)"
    and "provider_secret provider = Some (secretKey, environmentKey)"
  shows "\<exists>environment s2. provider_environment st s1 = (Inr environment, s2) \<and>
    sp_Env (council_spec (app_options a workspace environment) p) = clone_environment (Some environment) \<and>
    (environmentKey, key) \<in> set environment \<and> distinct (map fst environment) \<and>
    (\<forall>e\<in>set environment. CHR ''='' \<notin> set (fst e)) \<and>
    merged_environment environ (sp_Env (runner_spec (app_options a workspace environment) p)) = environ"
proof -
  have valid: "valid_secret_key secretKey"
    using assms(4) by (cases rule: provider_secret_cases) (simp_all only: provider_keys_valid)
  have put: "secret_put st None None (Inr nonce) secretKey key s = (Inr (), s1)"
    using assms(3,4) by (auto simp: save_provider_key_def raiseE_def split: if_splits)
  note ok = put_ok [OF assms(1) valid assms(2) put]
  let ?env = "stored_keys (secret_map st cs s1) [(''provider.openai'', ''OPENAI_API_KEY''),
    (''provider.deepseek'', ''DEEPSEEK_API_KEY''), (''provider.anthropic'', ''ANTHROPIC_API_KEY'')]"
  have names: "\<forall>p\<in>set [''openai'', ''deepseek'', ''anthropic'']. \<exists>k e. provider_secret p = Some (k, e) \<and> valid_secret_key k"
    by (simp add: provider_names provider_keys_valid)
  have env: "stored_keys (secret_map st cs s1) (map (the \<circ> provider_secret) [''openai'', ''deepseek'', ''anthropic'']) = ?env"
    by (simp only: list.map comp_apply provider_names option.sel)
  have ok1: "store_ok st cs s1" using ok by blast
  obtain s2 where e: "provider_environment st s1 = (Inr ?env, s2)"
    using read_keys_ok [OF ok1 names, of "[]"] unfolding provider_environment_def env append_Nil by blast
  have m: "secret_map st cs s1 secretKey = Some key" using ok valid by simp
  have "(environmentKey, key) \<in> set ?env"
    using assms(4) by (cases rule: provider_secret_cases) (use m in \<open>simp_all add: stored_keys_def\<close>)
  moreover have "distinct (map fst ?env)" "\<forall>e\<in>set ?env. CHR ''='' \<notin> set (fst e)"
    by (auto simp: stored_keys_def split: option.splits)
  moreover have "sp_Env (council_spec (app_options a workspace ?env) p) = clone_environment (Some ?env)"
    by (simp add: council_spec_def app_options_def runtime_defaults_def)
  moreover have "merged_environment environ (sp_Env (runner_spec (app_options a workspace ?env) p)) = environ"
    by (simp add: runner_spec_def merged_environment_def)
  ultimately show ?thesis using e by (intro exI [of _ ?env] exI [of _ s2]) simp
qed

definition sample_app :: desktop_app where
  "sample_app = \<lparr>da_config = op_Config sample_options, da_store = sample_store, da_workspace = ''w'',
     da_runtime = None, da_lastError = []\<rparr>"

definition sample_saved_key :: "unit result \<times> file_sys" where
  "sample_saved_key = save_provider_key sample_store (Inr ''n'') ''openai'' ''k'' empty_disk"

lemma sample_key_saved: "sample_saved_key = (Inr (), snd sample_saved_key)"
proof -
  obtain r s where p: "secret_put sample_store None None (Inr ''n'') ''provider.openai'' ''k'' empty_disk = (r, s)" by fastforce
  from put_files [OF sample_store_ok provider_keys_valid(1) p] have "r = Inr ()" by blast
  moreover have "trim_space ''k'' = ''k''" by (rule plain_trim; simp)
  ultimately show ?thesis
    using p unfolding sample_saved_key_def save_provider_key_def provider_names by simp
qed

section \<open>Overlapping calls\<close>

text \<open>Two \<open>Start\<close>s at once: both find no runtime, each starts its own, and the second to finish
  replaces the first, which nobody can stop any more.\<close>

lemma overlapping_starts_lose_runtime:
  assumes "da_runtime a = None"
    and "app_start status id 1 (Inr env) (Inr ()) (Inr ()) a = (res1, a1, calls1)"
    and "app_start status (\<lambda>_. a1) 2 (Inr env) (Inr ()) (Inr ()) a = (res2, a2, calls2)"
  shows "snd res1 = None \<and> snd res2 = None \<and> da_runtime a2 = Some 2 \<and> RuntimeStop 1 \<notin> set (calls1 @ calls2) \<and>
    (\<exists>o1 o2. calls1 = [RuntimeStart 1 o1] \<and> calls2 = [RuntimeStart 2 o2])"
  using assms by (auto simp: app_start_def install_runtime_def Let_def)

text \<open>\<open>Stop\<close>, as the window's closing calls it, does nothing while \<open>Start\<close> is on its way.\<close>

lemma stop_while_starting:
  assumes "da_runtime a = None"
  shows "app_stop others stopped a = (Inr (), a, [])"
  using assms by (simp add: app_stop_def)

end
