(* ===== verification/Service_Startup.thy ===== *)
theory Service_Startup
  imports Desktop_App Api_Auth Council_Workflow
begin

text \<open>
  The two service programs (\<open>cmd/council-server\<close>, \<open>cmd/workspace-runner\<close>): their command lines,
  the checks and the order of their start-up, the HTTP server that \<open>http.go\<close> puts together and
  the bearer token between the council and the runner (\<open>internal/runner/grpc/auth.go\<close>,
  \<open>internal/transport/runner/http.go\<close>).

  \<^item> Opening the database, dialling, listening and reading certificates are outcomes given from
    outside. A panic of \<open>main\<close> is an error.
  \<^item> A server is data: its middlewares in the order of \<open>Use\<close> and its routes. \<open>serve\<close> runs a request
    through them; \<open>None\<close> stands for a request the router does not find.
\<close>

section \<open>Command lines\<close>

text \<open>Package \<open>flag\<close>: the value of every flag as a string.\<close>

datatype flag_kind = StringFlag | BoolFlag

type_synonym flag_values = "string \<Rightarrow> string"

definition parse_bool :: "string \<Rightarrow> string option" where
  "parse_bool s =
     (if s \<in> {''1'', ''t'', ''T'', ''TRUE'', ''true'', ''True''} then Some ''true''
      else if s \<in> {''0'', ''f'', ''F'', ''FALSE'', ''false'', ''False''} then Some ''false'' else None)"

fun flag_parse :: "(string \<Rightarrow> flag_kind option) \<Rightarrow> string list \<Rightarrow> flag_values \<Rightarrow> flag_values result" where
  "flag_parse formal [] v = Inr v"
| "flag_parse formal (s # args) v =
     (if length s < 2 \<or> hd s \<noteq> CHR ''-'' \<or> s = ''--'' then Inr v
      else
        let name = (if s ! 1 = CHR ''-'' then drop 2 s else drop 1 s);
            key = takeWhile (\<lambda>c. c \<noteq> CHR ''='') name;
            given = (if CHR ''='' \<in> set name then Some (tl (dropWhile (\<lambda>c. c \<noteq> CHR ''='') name)) else None) in
        if name = [] \<or> hd name = CHR ''-'' \<or> hd name = CHR ''='' then Inl (Err (''bad flag syntax: '' @ s))
        else (case formal key of
            None \<Rightarrow> Inl (Err (''flag provided but not defined: -'' @ key))
          | Some BoolFlag \<Rightarrow>
              (case parse_bool (case given of None \<Rightarrow> ''true'' | Some x \<Rightarrow> x) of
                 None \<Rightarrow> Inl (Err (''invalid boolean value for -'' @ key))
               | Some b \<Rightarrow> flag_parse formal args (v(key := b)))
          | Some StringFlag \<Rightarrow>
              (case given of
                 Some x \<Rightarrow> flag_parse formal args (v(key := x))
               | None \<Rightarrow>
                   (case args of
                      [] \<Rightarrow> Inl (Err (''flag needs an argument: -'' @ key))
                    | x # rest \<Rightarrow> flag_parse formal rest (v(key := x))))))"

section \<open>Authentication options (auth_config.go)\<close>

record auth_config =
  cg_Enabled :: bool
  cg_Role :: string
  cg_BootstrapSubject :: string
  cg_BootstrapPassword :: string
  cg_BootstrapToken :: string
  cg_Session :: session_options
  cg_passwordFromEnv :: string

text \<open>The configuration \<open>registerAuthFlags\<close> prepares, once the flags have been parsed.\<close>

definition register_auth_flags :: "(string \<Rightarrow> string) \<Rightarrow> flag_values \<Rightarrow> auth_config" where
  "register_auth_flags getenv v = \<lparr>cg_Enabled = (v ''rbac'' = ''true''), cg_Role = v ''rbac-role'',
     cg_BootstrapSubject = v ''rbac-bootstrap-subject'', cg_BootstrapPassword = v ''rbac-bootstrap-password'',
     cg_BootstrapToken = v ''rbac-bootstrap-token'',
     cg_Session = \<lparr>so_CookieName = ''aicouncil_session'', so_CookieSecure = (getenv ''AUTH_COOKIE_SECURE'' \<noteq> ''false''),
       so_TTL = 28800000000000\<rparr>,
     cg_passwordFromEnv = getenv ''COUNCIL_BOOTSTRAP_PASSWORD''\<rparr>"

definition rbac_enabled :: "auth_config \<Rightarrow> bool" where
  "rbac_enabled c \<longleftrightarrow> cg_Enabled c \<or> cg_Role c \<noteq> []"

definition auth_validate :: "(auth_config, unit) prog" where
  "auth_validate c0 =
     (let c = (if cg_BootstrapPassword c0 = [] then c0\<lparr>cg_BootstrapPassword := cg_passwordFromEnv c0\<rparr> else c0);
          subject = (cg_BootstrapSubject c \<noteq> []); password = (cg_BootstrapPassword c \<noteq> []);
          token = (cg_BootstrapToken c \<noteq> []) in
      (if cg_Role c \<noteq> [] \<and> trim_space (cg_Role c) = [] then Inl (Err ''rbac-role must not be blank'')
       else if \<not> subject \<and> \<not> password \<and> \<not> token then Inr ()
       else if \<not> rbac_enabled c then Inl (Err ''RBAC bootstrap requires --rbac or --rbac-role'')
       else if password \<and> token then Inl (Err ''RBAC bootstrap password and token are mutually exclusive'')
       else if \<not> subject \<or> trim_space (cg_BootstrapSubject c) = [] \<or> \<not> password \<and> \<not> token
         then Inl (Err ''RBAC bootstrap requires a subject and exactly one password or token'')
       else Inr (), c))"

text \<open>\<open>configureRBAC\<close>: \<open>None\<close> is the nil service.\<close>

definition configure_rbac ::
  "'db gorm_db \<Rightarrow> rbac_env \<Rightarrow> auth_config \<Rightarrow> ('db, 'db gorm_db option) prog" where
  "configure_rbac D E c0 =
     (case auth_validate c0 of
        (Inl e, _) \<Rightarrow> raiseE e
      | (Inr _, c) \<Rightarrow>
          if \<not> rbac_enabled c then returnE None
          else bindE (seed_permissions D) (\<lambda>_.
            bindE
              (if cg_BootstrapPassword c \<noteq> []
               then bindE (bootstrap_admin D E (cg_BootstrapSubject c) (cg_BootstrapPassword c) (so_TTL (cg_Session c)))
                 (\<lambda>_. returnE ())
               else if cg_BootstrapToken c \<noteq> []
               then bootstrap_legacy_admin D E (cg_BootstrapSubject c) (cg_BootstrapToken c)
                 (if cg_Role c = [] then ''admin'' else cg_Role c)
               else returnE ())
              (\<lambda>_. returnE (Some D))))"

section \<open>The HTTP server of the council (http.go)\<close>

datatype middleware = RequestLog | Bearer string | RbacAuth session_options

record middleware_conf =
  mc_Log :: bool
  mc_Prometheus :: bool
  mc_Metrics :: bool
  mc_Recover :: bool

record rest_server =
  sv_Host :: string
  sv_Port :: int
  sv_TLS :: "(string \<times> string) option"
  sv_Middlewares :: middleware_conf
  sv_Use :: "middleware list"
  sv_Routes :: "(string \<times> string) list"

definition base_routes :: "(string \<times> string) list" where
  "base_routes = [(''GET'', ''/healthz''), (''GET'', ''/metrics'')]"

definition new_server_with_api_and_auth :: "string \<Rightarrow> int \<Rightarrow> string \<Rightarrow> rest_server" where
  "new_server_with_api_and_auth host port token = \<lparr>sv_Host = host, sv_Port = port, sv_TLS = None,
     sv_Middlewares = \<lparr>mc_Log = True, mc_Prometheus = True, mc_Metrics = True, mc_Recover = True\<rparr>,
     sv_Use = RequestLog # (if token \<noteq> [] then [Bearer token] else []), sv_Routes = base_routes @ council_routes\<rparr>"

text \<open>\<open>reloader\<close> and \<open>rest\<close> are the outcomes of \<open>tlsconfig.New\<close> and \<open>rest.NewServer\<close>.\<close>

definition new_tls_server_with_api_and_auth ::
  "string \<Rightarrow> int \<Rightarrow> string \<Rightarrow> string \<Rightarrow> string \<Rightarrow> unit result \<Rightarrow> unit result \<Rightarrow> rest_server result" where
  "new_tls_server_with_api_and_auth host port token certFile keyFile reloader rest =
     (if certFile = [] \<or> keyFile = [] then Inl (Err ''tls certificate and key are required'')
      else case reloader of Inl e \<Rightarrow> Inl e
      | Inr _ \<Rightarrow> (case rest of Inl e \<Rightarrow> Inl e
        | Inr _ \<Rightarrow> Inr \<lparr>sv_Host = host, sv_Port = port, sv_TLS = Some (certFile, keyFile),
            sv_Middlewares = \<lparr>mc_Log = True, mc_Prometheus = True, mc_Metrics = True, mc_Recover = True\<rparr>,
            sv_Use = RequestLog # (if token \<noteq> [] then [Bearer token] else []),
            sv_Routes = base_routes @ council_routes\<rparr>))"

definition rbac_server_routes :: "(string \<times> string) list" where
  "rbac_server_routes = base_routes @ council_routes @ rbac_routes"

definition new_server_with_rbac :: "string \<Rightarrow> int \<Rightarrow> session_options \<Rightarrow> rest_server" where
  "new_server_with_rbac host port options = \<lparr>sv_Host = host, sv_Port = port, sv_TLS = None,
     sv_Middlewares = \<lparr>mc_Log = False, mc_Prometheus = True, mc_Metrics = True, mc_Recover = True\<rparr>,
     sv_Use = [RequestLog, RbacAuth options], sv_Routes = rbac_server_routes\<rparr>"

definition new_tls_server_with_rbac ::
  "string \<Rightarrow> int \<Rightarrow> session_options \<Rightarrow> string \<Rightarrow> string \<Rightarrow> unit result \<Rightarrow> unit result \<Rightarrow> rest_server result" where
  "new_tls_server_with_rbac host port options certFile keyFile reloader rest =
     (if certFile = [] \<or> keyFile = [] then Inl (Err ''tls certificate and key are required'')
      else case reloader of Inl e \<Rightarrow> Inl e
      | Inr _ \<Rightarrow> (case rest of Inl e \<Rightarrow> Inl e
        | Inr _ \<Rightarrow> Inr \<lparr>sv_Host = host, sv_Port = port, sv_TLS = Some (certFile, keyFile),
            sv_Middlewares = \<lparr>mc_Log = False, mc_Prometheus = True, mc_Metrics = True, mc_Recover = True\<rparr>,
            sv_Use = [RequestLog, RbacAuth options], sv_Routes = rbac_server_routes\<rparr>))"

fun wrap_middlewares ::
  "'db gorm_db option \<Rightarrow> rbac_env \<Rightarrow> rbac_env \<Rightarrow> middleware list \<Rightarrow> ('db, 'v) handler \<Rightarrow> ('db, 'v) handler" where
  "wrap_middlewares D E E' [] next' = next'"
| "wrap_middlewares D E E' (RequestLog # ms) next' = wrap_middlewares D E E' ms next'"
| "wrap_middlewares D E E' (Bearer token # ms) next' = bearer_auth token (wrap_middlewares D E E' ms next')"
| "wrap_middlewares D E E' (RbacAuth options # ms) next' = rbac_auth D E E' options (wrap_middlewares D E E' ms next')"

definition serve ::
  "'db gorm_db option \<Rightarrow> rbac_env \<Rightarrow> rbac_env \<Rightarrow> rest_server \<Rightarrow> ('db, 'v) handler \<Rightarrow> api_request \<Rightarrow> 'db \<Rightarrow>
   ('v reply \<times> 'db) option" where
  "serve D E E' sv next' r s =
     (if list_ex (\<lambda>(m, pattern). rq_Method r = m \<and> route_matches pattern (rq_Path r)) (sv_Routes sv)
      then Some (wrap_middlewares D E E' (sv_Use sv) next' r s) else None)"

section \<open>The council server (main.go)\<close>

record council_options =
  co_listen :: string
  co_db :: string
  co_token :: string
  co_tlsCert :: string
  co_tlsKey :: string
  co_auth :: auth_config
  co_runner :: string
  co_runnerTLS :: bool
  co_runnerTLSServerName :: string
  co_runnerToken :: string

definition council_flags :: "(string \<times> flag_kind \<times> string) list" where
  "council_flags =
     [(''listen'', StringFlag, ''127.0.0.1:8080''), (''db'', StringFlag, ''.data/council.db''), (''token'', StringFlag, []),
      (''tls-cert'', StringFlag, []), (''tls-key'', StringFlag, []), (''rbac'', BoolFlag, ''false''),
      (''rbac-role'', StringFlag, []), (''rbac-bootstrap-subject'', StringFlag, []),
      (''rbac-bootstrap-password'', StringFlag, []), (''rbac-bootstrap-token'', StringFlag, []),
      (''runner'', StringFlag, []), (''runner-tls'', BoolFlag, ''false''), (''runner-tls-server-name'', StringFlag, []),
      (''runner-token'', StringFlag, [])]"

definition flag_kinds :: "(string \<times> flag_kind \<times> string) list \<Rightarrow> string \<Rightarrow> flag_kind option" where
  "flag_kinds flags key = map_option fst (map_of flags key)"

definition flag_defaults :: "(string \<times> flag_kind \<times> string) list \<Rightarrow> flag_values" where
  "flag_defaults flags key = (case map_of flags key of None \<Rightarrow> [] | Some (_, d) \<Rightarrow> d)"

definition parse_flags :: "(string \<times> flag_kind \<times> string) list \<Rightarrow> string list \<Rightarrow> flag_values result" where
  "parse_flags flags args = flag_parse (flag_kinds flags) args (flag_defaults flags)"

definition council_options_of :: "(string \<Rightarrow> string) \<Rightarrow> flag_values \<Rightarrow> council_options" where
  "council_options_of getenv v = \<lparr>co_listen = v ''listen'', co_db = v ''db'', co_token = v ''token'',
     co_tlsCert = v ''tls-cert'', co_tlsKey = v ''tls-key'', co_auth = register_auth_flags getenv v,
     co_runner = v ''runner'', co_runnerTLS = (v ''runner-tls'' = ''true''),
     co_runnerTLSServerName = v ''runner-tls-server-name'', co_runnerToken = v ''runner-token''\<rparr>"

text \<open>\<open>net.SplitHostPort\<close>: the host, the port and its errors.\<close>

definition split_host_port :: "string \<Rightarrow> (string \<times> string) result" where
  "split_host_port s =
     (let i = length s - 1 - length (takeWhile (\<lambda>c. c \<noteq> CHR '':'') (rev s));
          missing = Inl (Err ''missing port in address''); many = Inl (Err ''too many colons in address'');
          brackets = (\<lambda>j k host. if CHR ''['' \<in> set (drop j s) then Inl (Err ''unexpected '[' in address'')
            else if CHR '']'' \<in> set (drop k s) then Inl (Err ''unexpected ']' in address'')
            else Inr (host, drop (Suc i) s)) in
      if CHR '':'' \<notin> set s then missing
      else if hd s = CHR ''['' then
        (case index_any '']'' s of
           None \<Rightarrow> Inl (Err ''missing ']' in address'')
         | Some e \<Rightarrow>
             if Suc e = length s then missing
             else if Suc e = i then brackets 1 (Suc e) (take (e - 1) (drop 1 s))
             else if s ! Suc e = CHR '':'' then many else missing)
      else if CHR '':'' \<in> set (take i s) then many
      else brackets 0 0 (take i s))"

definition split_listen_address :: "string \<Rightarrow> (string \<times> int) result" where
  "split_listen_address address =
     (case split_host_port address of
        Inl e \<Rightarrow> Inl (Wrap ''parse listen address: '' e)
      | Inr (host, rawPort) \<Rightarrow>
          (case parse_int rawPort of
             None \<Rightarrow> Inl (Err (''invalid listen port '' @ rawPort))
           | Some port \<Rightarrow>
               if port < 1 \<or> port > 65535 then Inl (Err (''invalid listen port '' @ rawPort)) else Inr (host, port)))"

text \<open>\<open>configuredWorkflow\<close>: \<open>base\<close> is an engine with the decoders; the three adapters are those of the
  vendor packages over one HTTP client.\<close>

record 'w vendors =
  vn_http :: "'w http_env"
  vn_openai :: "string \<Rightarrow> openai_response result"
  vn_deepseek :: "string \<Rightarrow> deepseek_response result"
  vn_anthropic :: "string \<Rightarrow> anthropic_response result"

definition new_openai :: "'w vendors \<Rightarrow> provider_config \<Rightarrow> 'w model_provider" where
  "new_openai V cfg = \<lparr>mp_Name = ''openai'', mp_Generate = openai_generate (vn_http V) (vn_openai V) (openai_new cfg)\<rparr>"

definition new_deepseek :: "'w vendors \<Rightarrow> provider_config \<Rightarrow> 'w model_provider" where
  "new_deepseek V cfg =
     \<lparr>mp_Name = ''deepseek'', mp_Generate = deepseek_generate (vn_http V) (vn_deepseek V) (deepseek_new cfg)\<rparr>"

definition new_anthropic :: "'w vendors \<Rightarrow> provider_config \<Rightarrow> 'w model_provider" where
  "new_anthropic V cfg =
     \<lparr>mp_Name = ''anthropic'', mp_Generate = anthropic_generate (vn_http V) (vn_anthropic V) (anthropic_new cfg)\<rparr>"

definition env_or :: "(string \<Rightarrow> string) \<Rightarrow> string \<Rightarrow> string \<Rightarrow> string" where
  "env_or getenv key fallback = (if getenv key \<noteq> [] then getenv key else fallback)"

definition vendor_seat ::
  "(provider_config \<Rightarrow> 'w model_provider) \<Rightarrow> (string \<Rightarrow> string) \<Rightarrow> string \<Rightarrow> string \<Rightarrow> string \<Rightarrow> string \<Rightarrow>
   ('w model_provider \<times> seat) list" where
  "vendor_seat build getenv name keyVar modelVar fallback =
     (if getenv keyVar = [] then []
      else let model = env_or getenv modelVar fallback in
        [(with_cost_meter (build \<lparr>vc_APIKey = getenv keyVar, vc_BaseURL = [], vc_Model = model\<rparr>),
          \<lparr>se_ID = name, se_Provider = name, se_Model = model, se_Role = ''proposer'', se_ProposalAlias = []\<rparr>)])"

definition configured_seats :: "'w vendors \<Rightarrow> (string \<Rightarrow> string) \<Rightarrow> ('w model_provider \<times> seat) list" where
  "configured_seats V getenv =
     vendor_seat (new_openai V) getenv ''openai'' ''OPENAI_API_KEY'' ''OPENAI_MODEL'' ''gpt-4o'' @
     vendor_seat (new_deepseek V) getenv ''deepseek'' ''DEEPSEEK_API_KEY'' ''DEEPSEEK_MODEL'' ''deepseek-chat'' @
     vendor_seat (new_anthropic V) getenv ''anthropic'' ''ANTHROPIC_API_KEY'' ''ANTHROPIC_MODEL'' ''claude-3-5-sonnet''"

definition configured_workflow ::
  "'w engine \<Rightarrow> 'w vendors \<Rightarrow> (string \<Rightarrow> string) \<Rightarrow> 'w workflow option" where
  "configured_workflow base V getenv =
     (case configured_seats V getenv of
        [] \<Rightarrow> None
      | (p, first) # rest \<Rightarrow>
          let items = p # map fst rest; seats = first # map snd rest;
              engine = base\<lparr>ce_registry := Some (new_registry items),
                ce_limits := \<lparr>lm_Quorum = 0, lm_MaxRounds = 0, lm_MaxInputTokens = 0, lm_MaxOutputTokens = 0,
                  lm_MaxCostMicros = 0, lm_Timeout = 120000000000\<rparr>\<rparr>
          in Some (new_workflow (Some engine) seats seats
               (first\<lparr>se_ID := se_ID first @ ''-judge'', se_Role := ''judge''\<rparr>)
               (first\<lparr>se_ID := se_ID first @ ''-redteam'', se_Role := ''redteam''\<rparr>)))"

text \<open>The client's side of the token: \<open>runnerDialOptions\<close> and \<open>runnerAuthInterceptor\<close>. The metadata of
  a call is a list of keys and values.\<close>

definition runner_auth_interceptor :: "string \<Rightarrow> (string \<times> string) list \<Rightarrow> (string \<times> string) list" where
  "runner_auth_interceptor token md = md @ [(''authorization'', ''Bearer '' @ token)]"

definition runner_call_metadata :: "string \<Rightarrow> (string \<times> string) list \<Rightarrow> (string \<times> string) list" where
  "runner_call_metadata token md = (if token = [] then md else runner_auth_interceptor token md)"

text \<open>What the outside makes of the start: opening the database, dialling, reading the
  certificates, building the server.\<close>

record start_world =
  sw_open :: "unit result"
  sw_dial :: "unit result"
  sw_reload :: "unit result"
  sw_rest :: "unit result"
  sw_listen :: "unit result"

record runner_conn =
  rc_Addr :: string
  rc_TLS :: "string option"
  rc_Token :: string

record 'w council_process =
  cp_Server :: rest_server
  cp_Workflow :: "'w workflow option"
  cp_Runner :: "runner_conn option"

definition choose_server ::
  "start_world \<Rightarrow> string \<Rightarrow> int \<Rightarrow> council_options \<Rightarrow> bool \<Rightarrow> rest_server result" where
  "choose_server W host port c rbac =
     (if co_tlsCert c \<noteq> [] \<and> rbac
      then new_tls_server_with_rbac host port (cg_Session (co_auth c)) (co_tlsCert c) (co_tlsKey c) (sw_reload W) (sw_rest W)
      else if co_tlsCert c \<noteq> []
      then new_tls_server_with_api_and_auth host port (co_token c) (co_tlsCert c) (co_tlsKey c) (sw_reload W) (sw_rest W)
      else case sw_rest W of Inl e \<Rightarrow> Inl e
      | Inr _ \<Rightarrow> Inr (if rbac then new_server_with_rbac host port (cg_Session (co_auth c))
          else new_server_with_api_and_auth host port (co_token c)))"

text \<open>The route \<open>main\<close> adds; its handler answers 202 and stops the server once.\<close>

definition add_shutdown_route :: "rest_server \<Rightarrow> rest_server" where
  "add_shutdown_route sv = sv\<lparr>sv_Routes := sv_Routes sv @ [(''POST'', ''/shutdown'')]\<rparr>"

definition lift_result :: "'a result \<Rightarrow> ('s, 'a) prog" where
  "lift_result r = (case r of Inl e \<Rightarrow> raiseE e | Inr a \<Rightarrow> returnE a)"

text \<open>\<open>auth\<close> is a pointer: the second \<open>validate\<close>, in \<open>configureRBAC\<close>, sees what the first one filled in.\<close>

definition council_main ::
  "'db gorm_db \<Rightarrow> rbac_env \<Rightarrow> start_world \<Rightarrow> 'w engine \<Rightarrow> 'w vendors \<Rightarrow> (string \<Rightarrow> string) \<Rightarrow> string list \<Rightarrow>
   ('db, 'w council_process \<times> 'db gorm_db option) prog" where
  "council_main D E W base V getenv args =
     bindE (lift_result (parse_flags council_flags args)) (\<lambda>v.
     let c = council_options_of getenv v; auth = snd (auth_validate (co_auth c)) in
     bindE (lift_result (fst (auth_validate (co_auth c)))) (\<lambda>_.
     bindE (lift_result (split_listen_address (co_listen c))) (\<lambda>(host, port).
     bindE (lift_result (sw_open W)) (\<lambda>_.
     bindE (lift_result (if co_runner c = [] then Inr () else sw_dial W)) (\<lambda>_.
       if (co_tlsCert c = []) \<noteq> (co_tlsKey c = [])
       then raiseE (Err ''tls-cert and tls-key must be provided together'')
       else
     bindE (configure_rbac D E auth) (\<lambda>service.
     bindE (lift_result (choose_server W host port (c\<lparr>co_auth := auth\<rparr>) (service \<noteq> None))) (\<lambda>sv.
       returnE (\<lparr>cp_Server = add_shutdown_route sv, cp_Workflow = configured_workflow base V getenv,
         cp_Runner = (if co_runner c = [] then None
           else Some \<lparr>rc_Addr = co_runner c,
             rc_TLS = (if co_runnerTLS c then Some (co_runnerTLSServerName c) else None),
             rc_Token = co_runnerToken c\<rparr>)\<rparr>, service))))))))"

section \<open>The workspace runner\<close>

definition runner_flags :: "(string \<times> flag_kind \<times> string) list" where
  "runner_flags =
     [(''listen'', StringFlag, ''127.0.0.1:8081''), (''grpc-listen'', StringFlag, ''127.0.0.1:9091''),
      (''workspace-root'', StringFlag, ''.''), (''db'', StringFlag, ''.data/runner.db''), (''token'', StringFlag, []),
      (''tls-cert'', StringFlag, []), (''tls-key'', StringFlag, [])]"

datatype grpc_code = Unauthenticated | PermissionDenied

text \<open>\<open>UnaryAuthInterceptor\<close>; \<open>None\<close> is a context without metadata. Keys of metadata are lower case.\<close>

definition unary_auth ::
  "string \<Rightarrow> (string \<times> string) list option \<Rightarrow> ('s \<Rightarrow> 'b) \<Rightarrow> 's \<Rightarrow> grpc_code \<times> string + 'b" where
  "unary_auth expected md handler req =
     (if expected = [] then Inr (handler req)
      else (case md of
          None \<Rightarrow> Inl (Unauthenticated, ''missing authorization'')
        | Some pairs \<Rightarrow>
            (case map snd (filter (\<lambda>(k, _). k = ''authorization'') pairs) of
               [] \<Rightarrow> Inl (Unauthenticated, ''missing authorization'')
             | value # _ \<Rightarrow>
                 (case bearer_token (trim_space value) of
                    None \<Rightarrow> Inl (Unauthenticated, ''invalid authorization'')
                  | Some token \<Rightarrow>
                      if token \<noteq> expected then Inl (PermissionDenied, ''invalid token'') else Inr (handler req)))))"

text \<open>\<open>NewRouterWithShutdown\<close>: the status of the answer and whether the callback is called.\<close>

definition runner_http :: "string \<Rightarrow> bool \<Rightarrow> api_request \<Rightarrow> (nat \<times> bool) option" where
  "runner_http token shutdown r =
     (if rq_Method r = ''GET'' \<and> rq_Path r = ''/healthz'' then Some (200, False)
      else if rq_Method r = ''POST'' \<and> rq_Path r = ''/shutdown'' \<and> token \<noteq> [] \<and> shutdown then
        (if bearer_token (trim_space (rq_Authorization r)) \<noteq> Some token then Some (401, False) else Some (202, True))
      else None)"

record runner_process =
  rn_Listen :: string
  rn_GRPC :: string
  rn_Root :: string
  rn_DB :: string
  rn_Token :: string
  rn_TLS :: "(string \<times> string) option"

definition runner_main :: "start_world \<Rightarrow> unit result \<Rightarrow> string list \<Rightarrow> runner_process result" where
  "runner_main W service args =
     (case parse_flags runner_flags args of
        Inl e \<Rightarrow> Inl e
      | Inr v \<Rightarrow> (case sw_open W of Inl e \<Rightarrow> Inl e
      | Inr _ \<Rightarrow> (case service of Inl e \<Rightarrow> Inl e
      | Inr _ \<Rightarrow>
          if (v ''tls-cert'' = []) \<noteq> (v ''tls-key'' = [])
          then Inl (Err ''tls-cert and tls-key must be provided together'')
          else (case (if v ''tls-cert'' = [] then Inr () else sw_reload W) of Inl e \<Rightarrow> Inl e
          | Inr _ \<Rightarrow> (case sw_listen W of Inl e \<Rightarrow> Inl e
          | Inr _ \<Rightarrow> Inr \<lparr>rn_Listen = v ''listen'', rn_GRPC = v ''grpc-listen'', rn_Root = v ''workspace-root'',
              rn_DB = v ''db'', rn_Token = v ''token'',
              rn_TLS = (if v ''tls-cert'' = [] then None else Some (v ''tls-cert'', v ''tls-key''))\<rparr>)))))"

text \<open>\<open>cmd/healthcheck\<close>: the probe, of the outcome of the request.\<close>

definition probe :: "int result \<Rightarrow> unit result" where
  "probe response =
     (case response of
        Inl e \<Rightarrow> Inl e
      | Inr status \<Rightarrow> if status < 200 \<or> status \<ge> 300 then Inl (Err ''unexpected health response'') else Inr ())"

definition healthcheck_main :: "string list \<Rightarrow> (string \<Rightarrow> int result) \<Rightarrow> nat" where
  "healthcheck_main args get =
     (case args of
        [prog, url] \<Rightarrow> (case probe (get url) of Inl _ \<Rightarrow> 1 | Inr _ \<Rightarrow> 0)
      | _ \<Rightarrow> 2)"

section \<open>What the desktop program starts\<close>

lemma flag_value:
  assumes "formal key = Some StringFlag" "key \<noteq> []" "hd key \<noteq> CHR ''-''" "CHR ''='' \<notin> set key"
  shows "flag_parse formal ((''--'' @ key) # x # rest) v = flag_parse formal rest (v(key := x))"
proof -
  have t: "takeWhile (\<lambda>c. c \<noteq> CHR ''='') key = key" using assms(4) by (auto simp: takeWhile_eq_all_conv)
  have "hd key \<noteq> CHR ''=''" using assms(2,4) by (cases key) auto
  then show ?thesis using assms by (simp add: Let_def t)
qed

lemma flag_switch:
  assumes "formal key = Some BoolFlag" "key \<noteq> []" "hd key \<noteq> CHR ''-''" "CHR ''='' \<notin> set key"
  shows "flag_parse formal ((''--'' @ key) # rest) v = flag_parse formal rest (v(key := ''true''))"
proof -
  have t: "takeWhile (\<lambda>c. c \<noteq> CHR ''='') key = key" using assms(4) by (auto simp: takeWhile_eq_all_conv)
  have "hd key \<noteq> CHR ''=''" using assms(2,4) by (cases key) auto
  then show ?thesis using assms by (simp add: Let_def parse_bool_def t)
qed

lemma runner_flag_names:
  "list_all (\<lambda>key. flag_kinds runner_flags key = Some StringFlag)
     [''listen'', ''grpc-listen'', ''workspace-root'', ''db'', ''token'', ''tls-cert'', ''tls-key'']"
  by code_simp

lemma council_flag_names:
  "list_all (\<lambda>key. flag_kinds council_flags key = Some StringFlag)
     [''listen'', ''db'', ''token'', ''tls-cert'', ''tls-key'', ''rbac-role'', ''rbac-bootstrap-subject'',
      ''rbac-bootstrap-token'', ''runner'', ''runner-token'']"
  "flag_kinds council_flags ''runner-tls'' = Some BoolFlag"
  by code_simp+

lemma runner_args:
  "parse_flags runner_flags (sp_Args (runner_spec o' p)) = Inr ((flag_defaults runner_flags)
     (''listen'' := pr_runnerHTTP p, ''grpc-listen'' := pr_runnerGRPC p, ''workspace-root'' := op_WorkspaceRoot o',
      ''db'' := path_join [cf_DataDir (op_Config o'), ''runner.db''], ''token'' := pr_token p,
      ''tls-cert'' := op_TLSCert o', ''tls-key'' := op_TLSKey o'))"
proof -
  note step = flag_value [where formal = "flag_kinds runner_flags"]
  have k: "flag_kinds runner_flags key = Some StringFlag"
    if "key \<in> {''listen'', ''grpc-listen'', ''workspace-root'', ''db'', ''token'', ''tls-cert'', ''tls-key''}" for key
    using runner_flag_names that by auto
  show ?thesis
    using step [of "''listen''"] step [of "''grpc-listen''"] step [of "''workspace-root''"] step [of "''db''"]
      step [of "''token''"] step [of "''tls-cert''"] step [of "''tls-key''"]
    by (simp add: k runner_spec_def parse_flags_def del: flag_parse.simps(2))
qed

lemma council_args:
  assumes "op_RBACRole o' = []"
  shows "parse_flags council_flags (sp_Args (council_spec o' p)) =
    Inr (let v = (flag_defaults council_flags)
      (''listen'' := pr_councilHTTP p, ''db'' := path_join [cf_DataDir (op_Config o'), ''council.db''],
       ''token'' := pr_token p, ''runner'' := pr_runnerGRPC p, ''runner-token'' := pr_token p,
       ''tls-cert'' := op_TLSCert o', ''tls-key'' := op_TLSKey o', ''rbac-role'' := [],
       ''rbac-bootstrap-subject'' := op_RBACSubject o')
      in if op_TLSCert o' \<noteq> [] \<and> op_TLSKey o' \<noteq> [] then v(''runner-tls'' := ''true'') else v)"
proof -
  note step = flag_value [where formal = "flag_kinds council_flags"]
  have k: "flag_kinds council_flags key = Some StringFlag"
    if "key \<in> {''listen'', ''db'', ''token'', ''tls-cert'', ''tls-key'', ''rbac-role'', ''rbac-bootstrap-subject'',
      ''runner'', ''runner-token''}" for key
    using council_flag_names(1) that by auto
  have switch: "flag_parse (flag_kinds council_flags) [''--runner-tls''] v = Inr (v(''runner-tls'' := ''true''))" for v
    using flag_switch [of "flag_kinds council_flags" "''runner-tls''" "[]" v] council_flag_names(2)
    by (simp del: flag_parse.simps(2))
  show ?thesis
    using step [of "''listen''"] step [of "''db''"] step [of "''token''"] step [of "''runner''"]
      step [of "''runner-token''"] step [of "''tls-cert''"] step [of "''tls-key''"] step [of "''rbac-role''"]
      step [of "''rbac-bootstrap-subject''"] assms
    by (simp add: k council_spec_def parse_flags_def switch Let_def del: flag_parse.simps(2))
qed

lemma council_default_values:
  "flag_defaults council_flags ''rbac'' = ''false''" "flag_defaults council_flags ''rbac-bootstrap-password'' = []"
  "flag_defaults council_flags ''rbac-bootstrap-token'' = []" "flag_defaults council_flags ''runner-tls'' = ''false''"
  "flag_defaults council_flags ''runner-tls-server-name'' = []"
  by (simp_all add: flag_defaults_def council_flags_def)

text \<open>A start on which nothing outside fails.\<close>

definition willing :: "start_world \<Rightarrow> bool" where
  "willing W \<longleftrightarrow> sw_open W = Inr () \<and> sw_dial W = Inr () \<and> sw_reload W = Inr () \<and> sw_rest W = Inr () \<and> sw_listen W = Inr ()"

lemma session_token_plain:
  assumes "new_session_token (Inr random) = Inr token" "random \<noteq> []"
  shows "token \<noteq> []" "trim_space token = token" "bearer_token (trim_space (''Bearer '' @ token)) = Some token"
proof -
  have t: "token = b64_encode url_alphabet random" using assms(1) by (simp add: new_session_token_def)
  then show ne: "token \<noteq> []" using assms(2) by (cases "(url_alphabet, random)" rule: b64_encode.cases) auto
  have "list_all (\<lambda>c. 32 < (of_char c :: nat) \<and> (of_char c :: nat) < 127) url_alphabet" by code_simp
  then have plain: "list_all (\<lambda>c. 32 < (of_char c :: nat) \<and> (of_char c :: nat) < 127) token"
    using set_b64_encode [OF url_alphabet, of random] by (auto simp: list_all_iff t)
  then show tt: "trim_space token = token" using ne by (rule plain_trim)
  have "last (''Bearer '' @ token) \<notin> space_bytes" "hd (''Bearer '' @ token) \<notin> space_bytes"
    using ne plain graphic_not_space [of "last token"] by (auto simp: list_all_iff graphic_not_space)
  then have b: "trim_space (''Bearer '' @ token) = ''Bearer '' @ token" using ne by (intro trim_space_id) auto
  have "equal_fold ''Bearer '' ''bearer ''" by code_simp
  then show "bearer_token (trim_space (''Bearer '' @ token)) = Some token"
    unfolding b by (simp add: bearer_token_def tt)
qed

lemma runner_started:
  assumes "willing W" "(op_TLSCert o' = []) = (op_TLSKey o' = [])"
  shows "runner_main W (Inr ()) (sp_Args (runner_spec o' p)) = Inr \<lparr>rn_Listen = pr_runnerHTTP p,
     rn_GRPC = pr_runnerGRPC p, rn_Root = op_WorkspaceRoot o', rn_DB = path_join [cf_DataDir (op_Config o'), ''runner.db''],
     rn_Token = pr_token p, rn_TLS = (if op_TLSCert o' = [] then None else Some (op_TLSCert o', op_TLSKey o'))\<rparr>"
  using assms by (simp add: runner_main_def runner_args willing_def)

lemma choose_static_server:
  assumes "willing W" "(co_tlsCert c = []) = (co_tlsKey c = [])"
  shows "choose_server W host port c False = Inr ((new_server_with_api_and_auth host port (co_token c))
     \<lparr>sv_TLS := (if co_tlsCert c = [] then None else Some (co_tlsCert c, co_tlsKey c))\<rparr>)"
  using assms
  by (auto simp: choose_server_def willing_def new_tls_server_with_api_and_auth_def new_server_with_api_and_auth_def)

lemma council_started:
  assumes "willing W" "(op_TLSCert o' = []) = (op_TLSKey o' = [])" "op_RBACRole o' = []" "op_RBACSubject o' = []"
    and "getenv ''COUNCIL_BOOTSTRAP_PASSWORD'' = []" "split_listen_address (pr_councilHTTP p) = Inr (host, port)"
    and "pr_runnerGRPC p \<noteq> []"
  shows "council_main D E W base V getenv (sp_Args (council_spec o' p)) s =
    (Inr (\<lparr>cp_Server = add_shutdown_route ((new_server_with_api_and_auth host port (pr_token p))
        \<lparr>sv_TLS := (if op_TLSCert o' = [] then None else Some (op_TLSCert o', op_TLSKey o'))\<rparr>),
      cp_Workflow = configured_workflow base V getenv,
      cp_Runner = Some \<lparr>rc_Addr = pr_runnerGRPC p, rc_TLS = (if op_TLSCert o' = [] then None else Some []),
        rc_Token = pr_token p\<rparr>\<rparr>, None), s)"
proof -
  obtain v where v: "parse_flags council_flags (sp_Args (council_spec o' p)) = Inr v"
    and vals: "v ''listen'' = pr_councilHTTP p" "v ''token'' = pr_token p" "v ''runner'' = pr_runnerGRPC p"
      "v ''runner-token'' = pr_token p" "v ''tls-cert'' = op_TLSCert o'" "v ''tls-key'' = op_TLSKey o'"
      "v ''rbac'' = ''false''" "v ''rbac-role'' = []" "v ''rbac-bootstrap-subject'' = []"
      "v ''rbac-bootstrap-password'' = []" "v ''rbac-bootstrap-token'' = []" "v ''runner-tls-server-name'' = []"
      "v ''runner-tls'' = (if op_TLSCert o' = [] then ''false'' else ''true'')"
    using council_args [OF assms(3), of p] assms(2,4) by (auto simp: council_default_values Let_def)
  have free: "auth_validate (register_auth_flags getenv v) = (Inr (), register_auth_flags getenv v)"
    "\<not> rbac_enabled (register_auth_flags getenv v)"
    using assms(5) by (simp_all add: vals auth_validate_def register_auth_flags_def rbac_enabled_def Let_def)
  show ?thesis
    using assms choose_static_server [OF assms(1), of "council_options_of getenv v"]
    by (simp add: council_main_def v council_options_of_def vals free configure_rbac_def lift_result_def willing_def
        bindE_def returnE_def Let_def)
qed

lemma serve_static:
  assumes "sv_Use sv = [RequestLog, Bearer token]" "token \<noteq> []"
  shows "serve D E E' sv next' r s =
    (if list_ex (\<lambda>(m, pattern). rq_Method r = m \<and> route_matches pattern (rq_Path r)) (sv_Routes sv)
     then Some (if rq_Path r = ''/healthz'' \<or> bearer_token (trim_space (rq_Authorization r)) = Some token
       then next' r s else (Error 401 ''unauthorized'' ''valid bearer token required'', s))
     else None)"
  using assms by (simp add: serve_def bearer_auth_def)

text \<open>\<open>defaultShutdownRequest\<close>: the call it makes.\<close>

definition shutdown_call :: "string \<Rightarrow> api_request" where
  "shutdown_call token = \<lparr>rq_Method = ''POST'', rq_Path = ''/shutdown'', rq_Authorization = ''Bearer '' @ token,
     rq_Cookies = [], rq_RemoteAddr = [], rq_Body = [], rq_Identity = None\<rparr>"


definition sample_start :: prepared_start where
  "sample_start = \<lparr>pr_runnerHTTP = ''127.0.0.1:81'', pr_runnerGRPC = ''127.0.0.1:82'', pr_councilHTTP = ''127.0.0.1:83'',
     pr_token = b64_encode url_alphabet ''abc''\<rparr>"

definition sample_vendors :: "string list vendors" where
  "sample_vendors = \<lparr>vn_http = \<lparr>he_Do = (\<lambda>_ w. (Inl (Err ''down''), w)), he_Wait = (\<lambda>_ w. (None, w)),
       he_StatusText = (\<lambda>_. []), he_Lower = (\<lambda>s. s)\<rparr>,
     vn_openai = (\<lambda>_. Inl (Err ''json'')), vn_deepseek = (\<lambda>_. Inl (Err ''json'')), vn_anthropic = (\<lambda>_. Inl (Err ''json''))\<rparr>"

definition sample_world :: start_world where
  "sample_world = \<lparr>sw_open = Inr (), sw_dial = Inr (), sw_reload = Inr (), sw_rest = Inr (), sw_listen = Inr ()\<rparr>"

lemma sample_listen: "split_listen_address (pr_councilHTTP sample_start) = Inr (''127.0.0.1'', 83)"
proof -
  have "parse_int ''83'' = Some 83" by (simp add: parse_int_def digit_val_def Let_def)
  moreover have "split_host_port ''127.0.0.1:83'' = Inr (''127.0.0.1'', ''83'')" by (simp add: split_host_port_def Let_def)
  ultimately show ?thesis by (simp add: split_listen_address_def sample_start_def)
qed

lemma sample_token: "new_session_token (Inr ''abc'') = Inr (pr_token sample_start)"
  by (simp add: new_session_token_def sample_start_def)


section \<open>Every server the council starts asks for credentials\<close>

lemma configure_rbac_service:
  "configure_rbac D E c s = (Inr service, s') \<Longrightarrow> service = None \<or> service = Some D"
  by (auto simp: configure_rbac_def bindE_def returnE_def raiseE_def split: prod.splits sum.splits if_splits)

lemma chosen_middlewares:
  assumes "choose_server W host port c rbac = Inr sv"
  shows "sv_Use sv = RequestLog # (if rbac then [RbacAuth (cg_Session (co_auth c))]
    else if co_token c = [] then [] else [Bearer (co_token c)])"
  using assms
  by (auto simp: choose_server_def new_tls_server_with_rbac_def new_tls_server_with_api_and_auth_def
      new_server_with_rbac_def new_server_with_api_and_auth_def split: if_splits sum.splits)

lemma lift_result_Inr: "lift_result r s = (Inr a, s') \<longleftrightarrow> r = Inr a \<and> s' = s"
  by (auto simp: lift_result_def raiseE_def returnE_def split: sum.splits)

lemma council_main_use:
  assumes "council_main D E W base V getenv args s = (Inr (C, service), s')" "parse_flags council_flags args = Inr v"
  shows "\<exists>options. sv_Use (cp_Server C) = RequestLog # (if service \<noteq> None then [RbacAuth options]
    else if v ''token'' = [] then [] else [Bearer (v ''token'')])"
    and "service = None \<or> service = Some D"
proof -
  let ?c = "council_options_of getenv v"
  have tok: "co_token (?c\<lparr>co_auth := a\<rparr>) = v ''token''" for a by (simp add: council_options_of_def)
  from assms(1) [unfolded council_main_def Let_def] assms(2) obtain host port sv s1 s2 where
    r: "configure_rbac D E (snd (auth_validate (co_auth ?c))) s1 = (Inr service, s2)"
    and sv: "choose_server W host port (?c\<lparr>co_auth := snd (auth_validate (co_auth ?c))\<rparr>) (service \<noteq> None) = Inr sv"
    and C: "cp_Server C = add_shutdown_route sv"
    by (elim bindE_InrE) (auto simp: lift_result_Inr raiseE_def returnE_def elim!: bindE_InrE split: if_splits)
  show "service = None \<or> service = Some D" by (rule configure_rbac_service [OF r])
  show "\<exists>options. sv_Use (cp_Server C) = RequestLog # (if service \<noteq> None then [RbacAuth options]
    else if v ''token'' = [] then [] else [Bearer (v ''token'')])"
    using chosen_middlewares [OF sv] unfolding C tok by (auto simp: add_shutdown_route_def)
qed

text \<open>
  C21. No server the council starts serves anonymous calls. Whichever of the four servers \<open>main\<close>
  chooses, when a token is given or RBAC is on, a request for anything but the public paths ends in
  a 401 or 403 with no table changed, or it reaches its handler: with the token of the
  command line in its header, or, under RBAC, with the identity of an enabled user for whom it
  presents a live credential and whose permissions cover what the route needs.
\<close>

theorem started_server_authenticates:
  assumes "gorm_ok view D" "council_main D E W base V getenv args s = (Inr (C, service), s')"
    and "parse_flags council_flags args = Inr v" "v ''token'' \<noteq> [] \<or> service \<noteq> None"
    and "\<not> is_public_rbac_path (rq_Method r) (rq_Path r)"
    and "serve service E1 E2 (cp_Server C) next' r s1 = Some (reply, s2)"
  shows "(\<exists>status code msg. reply = Error status code msg \<and> status \<in> {401, 403} \<and> view s2 = view s1) \<or>
    (service = None \<and> bearer_token (trim_space (rq_Authorization r)) = Some (v ''token'') \<and> next' r s1 = (reply, s2)) \<or>
    (\<exists>options i token p s3. service = Some D \<and> presents options r token \<and>
       (vouched E1 token (view s1) i \<or> vouched E2 token (view s1) i) \<and>
       rbac_route_permission (rq_Method r) (rq_Path r) = Some p \<and>
       (p = [] \<or> list_ex (\<lambda>granted. permission_covers granted p) (id_Permissions i)) \<and>
       view s3 = view s1 \<and> next' (r\<lparr>rq_Identity := Some i\<rparr>) s3 = (reply, s2))"
proof (cases service)
  case None
  then have use: "sv_Use (cp_Server C) = [RequestLog, Bearer (v ''token'')]" "v ''token'' \<noteq> []"
    using council_main_use(1) [OF assms(2,3)] assms(4) by auto
  have "rq_Path r \<noteq> ''/healthz''" using assms(5) by (auto simp: is_public_rbac_path_def)
  then show ?thesis using assms(6) None by (auto simp: serve_static [OF use] split: if_splits)
next
  case (Some S)
  then have S: "service = Some D" using council_main_use(2) [OF assms(2,3)] by simp
  obtain options where use: "sv_Use (cp_Server C) = [RequestLog, RbacAuth options]"
    using council_main_use(1) [OF assms(2,3)] S by auto
  have "rbac_auth (Some D) E1 E2 options next' r s1 = (reply, s2)"
    using assms(6) by (simp add: serve_def use S split: if_splits)
  from gorm_store.rbac_auth_ok [OF gorm_store.intro [OF assms(1)] assms(5) this] show ?thesis
    using S by blast
qed

definition sample_call :: api_request where
  "sample_call = (shutdown_call (pr_token sample_start))\<lparr>rq_Path := ''/api/v1/tasks''\<rparr>"

definition sample_council :: "tables \<Rightarrow> (string list council_process \<times> tables gorm_db option) result \<times> tables" where
  "sample_council = council_main mem_db sample_rbac_env sample_world sample_engine sample_vendors (\<lambda>_. [])
     (sp_Args (council_spec sample_options sample_start))"

definition accept :: "(tables, unit) handler" where
  "accept r s = (Data 202 (), s)"

lemma sample_served:
  "\<exists>C. sample_council empty_tables = (Inr (C, None), empty_tables) \<and>
     serve None sample_rbac_env sample_rbac_env (cp_Server C) accept sample_call empty_tables = Some (Data 202 (), empty_tables)"
proof -
  have o: "willing sample_world" "(op_TLSCert sample_options = []) = (op_TLSKey sample_options = [])"
    "op_RBACRole sample_options = []" "op_RBACSubject sample_options = []" "pr_runnerGRPC sample_start \<noteq> []"
    by (simp_all add: willing_def sample_world_def sample_options_def sample_start_def)
  note run = council_started [where getenv = "\<lambda>_. []" and D = mem_db and E = sample_rbac_env and base = sample_engine
      and V = sample_vendors and s = empty_tables, OF o(1-4) refl sample_listen o(5)]
  note tok = session_token_plain [OF sample_token list.distinct(2)]
  let ?sv = "add_shutdown_route ((new_server_with_api_and_auth ''127.0.0.1'' 83 (pr_token sample_start))
      \<lparr>sv_TLS := (if op_TLSCert sample_options = [] then None else Some (op_TLSCert sample_options, op_TLSKey sample_options))\<rparr>)"
  have use: "sv_Use ?sv = [RequestLog, Bearer (pr_token sample_start)]"
    "sv_Routes ?sv = base_routes @ council_routes @ [(''POST'', ''/shutdown'')]"
    using tok(1) by (simp_all add: add_shutdown_route_def new_server_with_api_and_auth_def)
  have m: "list_ex (\<lambda>(m, pattern). ''POST'' = m \<and> route_matches pattern ''/api/v1/tasks'')
      (base_routes @ council_routes @ [(''POST'', ''/shutdown'')])" by code_simp
  have c: "rq_Method sample_call = ''POST''" "rq_Path sample_call = ''/api/v1/tasks''"
    "rq_Authorization sample_call = ''Bearer '' @ pr_token sample_start"
    by (simp_all add: sample_call_def shutdown_call_def)
  have served: "serve None sample_rbac_env sample_rbac_env ?sv accept sample_call empty_tables = Some (Data 202 (), empty_tables)"
    unfolding serve_static [OF use(1) tok(1)] use(2) c using m by (simp only: if_True tok(3) accept_def simp_thms)
  show ?thesis unfolding sample_council_def run
    by (intro exI conjI, rule refl) (simp only: council_process.simps served)
qed

theorem started_server_authenticates_witness:
  "\<exists>C. sample_council empty_tables = (Inr (C, None), empty_tables) \<and>
     bearer_token (trim_space (rq_Authorization sample_call)) = Some (pr_token sample_start)"
proof -
  obtain C where C: "sample_council empty_tables = (Inr (C, None), empty_tables)"
    "serve None sample_rbac_env sample_rbac_env (cp_Server C) accept sample_call empty_tables = Some (Data 202 (), empty_tables)"
    using sample_served by blast
  obtain v where v: "parse_flags council_flags (sp_Args (council_spec sample_options sample_start)) = Inr v"
    "v ''token'' = pr_token sample_start"
    using council_args [of sample_options sample_start] by (auto simp: sample_options_def)
  have t: "v ''token'' \<noteq> [] \<or> (None :: tables gorm_db option) \<noteq> None"
    using session_token_plain(1) [OF sample_token list.distinct(2)] v(2) by simp
  have p: "\<not> is_public_rbac_path (rq_Method sample_call) (rq_Path sample_call)"
    by (simp add: is_public_rbac_path_def sample_call_def shutdown_call_def)
  from started_server_authenticates [OF mem_db_ok C(1) [unfolded sample_council_def] v(1) t p C(2)] C v(2)
  show ?thesis by auto
qed

section \<open>A saved key gives the council a seat\<close>

text \<open>\<open>os.Getenv\<close> in a process with the environment \<open>environ\<close>.\<close>

definition os_getenv :: "string list \<Rightarrow> string \<Rightarrow> string" where
  "os_getenv environ key =
     (case List.find (\<lambda>e. CHR ''='' \<in> set e \<and> takeWhile (\<lambda>c. c \<noteq> CHR ''='') e = key) environ of
        None \<Rightarrow> []
      | Some e \<Rightarrow> tl (dropWhile (\<lambda>c. c \<noteq> CHR ''='') e))"

lemma cut_entry:
  assumes "CHR ''='' \<notin> set k"
  shows "takeWhile (\<lambda>c. c \<noteq> CHR ''='') (k @ CHR ''='' # v) = k"
    "dropWhile (\<lambda>c. c \<noteq> CHR ''='') (k @ CHR ''='' # v) = CHR ''='' # v"
  using assms by (auto simp: takeWhile_append dropWhile_append)

lemma env_entry_key: "e \<in> set (env_entry x) \<Longrightarrow> CHR ''='' \<notin> set (fst e)"
  using set_takeWhileD by (fastforce simp: env_entry_def split: if_splits)

lemma getenv_merged:
  assumes "distinct (map fst (elems overlay))" "(k, v) \<in> set (elems overlay)"
    and "\<forall>e\<in>set (elems overlay). CHR ''='' \<notin> set (fst e)"
  shows "os_getenv (merged_environment environ overlay) k = v"
proof -
  let ?all = "concat (map env_entry environ) @ elems overlay"
  let ?env = "map_of (rev ?all)"
  let ?keys = "sort (remdups (map fst ?all))"
  have keys: "\<forall>x\<in>set ?keys. CHR ''='' \<notin> set x" using assms(3) env_entry_key by fastforce
  have "map_of (rev (elems overlay)) k = Some v"
    using assms(1,2) by (intro map_of_is_SomeI) (simp_all add: rev_map [symmetric])
  then have kv: "?env k = Some v" by (simp add: map_add_Some_iff)
  have m: "merged_environment environ overlay = map (\<lambda>x. x @ ''='' @ the (?env x)) ?keys"
    using assms(2) by (auto simp: merged_environment_def Let_def)
  have "k \<in> set ?keys" using assms(2) by force
  moreover have "List.find (\<lambda>e. CHR ''='' \<in> set e \<and> takeWhile (\<lambda>c. c \<noteq> CHR ''='') e = k)
      (map (\<lambda>x. x @ ''='' @ the (?env x)) xs) = Some (k @ ''='' @ v)" if "k \<in> set xs" "set xs \<subseteq> set ?keys" for xs
    using that
  proof (induction xs)
    case (Cons x xs)
    have "takeWhile (\<lambda>c. c \<noteq> CHR ''='') (x @ CHR ''='' # the (?env x)) = x"
      by (rule cut_entry) (use Cons.prems(2) keys in auto)
    then show ?case using Cons kv by (cases "x = k") auto
  qed simp
  moreover have "CHR ''='' \<notin> set k" using assms(2,3) by auto
  ultimately show ?thesis unfolding m os_getenv_def by (simp only: order_refl option.case cut_entry list.sel append_Cons append_Nil simp_thms)
qed

definition vendor_table :: "'w vendors \<Rightarrow> (string \<times> string \<times> (provider_config \<Rightarrow> 'w model_provider)) list" where
  "vendor_table V = [(''OPENAI_API_KEY'', ''openai'', new_openai V), (''DEEPSEEK_API_KEY'', ''deepseek'', new_deepseek V),
     (''ANTHROPIC_API_KEY'', ''anthropic'', new_anthropic V)]"

text \<open>A seat of a workflow whose vendor is called with the key.\<close>

definition seat_with_key ::
  "'w vendors \<Rightarrow> 'w workflow \<Rightarrow> string \<Rightarrow> string \<Rightarrow> seat \<Rightarrow> bool" where
  "seat_with_key V k variable key seat \<longleftrightarrow> seat \<in> set (wk_Proposers k) \<and> seat \<in> set (wk_Reviewers k) \<and>
     (\<exists>E build. wk_Engine k = Some E \<and> (variable, se_Provider seat, build) \<in> set (vendor_table V) \<and>
       engine_provider E (se_Provider seat) =
         Inr (with_cost_meter (build \<lparr>vc_APIKey = key, vc_BaseURL = [], vc_Model = se_Model seat\<rparr>)))"

lemma registry_finds:
  assumes "p \<in> set items" "distinct (map mp_Name items)"
  shows "new_registry items (mp_Name p) = Some p"
proof -
  have "foldl (\<lambda>m p. m(mp_Name p \<mapsto> p)) m xs = m ++ map_of (rev (map (\<lambda>p. (mp_Name p, p)) xs))"
    for m :: "'a registry" and xs
    by (induction xs arbitrary: m) (simp_all add: map_add_assoc)
  moreover have "map_of (rev (map (\<lambda>p. (mp_Name p, p)) items)) (mp_Name p) = Some p"
    using assms by (intro map_of_is_SomeI) (auto simp: rev_map [symmetric] comp_def)
  ultimately show ?thesis by (simp add: new_registry_def map_add_Some_iff)
qed

lemma workflow_of_seats:
  assumes "(p, seat) \<in> set (configured_seats V getenv)"
    and "\<forall>x\<in>set (configured_seats V getenv). mp_Name (fst x) = se_Provider (snd x)"
    and "distinct (map mp_Name (map fst (configured_seats V getenv)))"
  shows "\<exists>k E. configured_workflow base V getenv = Some k \<and> seat \<in> set (wk_Proposers k) \<and> seat \<in> set (wk_Reviewers k) \<and>
    wk_Engine k = Some E \<and> engine_provider E (se_Provider seat) = Inr p"
proof -
  obtain q first rest where xs: "configured_seats V getenv = (q, first) # rest"
    using assms(1) by (cases "configured_seats V getenv") auto
  let ?items = "map fst (configured_seats V getenv)"
  have p: "p \<in> set ?items" "mp_Name p = se_Provider seat" using assms(1,2) by force+
  have "new_registry ?items (se_Provider seat) = Some p" using registry_finds [OF p(1) assms(3)] p(2) by simp
  moreover have "seat \<in> set (map snd (configured_seats V getenv))" using assms(1) by force
  ultimately show ?thesis
    unfolding xs by (simp add: configured_workflow_def xs Let_def new_workflow_def engine_provider_def registry_get_def)
qed

lemma vendor_seat_set:
  "set (vendor_seat build getenv name keyVar modelVar fallback) =
     (if getenv keyVar = [] then {} else
      {(with_cost_meter (build \<lparr>vc_APIKey = getenv keyVar, vc_BaseURL = [], vc_Model = env_or getenv modelVar fallback\<rparr>),
        \<lparr>se_ID = name, se_Provider = name, se_Model = env_or getenv modelVar fallback, se_Role = ''proposer'',
          se_ProposalAlias = []\<rparr>)})"
  by (simp add: vendor_seat_def Let_def)

lemma vendor_names:
  "mp_Name (with_cost_meter (new_openai V c)) = ''openai''" "mp_Name (with_cost_meter (new_deepseek V c)) = ''deepseek''"
  "mp_Name (with_cost_meter (new_anthropic V c)) = ''anthropic''"
  by (simp_all add: with_cost_meter_def new_openai_def new_deepseek_def new_anthropic_def)

lemma configured_seats_named:
  "\<forall>x\<in>set (configured_seats V getenv). mp_Name (fst x) = se_Provider (snd x)"
  "distinct (map mp_Name (map fst (configured_seats V getenv)))"
  by (auto simp: configured_seats_def vendor_seat_set vendor_names split: if_splits)
    (simp_all add: vendor_seat_def vendor_names Let_def)

lemma seated:
  assumes "(variable, name, build) \<in> set (vendor_table V)" "getenv variable \<noteq> []"
  shows "\<exists>model. (with_cost_meter (build \<lparr>vc_APIKey = getenv variable, vc_BaseURL = [], vc_Model = model\<rparr>),
    \<lparr>se_ID = name, se_Provider = name, se_Model = model, se_Role = ''proposer'', se_ProposalAlias = []\<rparr>)
    \<in> set (configured_seats V getenv)"
  using assms by (auto simp: vendor_table_def configured_seats_def vendor_seat_set)

lemma configured_seat:
  assumes "variable \<in> {''OPENAI_API_KEY'', ''DEEPSEEK_API_KEY'', ''ANTHROPIC_API_KEY''}" "getenv variable \<noteq> []"
  shows "\<exists>k seat. configured_workflow base V getenv = Some k \<and> seat_with_key V k variable (getenv variable) seat"
proof -
  obtain name build where t: "(variable, name, build) \<in> set (vendor_table V)"
    using assms(1) by (auto simp: vendor_table_def)
  obtain model where m: "(with_cost_meter (build \<lparr>vc_APIKey = getenv variable, vc_BaseURL = [], vc_Model = model\<rparr>),
    \<lparr>se_ID = name, se_Provider = name, se_Model = model, se_Role = ''proposer'', se_ProposalAlias = []\<rparr>)
    \<in> set (configured_seats V getenv)" using seated [where getenv = getenv, OF t assms(2)] by blast
  from workflow_of_seats [OF m configured_seats_named, of base] t show ?thesis
    unfolding seat_with_key_def by fastforce
qed

text \<open>
  C33. A saved provider key works in the council and goes nowhere else. After \<open>SaveProviderKey\<close> has
  succeeded with a non-empty key, on a disk that does not fail, the environment \<open>Start\<close> gives the
  council makes it build a workflow in which that vendor has a seat that proposes and reviews, whose
  adapter sends exactly the saved key; the runner is started with the environment of the desktop
  program alone.
\<close>

theorem saved_key_takes_seat:
  assumes "store_ok st cs s" "length nonce = ae_NonceSize (se_aead st)"
    and "save_provider_key st (Inr nonce) provider key s = (Inr (), s1)"
    and "provider_secret provider = Some (secretKey, variable)"
  shows "\<exists>environment s2 k seat. provider_environment st s1 = (Inr environment, s2) \<and>
    configured_workflow base V
      (os_getenv (merged_environment environ (sp_Env (council_spec (app_options a workspace environment) p)))) = Some k \<and>
    seat_with_key V k variable key seat \<and>
    merged_environment environ (sp_Env (runner_spec (app_options a workspace environment) p)) = environ"
proof -
  obtain environment s2 where e: "provider_environment st s1 = (Inr environment, s2)"
    "sp_Env (council_spec (app_options a workspace environment) p) = clone_environment (Some environment)"
    "(variable, key) \<in> set environment" "distinct (map fst environment)" "\<forall>e\<in>set environment. CHR ''='' \<notin> set (fst e)"
    "merged_environment environ (sp_Env (runner_spec (app_options a workspace environment) p)) = environ"
    using saved_key_in_environment [OF assms] by blast
  have el: "elems (clone_environment (Some environment)) = environment"
    by (simp add: clone_environment_def)
  have get: "os_getenv (merged_environment environ (clone_environment (Some environment))) variable = key"
    by (rule getenv_merged; unfold el; fact e)
  have ne: "key \<noteq> []"
    using assms(3,4) set_trim_space [of "[]"] by (auto simp: save_provider_key_def raiseE_def split: if_splits)
  have var: "variable \<in> {''OPENAI_API_KEY'', ''DEEPSEEK_API_KEY'', ''ANTHROPIC_API_KEY''}"
    using assms(4) by (cases rule: provider_secret_cases) simp_all
  obtain k seat where "configured_workflow base V (os_getenv (merged_environment environ (clone_environment (Some environment)))) = Some k"
    "seat_with_key V k variable key seat"
    using configured_seat [OF var, of "os_getenv (merged_environment environ (clone_environment (Some environment)))" base V] ne
    unfolding get by blast
  with e show ?thesis by (intro exI [of _ environment] exI [of _ s2] exI [of _ k] exI [of _ seat]) simp
qed

theorem saved_key_takes_seat_witness:
  "\<exists>environment k seat. configured_workflow sample_engine sample_vendors (os_getenv (merged_environment [''A=1'']
      (sp_Env (council_spec (app_options sample_app ''w'' environment) sample_prepared)))) = Some k \<and>
    seat_with_key sample_vendors k ''OPENAI_API_KEY'' ''k'' seat"
proof -
  have l: "length ''n'' = ae_NonceSize (se_aead sample_store)" by (simp add: sample_store_def sample_aead_def)
  from saved_key_takes_seat [OF sample_store_ok l sample_key_saved [unfolded sample_saved_key_def] provider_names(1)]
  show ?thesis by blast
qed

section \<open>Two starts that fail\<close>

text \<open>The desktop program without RBAC on a machine that sets \<open>COUNCIL_BOOTSTRAP_PASSWORD\<close>: the council
  inherits the variable and refuses to start.\<close>

lemma bootstrap_password_stops_council:
  assumes "op_RBACRole o' = []" "getenv ''COUNCIL_BOOTSTRAP_PASSWORD'' \<noteq> []"
  shows "fst (council_main D E W base V getenv (sp_Args (council_spec o' p)) s) =
    Inl (Err ''RBAC bootstrap requires --rbac or --rbac-role'')"
proof -
  obtain v where v: "parse_flags council_flags (sp_Args (council_spec o' p)) = Inr v"
    "v ''rbac'' = ''false''" "v ''rbac-role'' = []" "v ''rbac-bootstrap-password'' = []"
    using council_args [OF assms(1), of p] by (auto simp: council_default_values Let_def)
  have "fst (auth_validate (register_auth_flags getenv v)) = Inl (Err ''RBAC bootstrap requires --rbac or --rbac-role'')"
    using v assms(2) by (simp add: auth_validate_def register_auth_flags_def rbac_enabled_def Let_def)
  then show ?thesis
    by (simp add: council_main_def v council_options_of_def lift_result_def bindE_def returnE_def raiseE_def Let_def)
qed

text \<open>With RBAC the runtime passes its new session token as the bootstrap token of every start, but the
  bootstrap leaves a user that exists as it is: from the second start on no session token is known.\<close>

context gorm_store
begin

lemma create_known_user:
  assumes "\<exists>u\<in>set (t_users (view s)). us_Subject u = us_Subject r"
  shows "t_users (view (snd (sql_create_ignore (gd_users D) r s))) = t_users (view s)"
proof -
  obtain res s1 where c: "sql_create (gd_users D) r s = (res, s1)" by fastforce
  show ?thesis
  proof (cases rule: sql_createE [OF users_ok c])
    case (2 r')
    have "us_Subject r' = us_Subject r"
      using 2(2) by (cases r, cases r') (simp add: users_spec_def)
    moreover have "us_Subject r \<in> us_Subject ` set (t_users (view s))" using assms by (metis imageI)
    ultimately show ?thesis using 2(3) by (simp add: users_spec_def)
  qed (use c in \<open>auto simp: sql_create_ignore_def prog_simps\<close>)
qed

lemma frames_create_ignore:
  "sql_implements view S T \<Longrightarrow> (\<And>g t. f (ts_upd S g t) = f t) \<Longrightarrow> frames view f (sql_create_ignore T r)"
  unfolding sql_create_ignore_def by (intro frames_bind frames_try frames_create) (auto split: sum.split)

lemma frames_first_or_create:
  "sql_implements view S T \<Longrightarrow> (\<And>g t. f (ts_upd S g t) = f t) \<Longrightarrow> frames view f (sql_first_or_create T c key r)"
  unfolding sql_first_or_create_def
  by (intro frames_bind frames_try frames_first) (auto intro: frames_create split: sum.split)

lemma second_bootstrap_ignored:
  assumes "\<exists>u\<in>set (t_users (view s)). us_Subject u = subject"
  shows "t_users (view (snd (bootstrap_legacy_admin D E subject token role s))) = t_users (view s)"
proof -
  have rest: "frames view t_users (bindE (mapErr g (user_where D c)) (\<lambda>user. grant_bootstrap_permissions D (us_ID user) role))"
    for g c
    unfolding user_where_def grant_bootstrap_permissions_def seed_permissions_tx_def
    by (intro frames_bind frames_mapErr frames_for frames_first [OF users_ok] frames_first_or_create [OF roles_ok]
        frames_first_or_create [OF permissions_ok] frames_create_ignore [OF user_roles_ok]
        frames_create_ignore [OF role_permissions_ok] frames_pure)
      (simp_all add: roles_spec_def permissions_spec_def user_roles_spec_def role_permissions_spec_def)
  obtain res s' where r: "bootstrap_legacy_admin D E subject token role s = (res, s')" by fastforce
  show ?thesis
  proof (cases rule: txE [OF tx_ok r [unfolded bootstrap_legacy_admin_def]])
    case (2 a s1 s2)
    have "t_users (view (snd (sql_create_ignore (gd_users D) ((new_user subject)\<lparr>us_TokenHash := rb_sha E token\<rparr>) s1))) =
        t_users (view s1)"
      using assms 2(2) by (intro create_known_user) (simp add: new_user_def)
    with 2 rest show ?thesis unfolding r
      by (fastforce simp: bindE_def mapErr_def frames_def split: prod.splits sum.splits)
  qed (simp add: r)
qed

end

end
