(* ===== verification/Tls_Reloader.thy ===== *)
theory Tls_Reloader
  imports Contracts
begin

text \<open>
  \<open>internal/security/tlsconfig/reloader.go\<close>: a certificate that is read again when its files have
  changed. Handshakes run concurrently with each other and with whoever replaces the files.

  \<^item> The disk holds for each file its modification time and its bytes, or an error. Nobody changes a
    file without giving it a time it has never had: \<open>dk_Clock\<close> is the latest time given so far.
  \<^item> A handshake is a thread; its steps are the system calls and the two sections under \<open>r.mu\<close>.
  \<^item> \<open>pair\<close> is \<open>tls.X509KeyPair\<close> on the bytes of the two files.
\<close>

section \<open>The disk and the reloader\<close>

record disk_entry =
  de_Time :: int
  de_Data :: string

record tls_disk =
  dk_Cert :: "disk_entry option"
  dk_Key :: "disk_entry option"
  dk_Clock :: int

record 'c reloader =
  rl_cert :: "'c option"
  rl_certMtime :: int
  rl_keyMtime :: int

definition stat_time :: "disk_entry option \<Rightarrow> int result" where
  "stat_time f = (case f of None \<Rightarrow> Inl (Sent OsNotExist) | Some e \<Rightarrow> Inr (de_Time e))"

definition read_entry :: "disk_entry option \<Rightarrow> string result" where
  "read_entry f = (case f of None \<Rightarrow> Inl (Sent OsNotExist) | Some e \<Rightarrow> Inr (de_Data e))"

definition fresh_reloader :: "'c reloader" where
  "fresh_reloader = \<lparr>rl_cert = None, rl_certMtime = 0, rl_keyMtime = 0\<rparr>"

definition same_times :: "int \<Rightarrow> int \<Rightarrow> 'c reloader \<Rightarrow> bool" where
  "same_times tc tk r \<longleftrightarrow> rl_cert r \<noteq> None \<and> rl_certMtime r = tc \<and> rl_keyMtime r = tk"

definition store_cert :: "int \<Rightarrow> int \<Rightarrow> 'c \<Rightarrow> 'c reloader" where
  "store_cert tc tk c = \<lparr>rl_cert = Some c, rl_certMtime = tc, rl_keyMtime = tk\<rparr>"

section \<open>One handshake alone\<close>

text \<open>\<open>reload\<close> and \<open>GetCertificate\<close> with nobody else running; \<open>new_reloader\<close> is \<open>New\<close>.\<close>

definition current_pair :: "(string \<Rightarrow> string \<Rightarrow> 'c result) \<Rightarrow> tls_disk \<Rightarrow> 'c result" where
  "current_pair pair d =
     (case read_entry (dk_Cert d) of Inl e \<Rightarrow> Inl e
      | Inr c \<Rightarrow> (case read_entry (dk_Key d) of Inl e \<Rightarrow> Inl e | Inr k \<Rightarrow> pair c k))"

definition reload :: "(string \<Rightarrow> string \<Rightarrow> 'c result) \<Rightarrow> tls_disk \<Rightarrow> ('c reloader, unit) prog" where
  "reload pair d r =
     (case stat_time (dk_Cert d) of Inl e \<Rightarrow> (Inl e, r)
      | Inr tc \<Rightarrow> (case stat_time (dk_Key d) of Inl e \<Rightarrow> (Inl e, r)
      | Inr tk \<Rightarrow>
          if same_times tc tk r then (Inr (), r)
          else (case current_pair pair d of Inl e \<Rightarrow> (Inl e, r) | Inr c \<Rightarrow> (Inr (), store_cert tc tk c))))"

definition get_certificate :: "(string \<Rightarrow> string \<Rightarrow> 'c result) \<Rightarrow> tls_disk \<Rightarrow> ('c reloader, 'c option) prog" where
  "get_certificate pair d =
     bindE (reload pair d) (\<lambda>_ r. (Inr (rl_cert r), r))"

definition new_reloader :: "(string \<Rightarrow> string \<Rightarrow> 'c result) \<Rightarrow> tls_disk \<Rightarrow> 'c reloader result" where
  "new_reloader pair d = (case reload pair d fresh_reloader of (Inl e, _) \<Rightarrow> Inl e | (Inr _, r) \<Rightarrow> Inr r)"

section \<open>Handshakes among others\<close>

datatype 'c handshake = StatCert | StatKey int | Compare int int | LoadCert int int | LoadKey int int string
  | Publish int int 'c | ReadCert | Answered "'c option result"

fun handshake_step ::
  "(string \<Rightarrow> string \<Rightarrow> 'c result) \<Rightarrow> tls_disk \<Rightarrow> 'c handshake \<Rightarrow> 'c reloader \<Rightarrow> 'c handshake \<times> 'c reloader" where
  "handshake_step pair d StatCert r =
     (case stat_time (dk_Cert d) of Inl e \<Rightarrow> (Answered (Inl e), r) | Inr tc \<Rightarrow> (StatKey tc, r))"
| "handshake_step pair d (StatKey tc) r =
     (case stat_time (dk_Key d) of Inl e \<Rightarrow> (Answered (Inl e), r) | Inr tk \<Rightarrow> (Compare tc tk, r))"
| "handshake_step pair d (Compare tc tk) r = (if same_times tc tk r then ReadCert else LoadCert tc tk, r)"
| "handshake_step pair d (LoadCert tc tk) r =
     (case read_entry (dk_Cert d) of Inl e \<Rightarrow> (Answered (Inl e), r) | Inr c \<Rightarrow> (LoadKey tc tk c, r))"
| "handshake_step pair d (LoadKey tc tk c) r =
     (case read_entry (dk_Key d) of Inl e \<Rightarrow> (Answered (Inl e), r)
      | Inr k \<Rightarrow> (case pair c k of Inl e \<Rightarrow> (Answered (Inl e), r) | Inr p \<Rightarrow> (Publish tc tk p, r)))"
| "handshake_step pair d (Publish tc tk p) r = (ReadCert, store_cert tc tk p)"
| "handshake_step pair d ReadCert r = (Answered (Inr (rl_cert r)), r)"
| "handshake_step pair d (Answered q) r = (Answered q, r)"

type_synonym 'c tls_system = "tls_disk \<times> 'c reloader \<times> 'c handshake list"

text \<open>A file is written or removed; a handshake begins or takes a step.\<close>

inductive tls_step :: "(string \<Rightarrow> string \<Rightarrow> 'c result) \<Rightarrow> 'c tls_system \<Rightarrow> 'c tls_system \<Rightarrow> bool" for pair where
  write_cert: "t > dk_Clock d \<Longrightarrow>
    tls_step pair (d, r, hs) (d\<lparr>dk_Cert := Some \<lparr>de_Time = t, de_Data = b\<rparr>, dk_Clock := t\<rparr>, r, hs)"
| write_key: "t > dk_Clock d \<Longrightarrow>
    tls_step pair (d, r, hs) (d\<lparr>dk_Key := Some \<lparr>de_Time = t, de_Data = b\<rparr>, dk_Clock := t\<rparr>, r, hs)"
| remove_cert: "tls_step pair (d, r, hs) (d\<lparr>dk_Cert := None\<rparr>, r, hs)"
| remove_key: "tls_step pair (d, r, hs) (d\<lparr>dk_Key := None\<rparr>, r, hs)"
| begin_handshake: "tls_step pair (d, r, hs) (d, r, hs @ [StatCert])"
| handshake: "handshake_step pair d h r = (h', r') \<Longrightarrow>
    tls_step pair (d, r, xs @ h # ys) (d, r', xs @ h' # ys)"

definition disk_ok :: "tls_disk \<Rightarrow> bool" where
  "disk_ok d \<longleftrightarrow> (\<forall>e. dk_Cert d = Some e \<longrightarrow> de_Time e \<le> dk_Clock d) \<and> (\<forall>e. dk_Key d = Some e \<longrightarrow> de_Time e \<le> dk_Clock d)"

definition tls_start :: "(string \<Rightarrow> string \<Rightarrow> 'c result) \<Rightarrow> tls_disk \<Rightarrow> 'c tls_system \<Rightarrow> bool" where
  "tls_start pair d0 x \<longleftrightarrow> disk_ok d0 \<and> (\<exists>r. new_reloader pair d0 = Inr r \<and> x = (d0, r, []))"

definition tls_reachable :: "(string \<Rightarrow> string \<Rightarrow> 'c result) \<Rightarrow> tls_disk \<Rightarrow> 'c tls_system \<Rightarrow> bool" where
  "tls_reachable pair d0 = attains (tls_start pair d0) (tls_step pair)"

lemma tls_reachable_start: "disk_ok d0 \<Longrightarrow> new_reloader pair d0 = Inr r \<Longrightarrow> tls_reachable pair d0 (d0, r, [])"
  unfolding tls_reachable_def by (rule attains_init) (simp add: tls_start_def)

lemma tls_reachable_step: "tls_reachable pair d0 x \<Longrightarrow> tls_step pair x y \<Longrightarrow> tls_reachable pair d0 y"
  unfolding tls_reachable_def by (rule attains_step)

section \<open>What the reloader holds\<close>

definition holds_at :: "disk_entry option \<Rightarrow> int \<Rightarrow> bool" where
  "holds_at f t \<longleftrightarrow> (\<exists>e. f = Some e \<and> de_Time e = t)"

text \<open>If both files still have these times, \<open>c\<close> is their pair; the times are not in the future.\<close>

definition matches :: "(string \<Rightarrow> string \<Rightarrow> 'c result) \<Rightarrow> tls_disk \<Rightarrow> int \<Rightarrow> int \<Rightarrow> 'c \<Rightarrow> bool" where
  "matches pair d tc tk c \<longleftrightarrow> tc \<le> dk_Clock d \<and> tk \<le> dk_Clock d \<and>
     (holds_at (dk_Cert d) tc \<longrightarrow> holds_at (dk_Key d) tk \<longrightarrow> current_pair pair d = Inr c)"

fun handshake_ok :: "(string \<Rightarrow> string \<Rightarrow> 'c result) \<Rightarrow> tls_disk \<Rightarrow> 'c handshake \<Rightarrow> bool" where
  "handshake_ok pair d (StatKey tc) \<longleftrightarrow> tc \<le> dk_Clock d"
| "handshake_ok pair d (Compare tc tk) \<longleftrightarrow> tc \<le> dk_Clock d \<and> tk \<le> dk_Clock d"
| "handshake_ok pair d (LoadCert tc tk) \<longleftrightarrow> tc \<le> dk_Clock d \<and> tk \<le> dk_Clock d"
| "handshake_ok pair d (LoadKey tc tk b) \<longleftrightarrow> tc \<le> dk_Clock d \<and> tk \<le> dk_Clock d \<and>
     (\<forall>e. dk_Cert d = Some e \<and> de_Time e = tc \<longrightarrow> de_Data e = b)"
| "handshake_ok pair d (Publish tc tk c) \<longleftrightarrow> matches pair d tc tk c"
| "handshake_ok pair d _ \<longleftrightarrow> True"

definition reloader_ok :: "(string \<Rightarrow> string \<Rightarrow> 'c result) \<Rightarrow> tls_disk \<Rightarrow> 'c reloader \<Rightarrow> bool" where
  "reloader_ok pair d r \<longleftrightarrow> (\<exists>c. rl_cert r = Some c \<and> matches pair d (rl_certMtime r) (rl_keyMtime r) c)"

definition tls_ok :: "(string \<Rightarrow> string \<Rightarrow> 'c result) \<Rightarrow> 'c tls_system \<Rightarrow> bool" where
  "tls_ok pair x = (case x of (d, r, hs) \<Rightarrow>
     disk_ok d \<and> reloader_ok pair d r \<and> (\<forall>h\<in>set hs. handshake_ok pair d h))"

lemma current_pair_read:
  "dk_Cert d = Some c \<Longrightarrow> dk_Key d = Some k \<Longrightarrow> current_pair pair d = pair (de_Data c) (de_Data k)"
  by (simp add: current_pair_def read_entry_def)

lemma handshake_step_ok:
  assumes "handshake_step pair d h r = (h', r')" "disk_ok d" "reloader_ok pair d r" "handshake_ok pair d h"
  shows "handshake_ok pair d h' \<and> reloader_ok pair d r'"
  using assms
  by (cases h)
    (auto simp: stat_time_def read_entry_def disk_ok_def matches_def reloader_ok_def store_cert_def holds_at_def
      current_pair_read split: option.splits sum.splits if_splits)

text \<open>A change of the disk that gives new times or removes files keeps every fact about old times.\<close>

definition moves_on :: "tls_disk \<Rightarrow> tls_disk \<Rightarrow> bool" where
  "moves_on d d' \<longleftrightarrow> dk_Clock d \<le> dk_Clock d' \<and>
     (\<forall>e. dk_Cert d' = Some e \<longrightarrow> dk_Cert d = Some e \<or> de_Time e > dk_Clock d) \<and>
     (\<forall>e. dk_Key d' = Some e \<longrightarrow> dk_Key d = Some e \<or> de_Time e > dk_Clock d)"

lemma matches_moves_on:
  assumes "moves_on d d'" "matches pair d tc tk c"
  shows "matches pair d' tc tk c"
  using assms by (fastforce simp: moves_on_def matches_def holds_at_def current_pair_read)

lemma handshake_moves_on:
  assumes "moves_on d d'" "handshake_ok pair d h"
  shows "handshake_ok pair d' h"
  using assms(2)
  by (cases h) (use assms(1) matches_moves_on [OF assms(1)] in \<open>fastforce simp: moves_on_def\<close>)+

lemma tls_moves_on:
  assumes "moves_on d d'" "disk_ok d'" "tls_ok pair (d, r, hs)"
  shows "tls_ok pair (d', r, hs)"
  using assms(2,3)
  by (auto simp: tls_ok_def reloader_ok_def intro: handshake_moves_on [OF assms(1)] matches_moves_on [OF assms(1)])

lemma disk_steps:
  assumes "disk_ok d" "t > dk_Clock d"
  shows "moves_on d (d\<lparr>dk_Cert := Some \<lparr>de_Time = t, de_Data = b\<rparr>, dk_Clock := t\<rparr>)"
    "disk_ok (d\<lparr>dk_Cert := Some \<lparr>de_Time = t, de_Data = b\<rparr>, dk_Clock := t\<rparr>)"
    "moves_on d (d\<lparr>dk_Key := Some \<lparr>de_Time = t, de_Data = b\<rparr>, dk_Clock := t\<rparr>)"
    "disk_ok (d\<lparr>dk_Key := Some \<lparr>de_Time = t, de_Data = b\<rparr>, dk_Clock := t\<rparr>)"
  using assms by (auto simp: moves_on_def disk_ok_def)

lemma disk_removals:
  assumes "disk_ok d"
  shows "moves_on d (d\<lparr>dk_Cert := None\<rparr>)" "disk_ok (d\<lparr>dk_Cert := None\<rparr>)"
    "moves_on d (d\<lparr>dk_Key := None\<rparr>)" "disk_ok (d\<lparr>dk_Key := None\<rparr>)"
  using assms by (auto simp: moves_on_def disk_ok_def)

lemma tls_step_ok:
  assumes "tls_step pair x y" "tls_ok pair x"
  shows "tls_ok pair y"
proof -
  have d: "disk_ok (fst x)" using assms(2) by (auto simp: tls_ok_def)
  from assms(1) show ?thesis
  proof (cases rule: tls_step.cases)
    case (handshake d h r h' r' xs ys)
    then show ?thesis using assms(2) handshake_step_ok [OF handshake(3)] by (auto simp: tls_ok_def)
  next
    case (begin_handshake d r hs)
    then show ?thesis using assms(2) by (auto simp: tls_ok_def)
  next
    case write_cert
    then show ?thesis using d assms(2) tls_moves_on [OF disk_steps(1,2)] by simp
  next
    case write_key
    then show ?thesis using d assms(2) tls_moves_on [OF disk_steps(3,4)] by simp
  next
    case remove_cert
    then show ?thesis using d assms(2) tls_moves_on [OF disk_removals(1,2)] by simp
  next
    case remove_key
    then show ?thesis using d assms(2) tls_moves_on [OF disk_removals(3,4)] by simp
  qed
qed

lemma new_reloader_ok:
  assumes "disk_ok d" "new_reloader pair d = Inr r"
  shows "reloader_ok pair d r"
  using assms
  by (auto simp: new_reloader_def reload_def fresh_reloader_def same_times_def reloader_ok_def matches_def
      store_cert_def stat_time_def disk_ok_def split: sum.splits option.splits)

interpretation tls: kept_invariant "tls_start pair d0" "tls_step pair" "tls_ok pair" for pair d0
proof unfold_locales
  show "tls_start pair d0 x \<Longrightarrow> tls_ok pair x" for x by (auto simp: tls_start_def tls_ok_def new_reloader_ok)
qed (rule tls_step_ok)

text \<open>The steps of a handshake, one after another with nothing between them, are \<open>GetCertificate\<close>.\<close>

lemma handshake_alone:
  "((\<lambda>(h, r). handshake_step pair d h r) ^^ 7) (StatCert, r) =
     (Answered (fst (get_certificate pair d r)), snd (get_certificate pair d r))"
  by (auto simp: eval_nat_numeral get_certificate_def reload_def current_pair_def bindE_def
      split: sum.splits option.splits)


definition sample_pair :: "string \<Rightarrow> string \<Rightarrow> string result" where
  "sample_pair c k = (if c = k then Inr c else Inl (Err ''mismatch''))"

definition sample_tls_disk :: "string \<Rightarrow> int \<Rightarrow> tls_disk" where
  "sample_tls_disk b t = \<lparr>dk_Cert = Some \<lparr>de_Time = t, de_Data = b\<rparr>, dk_Key = Some \<lparr>de_Time = t + 1, de_Data = b\<rparr>,
     dk_Clock = t + 1\<rparr>"

text \<open>A rotation: the certificate and then the key are replaced.\<close>

lemma sample_rotation:
  "tls_reachable sample_pair (sample_tls_disk ''old'' 1) (sample_tls_disk ''new'' 3, store_cert 1 2 ''old'', [])"
proof -
  let ?d = "sample_tls_disk ''old'' 1"
  have d: "disk_ok ?d" by (simp add: disk_ok_def sample_tls_disk_def)
  have "new_reloader sample_pair ?d = Inr (store_cert 1 2 ''old'')"
    by (simp add: new_reloader_def reload_def fresh_reloader_def same_times_def stat_time_def sample_tls_disk_def
        current_pair_def read_entry_def sample_pair_def)
  from tls_reachable_step [OF tls_reachable_step [OF tls_reachable_start [OF d this]
      tls_step.write_cert [where t = 3 and b = "''new''"]] tls_step.write_key [where t = 4 and b = "''new''"]]
  show ?thesis by (simp add: sample_tls_disk_def)
qed


text \<open>Two handshakes at once: the first has loaded the old pair when the files are replaced; the second
  begins after that, reads the new pair and stores it, but the first stores the old one over it
  before the second takes its answer.\<close>

lemma overlapping_handshake_stale:
  "let old = sample_tls_disk ''old'' 5; new = sample_tls_disk ''new'' 7;
       one = (\<lambda>d (h, r). handshake_step sample_pair d h r);
       (a, r1) = (one old ^^ 5) (StatCert, store_cert 1 2 ''first'');
       (b, r2) = (one new ^^ 6) (StatCert, r1);
       (a', r3) = one new (a, r2)
   in one new (b, r3) = (Answered (Inr (Some ''old'')), store_cert 5 6 ''old'')"
  by (simp add: eval_nat_numeral sample_tls_disk_def stat_time_def same_times_def store_cert_def read_entry_def
      sample_pair_def Let_def)

end
