(* ===== verification/Small_Services.thy ===== *)
theory Small_Services
  imports Contracts Storage Base64 "HOL-Library.AList"
begin

text \<open>
  Four small parts: pairing codes (\<open>internal/runner/pairing/service.go\<close>), the check of changed paths
  (\<open>internal/runner/verification/service.go\<close>), the vault in memory
  (\<open>internal/provider/secrets/memory.go\<close>) and the rows of the council
  (\<open>internal/storage/sqlite/council_repository.go\<close>). Each operation of the first and third runs under
  its mutex. SHA-256 is the parameter \<open>sha\<close>, the random bytes are outcomes.
\<close>

section \<open>Pairing codes\<close>

text \<open>Times are nanoseconds since the zero \<open>time.Time\<close>.\<close>

record pairing =
  pa_codeHash :: string
  pa_expiresAt :: int

definition zero_hash :: string where
  "zero_hash = replicate 32 (CHR 0x00)"

definition new_pairing :: pairing where
  "new_pairing = \<lparr>pa_codeHash = zero_hash, pa_expiresAt = 0\<rparr>"

definition code_alphabet :: string where
  "code_alphabet = ''ABCDEFGHJKLMNPQRSTUVWXYZ23456789''"

text \<open>The outcomes of \<open>rand.Int\<close>, one per character.\<close>

fun random_code :: "nat result list \<Rightarrow> string result" where
  "random_code [] = Inr []"
| "random_code (x # xs) =
     (case x of Inl e \<Rightarrow> Inl e
      | Inr n \<Rightarrow> (case random_code xs of Inl e \<Rightarrow> Inl e | Inr s \<Rightarrow> Inr (code_alphabet ! n # s)))"

definition pairing_start :: "(string \<Rightarrow> string) \<Rightarrow> nat result list \<Rightarrow> int \<Rightarrow> (pairing, string \<times> int) prog" where
  "pairing_start sha draws now s =
     (case random_code (take 6 draws) of
        Inl e \<Rightarrow> (Inl e, s)
      | Inr key \<Rightarrow>
          let expires = now + 5 * 60 * 10 ^ 9 in
          (Inr (key, expires), \<lparr>pa_codeHash = sha key, pa_expiresAt = expires\<rparr>))"

definition err_invalid_code :: go_error where
  "err_invalid_code = Err ''invalid or expired pairing code''"

definition pairing_exchange ::
  "(string \<Rightarrow> string) \<Rightarrow> int \<Rightarrow> string result \<Rightarrow> string \<Rightarrow> (pairing, string) prog" where
  "pairing_exchange sha now random key s =
     (if now > pa_expiresAt s \<or> pa_codeHash s \<noteq> sha key then (Inl err_invalid_code, s)
      else (case random of
          Inl e \<Rightarrow> (Inl e, s)
        | Inr raw \<Rightarrow> (Inr (b64_encode url_alphabet raw), s\<lparr>pa_codeHash := zero_hash\<rparr>)))"

text \<open>Calls and what a caller sees of them.\<close>

datatype pairing_call = StartPairing "nat result list" int | ExchangeCode int "string result" string

datatype pairing_result = Started "(string \<times> int) result" | Exchanged "string result"

primrec pairing_step :: "(string \<Rightarrow> string) \<Rightarrow> pairing_call \<Rightarrow> pairing \<Rightarrow> pairing_result \<times> pairing" where
  "pairing_step sha (StartPairing draws now) s =
     (case pairing_start sha draws now s of (r, s1) \<Rightarrow> (Started r, s1))"
| "pairing_step sha (ExchangeCode now random key) s =
     (case pairing_exchange sha now random key s of (r, s1) \<Rightarrow> (Exchanged r, s1))"

definition pairing_run :: "(string \<Rightarrow> string) \<Rightarrow> pairing_call list \<Rightarrow> pairing \<Rightarrow> pairing_result list" where
  "pairing_run sha calls s = answers (pairing_step sha) calls s"

text \<open>What a pairing service promises: the code of the last start is good until it expires or has been
  exchanged. \<open>None\<close> when no code is good.\<close>

primrec pairing_promise ::
  "(string \<Rightarrow> string) \<Rightarrow> pairing_call \<Rightarrow> (string \<times> int) option \<Rightarrow> pairing_result \<times> (string \<times> int) option" where
  "pairing_promise sha (StartPairing draws now) good =
     (case random_code (take 6 draws) of
        Inl e \<Rightarrow> (Started (Inl e), good)
      | Inr key \<Rightarrow> (Started (Inr (key, now + 300000000000)), Some (key, now + 300000000000)))"
| "pairing_promise sha (ExchangeCode now random key) good =
     (if (case good of None \<Rightarrow> False | Some (c, expires) \<Rightarrow> sha key = sha c \<and> now \<le> expires)
      then (case random of
          Inl e \<Rightarrow> (Exchanged (Inl e), good)
        | Inr raw \<Rightarrow> (Exchanged (Inr (b64_encode url_alphabet raw)), None))
      else (Exchanged (Inl err_invalid_code), good))"

definition pairing_spec :: "(string \<Rightarrow> string) \<Rightarrow> pairing_call list \<Rightarrow> (string \<times> int) option \<Rightarrow> pairing_result list" where
  "pairing_spec sha calls good = answers (pairing_promise sha) calls good"

definition pairing_abs :: "(string \<Rightarrow> string) \<Rightarrow> pairing \<Rightarrow> (string \<times> int) option \<Rightarrow> bool" where
  "pairing_abs sha s good \<longleftrightarrow>
     (case good of None \<Rightarrow> pa_codeHash s = zero_hash
      | Some (c, expires) \<Rightarrow> pa_codeHash s = sha c \<and> pa_expiresAt s = expires)"

interpretation pairing: simulation "pairing_step sha" "pairing_promise sha"
  "\<lambda>calls s good. (\<forall>x. sha x \<noteq> zero_hash) \<and> pairing_abs sha s good" for sha
proof unfold_locales
  fix call and calls :: "pairing_call list" and s good r s1
  assume rel: "(\<forall>x. sha x \<noteq> zero_hash) \<and> pairing_abs sha s good" and r: "pairing_step sha call s = (r, s1)"
  show "\<exists>good1. pairing_promise sha call good = (r, good1) \<and> (\<forall>x. sha x \<noteq> zero_hash) \<and> pairing_abs sha s1 good1"
  proof (cases call)
    case (StartPairing draws now)
    with rel r show ?thesis
      by (auto simp: pairing_start_def pairing_abs_def Let_def split: sum.splits)
  next
    case (ExchangeCode now random key)
    have "zero_hash \<noteq> sha key" using rel by metis
    with rel r ExchangeCode show ?thesis
      by (auto simp: pairing_exchange_def pairing_abs_def split: sum.splits option.splits if_splits)
  qed
qed

lemma spec_exchanges:
  "length (filter (\<lambda>r. \<exists>t. r = Exchanged (Inr t)) (pairing_spec sha calls good)) \<le>
     length (filter (\<lambda>r. \<exists>c. r = Started (Inr c)) (pairing_spec sha calls good)) + (if good = None then 0 else 1)"
proof (induction calls arbitrary: good)
  case (Cons call calls)
  show ?case
  proof (cases call)
    case (StartPairing draws now)
    show ?thesis
    proof (cases "random_code (take 6 draws)")
      case (Inr key)
      with Cons.IH [of "Some (key, now + 300000000000)"] StartPairing show ?thesis by (simp add: pairing_spec_def)
    qed (use Cons.IH [of good] StartPairing in \<open>simp add: pairing_spec_def\<close>)
  next
    case (ExchangeCode now random key)
    with Cons.IH [of good] Cons.IH [of None] show ?thesis
      by (cases random; cases good) (auto simp: pairing_spec_def split: if_splits)
  qed
qed (simp add: pairing_spec_def)

text \<open>
  A pairing code is good once and for five minutes. In every history of calls, what callers see of
  the service is what the specification says, in which the code of the last successful \<open>Start\<close> is good
  until it expires or has been exchanged and any other code is refused, provided that no input
  hashes to zeros; so there are never more exchanges than starts.
\<close>

theorem pairing_code_good_once:
  assumes "\<And>x. sha x \<noteq> zero_hash"
  shows "pairing_run sha calls new_pairing = pairing_spec sha calls None \<and>
    length (filter (\<lambda>r. \<exists>t. r = Exchanged (Inr t)) (pairing_run sha calls new_pairing)) \<le>
      length (filter (\<lambda>r. \<exists>c. r = Started (Inr c)) (pairing_run sha calls new_pairing))"
proof -
  have "pairing_run sha calls new_pairing = pairing_spec sha calls None"
    unfolding pairing_run_def pairing_spec_def
    by (rule pairing.answers_refine) (simp add: assms pairing_abs_def new_pairing_def)
  with spec_exchanges [of sha calls None] show ?thesis by simp
qed

theorem pairing_code_good_once_witness:
  "let key = replicate 6 (Inr 0); calls = [StartPairing key 0, ExchangeCode 1 (Inr ''abc'') ''AAAAAA'',
       ExchangeCode 2 (Inr ''abc'') ''AAAAAA'']
   in pairing_run (\<lambda>x. CHR ''h'' # x) calls new_pairing = pairing_spec (\<lambda>x. CHR ''h'' # x) calls None \<and>
     pairing_spec (\<lambda>x. CHR ''h'' # x) calls None =
       [Started (Inr (''AAAAAA'', 300000000000)), Exchanged (Inr ''YWJj''), Exchanged (Inl err_invalid_code)]"
proof -
  have "CHR ''h'' # x \<noteq> zero_hash" for x by (auto simp: zero_hash_def dest: arg_cong [where f = hd])
  note run = conjunct1 [OF pairing_code_good_once [of "\<lambda>x. CHR ''h'' # x", OF this]]
  have b: "b64_encode url_alphabet ''abc'' = ''YWJj''" by code_simp
  have "random_code (take 6 (replicate 6 (Inr 0))) = Inr ''AAAAAA''" by code_simp
  with b show ?thesis unfolding Let_def run by (simp add: pairing_spec_def)
qed

section \<open>Changed paths\<close>

definition verify_changed_paths :: "string list \<Rightarrow> string list \<Rightarrow> unit result" where
  "verify_changed_paths approved actual =
     (if list_all (\<lambda>p. p \<in> set approved) actual then Inr () else Inl (Err ''unexpected workspace change''))"

definition missing_approved_paths :: "string list \<Rightarrow> string list \<Rightarrow> string list" where
  "missing_approved_paths approved actual = sort (filter (\<lambda>p. p \<notin> set actual) approved)"

lemma changed_paths_exact:
  "verify_changed_paths approved actual = Inr () \<and> missing_approved_paths approved actual = [] \<longleftrightarrow>
     set approved = set actual"
proof -
  have "sort xs = [] \<longleftrightarrow> xs = []" for xs :: "string list" by (metis length_0_conv length_sort)
  then show ?thesis
    by (auto simp: verify_changed_paths_def missing_approved_paths_def list_all_iff filter_empty_conv)
qed

section \<open>The vault in memory\<close>

text \<open>An association list with one entry per id. The values are byte slices that are zeroed before they are
  dropped; \<open>Get\<close> gives a copy, so no caller sees the zeros.\<close>

type_synonym vault = "(string \<times> string) list"

definition vault_put :: "string \<Rightarrow> string \<Rightarrow> vault \<Rightarrow> vault" where
  "vault_put k value v = AList.update k value v"

definition vault_get :: "string \<Rightarrow> vault \<Rightarrow> string \<times> bool" where
  "vault_get k v = (case map_of v k of None \<Rightarrow> ([], False) | Some value \<Rightarrow> (value, True))"

definition vault_ids :: "vault \<Rightarrow> string list" where
  "vault_ids v = sort (map fst v)"

definition vault_delete :: "string \<Rightarrow> vault \<Rightarrow> vault" where
  "vault_delete k v = AList.delete k v"

lemma vault_is_map:
  assumes "distinct (map fst v)"
  shows "distinct (map fst (vault_put k x v))" "distinct (map fst (vault_delete k v))"
    and "vault_get j (vault_put k x v) = (if j = k then (x, True) else vault_get j v)"
    and "vault_get j (vault_delete k v) = (if j = k then ([], False) else vault_get j v)"
    and "vault_ids (vault_put k x v) = sorted_list_of_set (insert k (set (vault_ids v)))"
proof -
  show d: "distinct (map fst (vault_put k x v))" "distinct (map fst (vault_delete k v))"
    using assms by (simp_all add: vault_put_def vault_delete_def distinct_update distinct_delete)
  show "vault_get j (vault_put k x v) = (if j = k then (x, True) else vault_get j v)"
    "vault_get j (vault_delete k v) = (if j = k then ([], False) else vault_get j v)"
    by (simp_all add: vault_get_def vault_put_def vault_delete_def update_conv' delete_conv')
  have "set (map fst (vault_put k x v)) = insert k (set (map fst v))"
    using dom_update [of k x v] by (simp add: vault_put_def dom_map_of_conv_image_fst update_conv')
  with d(1) show "vault_ids (vault_put k x v) = sorted_list_of_set (insert k (set (vault_ids v)))"
    unfolding vault_ids_def by (metis distinct_remdups_id set_sort sorted_list_of_set_sort_remdups)
qed

section \<open>Rows of the council\<close>

definition save_provider_profile :: "'db gorm_db \<Rightarrow> provider_profile_record \<Rightarrow> ('db, unit) prog" where
  "save_provider_profile D r = sql_save (gd_profiles D) r"

definition save_workspace :: "'db gorm_db \<Rightarrow> workspace_record \<Rightarrow> ('db, unit) prog" where
  "save_workspace D r = sql_save (gd_workspaces D) r"

definition save_task :: "'db gorm_db \<Rightarrow> task_record \<Rightarrow> ('db, unit) prog" where
  "save_task D r = sql_save (gd_tasks D) r"

definition save_seats :: "'db gorm_db \<Rightarrow> seat_record list \<Rightarrow> ('db, unit) prog" where
  "save_seats D rs = gd_tx D (bindE (forE rs (\<lambda>r. sql_save (gd_seats D) r)) (\<lambda>_. returnE ()))"

definition record_invocation :: "'db gorm_db \<Rightarrow> model_invocation_record \<Rightarrow> ('db, unit) prog" where
  "record_invocation D r = sql_create (gd_invocations D) r"

text \<open>\<open>SaveSeats\<close> saves every seat or none.\<close>

context gorm_store
begin

lemma save_seats_all_or_nothing:
  assumes "save_seats D rs s = (res, s')"
  shows "case res of Inl e \<Rightarrow> view s' = view s
    | Inr _ \<Rightarrow> \<exists>rs'. list_all2 (\<lambda>r r'. ts_norm seats_spec r' = ts_norm seats_spec r) rs rs' \<and>
        view s' = fold (\<lambda>r t. t_seats_update (save_rows (\<lambda>x y. seat_record.se_ID x = seat_record.se_ID y) r) t) rs' (view s)"
proof -
  have loop: "\<exists>rs'. list_all2 (\<lambda>r r'. ts_norm seats_spec r' = ts_norm seats_spec r) rs rs' \<and>
      view s2 = fold (\<lambda>r t. t_seats_update (save_rows (\<lambda>x y. seat_record.se_ID x = seat_record.se_ID y) r) t) rs' (view s1)"
    if "forE rs (\<lambda>r. sql_save (gd_seats D) r) s1 = (Inr u, s2)" for s1 s2 u
    using that
  proof (induction rs arbitrary: s1 u)
    case (Cons r rs)
    then obtain q us where a: "sql_save (gd_seats D) r s1 = (Inr (), q)" "forE rs (\<lambda>r. sql_save (gd_seats D) r) q = (Inr us, s2)"
      by (auto simp: bindE_def returnE_def split: prod.splits sum.splits)
    obtain r' where r': "ts_norm seats_spec r' = ts_norm seats_spec r"
      "view q = ts_upd seats_spec (save_rows (ts_same seats_spec) r') (view s1)"
      by (cases rule: sql_saveE [OF seats_ok a(1)]) auto
    obtain rs' where "list_all2 (\<lambda>r r'. ts_norm seats_spec r' = ts_norm seats_spec r) rs rs'"
      "view s2 = fold (\<lambda>r t. t_seats_update (save_rows (\<lambda>x y. seat_record.se_ID x = seat_record.se_ID y) r) t) rs' (view q)"
      using Cons.IH [OF a(2)] by blast
    with r' show ?case by (intro exI [of _ "r' # rs'"]) (simp add: seats_spec_def)
  qed (simp add: returnE_def)
  from assms show ?thesis
    by (cases rule: txE [OF tx_ok assms [unfolded save_seats_def]])
      (auto simp: bindE_def returnE_def split: prod.splits sum.splits dest!: loop)
qed

end

section \<open>Opening the database\<close>

text \<open>\<open>Open\<close> (\<open>internal/storage/sqlite/db.go\<close>), of the outcomes of making the directory, opening, each
  statement and the migration: the statements that were executed.\<close>

definition open_database ::
  "string \<Rightarrow> unit result \<Rightarrow> unit result \<Rightarrow> (string \<Rightarrow> unit result) \<Rightarrow> unit result \<Rightarrow> string list result" where
  "open_database path mkdir open' exec migrate =
     (case (if path = '':memory:'' then Inr () else mkdir) of Inl e \<Rightarrow> Inl e
      | Inr _ \<Rightarrow> (case open' of Inl e \<Rightarrow> Inl e
      | Inr _ \<Rightarrow> (case exec ''PRAGMA foreign_keys = ON'' of Inl e \<Rightarrow> Inl e
      | Inr _ \<Rightarrow> (case (if path = '':memory:'' then Inr () else exec ''PRAGMA journal_mode = WAL'') of Inl e \<Rightarrow> Inl e
      | Inr _ \<Rightarrow> (case migrate of Inl e \<Rightarrow> Inl e
      | Inr _ \<Rightarrow> Inr (''PRAGMA foreign_keys = ON'' #
          (if path = '':memory:'' then [] else [''PRAGMA journal_mode = WAL''])))))))"

end
