(* ===== verification/Desktop_Log.thy ===== *)
theory Desktop_Log
  imports Go_Prelude "HOL-Library.Sublist"
begin

text \<open>
  \<open>internal/desktop/log.go\<close>: the log a child process writes to, one file and its predecessor
  \<open>path.1\<close>. Every file operation has an outcome given from outside; a write that fails may
  have written a part. Nobody else writes the two files.
\<close>

section \<open>The writer\<close>

record log_files =
  lg_current :: "string option"
  lg_previous :: "string option"

record log_writer =
  lw_limit :: int
  lw_size :: int
  lw_files :: log_files

text \<open>What the outside makes of one call: the errors of removing, renaming and opening, how much is
  written with which error, and the error of closing.\<close>

record log_outcome =
  lo_remove :: "go_error option"
  lo_rename :: "go_error option"
  lo_open :: "go_error option"
  lo_written :: nat
  lo_write :: "go_error option"
  lo_close :: "go_error option"

definition default_log_limit :: int where
  "default_log_limit = 2 ^ 20"

text \<open>\<open>os.Stat\<close> gives the size of the file; \<open>mkdir\<close> and \<open>stat\<close> are errors met.\<close>

definition new_rotating_log_writer ::
  "go_error option \<Rightarrow> go_error option \<Rightarrow> int \<Rightarrow> log_files \<Rightarrow> log_writer result" where
  "new_rotating_log_writer mkdir stat limit files =
     (case mkdir of Some e \<Rightarrow> Inl (Wrap ''create log directory: '' e)
      | None \<Rightarrow> (case stat of Some e \<Rightarrow> Inl (Wrap ''stat log file: '' e)
      | None \<Rightarrow> Inr \<lparr>lw_limit = (if limit \<le> 0 then default_log_limit else limit),
          lw_size = (case lg_current files of None \<Rightarrow> 0 | Some s \<Rightarrow> int (length s)), lw_files = files\<rparr>))"

definition rotate :: "log_outcome \<Rightarrow> (log_writer, unit) prog" where
  "rotate o' w =
     (let f = lw_files w in
      if lg_previous f \<noteq> None \<and> lo_remove o' \<noteq> None then (Inl (the (lo_remove o')), w)
      else let f1 = f\<lparr>lg_previous := None\<rparr>; w1 = w\<lparr>lw_files := f1\<rparr> in
        if lg_current f \<noteq> None \<and> lo_rename o' \<noteq> None then (Inl (the (lo_rename o')), w1)
        else (Inr (), w1\<lparr>lw_size := 0, lw_files := \<lparr>lg_current = None, lg_previous = lg_current f\<rparr>\<rparr>))"

text \<open>The file after a write of which \<open>n\<close> bytes arrived; opening it creates it.\<close>

definition append_log :: "string \<Rightarrow> log_files \<Rightarrow> log_files" where
  "append_log p f = f\<lparr>lg_current := Some ((case lg_current f of None \<Rightarrow> [] | Some s \<Rightarrow> s) @ p)\<rparr>"

definition log_write :: "log_outcome \<Rightarrow> string \<Rightarrow> log_writer \<Rightarrow> (nat \<times> go_error option) \<times> log_writer" where
  "log_write o' p w =
     (case (if lw_size w > 0 \<and> int64 (lw_size w + int (length p)) > lw_limit w then rotate o' w else (Inr (), w)) of
        (Inl e, w1) \<Rightarrow> ((0, Some e), w1)
      | (Inr _, w1) \<Rightarrow>
          (case lo_open o' of
             Some e \<Rightarrow> ((0, Some e), w1)
           | None \<Rightarrow>
               let n = (if lo_write o' = None then length p else min (lo_written o') (length p));
                   w2 = w1\<lparr>lw_files := append_log (take n p) (lw_files w1)\<rparr> in
               if lo_write o' \<noteq> None then ((n, lo_write o'), w2)
               else if lo_close o' \<noteq> None then ((n, lo_close o'), w2)
               else ((n, None), w2\<lparr>lw_size := int64 (lw_size w2 + int n)\<rparr>)))"

text \<open>A history of writes; what they reported, oldest first.\<close>

fun log_writes :: "(log_outcome \<times> string) list \<Rightarrow> log_writer \<Rightarrow> (nat \<times> go_error option) list \<times> log_writer" where
  "log_writes [] w = ([], w)"
| "log_writes ((o', p) # calls) w =
     (case log_write o' p w of (r, w1) \<Rightarrow> (case log_writes calls w1 of (rs, w2) \<Rightarrow> (r # rs, w2)))"

section \<open>What the two files hold\<close>

definition log_text :: "log_files \<Rightarrow> string" where
  "log_text f = (case lg_previous f of None \<Rightarrow> [] | Some s \<Rightarrow> s) @ (case lg_current f of None \<Rightarrow> [] | Some s \<Rightarrow> s)"

text \<open>The bytes the calls report as written.\<close>

definition reported :: "(log_outcome \<times> string) list \<Rightarrow> (nat \<times> go_error option) list \<Rightarrow> string" where
  "reported calls rs = concat (map2 (\<lambda>(o', p) (n, e). take n p) calls rs)"

lemma rotate_text:
  assumes "rotate o' w = (r, w1)"
  shows "suffix (log_text (lw_files w1)) (log_text (lw_files w))"
  using assms
  by (auto simp: rotate_def Let_def log_text_def suffix_def split: if_splits option.splits)

lemma append_text: "log_text (append_log p f) = log_text f @ p"
  by (simp add: append_log_def log_text_def split: option.split)

lemma write_text:
  assumes "log_write o' p w = ((n, e), w1)"
  shows "suffix (log_text (lw_files w1)) (log_text (lw_files w) @ take n p)"
proof -
  obtain r w0 where rot: "(if lw_size w > 0 \<and> int64 (lw_size w + int (length p)) > lw_limit w
    then rotate o' w else (Inr (), w)) = (r, w0)" by fastforce
  then have s: "suffix (log_text (lw_files w0)) (log_text (lw_files w))"
    using rotate_text by (auto split: if_splits)
  then have "suffix (log_text (lw_files w0) @ take n p) (log_text (lw_files w) @ take n p)" by (auto simp: suffix_def)
  moreover have "log_text (lw_files w1) = log_text (lw_files w0) @ take n p \<or> (n = 0 \<and> w1 = w0)"
    using assms rot
    by (auto simp: log_write_def Let_def append_text split: sum.splits option.splits if_splits)
  ultimately show ?thesis using s by auto
qed

lemma writes_text:
  "log_writes calls w = (rs, w1) \<Longrightarrow> suffix (log_text (lw_files w1)) (log_text (lw_files w) @ reported calls rs)"
proof (induction calls arbitrary: w rs)
  case (Cons c calls)
  obtain o' p where c: "c = (o', p)" by fastforce
  obtain n e w0 where wr: "log_write o' p w = ((n, e), w0)" by (metis prod.collapse)
  obtain ss where ws: "log_writes calls w0 = (ss, w1)" and rs: "rs = (n, e) # ss"
    using Cons.prems by (auto simp: c wr split: prod.splits)
  have "suffix (log_text (lw_files w1)) (log_text (lw_files w0) @ reported calls ss)" by (rule Cons.IH [OF ws])
  moreover have "suffix (log_text (lw_files w0) @ reported calls ss) ((log_text (lw_files w) @ take n p) @ reported calls ss)"
    using write_text [OF wr] by (auto simp: suffix_def)
  ultimately show ?case by (auto simp: rs c reported_def intro: suffix_order.trans)
qed (simp add: reported_def)

section \<open>How long they get\<close>

definition log_length :: "string option \<Rightarrow> int" where
  "log_length f = (case f of None \<Rightarrow> 0 | Some s \<Rightarrow> int (length s))"

definition log_bounded :: "int \<Rightarrow> log_writer \<Rightarrow> bool" where
  "log_bounded M w \<longleftrightarrow> lw_limit w \<le> M \<and> lw_size w = log_length (lg_current (lw_files w)) \<and>
     log_length (lg_current (lw_files w)) \<le> M \<and> log_length (lg_previous (lw_files w)) \<le> M"

text \<open>A call whose write and close succeed if it gets that far.\<close>

definition clean_call :: "int \<Rightarrow> log_outcome \<times> string \<Rightarrow> bool" where
  "clean_call M c \<longleftrightarrow> lo_write (fst c) = None \<and> lo_close (fst c) = None \<and> int (length (snd c)) \<le> M"

lemma log_length_simps [simp]: "log_length None = 0" "log_length (Some s) = int (length s)" "0 \<le> log_length f"
  by (simp_all add: log_length_def split: option.split)

lemma rotate_bounded:
  assumes "rotate o' w = (r, w1)" "log_bounded M w" "0 \<le> M"
  shows "log_bounded M w1 \<and> lw_limit w1 = lw_limit w \<and> (r = Inr () \<longrightarrow> lw_size w1 = 0)"
  using assms by (auto simp: rotate_def log_bounded_def Let_def split: if_splits)

lemma append_bounded:
  assumes "log_bounded M w" "lw_size w + int (length p) \<le> M" "M < 2 ^ 62"
  shows "log_bounded M (w\<lparr>lw_files := append_log p (lw_files w), lw_size := int64 (lw_size w + int (length p))\<rparr>)"
proof -
  have "0 \<le> lw_size w + int (length p)" using assms(1) by (simp add: log_bounded_def)
  then have "int64 (lw_size w + int (length p)) = lw_size w + int (length p)" using assms(2,3) by (intro int64_small) auto
  moreover have "log_length (lg_current (append_log p f)) = log_length (lg_current f) + int (length p)"
    "lg_previous (append_log p f) = lg_previous f" for f
    by (simp_all add: append_log_def split: option.split)
  ultimately show ?thesis using assms(1,2) by (simp add: log_bounded_def)
qed

lemma write_bounded:
  assumes "log_write o' p w = (q, w1)" "log_bounded M w" "clean_call M (o', p)" "M < 2 ^ 62"
  shows "log_bounded M w1"
proof -
  have M: "0 \<le> M" "int (length p) \<le> M" using assms(3) by (auto simp: clean_call_def)
  have size: "0 \<le> lw_size w" "lw_size w \<le> M" using assms(2) by (simp_all add: log_bounded_def)
  have sum: "int64 (lw_size w + int (length p)) = lw_size w + int (length p)"
    using size M assms(4) by (intro int64_small) auto
  obtain r w0 where rot: "(if lw_size w > 0 \<and> int64 (lw_size w + int (length p)) > lw_limit w
    then rotate o' w else (Inr (), w)) = (r, w0)" by fastforce
  have w0: "log_bounded M w0" "r = Inr () \<longrightarrow> lw_size w0 + int (length p) \<le> M"
    using rot rotate_bounded [of o' w r w0 M] assms(2) M size sum
    by (auto simp: log_bounded_def split: if_splits)
  show ?thesis
  proof (cases "r = Inr () \<and> lo_open o' = None")
    case True
    then have "w1 = w0\<lparr>lw_files := append_log p (lw_files w0), lw_size := int64 (lw_size w0 + int (length p))\<rparr>"
      using assms(1,3) rot by (auto simp: log_write_def clean_call_def Let_def)
    with append_bounded [OF w0(1) _ assms(4)] w0(2) True show ?thesis by simp
  next
    case False
    then have "w1 = w0" using assms(1) rot by (auto simp: log_write_def Let_def split: sum.splits option.splits)
    with w0 show ?thesis by simp
  qed
qed

lemma writes_bounded:
  "\<lbrakk>log_writes calls w = (rs, w1); log_bounded M w; list_all (clean_call M) calls; M < 2 ^ 62\<rbrakk> \<Longrightarrow> log_bounded M w1"
proof (induction calls arbitrary: w rs)
  case (Cons c calls)
  obtain o' p where c: "c = (o', p)" by fastforce
  obtain q w0 where wr: "log_write o' p w = (q, w0)" by fastforce
  obtain ss where ws: "log_writes calls w0 = (ss, w1)"
    using Cons.prems(1) by (auto simp: c wr split: prod.splits)
  have "log_bounded M w0" using write_bounded [OF wr Cons.prems(2)] Cons.prems(3,4) by (simp add: c)
  with Cons.IH [OF ws] Cons.prems(3,4) show ?case by simp
qed simp

text \<open>
  C40. The log is a bounded window on the end of the output. Whatever fails, the two files together
  always hold an uninterrupted end of what was in them before followed by the bytes the calls
  reported as written; and unless a write or a close fails, neither file ever gets longer than the
  largest of the limit, a single write, and what was there at the start.
\<close>

theorem rotating_log_window:
  assumes "new_rotating_log_writer None None limit files = Inr w" "log_writes calls w = (rs, w1)"
  shows "suffix (log_text (lw_files w1)) (log_text files @ reported calls rs) \<and>
    (\<forall>M < 2 ^ 62. lw_limit w \<le> M \<longrightarrow> log_length (lg_current files) \<le> M \<longrightarrow> log_length (lg_previous files) \<le> M \<longrightarrow>
      list_all (clean_call M) calls \<longrightarrow>
      log_length (lg_current (lw_files w1)) \<le> M \<and> log_length (lg_previous (lw_files w1)) \<le> M)"
proof -
  have w: "lw_files w = files" "lw_size w = log_length (lg_current files)"
    using assms(1) by (auto simp: new_rotating_log_writer_def log_length_def)
  have "log_bounded M w1" if "M < 2 ^ 62" "lw_limit w \<le> M" "log_length (lg_current files) \<le> M"
    "log_length (lg_previous files) \<le> M" "list_all (clean_call M) calls" for M
    using that by (intro writes_bounded [OF assms(2)]) (simp_all add: log_bounded_def w)
  moreover have "suffix (log_text (lw_files w1)) (log_text files @ reported calls rs)"
    using writes_text [OF assms(2)] by (simp add: w)
  ultimately show ?thesis by (auto simp: log_bounded_def)
qed

definition fine :: log_outcome where
  "fine = \<lparr>lo_remove = None, lo_rename = None, lo_open = None, lo_written = 0, lo_write = None, lo_close = None\<rparr>"

theorem rotating_log_window_witness:
  "\<exists>w w1. new_rotating_log_writer None None 4 \<lparr>lg_current = Some ''ab'', lg_previous = None\<rparr> = Inr w \<and>
     log_writes [(fine, ''cd''), (fine, ''e'')] w = ([(2, None), (1, None)], w1) \<and>
     lw_files w1 = \<lparr>lg_current = Some ''e'', lg_previous = Some ''abcd''\<rparr> \<and>
     suffix (log_text (lw_files w1)) ''abcde''"
proof -
  let ?f = "\<lparr>lg_current = Some ''ab'', lg_previous = None\<rparr>"
  let ?w = "\<lparr>lw_limit = 4, lw_size = 2, lw_files = ?f\<rparr>"
  let ?w1 = "\<lparr>lw_limit = 4, lw_size = 1, lw_files = \<lparr>lg_current = Some ''e'', lg_previous = Some ''abcd''\<rparr>\<rparr>"
  have n: "new_rotating_log_writer None None 4 ?f = Inr ?w" by (simp add: new_rotating_log_writer_def)
  have l: "log_writes [(fine, ''cd''), (fine, ''e'')] ?w = ([(2, None), (1, None)], ?w1)"
    by (simp add: log_write_def fine_def rotate_def append_log_def Let_def int64_def)
  from conjunct1 [OF rotating_log_window [OF n l]] n l show ?thesis
    by (auto simp: log_text_def reported_def)
qed

text \<open>A write that fails half-way is not counted: such writes can make the log grow without a bound.\<close>

lemma failed_writes_uncounted:
  assumes "lo_open o' = None" "lo_write o' = Some e" "lo_written o' = n" "n \<le> length p"
    and "lw_size w + int (length p) \<le> lw_limit w" "0 \<le> lw_size w" "lw_limit w < 2 ^ 62"
  shows "log_length (lg_current (lw_files (snd (log_write o' p w)))) = log_length (lg_current (lw_files w)) + int n"
    and "lw_size (snd (log_write o' p w)) = lw_size w"
proof -
  have "int64 (lw_size w + int (length p)) = lw_size w + int (length p)"
    using assms(5-7) by (intro int64_small) auto
  then show "log_length (lg_current (lw_files (snd (log_write o' p w)))) = log_length (lg_current (lw_files w)) + int n"
    "lw_size (snd (log_write o' p w)) = lw_size w"
    using assms by (simp_all add: log_write_def Let_def append_log_def min_def split: option.split)
qed

end
