(* ===== verification/Desktop_Diagnostics.thy ===== *)
theory Desktop_Diagnostics
  imports Desktop_App Provider
begin

text \<open>
  \<open>internal/desktop/diagnostics.go\<close>: the archive for support, with a summary and the redacted tails of
  the two logs. The three regular expressions are functions that give the length of the match at
  the front of a text; each of them is deterministic, because what follows a greedy repetition
  cannot start with a character the repetition takes. Under \<open>(?i)\<close> the letters \<open>k\<close> and \<open>s\<close> also match
  the runes U+212A and U+017F. The outcomes of the zip writer are given from outside.
\<close>

section \<open>Matching\<close>

definition re_space :: "char \<Rightarrow> bool" where
  "re_space c \<longleftrightarrow> c \<in> {CHR '' '', CHR 0x09, CHR 0x0A, CHR 0x0C, CHR 0x0D}"

definition fold_width :: "char \<Rightarrow> string \<Rightarrow> nat" where
  "fold_width c s =
     (if s = [] then 0 else if lower_byte (hd s) = c then 1
      else if c = CHR ''s'' \<and> take 2 s = [byte 0xC5, byte 0xBF] then 2
      else if c = CHR ''k'' \<and> take 3 s = [byte 0xE2, byte 0x84, byte 0xAA] then 3 else 0)"

text \<open>A literal in lower case.\<close>

fun lit_match :: "string \<Rightarrow> string \<Rightarrow> nat option" where
  "lit_match [] s = Some 0"
| "lit_match (c # lit) s =
     (let n = fold_width c s in if n = 0 then None else map_option ((+) n) (lit_match lit (drop n s)))"

definition run_of :: "(char \<Rightarrow> bool) \<Rightarrow> string \<Rightarrow> nat" where
  "run_of p s = length (takeWhile p s)"

text \<open>\<open>(?i)lit\s+[^\s]+\<close>\<close>

definition match_word_after :: "string \<Rightarrow> string \<Rightarrow> nat option" where
  "match_word_after lit s =
     (case lit_match lit s of None \<Rightarrow> None
      | Some n \<Rightarrow>
          let k = run_of re_space (drop n s); m = run_of (\<lambda>c. \<not> re_space c) (drop (n + k) s) in
          if k = 0 \<or> m = 0 then None else Some (n + k + m))"

definition match_api_key :: "string \<Rightarrow> nat option" where
  "match_api_key s =
     (case lit_match ''api'' s of None \<Rightarrow> None
      | Some n \<Rightarrow>
          let j = (if take 1 (drop n s) = ''_'' \<or> take 1 (drop n s) = ''-'' then 1 else 0) in
          map_option ((+) (n + j)) (lit_match ''key'' (drop (n + j) s)))"

definition match_secret_name :: "string \<Rightarrow> nat option" where
  "match_secret_name s =
     (case lit_match ''authorization'' s of Some n \<Rightarrow> Some n
      | None \<Rightarrow> (case match_api_key s of Some n \<Rightarrow> Some n
      | None \<Rightarrow> (case lit_match ''secret'' s of Some n \<Rightarrow> Some n
      | None \<Rightarrow> lit_match ''token'' s)))"

text \<open>\<open>(?i)(authorization|api[_-]?key|secret|token)\s*[:=]\s*[^\s]+\<close>\<close>

definition match_assignment :: "string \<Rightarrow> nat option" where
  "match_assignment s =
     (case match_secret_name s of None \<Rightarrow> None
      | Some n \<Rightarrow>
          let k = n + run_of re_space (drop n s) in
          if take 1 (drop k s) \<noteq> '':'' \<and> take 1 (drop k s) \<noteq> ''='' then None
          else let j = Suc k + run_of re_space (drop (Suc k) s); m = run_of (\<lambda>c. \<not> re_space c) (drop j s) in
            if m = 0 then None else Some (j + m))"

definition diagnostic_secret_patterns :: "(string \<Rightarrow> nat option) list" where
  "diagnostic_secret_patterns = [match_word_after ''bearer'', match_word_after ''--token'', match_assignment]"

definition redact_diagnostic_match :: "string \<Rightarrow> string" where
  "redact_diagnostic_match m =
     (if has_prefix (to_lower m) ''bearer'' then ''Bearer [REDACTED]''
      else if has_prefix (to_lower m) ''--token'' then ''--token [REDACTED]''
      else (case index_any '':='' m of
          None \<Rightarrow> ''[REDACTED]''
        | Some i \<Rightarrow> take (i + 1) m @ ''[REDACTED]''))"

text \<open>\<open>ReplaceAllStringFunc\<close>: the leftmost matches, none inside another.\<close>

function replace_matches :: "(string \<Rightarrow> nat option) \<Rightarrow> string \<Rightarrow> string" where
  "replace_matches pat [] = []"
| "replace_matches pat (c # s) =
     (case pat (c # s) of
        Some (Suc n) \<Rightarrow> redact_diagnostic_match (take (Suc n) (c # s)) @ replace_matches pat (drop n s)
      | _ \<Rightarrow> c # replace_matches pat s)"
  by pat_completeness auto
termination by (relation "measure (length \<circ> snd)") auto

definition redact_log :: "string \<Rightarrow> string" where
  "redact_log contents = foldl (\<lambda>text pat. replace_matches pat text) contents diagnostic_secret_patterns"

definition diagnostic_log_limit :: nat where
  "diagnostic_log_limit = 64 * 1024"

text \<open>\<open>readSanitizedDiagnosticLog\<close>, of the outcome of \<open>os.ReadFile\<close>.\<close>

definition read_sanitized_log :: "string \<Rightarrow> string result \<Rightarrow> string result" where
  "read_sanitized_log path contents =
     (case contents of
        Inl e \<Rightarrow> if errors_is e OsNotExist then Inr (''log unavailable'' @ [CHR 0x0A])
          else Inl (Wrap (''read diagnostics log '' @ path) e)
      | Inr text \<Rightarrow> Inr (redact_log
          (if length text > diagnostic_log_limit then drop (length text - diagnostic_log_limit) text else text)))"

section \<open>The archive\<close>

type_synonym archive = "(string \<times> string) list"

definition diagnostic_summary :: "string \<Rightarrow> desktop_config \<Rightarrow> runtime_status \<Rightarrow> string" where
  "diagnostic_summary version config status =
     ''{'' @ json_key ''version'' @ json_string version @ '','' @
     json_key ''state'' @ json_string (state_text (st_State status)) @ '','' @
     (if st_CouncilURL status = [] then [] else json_key ''api_base'' @ json_string (st_CouncilURL status) @ '','') @
     json_key ''data_dir'' @ json_string (cf_DataDir config) @ '','' @
     json_key ''log_dir'' @ json_string (cf_LogDir config) @ ''}''"

text \<open>The outcomes of \<open>Create\<close> and \<open>Write\<close> for an entry.\<close>

definition write_diagnostic_entry ::
  "(string \<Rightarrow> go_error option \<times> go_error option) \<Rightarrow> string \<Rightarrow> string \<Rightarrow> (archive, unit) prog" where
  "write_diagnostic_entry entry name contents a =
     (case entry name of
        (Some e, _) \<Rightarrow> (Inl (Wrap (''create diagnostics entry '' @ name @ '': '') e), a)
      | (None, Some e) \<Rightarrow> (Inl (Wrap (''write diagnostics entry '' @ name @ '': '') e), a @ [(name, [])])
      | (None, None) \<Rightarrow> (Inr (), a @ [(name, contents)]))"

definition write_diagnostic_entries ::
  "(string \<Rightarrow> go_error option \<times> go_error option) \<Rightarrow> (string \<Rightarrow> string result) \<Rightarrow> string \<Rightarrow> desktop_config \<Rightarrow>
   runtime_status \<Rightarrow> (archive, unit) prog" where
  "write_diagnostic_entries entry read version config status =
     bindE (write_diagnostic_entry entry ''summary.json'' (diagnostic_summary version config status)) (\<lambda>_.
     bindE (forE [''runner.log'', ''council.log''] (\<lambda>name.
       let path = path_join [cf_LogDir config, name] in
       (case read_sanitized_log path (read path) of
          Inl e \<Rightarrow> raiseE e
        | Inr contents \<Rightarrow> write_diagnostic_entry entry name contents))) (\<lambda>_. returnE ()))"

text \<open>\<open>ExportDiagnostics\<close>: \<open>stamp\<close> is the time in the file name; the errors are those of making the
  directory, of creating the file and of closing the writer and the file.\<close>

definition export_diagnostics ::
  "go_error option \<Rightarrow> go_error option \<Rightarrow> go_error option \<Rightarrow> go_error option \<Rightarrow>
   (string \<Rightarrow> go_error option \<times> go_error option) \<Rightarrow> (string \<Rightarrow> string result) \<Rightarrow> string \<Rightarrow> string \<Rightarrow> string \<Rightarrow>
   desktop_config \<Rightarrow> runtime_status \<Rightarrow> string result \<times> archive" where
  "export_diagnostics mkdir create closeZip closeFile entry read destination stamp version config status =
     (let archivePath = path_join [destination, ''ai-council-diagnostics-'' @ stamp @ ''.zip''] in
      case mkdir of Some e \<Rightarrow> (Inl (Wrap ''create diagnostics directory: '' e), [])
      | None \<Rightarrow> (case create of Some e \<Rightarrow> (Inl (Wrap ''create diagnostics archive: '' e), [])
      | None \<Rightarrow>
          (case write_diagnostic_entries entry read version config status [] of
             (Inl e, a) \<Rightarrow> (Inl e, a)
           | (Inr _, a) \<Rightarrow>
               (case closeZip of Some e \<Rightarrow> (Inl (Wrap ''close diagnostics archive: '' e), a)
                | None \<Rightarrow> (case closeFile of Some e \<Rightarrow> (Inl (Wrap ''close diagnostics file: '' e), a)
                | None \<Rightarrow> (Inr archivePath, a))))))"

text \<open>\<open>DesktopApp.ExportDiagnostics\<close>: the status is taken under the mutex; only its state and the address of
  the council go into the archive.\<close>

definition app_export_diagnostics ::
  "(nat \<Rightarrow> runtime_status) \<Rightarrow> (string \<Rightarrow> desktop_config \<Rightarrow> runtime_status \<Rightarrow> 'r) \<Rightarrow> desktop_app \<Rightarrow> 'r" where
  "app_export_diagnostics status export a =
     (let ds = status_locked status a in
      export ''0.1.0'' (da_config a) ((fresh_status (ds_State ds))\<lparr>st_CouncilURL := ds_CouncilURL ds\<rparr>))"

section \<open>What the redaction misses\<close>

lemma lower_letters:
  "lower_byte (CHR ''t'') = CHR ''t''" "lower_byte (CHR ''o'') = CHR ''o''" "lower_byte (CHR ''k'') = CHR ''k''"
  "lower_byte (CHR ''e'') = CHR ''e''" "lower_byte (CHR ''n'') = CHR ''n''" "lower_byte (CHR ''x'') = CHR ''x''"
  by code_simp+

text \<open>A key in quotes, as JSON has it, is no match: the expression does not allow the quote after it.\<close>

lemma quoted_token_unmatched: "match_assignment (''token'' @ quote # rest) = None"
  by (simp add: match_assignment_def match_secret_name_def match_api_key_def fold_width_def lower_letters Let_def
      run_of_def re_space_def byte_def)

text \<open>The tail is cut before it is redacted: a token whose \<open>Bearer\<close> falls to the cut stays.\<close>

lemma unmatched_kept:
  assumes "\<And>n. pat (replicate n c) = None"
  shows "replace_matches pat (replicate n c) = replicate n c"
proof (induction n)
  case (Suc n)
  have "pat (c # replicate n c) = None" using assms [of "Suc n"] by simp
  with Suc show ?case by simp
qed simp

lemma fold_width_x: "c \<notin> {CHR ''x'', CHR ''s'', CHR ''k''} \<Longrightarrow> fold_width c (CHR ''x'' # s) = 0"
  "fold_width (CHR ''s'') (CHR ''x'' # s) = 0"
proof -
  have b: "CHR ''x'' \<noteq> byte 0xC5" "CHR ''x'' \<noteq> byte 0xE2" by code_simp+
  show "c \<notin> {CHR ''x'', CHR ''s'', CHR ''k''} \<Longrightarrow> fold_width c (CHR ''x'' # s) = 0"
    "fold_width (CHR ''s'') (CHR ''x'' # s) = 0"
    using b by (auto simp: fold_width_def lower_letters)
qed

lemma lit_match_x: "lit \<noteq> [] \<Longrightarrow> hd lit \<notin> {CHR ''x'', CHR ''s'', CHR ''k''} \<Longrightarrow> lit_match lit (replicate n (CHR ''x'')) = None"
  by (cases lit; cases n) (auto simp: fold_width_x Let_def fold_width_def [of _ "[]"])

lemma redact_x: "redact_log (replicate n (CHR ''x'')) = replicate n (CHR ''x'')"
proof -
  have s: "lit_match ''secret'' (replicate n (CHR ''x'')) = None" for n
    by (cases n) (simp_all add: fold_width_x Let_def, simp add: fold_width_def)
  have b: "match_word_after ''bearer'' (replicate n (CHR ''x'')) = None"
    "match_word_after ''--token'' (replicate n (CHR ''x'')) = None" for n
    unfolding match_word_after_def by (subst lit_match_x; simp)+
  have a: "lit_match ''authorization'' (replicate n (CHR ''x'')) = None" "lit_match ''token'' (replicate n (CHR ''x'')) = None"
    for n by (rule lit_match_x; simp)+
  have k: "match_api_key (replicate n (CHR ''x'')) = None" for n
    unfolding match_api_key_def by (subst lit_match_x; simp)
  have c: "match_assignment (replicate n (CHR ''x'')) = None" for n
    by (simp only: match_assignment_def match_secret_name_def k s a option.case)
  have u: "replace_matches (match_word_after ''bearer'') (replicate n (CHR ''x'')) = replicate n (CHR ''x'')"
    "replace_matches (match_word_after ''--token'') (replicate n (CHR ''x'')) = replicate n (CHR ''x'')"
    "replace_matches match_assignment (replicate n (CHR ''x'')) = replicate n (CHR ''x'')"
    by (rule unmatched_kept, rule b c)+
  show ?thesis by (simp only: redact_log_def diagnostic_secret_patterns_def foldl.simps u)
qed

lemma cut_before_redaction:
  "read_sanitized_log path (Inr (''Bearer '' @ replicate diagnostic_log_limit (CHR ''x''))) =
     Inr (replicate diagnostic_log_limit (CHR ''x''))"
proof -
  have "length (''Bearer '' @ replicate m (CHR ''x'')) - m = 7" "drop 7 (''Bearer '' @ replicate m (CHR ''x'')) = replicate m (CHR ''x'')"
    "length (''Bearer '' @ replicate m (CHR ''x'')) > m" for m
    by simp_all
  then show ?thesis by (simp only: read_sanitized_log_def sum.case if_True redact_x)
qed

end
