(* ===== verification/Spec2Isabelle.thy ===== *)
theory Spec2Isabelle
  imports Run_State Run_Repository Approval_Repository Event_Repository Runner_Service
    Council_Plan Council_Workflow Rbac_Api Council_Facts Workspace_Collector Task_Service
    Artifact_Repository Service_Startup Tls_Reloader Small_Services Desktop_Log Desktop_Diagnostics
begin

text \<open>
  Verification library of the AI Council repository.

  \<^bold>\<open>The program.\<close> AI Council lets several language models deliberate on a programming task and runs
  the plan they agree on, once a user has approved it. It is three programs. The \<^emph>\<open>desktop program\<close>
  (\<open>cmd/aicouncil-desktop\<close>, \<open>internal/desktop\<close>) keeps the provider keys, starts the other two as child
  processes with a session token it draws, and hands the WebView the address and token. The
  \<^emph>\<open>council server\<close> (\<open>cmd/council-server\<close>) answers the HTTP API: workspaces, tasks, approvals, users and
  roles; it asks the models through \<open>internal/council\<close> and \<open>internal/provider\<close>, keeps its data in SQLite,
  and sends an approved plan to the runner. The \<^emph>\<open>workspace runner\<close> (\<open>cmd/workspace-runner\<close>) is a gRPC
  service on the machine that holds the files: it describes the workspace, checks the plan against
  the approved hash, applies patches as one transaction, runs commands, and executes each request
  id once.

  \<^bold>\<open>How code becomes definitions.\<close> A Go struct is a record with the struct's fields in their order, a
  Go function a definition of the same name in lower case with underscores. A pair \<open>(value, error)\<close> is a
  \<open>result\<close>, code that changes state a function from the state to a result and a state
  (\<open>Go_Prelude.prog\<close>), in which an early return keeps the effects made so far. A slice whose \<open>nil\<close> can
  be told from an empty one is an option. Strings are byte sequences. An \<open>int\<close> is an integer with the
  wrap-around written out where the code can reach it (\<open>int64\<close>, \<open>to_int32\<close>). A panic is an error value.
  Goroutines are threads under an explicit schedule; a method that holds its mutex throughout is one
  function, and one that releases it in between is one function per section.

  \<^bold>\<open>The theories.\<close>

  \<^item> Shared: \<open>Go_Prelude\<close> (errors, results, state-passing programs and the rules for the predicates they
    keep), \<open>Contracts\<close> (the interfaces \<open>simulation\<close> and \<open>kept_invariant\<close>), \<open>Go_Strings\<close>, \<open>Go_Path\<close>,
    \<open>Base64\<close> and \<open>Json_Encode\<close> (what the code calls of Go's library), \<open>Schema\<close>
    (\<open>internal/council/schema\<close> and the protobuf messages), \<open>Storage\<close> (the rows and the interface
    \<open>gorm_store\<close> of the database).
  \<^item> Repositories (\<open>internal/storage/sqlite\<close>): \<open>Run_State\<close> (the life cycle of
    \<open>internal/core/runstate\<close>), \<open>Run_Repository\<close>, \<open>Approval_Repository\<close>, \<open>Event_Repository\<close>,
    \<open>Artifact_Repository\<close>, and the rows of the council in \<open>Small_Services\<close>.
  \<^item> Runner (\<open>internal/runner\<close>): \<open>Path_Guard\<close>, \<open>Unified_Diff\<close> and \<open>File_Transaction\<close>,
    \<open>Command_Executor\<close>, \<open>Idempotency\<close>, \<open>Workspace_Collector\<close>, and \<open>Runner_Service\<close>, which composes
    them into the four RPCs; \<open>Approval_Snapshot\<close> (\<open>internal/approval\<close>) is the hash both sides compute.
  \<^item> Council (\<open>internal/council\<close>, \<open>internal/provider\<close>): \<open>Provider\<close>, \<open>Council_Engine\<close>, \<open>Council_Plan\<close>
    and \<open>Council_Workflow\<close>.
  \<^item> Server (\<open>internal/transport/council\<close>, \<open>internal/security\<close>, \<open>internal/app/task\<close>): \<open>Password\<close>,
    \<open>Rbac_Service\<close> and \<open>Rbac_Facts\<close>, \<open>Api_Auth\<close>, \<open>Login_Limiter\<close>, \<open>Rbac_Api\<close>, \<open>Council_Api\<close> and
    \<open>Council_Facts\<close>, \<open>Task_Service\<close>, \<open>Tls_Reloader\<close>.
  \<^item> Desktop and start-up: \<open>Desktop_Secrets\<close>, \<open>Desktop_Runtime\<close>, \<open>Desktop_App\<close>, \<open>Desktop_Log\<close>,
    \<open>Desktop_Diagnostics\<close>; \<open>Service_Startup\<close> has the command lines and \<open>main\<close> functions of the two
    services and the tokens between all three programs.
  \<^item> \<open>Small_Services\<close> holds pairing codes, the check of changed paths and the vault in memory, which no
    program uses yet.

  \<^bold>\<open>What is shown.\<close>

  \<^item> From approval to execution: in every history of requests the server hands the runner only plans
    whose hash a user approved, and what it sends passes the runner's own check over proto3
    (\<open>Council_Facts\<close>); the runner changes nothing without that check, runs a request id at most once
    across restarts and restores the files when an execution fails (\<open>Runner_Service\<close>); the hash
    determines every part of the plan that is executed (\<open>Approval_Snapshot\<close>). An approval row is spent
    once (\<open>Approval_Repository\<close>), the application service executes only approved hashes
    (\<open>Task_Service\<close>), an artifact that was tampered with does not load (\<open>Artifact_Repository\<close>), and the
    audit log has no gap (\<open>Run_Repository\<close>).
  \<^item> Files: the path guard keeps writes inside the workspace, applying a unified diff gives the new
    text, a transaction writes all patches or none, and a snapshot is bounded, whole, free of links and
    key files, and accepted by the council.
  \<^item> Deliberation: a review is complete, anonymous and ends; a plan that is admitted came with no
    blocking finding and is bounded (\<open>Council_Plan\<close>).
  \<^item> Access: the servers admit only the token or an enabled user with the permission
    (\<open>Service_Startup\<close>), the permission table covers the registered routes exactly (\<open>Api_Auth\<close>), a
    revoked token stays dead (\<open>Rbac_Facts\<close>) and the login limiter is a sliding window.
  \<^item> Desktop: with the arguments the desktop program gives them the services agree on addresses,
    transports and tokens (\<open>Service_Startup\<close>); no process survives a stop, no channel is closed twice
    and the WebView gets one council's address and token, in every interleaving (\<open>Desktop_Runtime\<close>);
    the secret store refines a map, the certificate reloader serves the current pair, the log stays
    bounded.
  \<^item> Beside these, lemmas named after the flaw show runs in which the code does not do what it means
    to, for example \<open>stop_during_start\<close>, \<open>overlapping_handshake_stale\<close> or \<open>lone_header_panics\<close>.

  \<^bold>\<open>Interfaces.\<close> The repositories' lemmas are proved in the locale \<open>gorm_store\<close>, whose assumption says
  what a statement of gorm does to the rows when it succeeds, that it does nothing when it fails (it may
  fail at any time) and that an error rolls a transaction back; \<open>mem_db\<close> interprets it. The locale
  \<open>simulation\<close> has the answers of a component refine those of a specification, call by call; it is
  interpreted by the login limiter, the secret store and the pairing codes. The locale
  \<open>kept_invariant\<close> carries an invariant over interleaved steps; it is interpreted by the three
  invariants of the desktop runtime, one of which rests on another, and by the certificate reloader.

  \<^bold>\<open>Parameters and bounds.\<close> What is not in the repository is an argument: SHA-256, Argon2id, AES-GCM (with
  the law that it opens what it sealed), JSON decoding, \<open>protojson\<close>, the HTTP and gRPC transports, the models'
  answers, \<open>tls.X509KeyPair\<close>, process starts, clocks, random bytes and the operating system, any of
  whose calls may fail where the code looks at the failure. No theorem assumes that a hash is
  injective: those about hashes end in a collision. The only fuel in the library is that of
  schedules: a schedule of the reviewers with \<open>2 n + 1\<close> turns for each of them ends a review of \<open>n\<close>
  proposals, and a \<open>Stop\<close> ends after \<open>4 n + 6\<close> of its own steps for \<open>n\<close> children. Versions are
  below \<open>2^64\<close> and sequence numbers below \<open>2^63\<close> where they are counted. The task service and the HTTP
  handlers without a mutex run one call at a time.

  \<^bold>\<open>Not modelled.\<close> The generated protobuf code beyond its messages; the request log and the text of the
  metrics endpoint, which are output only (the counters are state of the task endpoints); the bodies
  of the system calls that open a file without following links, stop a process or find a free
  port, whose outcomes are arguments; the embedding of the web page, the web interface, which is not Go,
  and the tests.
\<close>

end
